(* ===== verification/Prelude.thy ===== *)
theory Prelude
  imports Main "HOL-Library.Word" "HOL-Library.List_Lexorder" "HOL-Library.Char_ord"
    "HOL-Library.Multiset" "HOL-Library.Sublist"
begin

text \<open>
  Shared vocabulary of the development: the machine types of the Go program, its error
  values, the functions of Go's \<^verbatim>\<open>strings\<close> and \<^verbatim>\<open>sort\<close> packages that the source calls, and the
  generic facts about lists, words and sorted sequences the components share.

  A Go \<^verbatim>\<open>string\<close> is a byte sequence and is modelled by \<open>string\<close> (a list of 8-bit characters);
  \<^verbatim>\<open>bytes.Compare\<close> and the string order \<^verbatim>\<open><\<close> are then the lexicographic order of
  \<^verbatim>\<open>List_Lexorder\<close> over the byte order of \<^verbatim>\<open>Char_ord\<close>. File contents are lists of 8-bit words.
  \<^verbatim>\<open>uint64\<close> and \<^verbatim>\<open>uint32\<close> are words; \<^verbatim>\<open>int64\<close> and \<^verbatim>\<open>int\<close> (64 bits wide on the platforms
  the program is built for) are integers, with the wrap-around of an addition written out
  (\<open>add_i64\<close>) where the code does not exclude it.
\<close>

section \<open>Machine types\<close>

type_synonym u8 = "8 word"
type_synonym u32 = "32 word"
type_synonym u64 = "64 word"
type_synonym bytes = "u8 list"

text \<open>\<^verbatim>\<open>int64\<close> and \<^verbatim>\<open>int\<close> values; every value the program computes lies in \<open>[-2^63, 2^63)\<close>.\<close>

type_synonym i64 = int

definition MaxInt64 :: i64 where
  "MaxInt64 = 9223372036854775807"

abbreviation MaxInt :: i64 where
  "MaxInt \<equiv> MaxInt64"

text \<open>Two's complement addition and subtraction of \<^verbatim>\<open>int64\<close>.\<close>

definition wrap_i64 :: "int \<Rightarrow> i64" where
  "wrap_i64 x = sint (word_of_int x :: u64)"

definition add_i64 :: "i64 \<Rightarrow> i64 \<Rightarrow> i64" where
  "add_i64 a b = wrap_i64 (a + b)"

definition sub_i64 :: "i64 \<Rightarrow> i64 \<Rightarrow> i64" where
  "sub_i64 a b = wrap_i64 (a - b)"

text \<open>The length of a slice as the \<^verbatim>\<open>uint64\<close> the code converts it to.\<close>

abbreviation ulen :: "'a list \<Rightarrow> u64" where
  "ulen xs \<equiv> of_nat (length xs)"

section \<open>Errors\<close>

text \<open>
  The sentinel errors of \<^verbatim>\<open>core/internal/blobtype\<close>, \<^verbatim>\<open>core/blob.go\<close>,
  \<^verbatim>\<open>core/internal/file/counting.go\<close>, of \<^verbatim>\<open>io\<close> and \<^verbatim>\<open>io/fs\<close>. \<open>Errorf\<close> is an error value built
  from a format text without \<^verbatim>\<open>%w\<close>, with its string and integer arguments; \<open>Wrap\<close> is
  \<^verbatim>\<open>fmt.Errorf("context: %w", err)\<close>; \<open>PathError\<close> is \<^verbatim>\<open>fs.PathError\<close>.
\<close>

datatype err =
    ErrHashMismatch
  | ErrDecompression
  | ErrSizeOverflow
  | ErrSymlink
  | ErrTooManyFiles
  | ErrOverflow
  | EOF
  | ErrUnexpectedEOF
  | ErrShortWrite
  | ErrInvalid
  | ErrNotExist
  | ErrExist
  | ErrCanceled
  | Errorf string "string list" "int list"
  | Wrap string err
  | PathError string string err

abbreviation ErrNew :: "string \<Rightarrow> err" where
  "ErrNew s \<equiv> Errorf s [] []"

text \<open>\<^verbatim>\<open>errors.Is\<close>: the target is the error itself or something it wraps.\<close>

fun errors_is :: "err \<Rightarrow> err \<Rightarrow> bool" where
  "errors_is (Wrap s e) t = (Wrap s e = t \<or> errors_is e t)"
| "errors_is (PathError op p e) t = (PathError op p e = t \<or> errors_is e t)"
| "errors_is e t = (e = t)"

type_synonym 'a res = "err + 'a"

text \<open>Sequencing of fallible calls: the \<^verbatim>\<open>if err != nil { return ..., err }\<close> idiom.\<close>

definition bindE :: "'e + 'a \<Rightarrow> ('a \<Rightarrow> 'e + 'b) \<Rightarrow> 'e + 'b" where
  "bindE r f = (case r of Inl e \<Rightarrow> Inl e | Inr x \<Rightarrow> f x)"

definition mapErr :: "('e \<Rightarrow> 'f) \<Rightarrow> 'e + 'a \<Rightarrow> 'f + 'a" where
  "mapErr f r = (case r of Inl e \<Rightarrow> Inl (f e) | Inr x \<Rightarrow> Inr x)"

section \<open>Collections of simplification rules\<close>

named_theorems go_defs "unfolding rules of the model's non-recursive operations"
named_theorems res_simps "case analysis of fallible results"

lemma bindE_Inr_iff [res_simps]: "bindE r f = Inr y \<longleftrightarrow> (\<exists>x. r = Inr x \<and> f x = Inr y)"
  by (cases r) (auto simp: bindE_def)

lemma bindE_Inl_iff [res_simps]:
  "bindE r f = Inl e \<longleftrightarrow> r = Inl e \<or> (\<exists>x. r = Inr x \<and> f x = Inl e)"
  by (cases r) (auto simp: bindE_def)

lemma bindE_simps [simp]: "bindE (Inl e) f = Inl e" "bindE (Inr x) f = f x"
  by (simp_all add: bindE_def)

lemma mapErr_simps [simp]: "mapErr f (Inl e) = Inl (f e)" "mapErr f (Inr x) = Inr x"
  by (simp_all add: mapErr_def)

lemma mapErr_Inr_iff [res_simps]: "mapErr f r = Inr y \<longleftrightarrow> r = Inr y"
  by (cases r) auto

lemma errors_is_refl [simp]: "errors_is e e"
  by (cases e) auto

section \<open>Signed arithmetic\<close>

lemma wrap_i64_id [simp]: "- (2 ^ 63) \<le> x \<Longrightarrow> x < 2 ^ 63 \<Longrightarrow> wrap_i64 x = x"
  by (simp add: wrap_i64_def sint_sbintrunc' signed_take_bit_int_eq_self)

lemma add_i64_id: "- (2 ^ 63) \<le> a + b \<Longrightarrow> a + b < 2 ^ 63 \<Longrightarrow> add_i64 a b = a + b"
  by (simp add: add_i64_def)

lemma sub_i64_id: "- (2 ^ 63) \<le> a - b \<Longrightarrow> a - b < 2 ^ 63 \<Longrightarrow> sub_i64 a b = a - b"
  by (simp add: sub_i64_def)

lemma MaxInt64_eq: "MaxInt64 = 2 ^ 63 - 1"
  by (simp add: MaxInt64_def)

lemma sint_eq_uint_u64: "uint (x :: u64) < 2 ^ 63 \<Longrightarrow> sint x = uint x"
  unfolding sint_uint by (rule signed_take_bit_int_eq_self) (simp_all add: order_trans [OF _ uint_ge_0])

lemma uint_ulen: "uint (ulen xs) = int (length xs) mod 2 ^ 64"
  by (simp add: unsigned_of_nat take_bit_eq_mod zmod_int)

lemma uint_ulen_le: "uint (ulen xs) \<le> int (length xs)"
  by (simp add: uint_ulen zmod_le_nonneg_dividend)

lemma uint_ulen_id: "int (length xs) < 2 ^ 64 \<Longrightarrow> uint (ulen xs) = int (length xs)"
  by (simp add: uint_ulen)

section \<open>Functions of the strings package\<close>

text \<open>\<^verbatim>\<open>strings.Trim(s, "/")\<close>, for a cutset of one character.\<close>

definition trim_char :: "char \<Rightarrow> string \<Rightarrow> string" where
  "trim_char c s = rev (dropWhile (\<lambda>x. x = c) (rev (dropWhile (\<lambda>x. x = c) s)))"

text \<open>\<^verbatim>\<open>strings.Split(s, sep)\<close> and \<^verbatim>\<open>strings.Join(parts, sep)\<close> for a separator of one character.\<close>

fun split_on :: "char \<Rightarrow> string \<Rightarrow> string list" where
  "split_on c [] = [[]]"
| "split_on c (x # xs) =
     (if x = c then [] # split_on c xs
      else (case split_on c xs of [] \<Rightarrow> [[x]] | w # ws \<Rightarrow> (x # w) # ws))"

fun join_with :: "char \<Rightarrow> string list \<Rightarrow> string" where
  "join_with c [] = []"
| "join_with c [w] = w"
| "join_with c (w # v # ws) = w @ c # join_with c (v # ws)"

text \<open>\<^verbatim>\<open>strings.HasPrefix\<close>, \<^verbatim>\<open>TrimPrefix\<close>, \<^verbatim>\<open>TrimSuffix\<close>.\<close>

definition has_prefix :: "'a list \<Rightarrow> 'a list \<Rightarrow> bool" where
  "has_prefix s p \<longleftrightarrow> take (length p) s = p"

definition trim_prefix :: "'a list \<Rightarrow> 'a list \<Rightarrow> 'a list" where
  "trim_prefix s p = (if has_prefix s p then drop (length p) s else s)"

definition trim_suffix :: "'a list \<Rightarrow> 'a list \<Rightarrow> 'a list" where
  "trim_suffix s p = (if has_prefix (rev s) (rev p) then take (length s - length p) s else s)"

text \<open>\<^verbatim>\<open>strings.Index\<close>/\<^verbatim>\<open>IndexByte\<close> and \<^verbatim>\<open>LastIndex\<close> of one character, \<open>None\<close> for \<^verbatim>\<open>-1\<close>.\<close>

definition index_byte :: "'a list \<Rightarrow> 'a \<Rightarrow> nat option" where
  "index_byte s c = (if c \<in> set s then Some (length (takeWhile (\<lambda>x. x \<noteq> c) s)) else None)"

definition last_index :: "'a list \<Rightarrow> 'a \<Rightarrow> nat option" where
  "last_index s c =
     (if c \<in> set s then Some (length s - 1 - length (takeWhile (\<lambda>x. x \<noteq> c) (rev s))) else None)"

lemma has_prefix_iff [simp]: "has_prefix s p \<longleftrightarrow> prefix p s"
  by (metis append_eq_conv_conj has_prefix_def prefix_def)

lemma trim_prefix_append [simp]: "trim_prefix (p @ s) p = s"
  by (simp add: trim_prefix_def)

lemma split_on_ne [simp]: "split_on c s \<noteq> []"
  by (induction s) (auto split: list.splits)

lemma split_on_no_sep: "c \<notin> set w \<Longrightarrow> split_on c w = [w]"
  by (induction w) auto

lemma split_on_append_sep: "split_on c (a @ c # b) = split_on c a @ split_on c b"
  by (induction a) (auto split: list.splits)

lemma join_split [simp]: "join_with c (split_on c s) = s"
proof (induction s)
  case (Cons x xs)
  then show ?case
    by (cases "split_on c xs"; cases "tl (split_on c xs)") (auto split: list.splits)
qed simp

lemma split_on_pieces: "w \<in> set (split_on c s) \<Longrightarrow> c \<notin> set w"
  by (induction s arbitrary: w) (auto split: list.splits if_splits)

lemma split_join:
  "ws \<noteq> [] \<Longrightarrow> (\<forall>w\<in>set ws. c \<notin> set w) \<Longrightarrow> split_on c (join_with c ws) = ws"
  by (induction c ws rule: join_with.induct) (auto simp: split_on_no_sep split_on_append_sep)

lemma set_split_on: "w \<in> set (split_on c s) \<Longrightarrow> set w \<subseteq> set s"
  by (induction s arbitrary: w) (fastforce split: list.splits if_splits)+

lemma split_on_takeWhile:
  "split_on c s = takeWhile (\<lambda>x. x \<noteq> c) s #
     (case dropWhile (\<lambda>x. x \<noteq> c) s of [] \<Rightarrow> [] | _ # r \<Rightarrow> split_on c r)"
  by (induction s) (auto split: list.splits)

lemma takeWhile_neq_append: "c \<notin> set w \<Longrightarrow> takeWhile (\<lambda>x. x \<noteq> c) (w @ c # r) = w"
  by (induction w) auto

lemma takeWhile_neq_id: "c \<notin> set w \<Longrightarrow> takeWhile (\<lambda>x. x \<noteq> c) w = w"
  by (induction w) auto

section \<open>Lexicographic order of byte strings\<close>

lemma prefix_imp_le: "prefix p s \<Longrightarrow> p \<le> (s :: 'a :: linorder list)"
proof (induction p arbitrary: s)
  case (Cons x p)
  then show ?case by (cases s) auto
qed simp

lemma lex_append_left [simp]: "p @ a \<le> p @ b \<longleftrightarrow> a \<le> (b :: 'a :: linorder list)"
  by (induction p) auto

lemma lex_append_left_less [simp]: "p @ a < p @ b \<longleftrightarrow> a < (b :: 'a :: linorder list)"
  by (induction p) auto

text \<open>The strings with a given prefix form an interval of the order.\<close>

lemma prefix_convex:
  "prefix p a \<Longrightarrow> prefix p c \<Longrightarrow> a \<le> b \<Longrightarrow> b \<le> c \<Longrightarrow> prefix p (b :: 'a :: linorder list)"
proof (induction p arbitrary: a b c)
  case (Cons x p)
  from Cons.prems(1,2) obtain a' c' where ac: "a = x # a'" "prefix p a'" "c = x # c'" "prefix p c'"
    by (auto simp: prefix_def)
  with Cons.prems(3) obtain y b' where b: "b = y # b'" by (cases b) simp_all
  have "x < y \<or> x = y \<and> a' \<le> b'" "y < x \<or> y = x \<and> b' \<le> c'"
    using Cons.prems(3,4) unfolding ac b Cons_le_Cons by blast+
  then have "y = x" "a' \<le> b'" "b' \<le> c'" by force+
  then show ?case unfolding b using Cons.IH [OF ac(2,4)] by simp
qed simp

section \<open>Sequential search and binary search\<close>

text \<open>
  \<^verbatim>\<open>sort.Search(n, f)\<close>: the loop over \<open>i\<close> and \<open>j\<close> with \<open>h = (i + j) / 2\<close> of Go's
  \<^verbatim>\<open>sort\<close> package.
\<close>

function sort_search :: "(nat \<Rightarrow> bool) \<Rightarrow> nat \<Rightarrow> nat \<Rightarrow> nat" where
  "sort_search f i j =
     (if i < j then
        let h = (i + j) div 2
        in if \<not> f h then sort_search f (h + 1) j else sort_search f i h
      else i)"
  by pat_completeness auto
termination
  by (relation "measure (\<lambda>(f, i, j). j - i)") auto

declare sort_search.simps [simp del]

text \<open>
  On a monotone predicate the search returns the least index of \<open>[i, j)\<close> at which it holds,
  and \<open>j\<close> if there is none.
\<close>

lemma sort_search_unfold:
  "i < j \<Longrightarrow> f ((i + j) div 2) \<Longrightarrow> sort_search f i j = sort_search f i ((i + j) div 2)"
  "i < j \<Longrightarrow> \<not> f ((i + j) div 2) \<Longrightarrow> sort_search f i j = sort_search f ((i + j) div 2 + 1) j"
  "\<not> i < j \<Longrightarrow> sort_search f i j = i"
  by (subst sort_search.simps, simp add: Let_def)+

lemma sort_search_bounds: "i \<le> j \<Longrightarrow> i \<le> sort_search f i j \<and> sort_search f i j \<le> j"
proof (induction f i j rule: sort_search.induct)
  case (1 f i j)
  consider "\<not> i < j" | "i < j" "f ((i + j) div 2)" | "i < j" "\<not> f ((i + j) div 2)" by blast
  then show ?case
  proof cases
    case 2
    with "1.IH"(2) [OF \<open>i < j\<close> refl]
    have "i \<le> sort_search f i ((i + j) div 2)" "sort_search f i ((i + j) div 2) \<le> (i + j) div 2"
      by simp_all
    with 2 show ?thesis by (simp add: sort_search_unfold)
  next
    case 3
    then have "(i + j) div 2 + 1 \<le> j" by simp
    with 3 "1.IH"(1) [OF \<open>i < j\<close> refl]
    have "(i + j) div 2 + 1 \<le> sort_search f ((i + j) div 2 + 1) j"
      "sort_search f ((i + j) div 2 + 1) j \<le> j"
      by blast+
    with 3 show ?thesis by (simp add: sort_search_unfold)
  qed (use "1.prems" in \<open>simp add: sort_search_unfold\<close>)
qed

lemma sort_search_below:
  "(\<And>a b. a \<le> b \<Longrightarrow> f a \<Longrightarrow> f b) \<Longrightarrow> i \<le> k \<Longrightarrow> k < sort_search f i j \<Longrightarrow> \<not> f k"
proof (induction f i j rule: sort_search.induct)
  case (1 f i j)
  consider "\<not> i < j" | "i < j" "f ((i + j) div 2)" | "i < j" "\<not> f ((i + j) div 2)" by blast
  then show ?case
  proof cases
    case 2
    with "1.IH"(2) [OF \<open>i < j\<close> refl] "1.prems" show ?thesis by (simp add: sort_search_unfold)
  next
    case 3
    show ?thesis
    proof (cases "k \<le> (i + j) div 2")
      case True
      with 3 "1.prems"(1) show ?thesis by blast
    next
      case False
      with 3 "1.IH"(1) [OF \<open>i < j\<close> refl] "1.prems" show ?thesis by (simp add: sort_search_unfold)
    qed
  qed (use "1.prems" in \<open>simp add: sort_search_unfold\<close>)
qed

lemma sort_search_hit: "sort_search f i j < j \<Longrightarrow> f (sort_search f i j)"
proof (induction f i j rule: sort_search.induct)
  case (1 f i j)
  consider "\<not> i < j" | "i < j" "f ((i + j) div 2)" | "i < j" "\<not> f ((i + j) div 2)" by blast
  then show ?case
  proof cases
    case 2
    let ?h = "(i + j) div 2"
    from 2 have "sort_search f i ?h \<le> ?h" using sort_search_bounds [of i ?h f] by simp
    with 2 "1.IH"(2) [OF \<open>i < j\<close> refl] show ?thesis
      by (cases "sort_search f i ?h = ?h") (simp_all add: sort_search_unfold)
  next
    case 3
    with "1.IH"(1) [OF \<open>i < j\<close> refl] "1.prems" show ?thesis by (simp add: sort_search_unfold)
  qed (use "1.prems" in \<open>simp add: sort_search_unfold\<close>)
qed

end
