(* ===== verification/Sizing.thy ===== *)
theory Sizing
  imports Prelude
begin

text \<open>
  \<^verbatim>\<open>core/internal/sizing/size.go\<close>: the overflow-checked conversions and additions every size
  computation of the archive goes through, and the bounded read of a whole stream. A reader
  here is what \<^verbatim>\<open>io.ReadAll\<close> sees of it: the bytes it delivers before it ends, and the error
  it ends with (\<open>EOF\<close> for a regular end).
\<close>

section \<open>Definitions\<close>

definition ToInt :: "u64 \<Rightarrow> err \<Rightarrow> i64 res" where
  "ToInt sz overflowErr =
     (if sz > word_of_int MaxInt then Inl overflowErr else Inr (uint sz))"

definition ToInt64 :: "u64 \<Rightarrow> err \<Rightarrow> i64 res" where
  "ToInt64 sz overflowErr =
     (if sz > word_of_int MaxInt64 then Inl overflowErr else Inr (uint sz))"

text \<open>\<open>(sum, true)\<close>, or \<open>(0, false)\<close> when the 64-bit sum wrapped around.\<close>

definition AddUint64 :: "u64 \<Rightarrow> u64 \<Rightarrow> u64 \<times> bool" where
  "AddUint64 a b = (let sum = a + b in if sum < a then (0, False) else (sum, True))"

text \<open>\<^verbatim>\<open>io.ReadAll\<close> of a reader, and of the \<^verbatim>\<open>io.LimitedReader\<close> with the limit \<open>N\<close>, which ends
  with \<open>EOF\<close> once \<open>N\<close> bytes were delivered, without asking the reader again.\<close>

record stream =
  s_data :: bytes
  s_end :: err

definition io_read_all :: "stream \<Rightarrow> bytes res" where
  "io_read_all r = (if s_end r = EOF then Inr (s_data r) else Inl (s_end r))"

definition limit_reader :: "stream \<Rightarrow> i64 \<Rightarrow> stream" where
  "limit_reader r n =
     (if n \<le> int (length (s_data r)) then \<lparr>s_data = take (nat n) (s_data r), s_end = EOF\<rparr> else r)"

definition ReadAllWithLimit :: "stream \<Rightarrow> u64 \<Rightarrow> err \<Rightarrow> bytes res" where
  "ReadAllWithLimit r maxSize overflowErr =
     (if maxSize > word_of_int (MaxInt - 1) then Inl overflowErr
      else let limit = add_i64 (sint maxSize) 1
           in bindE (io_read_all (limit_reader r limit))
                (\<lambda>data. if ulen data > maxSize then Inl overflowErr else Inr data))"

section \<open>Conversions\<close>

lemma uint_MaxInt64 [simp]: "uint (word_of_int MaxInt64 :: u64) = MaxInt64"
  by (simp add: MaxInt64_def)

lemma ToInt64_Inr_iff [res_simps]: "ToInt64 x e = Inr n \<longleftrightarrow> n = uint x \<and> uint x \<le> MaxInt64"
  by (auto simp: ToInt64_def word_less_def)

lemma ToInt_Inr_iff [res_simps]: "ToInt x e = Inr n \<longleftrightarrow> n = uint x \<and> uint x \<le> MaxInt64"
  by (auto simp: ToInt_def word_less_def)

lemma ToInt64_Inl_iff [res_simps]: "ToInt64 x e = Inl e' \<longleftrightarrow> e' = e \<and> uint x > MaxInt64"
  by (auto simp: ToInt64_def word_less_def)

lemma ToInt_Inl_iff [res_simps]: "ToInt x e = Inl e' \<longleftrightarrow> e' = e \<and> uint x > MaxInt64"
  by (auto simp: ToInt_def word_less_def)

text \<open>The result of a successful conversion is an \<^verbatim>\<open>int64\<close>: nonnegative and in range.\<close>

lemma ToInt64_range: "ToInt64 x e = Inr n \<Longrightarrow> 0 \<le> n \<and> n < 2 ^ 63"
  by (auto simp: res_simps MaxInt64_def)

section \<open>Checked addition\<close>

text \<open>
  The test \<open>sum < a\<close> detects exactly the additions whose mathematical sum does not fit 64
  bits; otherwise the sum is exact.
\<close>

lemma u64_wraps_iff: "(a :: u64) + b < a \<longleftrightarrow> 2 ^ 64 \<le> uint a + uint b"
  unfolding not_le [of a "a + b", symmetric] no_olen_add by (simp add: not_less)

lemma AddUint64_True: "AddUint64 a b = (s, True) \<longleftrightarrow> uint a + uint b < 2 ^ 64 \<and> s = a + b"
  by (auto simp: AddUint64_def Let_def u64_wraps_iff)

lemma AddUint64_False: "AddUint64 a b = (s, False) \<longleftrightarrow> 2 ^ 64 \<le> uint a + uint b \<and> s = 0"
  by (auto simp: AddUint64_def Let_def u64_wraps_iff)

lemma AddUint64_uint: "AddUint64 a b = (s, True) \<Longrightarrow> uint s = uint a + uint b"
  using uint_add_lem [of a b] by (simp add: AddUint64_True)

section \<open>Bounded reads\<close>

text \<open>
  A bounded read returns the whole stream when it ends regularly within the bound, and
  refuses a longer stream without having consumed more than one byte beyond the bound.
\<close>

lemma ReadAllWithLimit_ok:
  assumes "uint maxSize < MaxInt64" "s_end r = EOF" "int (length (s_data r)) \<le> uint maxSize"
  shows "ReadAllWithLimit r maxSize e = Inr (s_data r)"
proof -
  have m: "\<not> maxSize > word_of_int (MaxInt64 - 1)"
    using assms(1) by (simp add: word_less_def MaxInt64_def)
  have s: "sint maxSize = uint maxSize"
    using assms(1) by (simp add: MaxInt64_def sint_eq_uint_u64)
  have l: "add_i64 (sint maxSize) 1 = uint maxSize + 1"
    unfolding s using assms(1) by (intro add_i64_id) (simp_all add: MaxInt64_def)
  have "\<not> ulen (s_data r) > maxSize"
    using assms(3) uint_ulen_le [of "s_data r"] by (simp add: word_less_def)
  then show ?thesis using assms m l by (simp add: ReadAllWithLimit_def limit_reader_def io_read_all_def)
qed

end
