(* ===== verification/Paths.thy ===== *)
theory Paths
  imports Prelude
begin

text \<open>
  Slash-separated archive paths: \<^verbatim>\<open>fs.ValidPath\<close> and \<^verbatim>\<open>utf8.ValidString\<close> of the Go library,
  \<^verbatim>\<open>NormalizePath\<close> of \<^verbatim>\<open>core/path.go\<close>, and \<^verbatim>\<open>Base\<close>, \<^verbatim>\<open>DirPrefix\<close> and \<^verbatim>\<open>Child\<close> of
  \<^verbatim>\<open>core/internal/file/path.go\<close>.
\<close>

section \<open>Definitions\<close>

abbreviation slash :: char where
  "slash \<equiv> CHR ''/''"

text \<open>\<^verbatim>\<open>utf8.ValidString\<close>: well-formed UTF-8, without surrogates and overlong encodings.\<close>

definition between :: "nat \<Rightarrow> nat \<Rightarrow> char \<Rightarrow> bool" where
  "between lo hi c \<longleftrightarrow> lo \<le> of_char c \<and> of_char c \<le> hi"

fun utf8_valid :: "string \<Rightarrow> bool" where
  "utf8_valid [] = True"
| "utf8_valid (a # s) =
     (if between 0 127 a then utf8_valid s
      else (case s of
        b # s1 \<Rightarrow>
          if between 194 223 a \<and> between 128 191 b then utf8_valid s1
          else (case s1 of
            c # s2 \<Rightarrow>
              if (between 224 224 a \<and> between 160 191 b \<or> between 225 236 a \<and> between 128 191 b \<or>
                  between 237 237 a \<and> between 128 159 b \<or> between 238 239 a \<and> between 128 191 b)
                 \<and> between 128 191 c
              then utf8_valid s2
              else (case s2 of
                d # s3 \<Rightarrow>
                  (between 240 240 a \<and> between 144 191 b \<or> between 241 243 a \<and> between 128 191 b \<or>
                   between 244 244 a \<and> between 128 143 b)
                  \<and> between 128 191 c \<and> between 128 191 d \<and> utf8_valid s3
              | [] \<Rightarrow> False)
          | [] \<Rightarrow> False)
      | [] \<Rightarrow> False))"

text \<open>\<^verbatim>\<open>fs.ValidPath\<close>: its loop over the elements of the name.\<close>

function valid_elems :: "string \<Rightarrow> bool" where
  "valid_elems name =
     (let elem = takeWhile (\<lambda>c. c \<noteq> slash) name; rest = dropWhile (\<lambda>c. c \<noteq> slash) name
      in if elem = [] \<or> elem = ''.'' \<or> elem = ''..'' then False
         else if rest = [] then True
         else valid_elems (tl rest))"
  by pat_completeness auto
termination
proof (relation "measure length", simp, goal_cases)
  case (1 name elem rest)
  then have "length rest \<le> length name" and "rest \<noteq> []" by (simp_all add: length_dropWhile_le)
  then show ?case by (cases rest) simp_all
qed

definition valid_path :: "string \<Rightarrow> bool" where
  "valid_path name \<longleftrightarrow> utf8_valid name \<and> (name = ''.'' \<or> valid_elems name)"

definition NormalizePath :: "string \<Rightarrow> string" where
  "NormalizePath p =
     (let p = trim_char slash p
      in if p = [] then ''.''
         else let result = filter (\<lambda>part. part \<noteq> []) (split_on slash p)
              in if length result = 0 then ''.'' else join_with slash result)"

definition Base :: "string \<Rightarrow> string" where
  "Base path =
     (if path = [] \<or> path = ''.'' then ''.''
      else let path = trim_suffix path ''/''
           in case last_index path slash of Some i \<Rightarrow> drop (i + 1) path | None \<Rightarrow> path)"

definition DirPrefix :: "string \<Rightarrow> string" where
  "DirPrefix name = (if name = ''.'' then [] else name @ ''/'')"

definition Child :: "string \<Rightarrow> string \<Rightarrow> string \<times> bool" where
  "Child path pre =
     (let relPath = trim_prefix path pre
      in case index_byte relPath slash of
           Some idx \<Rightarrow> (take idx relPath, True)
         | None \<Rightarrow> (relPath, False))"

section \<open>Valid paths\<close>

text \<open>An element a valid path may contain.\<close>

definition ok_elem :: "string \<Rightarrow> bool" where
  "ok_elem w \<longleftrightarrow> w \<noteq> [] \<and> w \<noteq> ''.'' \<and> w \<noteq> ''..''"

declare valid_elems.simps [simp del]

lemma valid_elems_iff: "valid_elems name \<longleftrightarrow> list_all ok_elem (split_on slash name)"
proof (induction name rule: valid_elems.induct)
  case (1 name)
  define elem rest where er: "elem = takeWhile (\<lambda>c. c \<noteq> slash) name" "rest = dropWhile (\<lambda>c. c \<noteq> slash) name"
  have v: "valid_elems name \<longleftrightarrow> ok_elem elem \<and> (rest = [] \<or> valid_elems (tl rest))"
    by (subst valid_elems.simps) (simp only: Let_def ok_elem_def er [symmetric] split: if_split, blast)
  have s: "split_on slash name = elem # (case rest of [] \<Rightarrow> [] | _ # r \<Rightarrow> split_on slash r)"
    unfolding er by (rule split_on_takeWhile)
  have IH: "ok_elem elem \<Longrightarrow> rest \<noteq> [] \<Longrightarrow>
      valid_elems (tl rest) \<longleftrightarrow> list_all ok_elem (split_on slash (tl rest))"
    using "1.IH" [OF er] unfolding ok_elem_def [of elem] by blast
  show ?case unfolding v s using IH by (cases rest) auto
qed

lemma valid_path_iff:
  "valid_path name \<longleftrightarrow> utf8_valid name \<and> (name = ''.'' \<or> list_all ok_elem (split_on slash name))"
  by (simp add: valid_path_def valid_elems_iff)

lemma valid_path_ne [simp]: "\<not> valid_path []"
  by (simp add: valid_path_iff ok_elem_def)

lemma utf8_valid_ascii: "list_all (\<lambda>c. of_char c < (128::nat)) s \<Longrightarrow> utf8_valid s"
  by (induction s) (auto simp: between_def)

section \<open>Normalisation\<close>

lemma split_on_dropWhile:
  "filter (\<lambda>w. w \<noteq> []) (split_on c (dropWhile (\<lambda>x. x = c) s)) = filter (\<lambda>w. w \<noteq> []) (split_on c s)"
  by (induction s) auto

lemma split_on_snoc_sep: "split_on c (s @ [c]) = split_on c s @ [[]]"
  using split_on_append_sep [of c s "[]"] by simp

lemma split_on_rev_dropWhile:
  "filter (\<lambda>w. w \<noteq> []) (split_on c (rev (dropWhile (\<lambda>x. x = c) s))) =
   filter (\<lambda>w. w \<noteq> []) (split_on c (rev s))"
  by (induction s) (auto simp: split_on_snoc_sep)

lemma split_on_trim:
  "filter (\<lambda>w. w \<noteq> []) (split_on c (trim_char c s)) = filter (\<lambda>w. w \<noteq> []) (split_on c s)"
  unfolding trim_char_def using split_on_rev_dropWhile [of c "rev (dropWhile (\<lambda>x. x = c) s)"]
  by (simp add: split_on_dropWhile)

lemma trim_char_Nil: "trim_char c s = [] \<Longrightarrow> filter (\<lambda>w. w \<noteq> []) (split_on c s) = []"
  using split_on_trim [of c s] by simp

text \<open>Normalisation keeps exactly the nonempty elements; trimming first changes nothing.\<close>

lemma NormalizePath_eq:
  "NormalizePath p =
     (let ws = filter (\<lambda>w. w \<noteq> []) (split_on slash p)
      in if ws = [] then ''.'' else join_with slash ws)"
  by (auto simp: NormalizePath_def Let_def split_on_trim trim_char_Nil)

lemma split_on_dot: "split_on slash ''.'' = [''.'']"
  by simp

lemma split_NormalizePath:
  "split_on slash (NormalizePath p) =
     (let ws = filter (\<lambda>w. w \<noteq> []) (split_on slash p) in if ws = [] then [''.''] else ws)"
proof -
  have "\<forall>w\<in>set (filter (\<lambda>w. w \<noteq> []) (split_on slash p)). slash \<notin> set w"
    using split_on_pieces by auto
  then show ?thesis by (auto simp: NormalizePath_eq Let_def split_join)
qed

lemma NormalizePath_idem: "NormalizePath (NormalizePath p) = NormalizePath p"
  unfolding NormalizePath_eq [of "NormalizePath p"] split_NormalizePath
  by (auto simp: Let_def NormalizePath_eq [of p])

lemma NormalizePath_valid: "valid_path p \<Longrightarrow> NormalizePath p = p"
proof -
  assume v: "valid_path p"
  show ?thesis
  proof (cases "p = ''.''")
    case True
    then show ?thesis by (simp add: NormalizePath_eq)
  next
    case False
    with v have "list_all ok_elem (split_on slash p)" by (simp add: valid_path_iff)
    then have "filter (\<lambda>w. w \<noteq> []) (split_on slash p) = split_on slash p"
      by (induction "split_on slash p") (auto simp: ok_elem_def list_all_iff intro!: filter_True)
    then show ?thesis by (simp add: NormalizePath_eq)
  qed
qed

lemma NormalizePath_dot_iff:
  "NormalizePath p = ''.'' \<longleftrightarrow> filter (\<lambda>w. w \<noteq> []) (split_on slash p) \<in> {[], [''.'']}"
  (is "_ \<longleftrightarrow> ?ws \<in> _")
proof -
  have "split_on slash (NormalizePath p) = [''.''] \<longleftrightarrow> NormalizePath p = ''.''"
    by (metis join_split join_with.simps(2) split_on_dot)
  then show ?thesis unfolding split_NormalizePath Let_def by (cases "?ws = []") simp_all
qed

text \<open>
  A normalised path passes \<^verbatim>\<open>fs.ValidPath\<close> exactly when it is the root or none of the elements
  of the input is \<^verbatim>\<open>.\<close> or \<^verbatim>\<open>..\<close> (and the text is UTF-8): normalisation never resolves them.
\<close>

lemma valid_NormalizePath:
  "valid_path (NormalizePath p) \<longleftrightarrow>
     utf8_valid (NormalizePath p) \<and>
     (NormalizePath p = ''.'' \<or> (\<forall>w\<in>set (split_on slash p). w \<noteq> ''.'' \<and> w \<noteq> ''..''))"
  unfolding valid_path_iff split_NormalizePath
  by (auto simp: Let_def list_all_iff ok_elem_def NormalizePath_dot_iff)

section \<open>Directory prefixes and children\<close>

lemma takeWhile_index: "take (length (takeWhile P s)) s = takeWhile P s"
  by (metis takeWhile_eq_take)

text \<open>\<^verbatim>\<open>Child\<close> of a path under the prefix: the element that follows it.\<close>

lemma Child_append:
  "Child (pre @ rel) pre = (takeWhile (\<lambda>c. c \<noteq> slash) rel, slash \<in> set rel)"
  by (auto simp: Child_def Let_def index_byte_def takeWhile_index takeWhile_neq_id)

lemma Child_file: "slash \<notin> set w \<Longrightarrow> Child (pre @ w) pre = (w, False)"
  by (simp add: Child_append takeWhile_neq_id)

lemma Child_dir: "slash \<notin> set w \<Longrightarrow> Child (pre @ w @ slash # rest) pre = (w, True)"
  by (simp add: Child_append takeWhile_neq_append)

lemma Child_no_slash: "prefix pre path \<Longrightarrow> slash \<notin> set (fst (Child path pre))"
  by (auto simp: prefix_def Child_append dest: set_takeWhileD)

lemma last_index_append: "c \<notin> set w \<Longrightarrow> last_index (d @ c # w) c = Some (length d)"
  by (simp add: last_index_def takeWhile_neq_append)

lemma Base_element: "slash \<notin> set w \<Longrightarrow> w \<noteq> [] \<Longrightarrow> Base (d @ slash # w) = w"
proof -
  assume w: "slash \<notin> set w" "w \<noteq> []"
  then have "\<not> prefix ''/'' (rev w @ slash # rev d)"
    by (cases "rev w") (auto simp: prefix_Cons simp flip: set_rev [of w])
  moreover have "d @ slash # w \<noteq> ''.''" by (cases d) auto
  ultimately show ?thesis
    using w by (simp add: Base_def Let_def trim_suffix_def last_index_append)
qed

lemma Base_top: "slash \<notin> set w \<Longrightarrow> w \<noteq> [] \<Longrightarrow> Base w = w"
proof -
  assume w: "slash \<notin> set w" "w \<noteq> []"
  then have "\<not> prefix ''/'' (rev w)"
    by (cases "rev w") (auto simp: prefix_Cons simp flip: set_rev [of w])
  with w show ?thesis by (auto simp: Base_def Let_def trim_suffix_def last_index_def)
qed

end
