(* ===== verification/Entries.thy ===== *)
theory Entries
  imports Prelude
begin

text \<open>
  \<^verbatim>\<open>core/internal/blobtype\<close>: the archive entry, the compression tag, and the conversion from the
  entry tables of the FlatBuffers index (\<^verbatim>\<open>core/schema/index.fbs\<close>, \<^verbatim>\<open>core/internal/fb\<close>).
  \<open>fb_entry\<close> holds the values the generated accessors of one table return; the byte layout
  behind them is the FlatBuffers runtime's. Modification times are nanoseconds since the Unix
  epoch.
\<close>

section \<open>Definitions\<close>

type_synonym compression = u8

definition CompressionNone :: compression where
  "CompressionNone = 0"

definition CompressionZstd :: compression where
  "CompressionZstd = 1"

definition Compression_String :: "compression \<Rightarrow> string" where
  "Compression_String c =
     (if c = CompressionNone then ''none'' else if c = CompressionZstd then ''zstd'' else ''unknown'')"

record Entry =
  Path :: string
  DataOffset :: u64
  DataSize :: u64
  OriginalSize :: u64
  Hash :: bytes
  Mode :: u32
  UID :: u32
  GID :: u32
  ModTime :: int
  Compression :: compression

record fb_entry =
  fb_path :: string
  fb_data_offset :: u64
  fb_data_size :: u64
  fb_original_size :: u64
  fb_hash :: bytes
  fb_mode :: u32
  fb_uid :: u32
  fb_gid :: u32
  fb_mtime_ns :: i64
  fb_compression :: "8 word"

text \<open>\<^verbatim>\<open>fb.Compression\<close> is a signed byte; unknown values read as "not compressed".\<close>

definition CompressionFromFB :: "8 word \<Rightarrow> compression" where
  "CompressionFromFB c =
     (if 0 \<le> sint c \<and> sint c \<le> sint CompressionZstd then word_of_int (sint c) else CompressionNone)"

definition EntryFromViewWithPath :: "fb_entry \<Rightarrow> string \<Rightarrow> Entry" where
  "EntryFromViewWithPath ev path =
     \<lparr>Path = path,
      DataOffset = fb_data_offset ev,
      DataSize = fb_data_size ev,
      OriginalSize = fb_original_size ev,
      Hash = fb_hash ev,
      Mode = fb_mode ev,
      UID = fb_uid ev,
      GID = fb_gid ev,
      ModTime = fb_mtime_ns ev,
      Compression = CompressionFromFB (fb_compression ev)\<rparr>"

definition EntryFromFlatBuffers :: "fb_entry \<Rightarrow> Entry" where
  "EntryFromFlatBuffers ev =
     \<lparr>Path = fb_path ev,
      DataOffset = fb_data_offset ev,
      DataSize = fb_data_size ev,
      OriginalSize = fb_original_size ev,
      Hash = fb_hash ev,
      Mode = fb_mode ev,
      UID = fb_uid ev,
      GID = fb_gid ev,
      ModTime = fb_mtime_ns ev,
      Compression = CompressionFromFB (fb_compression ev)\<rparr>"

text \<open>The table \<^verbatim>\<open>buildIndex\<close> (\<^verbatim>\<open>core/create.go\<close>) writes for an entry.\<close>

definition fb_of_Entry :: "Entry \<Rightarrow> fb_entry" where
  "fb_of_Entry e =
     \<lparr>fb_path = Path e,
      fb_data_offset = DataOffset e,
      fb_data_size = DataSize e,
      fb_original_size = OriginalSize e,
      fb_hash = Hash e,
      fb_mode = Mode e,
      fb_uid = UID e,
      fb_gid = GID e,
      fb_mtime_ns = wrap_i64 (ModTime e),
      fb_compression = Compression e\<rparr>"

text \<open>The file mode bits the program tests: \<^verbatim>\<open>fs.ModeDir\<close>, \<^verbatim>\<open>fs.ModeType\<close>, \<^verbatim>\<open>fs.ModePerm\<close>.\<close>

unbundle bit_operations_syntax

definition ModeDir :: u32 where
  "ModeDir = 0x80000000"

definition ModeSymlink :: u32 where
  "ModeSymlink = 0x8000000"

definition ModeType :: u32 where
  "ModeType = 0x8F280000"

definition mode_is_regular :: "u32 \<Rightarrow> bool" where
  "mode_is_regular m \<longleftrightarrow> m AND ModeType = 0"

definition mode_is_dir :: "u32 \<Rightarrow> bool" where
  "mode_is_dir m \<longleftrightarrow> m AND ModeDir \<noteq> 0"

definition mode_perm :: "u32 \<Rightarrow> u32" where
  "mode_perm m = m AND 511"

section \<open>Conversions\<close>

lemma CompressionFromFB_cases: "CompressionFromFB c \<in> {CompressionNone, CompressionZstd}"
proof (cases "0 \<le> sint c \<and> sint c \<le> sint CompressionZstd")
  case True
  then have "sint c = 0 \<or> sint c = 1" by (simp add: CompressionZstd_def, linarith)
  then have "word_of_int (sint c) = (0 :: u8) \<or> word_of_int (sint c) = (1 :: u8)"
    by (elim disjE) (simp_all only: of_int_0 of_int_1 simp_thms)
  then show ?thesis
    unfolding CompressionFromFB_def if_P [OF True] by (simp add: CompressionNone_def CompressionZstd_def)
next
  case False
  show ?thesis unfolding CompressionFromFB_def if_not_P [OF False] by simp
qed

lemma CompressionFromFB_id:
  "c \<in> {CompressionNone, CompressionZstd} \<Longrightarrow> CompressionFromFB c = c"
  by (auto simp: CompressionFromFB_def CompressionNone_def CompressionZstd_def)

lemma EntryFromViewWithPath_own: "EntryFromViewWithPath ev (fb_path ev) = EntryFromFlatBuffers ev"
  by (simp add: EntryFromViewWithPath_def EntryFromFlatBuffers_def)

text \<open>What the creator may store: a compression it knows, a time that fits \<^verbatim>\<open>UnixNano\<close>.\<close>

definition storable :: "Entry \<Rightarrow> bool" where
  "storable e \<longleftrightarrow> Compression e \<in> {CompressionNone, CompressionZstd} \<and>
     - (2 ^ 63) \<le> ModTime e \<and> ModTime e < 2 ^ 63"

lemma Entry_roundtrip: "storable e \<Longrightarrow> EntryFromFlatBuffers (fb_of_Entry e) = e"
  by (simp add: storable_def EntryFromFlatBuffers_def fb_of_Entry_def CompressionFromFB_id)

lemma fb_of_Entry_path [simp]: "fb_path (fb_of_Entry e) = Path e"
  by (simp add: fb_of_Entry_def)

lemma fb_of_Entry_sel [simp]:
  "fb_data_offset (fb_of_Entry e) = DataOffset e" "fb_data_size (fb_of_Entry e) = DataSize e"
  "fb_original_size (fb_of_Entry e) = OriginalSize e" "fb_hash (fb_of_Entry e) = Hash e" "fb_mode (fb_of_Entry e) = Mode e"
  by (simp_all add: fb_of_Entry_def)

lemma EntryFromViewWithPath_sel [simp]:
  "Path (EntryFromViewWithPath ev p) = p"
  "Hash (EntryFromViewWithPath ev p) = fb_hash ev"
  "OriginalSize (EntryFromViewWithPath ev p) = fb_original_size ev"
  "DataSize (EntryFromViewWithPath ev p) = fb_data_size ev"
  "DataOffset (EntryFromViewWithPath ev p) = fb_data_offset ev"
  "Mode (EntryFromViewWithPath ev p) = fb_mode ev"
  by (simp_all add: EntryFromViewWithPath_def)

lemma mode_perm_regular: "mode_is_regular (mode_perm m)"
proof -
  have "mode_perm m AND ModeType = m AND (511 AND ModeType)"
    by (simp only: mode_perm_def and.assoc)
  also have "511 AND ModeType = 0" by (simp add: ModeType_def)
  finally show ?thesis by (simp add: mode_is_regular_def)
qed

end
