(* ===== verification/ArchiveIndex.thy ===== *)
theory ArchiveIndex
  imports Entries
begin

text \<open>
  \<^verbatim>\<open>core/internal/index/index.go\<close>, the generated lookup of \<^verbatim>\<open>core/internal/fb/Entry.go\<close> and
  \<^verbatim>\<open>core/index_view.go\<close>. An index is what the FlatBuffers accessors of its root table return;
  an absent \<^verbatim>\<open>entries\<close> or \<^verbatim>\<open>data_hash\<close> vector is \<open>None\<close>. Reading the root table out of the
  bytes is the FlatBuffers runtime's: \<open>get_root\<close>, whose \<open>Inl\<close> is a panic of that code.
  Iterators over entries are the lists of the views they yield.

  The interface the archive's reader relies on is the locale \<open>archive_index\<close>; it is
  interpreted below on the operations of this file.
\<close>

section \<open>Definitions\<close>

record fb_index =
  fb_version :: u32
  fb_entries :: "fb_entry list option"
  fb_index_data_size :: u64
  fb_data_hash :: "bytes option"

record Index =
  idx_data :: bytes
  idx_root :: fb_index

definition Load :: "(bytes \<Rightarrow> string + fb_index option) \<Rightarrow> bytes \<Rightarrow> Index res" where
  "Load get_root data =
     (if length data = 0 then Inl (ErrNew ''blob: empty index data'')
      else case get_root data of
             Inl r \<Rightarrow> Inl (Errorf ''blob: failed to parse index: %v'' [r] [])
           | Inr None \<Rightarrow> Inl (ErrNew ''blob: failed to parse index'')
           | Inr (Some root) \<Rightarrow> Inr \<lparr>idx_data = data, idx_root = root\<rparr>)"

definition Version :: "Index \<Rightarrow> u32" where
  "Version idx = fb_version (idx_root idx)"

definition DataHash :: "Index \<Rightarrow> bytes option" where
  "DataHash idx =
     (case fb_data_hash (idx_root idx) of
        None \<Rightarrow> None
      | Some hash \<Rightarrow> if length hash = 0 then None else Some hash)"

definition Index_DataSize :: "Index \<Rightarrow> u64 option" where
  "Index_DataSize idx =
     (if DataHash idx = None then None else Some (fb_index_data_size (idx_root idx)))"

text \<open>\<^verbatim>\<open>LookupByKey\<close>: the binary search of the generated code, by \<^verbatim>\<open>start\<close> and \<^verbatim>\<open>span\<close>.\<close>

function LookupByKey :: "fb_entry list \<Rightarrow> string \<Rightarrow> nat \<Rightarrow> nat \<Rightarrow> fb_entry option" where
  "LookupByKey es key start span =
     (if span \<noteq> 0 then
        let middle = span div 2; obj = es ! (start + middle)
        in if key < fb_path obj then LookupByKey es key start middle
           else if fb_path obj < key then LookupByKey es key (start + (middle + 1)) (span - (middle + 1))
           else Some obj
      else None)"
  by pat_completeness auto
termination
  by (relation "measure (\<lambda>(es, key, start, span). span)") auto

definition EntriesByKey :: "fb_index \<Rightarrow> string \<Rightarrow> fb_entry option" where
  "EntriesByKey root key =
     (case fb_entries root of Some es \<Rightarrow> LookupByKey es key 0 (length es) | None \<Rightarrow> None)"

definition LookupView :: "Index \<Rightarrow> string \<Rightarrow> fb_entry option" where
  "LookupView idx path = EntriesByKey (idx_root idx) path"

definition EntriesView :: "Index \<Rightarrow> fb_entry list" where
  "EntriesView idx = (case fb_entries (idx_root idx) of Some es \<Rightarrow> es | None \<Rightarrow> [])"

definition Len :: "Index \<Rightarrow> nat" where
  "Len idx = (case fb_entries (idx_root idx) of Some es \<Rightarrow> length es | None \<Rightarrow> 0)"

text \<open>
  \<^verbatim>\<open>EntriesWithPrefixView\<close>: a binary search for the first path that is not below the prefix,
  then a scan that stops at the first path without it.
\<close>

definition EntriesWithPrefixView :: "Index \<Rightarrow> string \<Rightarrow> fb_entry list" where
  "EntriesWithPrefixView idx pre =
     (let es = EntriesView idx; n = Len idx
      in if n = 0 then []
         else let start = sort_search (\<lambda>i. pre \<le> fb_path (es ! i)) 0 n
              in takeWhile (\<lambda>e. has_prefix (fb_path e) pre) (drop start es))"

text \<open>\<^verbatim>\<open>IndexView\<close> of \<^verbatim>\<open>core/index_view.go\<close>: the same operations without the data blob.\<close>

record IndexView =
  iv_idx :: Index
  iv_indexData :: bytes

definition NewIndexView :: "(bytes \<Rightarrow> string + fb_index option) \<Rightarrow> bytes \<Rightarrow> IndexView res" where
  "NewIndexView get_root indexData =
     bindE (Load get_root indexData) (\<lambda>idx. Inr \<lparr>iv_idx = idx, iv_indexData = indexData\<rparr>)"

definition IndexView_Entry :: "IndexView \<Rightarrow> string \<Rightarrow> fb_entry option" where
  "IndexView_Entry v path = LookupView (iv_idx v) path"

definition IndexView_EntriesWithPrefix :: "IndexView \<Rightarrow> string \<Rightarrow> fb_entry list" where
  "IndexView_EntriesWithPrefix v pre = EntriesWithPrefixView (iv_idx v) pre"

section \<open>The index interface\<close>

text \<open>
  What a reader of an archive relies on. \<open>wf\<close> is the well-formedness the format asks for
  (entries sorted by path); lookups are sound on every index, and complete on a well-formed
  one, where a prefix scan yields exactly the entries under the prefix, in order.
\<close>

locale archive_index =
  fixes wf :: "'i \<Rightarrow> bool"
    and entries :: "'i \<Rightarrow> fb_entry list"
    and lookup :: "'i \<Rightarrow> string \<Rightarrow> fb_entry option"
    and with_prefix :: "'i \<Rightarrow> string \<Rightarrow> fb_entry list"
  assumes lookup_sound: "lookup i p = Some e \<Longrightarrow> e \<in> set (entries i) \<and> fb_path e = p"
    and lookup_complete: "wf i \<Longrightarrow> e \<in> set (entries i) \<Longrightarrow> \<exists>e'. lookup i (fb_path e) = Some e'"
    and prefix_sound: "set (with_prefix i p) \<subseteq> {e \<in> set (entries i). prefix p (fb_path e)}"
    and prefix_complete: "wf i \<Longrightarrow> with_prefix i p = filter (\<lambda>e. prefix p (fb_path e)) (entries i)"
    and wf_sorted: "wf i \<Longrightarrow> sorted (map fb_path (entries i))"
begin

lemma lookup_None_iff: "wf i \<Longrightarrow> lookup i p = None \<longleftrightarrow> p \<notin> fb_path ` set (entries i)"
  using lookup_sound lookup_complete by (metis (no_types, lifting) image_iff option.distinct(1) option.exhaust)

lemma prefix_set: "wf i \<Longrightarrow> set (with_prefix i p) = {e \<in> set (entries i). prefix p (fb_path e)}"
  by (auto simp: prefix_complete)

lemma prefix_empty_iff: "wf i \<Longrightarrow> with_prefix i p = [] \<longleftrightarrow> (\<forall>e\<in>set (entries i). \<not> prefix p (fb_path e))"
  by (simp add: prefix_complete filter_empty_conv)

lemma prefix_all: "wf i \<Longrightarrow> with_prefix i [] = entries i"
  by (simp add: prefix_complete)

lemma prefix_sorted: "wf i \<Longrightarrow> sorted (map fb_path (with_prefix i p))"
  by (simp add: prefix_complete wf_sorted sorted_filter)

lemma lookup_unique:
  "wf i \<Longrightarrow> distinct (map fb_path (entries i)) \<Longrightarrow> e \<in> set (entries i) \<Longrightarrow> lookup i (fb_path e) = Some e"
  using lookup_complete [of i e] lookup_sound [of i "fb_path e"]
  by (metis (no_types, lifting) distinct_map inj_on_contraD)

end

section \<open>Binary search by path\<close>

declare LookupByKey.simps [simp del]

lemma LookupByKey_unfold:
  "LookupByKey es key start 0 = None"
  "span \<noteq> 0 \<Longrightarrow> key < fb_path (es ! (start + span div 2)) \<Longrightarrow>
   LookupByKey es key start span = LookupByKey es key start (span div 2)"
  "span \<noteq> 0 \<Longrightarrow> fb_path (es ! (start + span div 2)) < key \<Longrightarrow>
   LookupByKey es key start span = LookupByKey es key (start + (span div 2 + 1)) (span - (span div 2 + 1))"
  "span \<noteq> 0 \<Longrightarrow> fb_path (es ! (start + span div 2)) = key \<Longrightarrow>
   LookupByKey es key start span = Some (es ! (start + span div 2))"
  by (subst LookupByKey.simps, simp add: Let_def)+ 

definition index_sorted :: "Index \<Rightarrow> bool" where
  "index_sorted idx \<longleftrightarrow> sorted (map fb_path (EntriesView idx))"

lemma LookupByKey_sound:
  "start + span \<le> length es \<Longrightarrow> LookupByKey es key start span = Some e \<Longrightarrow> e \<in> set es \<and> fb_path e = key"
proof (induction es key start span rule: LookupByKey.induct)
  case (1 es key start span)
  have s: "span \<noteq> 0" using "1.prems"(2) by (cases "span = 0") (simp_all add: LookupByKey_unfold)
  let ?o = "es ! (start + span div 2)"
  have m: "start + span div 2 < length es" using s "1.prems"(1) by linarith
  consider "key < fb_path ?o" | "fb_path ?o < key" | "fb_path ?o = key" by (metis not_less_iff_gr_or_eq)
  then show ?case
  proof cases
    case 1
    with "1.IH"(1) [OF s refl refl] "1.prems" s show ?thesis by (simp add: LookupByKey_unfold(2))
  next
    case 2
    then have "\<not> key < fb_path ?o" by simp
    with 2 "1.IH"(2) [OF s refl refl] "1.prems" s show ?thesis by (simp add: LookupByKey_unfold(3))
  next
    case 3
    with "1.prems" s m show ?thesis by (auto simp: LookupByKey_unfold(4))
  qed
qed

lemma LookupByKey_complete:
  "sorted (map fb_path es) \<Longrightarrow> start + span \<le> length es \<Longrightarrow> start \<le> k \<Longrightarrow> k < start + span \<Longrightarrow>
   fb_path (es ! k) = key \<Longrightarrow> LookupByKey es key start span \<noteq> None"
proof (induction es key start span rule: LookupByKey.induct)
  case (1 es key start span)
  then have s: "span \<noteq> 0" by auto
  let ?m = "start + span div 2"
  have m: "?m < length es" using s "1.prems"(2) by linarith
  have mono: "fb_path (es ! i) \<le> fb_path (es ! j)" if "i \<le> j" "j < length es" for i j
    using "1.prems"(1) that by (auto simp: sorted_iff_nth_mono)
  consider "key < fb_path (es ! ?m)" | "fb_path (es ! ?m) < key" | "fb_path (es ! ?m) = key"
    by (metis not_less_iff_gr_or_eq)
  then show ?case
  proof cases
    case 1
    have "k < ?m" using mono [of ?m k] 1 "1.prems" by (cases "k < ?m") auto
    with 1 "1.IH"(1) [OF s refl refl] "1.prems" s show ?thesis by (simp add: LookupByKey_unfold(2))
  next
    case 2
    have "?m < k" using mono [of k ?m] m 2 "1.prems" by (cases "?m < k") auto
    moreover have "\<not> key < fb_path (es ! ?m)" using 2 by simp
    ultimately show ?thesis
      using 2 "1.IH"(2) [OF s refl refl] "1.prems" s by (simp add: LookupByKey_unfold(3))
  next
    case 3
    with s show ?thesis by (simp add: LookupByKey_unfold(4))
  qed
qed

lemma LookupView_sound: "LookupView idx p = Some e \<Longrightarrow> e \<in> set (EntriesView idx) \<and> fb_path e = p"
  by (auto simp: LookupView_def EntriesByKey_def EntriesView_def split: option.splits
      dest!: LookupByKey_sound [rotated])

lemma LookupView_complete:
  "index_sorted idx \<Longrightarrow> e \<in> set (EntriesView idx) \<Longrightarrow> \<exists>e'. LookupView idx (fb_path e) = Some e'"
  using LookupByKey_complete [where start = 0 and key = "fb_path e"]
  by (auto simp: LookupView_def EntriesByKey_def EntriesView_def index_sorted_def in_set_conv_nth
      split: option.splits)

section \<open>Prefix scans\<close>

lemma takeWhile_eq_filter_drop:
  assumes "k \<le> length xs"
    and "\<And>i. i < k \<Longrightarrow> \<not> P (xs ! i)"
    and "\<And>i j. k \<le> i \<Longrightarrow> i \<le> j \<Longrightarrow> j < length xs \<Longrightarrow> P (xs ! j) \<Longrightarrow> P (xs ! i)"
  shows "takeWhile P (drop k xs) = filter P xs"
proof -
  have "filter P (take k xs) = []"
    using assms(1,2) by (auto simp: filter_empty_conv in_set_conv_nth)
  moreover have "takeWhile P ys = filter P ys"
    if "\<And>i j. i \<le> j \<Longrightarrow> j < length ys \<Longrightarrow> P (ys ! j) \<Longrightarrow> P (ys ! i)" for ys
    using that
  proof (induction ys)
    case (Cons y ys)
    have *: "\<And>i j. i \<le> j \<Longrightarrow> j < length ys \<Longrightarrow> P (ys ! j) \<Longrightarrow> P (ys ! i)"
      using Cons.prems [of "Suc _" "Suc _"] by fastforce
    show ?case
    proof (cases "P y")
      case False
      then have "\<forall>z\<in>set ys. \<not> P z"
        using Cons.prems [of 0 "Suc _"] by (fastforce simp: in_set_conv_nth)
      with False show ?thesis by (simp add: filter_empty_conv)
    qed (use Cons.IH [OF *] in simp)
  qed simp
  from this [of "drop k xs"] have "takeWhile P (drop k xs) = filter P (drop k xs)"
    using assms(3) [of "k + _" "k + _"] by fastforce
  ultimately show ?thesis by (metis append_Nil append_take_drop_id filter_append)
qed

lemma EntriesWithPrefixView_sound:
  "set (EntriesWithPrefixView idx p) \<subseteq> {e \<in> set (EntriesView idx). prefix p (fb_path e)}"
  by (auto simp: EntriesWithPrefixView_def Let_def dest: set_takeWhileD in_set_dropD split: if_splits)

lemma Len_EntriesView: "Len idx = length (EntriesView idx)"
  by (simp add: Len_def EntriesView_def split: option.splits)

lemma EntriesWithPrefixView_eq:
  assumes "index_sorted idx"
  shows "EntriesWithPrefixView idx p = filter (\<lambda>e. prefix p (fb_path e)) (EntriesView idx)"
proof -
  define es where es: "es = EntriesView idx"
  define f where f: "f = (\<lambda>i. length es \<le> i \<or> p \<le> fb_path (es ! i))"
  let ?g = "\<lambda>i. p \<le> fb_path (es ! i)"
  have mono: "fb_path (es ! i) \<le> fb_path (es ! j)" if "i \<le> j" "j < length es" for i j
    using assms that by (auto simp: index_sorted_def es sorted_iff_nth_mono)
  have cong: "j \<le> length es \<Longrightarrow> sort_search ?g i j = sort_search f i j" for i j
  proof (induction ?g i j rule: sort_search.induct)
    case (1 i j)
    then show ?case
      by (cases "i < j"; cases "?g ((i + j) div 2)") (simp_all add: sort_search_unfold f)
  qed
  define k where k: "k = sort_search f 0 (length es)"
  have fmono: "f b" if "a \<le> b" "f a" for a b
    using that mono by (auto simp: f) (meson linorder_not_less order_trans)
  have below: "\<not> f i" if "i < k" for i
    using sort_search_below [of f 0 i "length es"] fmono that by (auto simp: k)
  have at: "k < length es \<Longrightarrow> p \<le> fb_path (es ! k)"
    using sort_search_hit [of f 0 "length es"] by (auto simp: k f)
  have "takeWhile (\<lambda>e. prefix p (fb_path e)) (drop k es) = filter (\<lambda>e. prefix p (fb_path e)) es"
  proof (rule takeWhile_eq_filter_drop)
    show "k \<le> length es" using sort_search_bounds [of 0 "length es" f] by (simp add: k)
    show "\<not> prefix p (fb_path (es ! i))" if "i < k" for i
      using below [OF that] prefix_imp_le by (auto simp: f)
    show "prefix p (fb_path (es ! i))"
      if "k \<le> i" "i \<le> j" "j < length es" "prefix p (fb_path (es ! j))" for i j
      using prefix_convex [OF prefix_order.refl that(4)] at mono that
      by (meson le_less_trans order_trans)
  qed
  then show ?thesis
    by (auto simp: EntriesWithPrefixView_def Let_def Len_EntriesView cong es [symmetric] k)
qed

interpretation idx: archive_index index_sorted EntriesView LookupView EntriesWithPrefixView
proof unfold_locales
qed (simp_all add: LookupView_sound LookupView_complete EntriesWithPrefixView_sound
  EntriesWithPrefixView_eq, simp add: index_sorted_def)

end
