(* ===== verification/Streams.thy ===== *)
theory Streams
  imports Sizing
begin

text \<open>
  The part of Go's \<^verbatim>\<open>io\<close> package the program is written against, and the stream helpers of
  \<^verbatim>\<open>core/internal/file\<close>: \<^verbatim>\<open>hasher.go\<close>, \<^verbatim>\<open>counting.go\<close>, \<^verbatim>\<open>copy.go\<close>.

  A reader is a state. \<open>Chunks cs e eager\<close> is any reader that delivers the pieces \<open>cs\<close> (an
  empty piece is a read that returns \<^verbatim>\<open>0, nil\<close>) and then reports \<open>e\<close> for ever, together with
  the last bytes when \<open>eager\<close> is set: both behaviours are allowed by \<^verbatim>\<open>io.Reader\<close>.
  \<open>SectionReader\<close> is \<^verbatim>\<open>io.SectionReader\<close> over a \<^verbatim>\<open>io.ReaderAt\<close>. A \<open>reader_at\<close> answers a request
  for \<open>n\<close> bytes at an offset from its content, possibly with a fault after some bytes; it keeps
  the contract that a short answer carries an error.
\<close>

section \<open>Definitions\<close>

unbundle bit_operations_syntax

subsection \<open>Readers\<close>

record reader_at =
  ra_content :: bytes
  ra_fault :: "nat \<Rightarrow> nat \<Rightarrow> (nat \<times> err) option"
  ra_eager :: bool

definition ra_ReadAt :: "reader_at \<Rightarrow> nat \<Rightarrow> i64 \<Rightarrow> bytes \<times> err option" where
  "ra_ReadAt ra n off =
     (if off < 0 then ([], Some ErrInvalid)
      else let d = take n (drop (nat off) (ra_content ra)) in
        case ra_fault ra (nat off) n of
          Some (k, e) \<Rightarrow> (take k (butlast d), Some e)
        | None \<Rightarrow>
            if length d < n then (d, Some EOF)
            else if ra_eager ra \<and> nat off + n = length (ra_content ra) then (d, Some EOF)
            else (d, None))"

datatype reader =
    Chunks "bytes list" err bool
  | SectionReader reader_at i64 i64

text \<open>\<^verbatim>\<open>Read(p)\<close> with \<open>n = len(p)\<close>: the bytes stored in \<^verbatim>\<open>p\<close>, the error, the next state.\<close>

fun rd_Read :: "reader \<Rightarrow> nat \<Rightarrow> (bytes \<times> err option) \<times> reader" where
  "rd_Read (Chunks cs e eager) n =
     (if n = 0 then (([], None), Chunks cs e eager)
      else case cs of
        [] \<Rightarrow> (([], Some e), Chunks [] e eager)
      | c # cs' \<Rightarrow>
          let cs'' = (if length c \<le> n then cs' else drop n c # cs')
          in ((take n c, if cs'' = [] \<and> eager then Some e else None), Chunks cs'' e eager))"
| "rd_Read (SectionReader ra off limit) n =
     (if off \<ge> limit then (([], Some EOF), SectionReader ra off limit)
      else let m = (if int n > limit - off then nat (limit - off) else n);
               (d, e) = ra_ReadAt ra m off
           in ((d, e), SectionReader ra (off + int (length d)) limit))"

text \<open>\<^verbatim>\<open>io.NewSectionReader(r, off, n)\<close>.\<close>

definition NewSectionReader :: "reader_at \<Rightarrow> i64 \<Rightarrow> i64 \<Rightarrow> reader" where
  "NewSectionReader r off n =
     (let remaining = (if off \<le> MaxInt64 - n then n + off else MaxInt64)
      in SectionReader r off remaining)"

text \<open>How many reads without an error are left at most: every loop over a reader ends.\<close>

fun rd_size :: "reader \<Rightarrow> nat" where
  "rd_size (Chunks cs e eager) = sum_list (map (\<lambda>c. length c + 1) cs)"
| "rd_size (SectionReader ra off limit) = nat (limit - off)"

lemma ra_ReadAt_short: "ra_ReadAt ra n off = (d, None) \<Longrightarrow> length d = n"
  by (auto simp: ra_ReadAt_def Let_def split: if_splits option.splits)

lemma ra_ReadAt_le: "ra_ReadAt ra n off = (d, e) \<Longrightarrow> length d \<le> n"
  by (auto simp: ra_ReadAt_def Let_def split: if_splits option.splits)

lemma rd_Read_decreases: "rd_Read r n = ((d, None), r') \<Longrightarrow> n > 0 \<Longrightarrow> rd_size r' < rd_size r"
  by (cases r)
    (auto simp: Let_def neq_Nil_conv split: if_splits list.splits prod.splits dest!: ra_ReadAt_short)

lemma rd_Read_le: "rd_Read r n = ((d, e), r') \<Longrightarrow> length d \<le> n"
  by (cases r) (auto simp: Let_def split: if_splits list.splits prod.splits dest!: ra_ReadAt_le)

text \<open>All a reader delivers: its bytes up to the first error, and that error.\<close>

function rd_stream :: "reader \<Rightarrow> stream" where
  "rd_stream r =
     (case rd_Read r 512 of
        ((d, None), r') \<Rightarrow> (let s = rd_stream r' in \<lparr>s_data = d @ s_data s, s_end = s_end s\<rparr>)
      | ((d, Some e), r') \<Rightarrow> \<lparr>s_data = d, s_end = e\<rparr>)"
  by pat_completeness auto
termination
  by (relation "measure rd_size") (auto dest: rd_Read_decreases [OF sym])

text \<open>\<^verbatim>\<open>io.ReadFull\<close>, with \<open>n\<close> bytes of the buffer left and \<open>acc\<close> already read.\<close>

function ReadFull :: "reader \<Rightarrow> nat \<Rightarrow> bytes \<Rightarrow> (bytes \<times> err option) \<times> reader" where
  "ReadFull r n acc =
     (if n = 0 then ((acc, None), r)
      else case rd_Read r n of
        ((d, None), r') \<Rightarrow> ReadFull r' (n - length d) (acc @ d)
      | ((d, Some e), r') \<Rightarrow>
          if n \<le> length d then ((acc @ d, None), r')
          else if acc @ d \<noteq> [] \<and> e = EOF then ((acc @ d, Some ErrUnexpectedEOF), r')
          else ((acc @ d, Some e), r'))"
  by pat_completeness auto
termination
  by (relation "measure (\<lambda>(r, n, acc). rd_size r)") (auto dest: rd_Read_decreases [OF sym])

text \<open>\<^verbatim>\<open>io.LimitReader\<close>.\<close>

fun take_chunks :: "nat \<Rightarrow> bytes list \<Rightarrow> bytes list" where
  "take_chunks n [] = []"
| "take_chunks n (c # cs) = (if n = 0 then [] else if n \<le> length c then [take n c] else c # take_chunks (n - length c) cs)"

fun limit_reader :: "reader \<Rightarrow> nat \<Rightarrow> reader" where
  "limit_reader (Chunks cs e eager) n =
     (if length (concat cs) < n \<or> length (concat cs) = n \<and> eager then Chunks cs e eager
      else Chunks (take_chunks n cs) EOF False)"
| "limit_reader (SectionReader ra off limit) n = SectionReader ra off (min limit (off + int n))"

text \<open>\<^verbatim>\<open>HashingReader\<close>: the reader and the bytes written to the hash.\<close>

record HashingReader =
  hr_r :: reader
  hr_h :: bytes

definition HashingReader_Read :: "HashingReader \<Rightarrow> nat \<Rightarrow> (bytes \<times> err option) \<times> HashingReader" where
  "HashingReader_Read hr n =
     (let ((d, e), r') = rd_Read (hr_r hr) n
      in ((d, e), \<lparr>hr_r = r', hr_h = (if length d > 0 then hr_h hr @ d else hr_h hr)\<rparr>))"

definition HashingReader_Sum :: "(bytes \<Rightarrow> bytes) \<Rightarrow> HashingReader \<Rightarrow> bytes" where
  "HashingReader_Sum sha256 hr = sha256 (hr_h hr)"

lemma HashingReader_Read_decreases:
  "HashingReader_Read hr n = ((d, None), hr') \<Longrightarrow> n > 0 \<Longrightarrow> rd_size (hr_r hr') < rd_size (hr_r hr)"
  by (cases "rd_Read (hr_r hr) n") (auto simp: HashingReader_Read_def dest: rd_Read_decreases)

text \<open>\<^verbatim>\<open>io.ReadFull\<close> on a \<^verbatim>\<open>HashingReader\<close>.\<close>

function HashingReader_ReadFull ::
  "HashingReader \<Rightarrow> nat \<Rightarrow> bytes \<Rightarrow> (bytes \<times> err option) \<times> HashingReader" where
  "HashingReader_ReadFull hr n acc =
     (if n = 0 then ((acc, None), hr)
      else case HashingReader_Read hr n of
        ((d, None), hr') \<Rightarrow> HashingReader_ReadFull hr' (n - length d) (acc @ d)
      | ((d, Some e), hr') \<Rightarrow>
          if n \<le> length d then ((acc @ d, None), hr')
          else if acc @ d \<noteq> [] \<and> e = EOF then ((acc @ d, Some ErrUnexpectedEOF), hr')
          else ((acc @ d, Some e), hr'))"
  by pat_completeness auto
termination
  by (relation "measure (\<lambda>(hr, n, acc). rd_size (hr_r hr))")
    (auto dest: HashingReader_Read_decreases [OF sym])

definition EnsureNoExtra :: "HashingReader \<Rightarrow> err option \<times> HashingReader" where
  "EnsureNoExtra r =
     (let ((d, e), r') = HashingReader_Read r 1
      in (if length d > 0 then Some ErrSizeOverflow
          else if e = Some EOF then None
          else e, r'))"

subsection \<open>Writers\<close>

text \<open>
  A writer that accepts \<open>w_cap\<close> bytes in all (\<open>None\<close>: without limit) and answers the write that
  exceeds them with the short count and \<open>w_err\<close>.
\<close>

record writer =
  w_out :: bytes
  w_cap :: "nat option"
  w_err :: "err option"

definition w_Write :: "writer \<Rightarrow> bytes \<Rightarrow> (nat \<times> err option) \<times> writer" where
  "w_Write w p =
     (case w_cap w of
        None \<Rightarrow> ((length p, None), w\<lparr>w_out := w_out w @ p\<rparr>)
      | Some c \<Rightarrow>
          if length p \<le> c then ((length p, None), w\<lparr>w_out := w_out w @ p, w_cap := Some (c - length p)\<rparr>)
          else ((c, w_err w), w\<lparr>w_out := w_out w @ take c p, w_cap := Some 0\<rparr>))"

record CountingReader =
  cr_R :: reader
  cr_N :: u64

definition CountingReader_Read :: "CountingReader \<Rightarrow> nat \<Rightarrow> (bytes \<times> err option) \<times> CountingReader" where
  "CountingReader_Read cr p =
     (let ((d, err), r') = rd_Read (cr_R cr) p; n = length d; cr' = cr\<lparr>cr_R := r'\<rparr>
      in if n > 0 then
           if cr_N cr > (NOT 0) - of_nat n then ((d, Some ErrOverflow), cr')
           else ((d, err), cr'\<lparr>cr_N := cr_N cr + of_nat n\<rparr>)
         else ((d, err), cr'))"

record CountingWriter =
  cw_W :: writer
  cw_N :: u64

definition CountingWriter_Write :: "CountingWriter \<Rightarrow> bytes \<Rightarrow> (nat \<times> err option) \<times> CountingWriter" where
  "CountingWriter_Write cw p =
     (let ((n, err), w') = w_Write (cw_W cw) p; cw' = cw\<lparr>cw_W := w'\<rparr>
      in if n > 0 then
           if cw_N cw > (NOT 0) - of_nat n then ((n, Some ErrOverflow), cw')
           else ((n, err), cw'\<lparr>cw_N := cw_N cw + of_nat n\<rparr>)
         else ((n, err), cw'))"

text \<open>
  \<^verbatim>\<open>CopyWithContext\<close>: the write of one piece (\<open>Inl\<close>: the loop returns), and the loop.
  \<open>ctx i\<close> is what the \<open>i\<close>-th check of \<^verbatim>\<open>ctx.Err()\<close> returns. The loop is entered with a nonempty
  buffer; with an empty one it would never see the end of the source, which is the value \<open>None\<close>.
\<close>

definition copy_write :: "writer \<Rightarrow> bytes \<Rightarrow> u64 \<Rightarrow> (u64 \<times> err option \<times> writer) + (u64 \<times> writer)" where
  "copy_write dst d written =
     (let nr = length d
      in if nr > 0 then
           let ((nw, ew), dst') = w_Write dst d
           in if nw > 0 \<and> written > (NOT 0) - of_nat nw then Inl (written, Some ErrOverflow, dst')
              else let written = (if nw > 0 then written + of_nat nw else written)
                   in if ew \<noteq> None then Inl (written, ew, dst')
                      else if nw \<noteq> nr then Inl (written, Some ErrShortWrite, dst')
                      else Inr (written, dst')
         else Inr (written, dst))"

function CopyWithContext ::
  "(nat \<Rightarrow> err option) \<Rightarrow> nat \<Rightarrow> writer \<Rightarrow> reader \<Rightarrow> nat \<Rightarrow> u64 \<Rightarrow> (u64 \<times> err option \<times> writer) option" where
  "CopyWithContext ctx i dst src buf written =
     (if buf = 0 then None
      else case ctx i of
        Some err \<Rightarrow> Some (written, Some err, dst)
      | None \<Rightarrow>
          (case rd_Read src buf of ((d, er), src') \<Rightarrow>
            (case copy_write dst d written of
               Inl ret \<Rightarrow> Some ret
             | Inr (written', dst') \<Rightarrow>
                 (case er of
                    Some e \<Rightarrow> Some (written', if e = EOF then None else Some e, dst')
                  | None \<Rightarrow> CopyWithContext ctx (i + 1) dst' src' buf written'))))"
  by pat_completeness auto
termination
  by (relation "measure (\<lambda>(ctx, i, dst, src, buf, written). rd_size src)")
    (auto dest: rd_Read_decreases [OF sym])

declare rd_stream.simps [simp del] ReadFull.simps [simp del] HashingReader_ReadFull.simps [simp del]
  CopyWithContext.simps [simp del]

section \<open>What a reader delivers\<close>

text \<open>
  The bytes still to come, the error that follows them, and the readers that have no faults on
  the way. What such a reader delivers does not depend on how it is read: one read of any
  positive size takes what it returns from the front of \<open>rd_data\<close>.
\<close>

fun rd_data :: "reader \<Rightarrow> bytes" where
  "rd_data (Chunks cs e eager) = concat cs"
| "rd_data (SectionReader ra off limit) = take (nat (limit - off)) (drop (nat off) (ra_content ra))"

fun rd_end :: "reader \<Rightarrow> err" where
  "rd_end (Chunks cs e eager) = e"
| "rd_end (SectionReader ra off limit) = EOF"

fun rd_ok :: "reader \<Rightarrow> bool" where
  "rd_ok (Chunks cs e eager) = True"
| "rd_ok (SectionReader ra off limit) = (0 \<le> off \<and> ra_fault ra = (\<lambda>_ _. None))"

lemma ra_ReadAt_ok:
  "ra_fault ra = (\<lambda>_ _. None) \<Longrightarrow> 0 \<le> off \<Longrightarrow> ra_ReadAt ra n off = (d, e) \<Longrightarrow>
   d = take n (drop (nat off) (ra_content ra)) \<and>
   (e = None \<and> length d = n \<or> e = Some EOF \<and> length (ra_content ra) \<le> nat off + length d)"
  by (auto simp: ra_ReadAt_def Let_def split: if_splits)

lemma rd_Read_section:
  assumes "ra_fault ra = (\<lambda>_ _. None)" "0 \<le> off" "off < limit" "n > 0"
    and r: "rd_Read (SectionReader ra off limit) n = ((d, e), r')"
  defines "m \<equiv> (if int n > limit - off then nat (limit - off) else n)"
  shows "d = take m (drop (nat off) (ra_content ra))"
    and "r' = SectionReader ra (off + int (length d)) limit"
    and "e = None \<and> length d = m \<or> e = Some EOF \<and> length (ra_content ra) \<le> nat off + length d"
proof -
  from r assms(3) have *: "ra_ReadAt ra m off = (d, e)" "r' = SectionReader ra (off + int (length d)) limit"
    by (auto simp: m_def Let_def split: if_splits prod.splits)
  then show "r' = SectionReader ra (off + int (length d)) limit" by blast
  from ra_ReadAt_ok [OF assms(1,2) *(1)] show
    "d = take m (drop (nat off) (ra_content ra))"
    "e = None \<and> length d = m \<or> e = Some EOF \<and> length (ra_content ra) \<le> nat off + length d"
    by blast+
qed

lemma take_take_drop: "m \<le> k \<Longrightarrow> take m xs @ take (k - m) (drop m xs) = take k xs"
  by (metis le_add_diff_inverse take_add)

lemma rd_Read_data:
  assumes "rd_ok r" "n > 0" "rd_Read r n = ((d, e), r')"
  shows "rd_ok r'" and "rd_data r = d @ rd_data r'" and "rd_end r' = rd_end r"
    and "e \<noteq> None \<Longrightarrow> e = Some (rd_end r) \<and> rd_data r' = []"
proof -
  have "rd_ok r' \<and> rd_data r = d @ rd_data r' \<and> rd_end r' = rd_end r \<and>
    (e \<noteq> None \<longrightarrow> e = Some (rd_end r) \<and> rd_data r' = [])"
  proof (cases r)
    case (Chunks cs x eager)
    with assms show ?thesis
      by (cases cs) (auto simp: Let_def split: if_splits simp flip: append_assoc)
  next
    case (SectionReader ra off limit)
    show ?thesis
    proof (cases "off \<ge> limit")
      case True
      with SectionReader assms show ?thesis by auto
    next
      case False
      with SectionReader assms have ok: "ra_fault ra = (\<lambda>_ _. None)" "0 \<le> off" "off < limit" by auto
      let ?m = "if int n > limit - off then nat (limit - off) else n"
      note sec = rd_Read_section [OF ok assms(2,3) [unfolded SectionReader]]
      have m: "?m \<le> nat (limit - off)" by auto
      have l: "length d \<le> ?m" using sec(1) by simp
      have drop: "drop (nat (off + int (length d))) (ra_content ra) = drop (length d) (drop (nat off) (ra_content ra))"
        using ok(2) by (simp add: nat_add_distrib add.commute)
      have d: "d = take (length d) (drop (nat off) (ra_content ra))"
        using sec(1) by (metis append_take_drop_id append_eq_conv_conj)
      have lim: "nat (limit - (off + int (length d))) = nat (limit - off) - length d"
        using l m by linarith
      have "rd_data r = d @ rd_data r'"
        unfolding SectionReader sec(2) rd_data.simps drop lim
        using take_take_drop [of "length d" "nat (limit - off)" "drop (nat off) (ra_content ra)"] l m d
        by simp
      then show ?thesis
        using sec(2,3) SectionReader ok by (auto simp: drop)
    qed
  qed
  then show "rd_ok r'" "rd_data r = d @ rd_data r'" "rd_end r' = rd_end r"
    "e \<noteq> None \<Longrightarrow> e = Some (rd_end r) \<and> rd_data r' = []"
    by auto
qed

lemma take_chunks_data: "concat (take_chunks n cs) = take n (concat cs)"
  by (induction n cs rule: take_chunks.induct) (auto simp: take_Cons')

lemma limit_reader_ok:
  assumes "rd_ok r"
  shows "rd_ok (limit_reader r n) \<and> rd_data (limit_reader r n) = take n (rd_data r) \<and>
    (rd_end (limit_reader r n) = EOF \<or> rd_end (limit_reader r n) = rd_end r)"
proof (cases r)
  case (Chunks cs e eager)
  then show ?thesis by (auto simp: take_chunks_data)
next
  case (SectionReader ra off lim)
  have "nat (min lim (off + int n) - off) = min n (nat (lim - off))" by linarith
  with SectionReader assms show ?thesis by (simp add: min.commute)
qed

lemma rd_stream_ok: "rd_ok r \<Longrightarrow> rd_stream r = \<lparr>s_data = rd_data r, s_end = rd_end r\<rparr>"
proof (induction r rule: rd_stream.induct)
  case (1 r)
  obtain d e r' where r: "rd_Read r 512 = ((d, e), r')" by (metis prod.exhaust)
  note data = rd_Read_data [OF "1.prems" _ r]
  show ?case
  proof (cases e)
    case None
    with r data(1-3) "1.IH" [OF r [symmetric] refl None] show ?thesis
      by (subst rd_stream.simps) (simp add: Let_def)
  next
    case (Some x)
    with r data(2,4) show ?thesis by (subst rd_stream.simps) simp
  qed
qed

section \<open>Full reads\<close>

lemma ReadFull_unfold:
  "ReadFull r 0 acc = ((acc, None), r)"
  "n > 0 \<Longrightarrow> rd_Read r n = ((d, None), r') \<Longrightarrow> ReadFull r n acc = ReadFull r' (n - length d) (acc @ d)"
  "n > 0 \<Longrightarrow> rd_Read r n = ((d, Some e), r') \<Longrightarrow> ReadFull r n acc =
     ((acc @ d, if n \<le> length d then None
                else if acc @ d \<noteq> [] \<and> e = EOF then Some ErrUnexpectedEOF else Some e), r')"
  by (subst ReadFull.simps, simp)+

lemma ReadFull_length: "ReadFull r n acc = ((d, None), r') \<Longrightarrow> length d = length acc + n"
proof (induction r n acc rule: ReadFull.induct)
  case (1 r n acc)
  show ?case
  proof (cases "n = 0")
    case True
    with 1 show ?thesis by (simp add: ReadFull_unfold)
  next
    case False
    obtain x e r1 where r: "rd_Read r n = ((x, e), r1)" by (metis prod.exhaust)
    with rd_Read_le have "length x \<le> n" by blast
    with False r 1 show ?thesis
      by (cases e) (auto simp: ReadFull_unfold split: if_splits)
  qed
qed

lemma ReadFull_data:
  assumes "rd_ok r" "n \<le> length (rd_data r)"
  shows "\<exists>r'. ReadFull r n acc = ((acc @ take n (rd_data r), None), r') \<and>
    rd_ok r' \<and> rd_data r' = drop n (rd_data r) \<and> rd_end r' = rd_end r"
  using assms
proof (induction r n acc rule: ReadFull.induct)
  case (1 r n acc)
  show ?case
  proof (cases "n = 0")
    case True
    with 1 show ?thesis by (simp add: ReadFull_unfold)
  next
    case False
    then have n: "n > 0" by simp
    obtain x e r1 where r: "rd_Read r n = ((x, e), r1)" by (metis prod.exhaust)
    note le = rd_Read_le [OF r] and data = rd_Read_data [OF "1.prems"(1) n r]
    show ?thesis
    proof (cases e)
      case None
      with r data le "1.IH" [OF False r [symmetric] refl None] "1.prems"(2) n show ?thesis
        by (auto simp: ReadFull_unfold)
    next
      case (Some y)
      with r data le "1.prems"(2) n show ?thesis by (simp add: ReadFull_unfold(3))
    qed
  qed
qed

lemma HashingReader_Read_eq:
  "HashingReader_Read hr n = ((d, e), hr') \<longleftrightarrow>
   rd_Read (hr_r hr) n = ((d, e), hr_r hr') \<and> hr_h hr' = hr_h hr @ d"
  by (cases hr') (auto simp: HashingReader_Read_def Let_def split: prod.splits)

text \<open>A full read through a \<^verbatim>\<open>HashingReader\<close> reads the same bytes and hashes exactly those.\<close>

lemma HashingReader_ReadFull_eq:
  assumes "ReadFull (hr_r hr) n acc = ((d, e), r')"
  shows "\<exists>x. d = acc @ x \<and> HashingReader_ReadFull hr n acc = ((d, e), \<lparr>hr_r = r', hr_h = hr_h hr @ x\<rparr>)"
  using assms
proof (induction hr n acc rule: HashingReader_ReadFull.induct)
  case (1 hr n acc)
  show ?case
  proof (cases "n = 0")
    case True
    with "1.prems" show ?thesis by (cases hr) (simp add: ReadFull_unfold HashingReader_ReadFull.simps [of _ 0])
  next
    case False
    obtain x y r1 where r: "rd_Read (hr_r hr) n = ((x, y), r1)" by (metis prod.exhaust)
    define hr1 where hr1: "hr1 = \<lparr>hr_r = r1, hr_h = hr_h hr @ x\<rparr>"
    have h: "HashingReader_Read hr n = ((x, y), hr1)"
      using r by (simp add: HashingReader_Read_eq hr1)
    show ?thesis
    proof (cases y)
      case None
      have "ReadFull (hr_r hr1) (n - length x) (acc @ x) = ((d, e), r')"
        using "1.prems" r None False by (simp add: hr1 ReadFull_unfold)
      from "1.IH" [OF False h [symmetric] refl None this] show ?thesis
        using False h None by (auto simp: HashingReader_ReadFull.simps [of hr n] hr1)
    next
      case (Some z)
      with "1.prems" r h False show ?thesis
        by (auto simp: HashingReader_ReadFull.simps [of hr n] ReadFull_unfold(3) hr1 split: if_splits)
    qed
  qed
qed

lemma HashingReader_ReadFull_hash:
  "HashingReader_ReadFull hr n [] = ((d, e), hr') \<Longrightarrow>
   ReadFull (hr_r hr) n [] = ((d, e), hr_r hr') \<and> hr_h hr' = hr_h hr @ d"
  using HashingReader_ReadFull_eq [of hr n "[]"] by (cases "ReadFull (hr_r hr) n []") force

lemma EnsureNoExtra_None: "EnsureNoExtra hr = (None, hr') \<Longrightarrow> hr_h hr' = hr_h hr"
  by (cases "HashingReader_Read hr 1")
    (auto simp: EnsureNoExtra_def HashingReader_Read_eq split: if_splits)

lemma EnsureNoExtra_end:
  assumes "rd_ok (hr_r hr)" "rd_data (hr_r hr) = []" "rd_end (hr_r hr) = EOF"
  shows "\<exists>hr'. EnsureNoExtra hr = (None, hr') \<and> hr_h hr' = hr_h hr"
proof -
  obtain d e hr' where h: "HashingReader_Read hr 1 = ((d, e), hr')" by (metis prod.exhaust)
  then have r: "rd_Read (hr_r hr) 1 = ((d, e), hr_r hr')" "hr_h hr' = hr_h hr @ d"
    by (simp_all add: HashingReader_Read_eq)
  from rd_Read_data [OF assms(1) _ r(1)] assms(2,3)
  have "d = []" "e = None \<or> e = Some EOF" by (cases e; simp)+
  with h r(2) show ?thesis by (auto simp: EnsureNoExtra_def)
qed

section \<open>Copying\<close>

lemma counter_overflow_iff:
  "k > 0 \<Longrightarrow> k < 2 ^ 64 \<Longrightarrow> (x :: u64) > NOT 0 - of_nat k \<longleftrightarrow> 2 ^ 64 \<le> uint x + int k"
proof -
  assume k: "k > 0" "k < 2 ^ 64"
  then have "uint (NOT 0 - of_nat k :: u64) = 2 ^ 64 - 1 - int k"
    by (simp add: uint_word_ariths unsigned_of_nat take_bit_eq_mod)
  then show ?thesis unfolding word_less_def by linarith
qed

lemma uint_add_of_nat: "uint (x :: u64) + int k < 2 ^ 64 \<Longrightarrow> uint (x + of_nat k) = uint x + int k"
proof -
  assume a: "uint x + int k < 2 ^ 64"
  then have "int k < 2 ^ 64" using uint_ge_0 [of x] by linarith
  then have "k mod 2 ^ 64 = k" by simp
  with a show ?thesis by (simp add: uint_word_ariths unsigned_of_nat take_bit_eq_mod)
qed

lemma copy_write_Inr:
  assumes "copy_write dst d written = Inr (written', dst')" "length d < 2 ^ 64"
  shows "w_out dst' = w_out dst @ d \<and> uint written' = uint written + int (length d)"
proof (cases "d = []")
  case True
  with assms show ?thesis by (simp add: copy_write_def)
next
  case False
  obtain nw ew d1 where w: "w_Write dst d = ((nw, ew), d1)" by (metis prod.exhaust)
  with assms False have *: "nw = length d" "\<not> written > NOT 0 - of_nat nw"
      "written' = written + of_nat nw" "dst' = d1"
    by (auto simp: copy_write_def Let_def split: if_splits)
  with counter_overflow_iff [of nw written] False assms(2)
  have "uint written + int (length d) < 2 ^ 64" by auto
  moreover have "w_out d1 = w_out dst @ d"
    using w *(1) by (auto simp: w_Write_def split: option.splits if_splits)
  ultimately show ?thesis using * uint_add_of_nat by auto
qed

lemma CopyWithContext_unfold:
  assumes "buf > 0" "ctx i = None" "rd_Read src buf = ((d, er), src')"
  shows "copy_write dst d written = Inl ret \<Longrightarrow> CopyWithContext ctx i dst src buf written = Some ret"
    and "copy_write dst d written = Inr (w, dst') \<Longrightarrow> er = None \<Longrightarrow>
      CopyWithContext ctx i dst src buf written = CopyWithContext ctx (i + 1) dst' src' buf w"
    and "copy_write dst d written = Inr (w, dst') \<Longrightarrow> er = Some e \<Longrightarrow>
      CopyWithContext ctx i dst src buf written = Some (w, if e = EOF then None else Some e, dst')"
  using assms by (subst CopyWithContext.simps, simp)+

lemma copy_write_Inl_err: "copy_write dst d written = Inl (n, e, dst') \<Longrightarrow> e \<noteq> None"
  by (auto simp: copy_write_def Let_def split: if_splits prod.splits)

lemma CopyWithContext_exact:
  assumes "rd_ok src" "0 < buf" "buf < 2 ^ 64"
    and "CopyWithContext ctx i dst src buf written = Some (n, None, dst')"
  shows "w_out dst' = w_out dst @ rd_data src \<and> uint n = uint written + int (length (rd_data src)) \<and>
    rd_end src = EOF"
  using assms
proof (induction ctx i dst src buf written rule: CopyWithContext.induct)
  case (1 ctx i dst src buf written)
  obtain d er src1 where r: "rd_Read src buf = ((d, er), src1)" by (metis prod.exhaust)
  from "1.prems"(2,4) have c: "ctx i = None"
    by (subst (asm) CopyWithContext.simps) (auto split: option.splits)
  note step = CopyWithContext_unfold [where ctx = ctx, OF "1.prems"(2) c r]
  have le: "length d < 2 ^ 64" using rd_Read_le [OF r] "1.prems"(3) by linarith
  note data = rd_Read_data [OF "1.prems"(1,2) r]
  show ?case
  proof (cases "copy_write dst d written")
    case (Inl ret)
    with step(1) "1.prems"(4) have "copy_write dst d written = Inl (n, None, dst')" by simp
    with copy_write_Inl_err show ?thesis by blast
  next
    case (Inr p)
    then obtain w d1 where p: "copy_write dst d written = Inr (w, d1)" by (cases p) auto
    note cw = copy_write_Inr [OF p le]
    show ?thesis
    proof (cases er)
      case None
      with "1.IH" [OF _ c r [symmetric] refl p refl None] step(2) [OF p] data cw "1.prems"
      show ?thesis by auto
    next
      case (Some e)
      with step(3) [OF p] data cw "1.prems"(4) show ?thesis by (auto split: if_splits)
    qed
  qed
qed

lemma CopyWithContext_returns:
  "0 < buf \<Longrightarrow> \<exists>n e dst'. CopyWithContext ctx i dst src buf written = Some (n, e, dst')"
proof (induction ctx i dst src buf written rule: CopyWithContext.induct)
  case (1 ctx i dst src buf written)
  obtain d er src1 where r: "rd_Read src buf = ((d, er), src1)" by (metis prod.exhaust)
  show ?case
  proof (cases "ctx i")
    case None
    note step = CopyWithContext_unfold [where ctx = ctx, OF "1.prems" None r]
    show ?thesis
    proof (cases "copy_write dst d written")
      case (Inl ret)
      with step(1) show ?thesis by (cases ret) auto
    next
      case (Inr p)
      then obtain w d1 where p: "copy_write dst d written = Inr (w, d1)" by (cases p) auto
      with "1.IH" [OF _ None r [symmetric] refl p refl] step(2,3) [OF p] "1.prems"
      show ?thesis by (cases er) auto
    qed
  qed (use "1.prems" in \<open>subst CopyWithContext.simps, simp\<close>)
qed

end
