(* ===== verification/FileReader.thy ===== *)
theory FileReader
  imports Streams Entries
begin

text \<open>
  \<^verbatim>\<open>core/internal/file\<close>: entry validation (\<^verbatim>\<open>validation.go\<close>), the pool of zstd decoders
  (\<^verbatim>\<open>decompress.go\<close>) and the verifying reader (\<^verbatim>\<open>reader.go\<close>).

  SHA-256 is the argument \<open>sha256\<close>; the zstd library is the argument \<open>Z\<close>, what its
  \<^verbatim>\<open>NewReader\<close> and \<^verbatim>\<open>Reset\<close> make of an input reader under the decoder options. A source that
  also implements \<^verbatim>\<open>ReadRange\<close> has \<open>src_range\<close>.
\<close>

section \<open>Definitions\<close>

subsection \<open>Validation\<close>

definition ValidateForRead :: "Entry \<Rightarrow> i64 \<Rightarrow> u64 \<Rightarrow> err option" where
  "ValidateForRead entry sourceSize maxFileSize =
     (if sourceSize < 0 then Some ErrSizeOverflow
      else if maxFileSize > 0 \<and> (DataSize entry > maxFileSize \<or> OriginalSize entry > maxFileSize)
      then Some ErrSizeOverflow
      else let (end', ok) = AddUint64 (DataOffset entry) (DataSize entry)
           in if \<not> ok then Some ErrSizeOverflow
              else if end' > word_of_int sourceSize then Some ErrSizeOverflow
              else None)"

definition ValidateHash :: "Entry \<Rightarrow> err option" where
  "ValidateHash entry =
     (if length (Hash entry) \<noteq> 32 then Some (Errorf ''invalid hash length: %d'' [] [int (length (Hash entry))])
      else None)"

definition ValidateCompression :: "Entry \<Rightarrow> err option" where
  "ValidateCompression entry =
     (if Compression entry = CompressionNone \<and> DataSize entry \<noteq> OriginalSize entry
      then Some (Wrap ''size mismatch'' ErrDecompression) else None)"

definition ValidateAll :: "Entry \<Rightarrow> i64 \<Rightarrow> u64 \<Rightarrow> err option" where
  "ValidateAll entry sourceSize maxFileSize =
     (case ValidateForRead entry sourceSize maxFileSize of
        Some err \<Rightarrow> Some err
      | None \<Rightarrow> (case ValidateHash entry of
          Some err \<Rightarrow> Some err
        | None \<Rightarrow> ValidateCompression entry))"

subsection \<open>Decoders\<close>

datatype dopt = DecoderConcurrency int | DecoderLowmem bool | DecoderMaxMemory u64

record zstd_lib =
  z_NewReader :: "dopt list \<Rightarrow> reader \<Rightarrow> reader res"
  z_Reset :: "dopt list \<Rightarrow> reader \<Rightarrow> reader res"
  z_NewNil :: "dopt list \<Rightarrow> bool"

record DecompressPool =
  p_maxDecoderMemory :: u64
  p_decoderConcurrencySet :: bool
  p_decoderConcurrency :: int
  p_decoderLowmemSet :: bool
  p_decoderLowmem :: bool

definition withDecoderConcurrency :: "int \<Rightarrow> DecompressPool \<Rightarrow> DecompressPool" where
  "withDecoderConcurrency n p =
     p\<lparr>p_decoderConcurrency := (if n < 0 then 0 else n), p_decoderConcurrencySet := True\<rparr>"

definition withDecoderLowmem :: "bool \<Rightarrow> DecompressPool \<Rightarrow> DecompressPool" where
  "withDecoderLowmem b p = p\<lparr>p_decoderLowmem := b, p_decoderLowmemSet := True\<rparr>"

definition NewDecompressPool :: "u64 \<Rightarrow> (DecompressPool \<Rightarrow> DecompressPool) list \<Rightarrow> DecompressPool" where
  "NewDecompressPool maxMemory opts =
     fold (\<lambda>opt p. opt p) opts
       \<lparr>p_maxDecoderMemory = maxMemory, p_decoderConcurrencySet = True, p_decoderConcurrency = 1,
        p_decoderLowmemSet = True, p_decoderLowmem = False\<rparr>"

definition decoder_opts :: "DecompressPool \<Rightarrow> dopt list" where
  "decoder_opts p =
     (if p_decoderConcurrencySet p then [DecoderConcurrency (p_decoderConcurrency p)] else []) @
     (if p_decoderLowmemSet p then [DecoderLowmem (p_decoderLowmem p)] else []) @
     (if p_maxDecoderMemory p \<noteq> 0 then [DecoderMaxMemory (p_maxDecoderMemory p)] else [])"

definition newDecoder :: "zstd_lib \<Rightarrow> DecompressPool option \<Rightarrow> reader \<Rightarrow> reader res" where
  "newDecoder Z p r =
     (case p of
        None \<Rightarrow> z_NewReader Z [] r
      | Some p \<Rightarrow> let opts = decoder_opts p
                  in if length opts = 0 then z_NewReader Z [] r else z_NewReader Z opts r)"

text \<open>
  \<^verbatim>\<open>DecompressPool.Get\<close>: a pooled decoder (made by the pool's \<^verbatim>\<open>New\<close> from a nil reader, which may
  fail) is reset to the input; when that fails a new decoder is made.
\<close>

definition DecompressPool_Get :: "zstd_lib \<Rightarrow> DecompressPool option \<Rightarrow> reader \<Rightarrow> reader res" where
  "DecompressPool_Get Z p r =
     (case p of
        None \<Rightarrow> newDecoder Z None r
      | Some q \<Rightarrow>
          if \<not> z_NewNil Z (decoder_opts q) then newDecoder Z p r
          else case z_Reset Z (decoder_opts q) r of
                 Inl err \<Rightarrow> newDecoder Z p r
               | Inr dec \<Rightarrow> Inr dec)"

subsection \<open>The verifying reader\<close>

definition DefaultMaxFileSize :: u64 where
  "DefaultMaxFileSize = 268435456"

definition DefaultMaxDecoderMemory :: u64 where
  "DefaultMaxDecoderMemory = 268435456"

record source =
  src_at :: reader_at
  src_size :: i64
  src_id :: string
  src_range :: "(i64 \<Rightarrow> i64 \<Rightarrow> reader res) option"

record Reader =
  r_source :: source
  r_maxFileSize :: u64
  r_maxDecoderMemory :: u64
  r_decoderConcurrencySet :: bool
  r_decoderConcurrency :: int
  r_decoderLowmemSet :: bool
  r_decoderLowmem :: bool
  r_pool :: "DecompressPool option"

definition WithMaxFileSize :: "u64 \<Rightarrow> Reader \<Rightarrow> Reader" where
  "WithMaxFileSize limit r = r\<lparr>r_maxFileSize := limit\<rparr>"

definition WithMaxDecoderMemory :: "u64 \<Rightarrow> Reader \<Rightarrow> Reader" where
  "WithMaxDecoderMemory limit r = r\<lparr>r_maxDecoderMemory := limit\<rparr>"

definition WithDecoderConcurrency :: "int \<Rightarrow> Reader \<Rightarrow> Reader" where
  "WithDecoderConcurrency n r =
     r\<lparr>r_decoderConcurrency := (if n < 0 then 0 else n), r_decoderConcurrencySet := True\<rparr>"

definition WithDecoderLowmem :: "bool \<Rightarrow> Reader \<Rightarrow> Reader" where
  "WithDecoderLowmem enabled r = r\<lparr>r_decoderLowmem := enabled, r_decoderLowmemSet := True\<rparr>"

definition NewReader :: "source \<Rightarrow> (Reader \<Rightarrow> Reader) list \<Rightarrow> Reader" where
  "NewReader src opts =
     (let r = fold (\<lambda>opt r. opt r) opts
            \<lparr>r_source = src, r_maxFileSize = DefaultMaxFileSize, r_maxDecoderMemory = DefaultMaxDecoderMemory,
             r_decoderConcurrencySet = False, r_decoderConcurrency = 0, r_decoderLowmemSet = False,
             r_decoderLowmem = False, r_pool = None\<rparr>;
          poolOpts =
            (if r_decoderConcurrencySet r then [withDecoderConcurrency (r_decoderConcurrency r)] else []) @
            (if r_decoderLowmemSet r then [withDecoderLowmem (r_decoderLowmem r)] else [])
      in r\<lparr>r_pool := Some (NewDecompressPool (r_maxDecoderMemory r) poolOpts)\<rparr>)"

definition sectionReader :: "Reader \<Rightarrow> Entry \<Rightarrow> reader res" where
  "sectionReader r entry =
     bindE (ToInt64 (DataOffset entry) ErrSizeOverflow) (\<lambda>offset.
     bindE (ToInt64 (DataSize entry) ErrSizeOverflow) (\<lambda>len.
     Inr (NewSectionReader (src_at (r_source r)) offset len)))"

definition rangeReader :: "Entry \<Rightarrow> (i64 \<Rightarrow> i64 \<Rightarrow> reader res) \<Rightarrow> reader res" where
  "rangeReader entry ReadRange =
     bindE (ToInt64 (DataOffset entry) ErrSizeOverflow) (\<lambda>offset.
     bindE (ToInt64 (DataSize entry) ErrSizeOverflow) (\<lambda>len.
     if len = 0 then Inr (Chunks [] EOF False) else ReadRange offset len))"

definition entryReader :: "zstd_lib \<Rightarrow> Reader \<Rightarrow> Entry \<Rightarrow> reader \<Rightarrow> reader res" where
  "entryReader Z r entry section' =
     (if Compression entry = CompressionNone then Inr section'
      else if Compression entry = CompressionZstd then
        (case src_range (r_source r) of
           Some rr \<Rightarrow> mapErr (\<lambda>_. Wrap ''%v'' ErrDecompression)
             (bindE (rangeReader entry rr) (DecompressPool_Get Z (r_pool r)))
         | None \<Rightarrow> mapErr (\<lambda>_. Wrap ''%v'' ErrDecompression) (DecompressPool_Get Z (r_pool r) section'))
      else Inl (Errorf ''unknown compression algorithm: %d'' [] [uint (Compression entry)]))"

definition mapReadError :: "Entry \<Rightarrow> int \<Rightarrow> int \<Rightarrow> err \<Rightarrow> err" where
  "mapReadError entry n expected err =
     (if Compression entry = CompressionNone then
        if err = EOF \<or> err = ErrUnexpectedEOF
        then Errorf ''read %s: short read (%d of %d bytes)'' [Path entry] [n, expected]
        else Wrap (''read '' @ Path entry) err
      else if err = EOF \<or> err = ErrUnexpectedEOF then Wrap ''unexpected EOF'' ErrDecompression
      else Wrap ''%v'' ErrDecompression)"

definition readContentAndHash :: "(bytes \<Rightarrow> bytes) \<Rightarrow> Entry \<Rightarrow> reader \<Rightarrow> (bytes \<times> bytes) res" where
  "readContentAndHash sha256 entry reader =
     (case ToInt (OriginalSize entry) ErrSizeOverflow of
        Inl err \<Rightarrow> Inl (Wrap (''read '' @ Path entry) err)
      | Inr contentSize \<Rightarrow>
          (case HashingReader_ReadFull \<lparr>hr_r = reader, hr_h = []\<rparr> (nat contentSize) [] of
             ((content, Some err), hr) \<Rightarrow> Inl (mapReadError entry (int (length content)) contentSize err)
           | ((content, None), hr) \<Rightarrow>
               (case EnsureNoExtra hr of
                  (Some err, hr) \<Rightarrow> Inl err
                | (None, hr) \<Rightarrow> Inr (content, HashingReader_Sum sha256 hr))))"

definition ReadAll :: "(bytes \<Rightarrow> bytes) \<Rightarrow> zstd_lib \<Rightarrow> Reader \<Rightarrow> Entry \<Rightarrow> bytes res" where
  "ReadAll sha256 Z r entry =
     (case ValidateAll entry (src_size (r_source r)) (r_maxFileSize r) of
        Some err \<Rightarrow> Inl (Wrap (''read '' @ Path entry) err)
      | None \<Rightarrow>
          bindE (mapErr (Wrap (''read '' @ Path entry)) (sectionReader r entry)) (\<lambda>section'.
          bindE (entryReader Z r entry section') (\<lambda>reader.
          bindE (readContentAndHash sha256 entry reader) (\<lambda>(content, sum).
          if sum \<noteq> Hash entry then Inl ErrHashMismatch else Inr content))))"

section \<open>Validation\<close>

lemma uint_word_of_i64: "0 \<le> n \<Longrightarrow> n < 2 ^ 63 \<Longrightarrow> uint (word_of_int n :: u64) = n"
  by (simp add: uint_word_of_int)

text \<open>
  The bounds check is exact: it accepts an entry just when its data range, added without
  wrap-around, lies within the source and its sizes respect the limit.
\<close>

lemma ValidateForRead_None:
  assumes "n < 2 ^ 63"
  shows "ValidateForRead e n m = None \<longleftrightarrow>
    0 \<le> n \<and> (m = 0 \<or> DataSize e \<le> m \<and> OriginalSize e \<le> m) \<and>
    uint (DataOffset e) + uint (DataSize e) \<le> n"
proof (cases "0 \<le> n")
  case True
  obtain s ok where a: "AddUint64 (DataOffset e) (DataSize e) = (s, ok)" by (metis prod.exhaust)
  have m: "m > 0 \<longleftrightarrow> m \<noteq> 0" by (simp add: word_gt_0)
  have n: "uint (word_of_int n :: u64) = n" using True assms by (rule uint_word_of_i64)
  show ?thesis
  proof (cases ok)
    case True
    with a have "uint s = uint (DataOffset e) + uint (DataSize e)" by (simp add: AddUint64_uint)
    with a True \<open>0 \<le> n\<close> n show ?thesis
      unfolding ValidateForRead_def m by (auto simp: word_less_def word_le_def)
  next
    case False
    with a have "2 ^ 64 \<le> uint (DataOffset e) + uint (DataSize e)" by (simp add: AddUint64_False)
    with a False assms show ?thesis by (auto simp: ValidateForRead_def)
  qed
qed (simp add: ValidateForRead_def)

lemma ValidateForRead_err: "ValidateForRead e n m = Some err \<Longrightarrow> err = ErrSizeOverflow"
  by (auto simp: ValidateForRead_def Let_def split: if_splits prod.splits)

lemma ValidateAll_None:
  "ValidateAll e n m = None \<longleftrightarrow>
     ValidateForRead e n m = None \<and> length (Hash e) = 32 \<and>
     (Compression e = CompressionNone \<longrightarrow> DataSize e = OriginalSize e)"
  by (auto simp: ValidateAll_def ValidateHash_def ValidateCompression_def split: option.splits)

section \<open>Sections\<close>

text \<open>The bytes of an entry in the data blob.\<close>

definition entry_data :: "bytes \<Rightarrow> Entry \<Rightarrow> bytes" where
  "entry_data content e = take (unat (DataSize e)) (drop (unat (DataOffset e)) content)"

lemma ValidateForRead_ToInt64:
  assumes "ValidateForRead e n m = None" "n < 2 ^ 63"
  shows "ToInt64 (DataOffset e) ErrSizeOverflow = Inr (uint (DataOffset e))"
    and "ToInt64 (DataSize e) ErrSizeOverflow = Inr (uint (DataSize e))"
    and "uint (DataOffset e) + uint (DataSize e) \<le> MaxInt64"
proof -
  from assms show le: "uint (DataOffset e) + uint (DataSize e) \<le> MaxInt64"
    by (auto simp: ValidateForRead_None MaxInt64_def)
  then have "uint (DataOffset e) \<le> MaxInt64" "uint (DataSize e) \<le> MaxInt64"
    using uint_ge_0 [of "DataOffset e"] uint_ge_0 [of "DataSize e"] by linarith+
  then show "ToInt64 (DataOffset e) ErrSizeOverflow = Inr (uint (DataOffset e))"
    "ToInt64 (DataSize e) ErrSizeOverflow = Inr (uint (DataSize e))"
    by (simp_all add: ToInt64_Inr_iff)
qed

lemma sectionReader_ok:
  assumes "ValidateForRead e (src_size (r_source r)) m = None" "src_size (r_source r) < 2 ^ 63"
  shows "sectionReader r e =
    Inr (SectionReader (src_at (r_source r)) (uint (DataOffset e)) (uint (DataOffset e) + uint (DataSize e)))"
  using ValidateForRead_ToInt64 [OF assms]
  by (simp add: sectionReader_def NewSectionReader_def add.commute)

lemma section_data:
  "rd_data (SectionReader ra (uint (DataOffset e)) (uint (DataOffset e) + uint (DataSize e))) =
   entry_data (ra_content ra) e"
  by (simp add: entry_data_def)

section \<open>Verified reads\<close>

lemma readContentAndHash_Inr:
  assumes "readContentAndHash sha256 e rd = Inr (content, s)"
  shows "s = sha256 content \<and> int (length content) = uint (OriginalSize e)"
proof -
  from assms have sz: "ToInt (OriginalSize e) ErrSizeOverflow = Inr (uint (OriginalSize e))"
    by (auto simp: readContentAndHash_def res_simps split: sum.splits)
  let ?n = "unat (OriginalSize e)"
  obtain d er hr where rf: "HashingReader_ReadFull \<lparr>hr_r = rd, hr_h = []\<rparr> ?n [] = ((d, er), hr)"
    by (metis prod.exhaust)
  from assms sz rf have er: "er = None"
    by (auto simp: readContentAndHash_def split: option.splits)
  obtain x hr' where ne: "EnsureNoExtra hr = (x, hr')" by fastforce
  from assms sz rf er ne have "x = None" "content = d" "s = sha256 (hr_h hr')"
    by (auto simp: readContentAndHash_def HashingReader_Sum_def split: option.splits)
  moreover have "hr_h hr = d" "ReadFull rd ?n [] = ((d, None), hr_r hr)"
    using HashingReader_ReadFull_hash [OF rf] er by simp_all
  ultimately show ?thesis
    using EnsureNoExtra_None ne ReadFull_length [of rd ?n "[]" d] by auto
qed

lemma readContentAndHash_ok:
  assumes "rd_ok rd" "int (length (rd_data rd)) = uint (OriginalSize e)" "rd_end rd = EOF"
    and "uint (OriginalSize e) \<le> MaxInt64"
  shows "readContentAndHash sha256 e rd = Inr (rd_data rd, sha256 (rd_data rd))"
proof -
  let ?n = "unat (OriginalSize e)"
  have n: "?n = length (rd_data rd)" using arg_cong [OF assms(2), of nat] by simp
  obtain r' where r': "ReadFull rd ?n [] = ((rd_data rd, None), r')" "rd_ok r'" "rd_data r' = []"
    "rd_end r' = EOF"
    using ReadFull_data [of rd ?n "[]"] assms(1,3) n by auto
  then have rf: "HashingReader_ReadFull \<lparr>hr_r = rd, hr_h = []\<rparr> ?n [] =
      ((rd_data rd, None), \<lparr>hr_r = r', hr_h = rd_data rd\<rparr>)"
    using HashingReader_ReadFull_eq [of "\<lparr>hr_r = rd, hr_h = []\<rparr>" ?n "[]"] by simp
  obtain hr' where "EnsureNoExtra \<lparr>hr_r = r', hr_h = rd_data rd\<rparr> = (None, hr')" "hr_h hr' = rd_data rd"
    using EnsureNoExtra_end [of "\<lparr>hr_r = r', hr_h = rd_data rd\<rparr>"] r' by auto
  moreover have "ToInt (OriginalSize e) ErrSizeOverflow = Inr (uint (OriginalSize e))"
    using assms(4) by (simp add: ToInt_Inr_iff)
  ultimately show ?thesis
    using rf by (simp add: readContentAndHash_def HashingReader_Sum_def)
qed

text \<open>
  Whatever the source, the decoder and the entry are: content that \<^verbatim>\<open>ReadAll\<close> returns has the
  recorded hash and exactly the recorded size, which respects the limit.
\<close>

lemma ReadAll_verified_aux:
  assumes "ReadAll sha256 Z r e = Inr content" "src_size (r_source r) < 2 ^ 63"
  shows "sha256 content = Hash e" "int (length content) = uint (OriginalSize e)" "length (Hash e) = 32"
    "r_maxFileSize r = 0 \<or> int (length content) \<le> uint (r_maxFileSize r)"
    "uint (DataOffset e) + uint (DataSize e) \<le> src_size (r_source r)"
proof -
  from assms(1) have v: "ValidateAll e (src_size (r_source r)) (r_maxFileSize r) = None"
    by (simp add: ReadAll_def split: option.splits)
  with assms(1) obtain rd where rc: "readContentAndHash sha256 e rd = Inr (content, Hash e)"
    by (auto simp: ReadAll_def res_simps split: if_splits)
  from v readContentAndHash_Inr [OF rc] assms(2)
  show "sha256 content = Hash e" "int (length content) = uint (OriginalSize e)" "length (Hash e) = 32"
    "r_maxFileSize r = 0 \<or> int (length content) \<le> uint (r_maxFileSize r)"
    "uint (DataOffset e) + uint (DataSize e) \<le> src_size (r_source r)"
    by (auto simp: ValidateAll_None ValidateForRead_None word_le_def)
qed

section \<open>Reads from a healthy source\<close>

text \<open>
  A source without faults that reports its real size, and whose \<^verbatim>\<open>ReadRange\<close>, if it has one,
  delivers the requested range.
\<close>

definition delivers :: "reader \<Rightarrow> bytes \<Rightarrow> bool" where
  "delivers r d \<longleftrightarrow> rd_ok r \<and> rd_data r = d \<and> rd_end r = EOF"

definition source_ok :: "source \<Rightarrow> bool" where
  "source_ok src \<longleftrightarrow>
     ra_fault (src_at src) = (\<lambda>_ _. None) \<and> src_size src = int (length (ra_content (src_at src))) \<and>
     src_size src < 2 ^ 63 \<and>
     (\<forall>rr off n. src_range src = Some rr \<longrightarrow> 0 \<le> off \<longrightarrow> 0 < n \<longrightarrow> off + n \<le> src_size src \<longrightarrow>
        (\<exists>r. rr off n = Inr r \<and> delivers r (take (nat n) (drop (nat off) (ra_content (src_at src))))))"

text \<open>The decoder turns the encoded bytes into \<open>d\<close>, when created and when reset.\<close>

definition zstd_decodes :: "zstd_lib \<Rightarrow> dopt list \<Rightarrow> bytes \<Rightarrow> bytes \<Rightarrow> bool" where
  "zstd_decodes Z opts enc d \<longleftrightarrow>
     (\<forall>r. delivers r enc \<longrightarrow>
        (\<exists>r'. z_NewReader Z opts r = Inr r' \<and> delivers r' d) \<and>
        (\<exists>r'. z_Reset Z opts r = Inr r' \<and> delivers r' d))"

lemma DecompressPool_Get_decodes:
  assumes "zstd_decodes Z (case p of None \<Rightarrow> [] | Some q \<Rightarrow> decoder_opts q) enc d" "delivers r enc"
  shows "\<exists>r'. DecompressPool_Get Z p r = Inr r' \<and> delivers r' d"
proof (cases p)
  case None
  with assms show ?thesis by (auto simp: DecompressPool_Get_def newDecoder_def zstd_decodes_def)
next
  case (Some q)
  with assms obtain r1 r2 where
    "z_NewReader Z (decoder_opts q) r = Inr r1" "delivers r1 d"
    "z_Reset Z (decoder_opts q) r = Inr r2" "delivers r2 d"
    by (auto simp: zstd_decodes_def)
  with Some show ?thesis
    by (cases "decoder_opts q") (auto simp: DecompressPool_Get_def newDecoder_def)
qed

lemma source_ok_section:
  assumes "source_ok (r_source r)" "ValidateForRead e (src_size (r_source r)) m = None"
  shows "\<exists>s. sectionReader r e = Inr s \<and> delivers s (entry_data (ra_content (src_at (r_source r))) e)"
proof -
  have "src_size (r_source r) < 2 ^ 63" using assms(1) by (simp add: source_ok_def)
  from sectionReader_ok [OF assms(2) this] show ?thesis
    using assms(1) section_data by (simp add: delivers_def source_ok_def)
qed

lemma entry_data_length:
  assumes "source_ok (r_source r)" "ValidateForRead e (src_size (r_source r)) m = None"
  shows "int (length (entry_data (ra_content (src_at (r_source r))) e)) = uint (DataSize e)"
proof -
  have "uint (DataOffset e) + uint (DataSize e) \<le> int (length (ra_content (src_at (r_source r))))"
    using assms by (simp add: source_ok_def ValidateForRead_None)
  then have "unat (DataOffset e) + unat (DataSize e) \<le> length (ra_content (src_at (r_source r)))"
    using uint_ge_0 [of "DataOffset e"] uint_ge_0 [of "DataSize e"] unfolding nat_uint_eq [symmetric] by linarith
  then show ?thesis by (simp add: entry_data_def)
qed

lemma validated_small:
  assumes "source_ok (r_source r)" "ValidateForRead e (src_size (r_source r)) m = None"
  shows "uint (DataSize e) \<le> MaxInt64"
  using ValidateForRead_ToInt64(2) [OF assms(2)] assms(1) by (simp add: source_ok_def ToInt64_Inr_iff)

lemma rangeReader_ok:
  assumes "source_ok (r_source r)" "src_range (r_source r) = Some rr"
    and v: "ValidateForRead e (src_size (r_source r)) m = None"
  shows "\<exists>s. rangeReader e rr = Inr s \<and> delivers s (entry_data (ra_content (src_at (r_source r))) e)"
proof -
  have lt: "src_size (r_source r) < 2 ^ 63" using assms(1) by (simp add: source_ok_def)
  with v have le: "uint (DataOffset e) + uint (DataSize e) \<le> src_size (r_source r)"
    by (simp add: ValidateForRead_None)
  note t = ValidateForRead_ToInt64(1,2) [OF v lt]
  show ?thesis
  proof (cases "uint (DataSize e) = 0")
    case True
    then have "unat (DataSize e) = 0" by (metis nat_uint_eq nat_zero_as_int)
    with True t show ?thesis by (simp add: rangeReader_def delivers_def entry_data_def)
  next
    case False
    then have "0 < uint (DataSize e)" using uint_ge_0 [of "DataSize e"] by linarith
    then obtain s where "rr (uint (DataOffset e)) (uint (DataSize e)) = Inr s"
      "delivers s (entry_data (ra_content (src_at (r_source r))) e)"
      using assms(1,2) le unfolding source_ok_def entry_data_def by force
    with t False show ?thesis by (simp add: rangeReader_def)
  qed
qed

lemma entryReader_raw: "Compression e = CompressionNone \<Longrightarrow> entryReader Z r e s = Inr s"
  by (simp add: entryReader_def)

lemma entryReader_zstd:
  assumes "source_ok (r_source r)" "ValidateForRead e (src_size (r_source r)) m = None"
    and "Compression e = CompressionZstd" "sectionReader r e = Inr s"
    and z: "zstd_decodes Z (case r_pool r of None \<Rightarrow> [] | Some q \<Rightarrow> decoder_opts q)
      (entry_data (ra_content (src_at (r_source r))) e) d"
  shows "\<exists>r'. entryReader Z r e s = Inr r' \<and> delivers r' d"
proof -
  have ne: "CompressionZstd \<noteq> CompressionNone" by (simp add: CompressionZstd_def CompressionNone_def)
  show ?thesis
  proof (cases "src_range (r_source r)")
    case None
    from source_ok_section [OF assms(1,2)] assms(4)
    have "delivers s (entry_data (ra_content (src_at (r_source r))) e)" by auto
    from DecompressPool_Get_decodes [OF z this] None assms(3) ne show ?thesis
      by (auto simp: entryReader_def)
  next
    case (Some rr)
    from rangeReader_ok [OF assms(1) Some assms(2)] obtain s' where
      s': "rangeReader e rr = Inr s'" "delivers s' (entry_data (ra_content (src_at (r_source r))) e)" by blast
    from DecompressPool_Get_decodes [OF z s'(2)] s'(1) Some assms(3) ne show ?thesis
      by (auto simp: entryReader_def)
  qed
qed

lemma ReadAll_delivers:
  assumes "ValidateAll e (src_size (r_source r)) (r_maxFileSize r) = None"
    and "sectionReader r e = Inr s" "entryReader Z r e s = Inr rd" "delivers rd d"
    and "int (length d) = uint (OriginalSize e)" "uint (OriginalSize e) \<le> MaxInt64"
  shows "ReadAll sha256 Z r e = (if sha256 d = Hash e then Inr d else Inl ErrHashMismatch)"
  using assms readContentAndHash_ok [of rd e sha256] by (auto simp: ReadAll_def delivers_def)

end
