(* ===== verification/FileHandle.thy ===== *)
theory FileHandle
  imports FileReader Paths
begin

text \<open>
  \<^verbatim>\<open>core/internal/file/file.go\<close>: the streaming file with incremental hash verification, and the
  \<^verbatim>\<open>fs.FileInfo\<close> and \<^verbatim>\<open>fs.DirEntry\<close> values. A \<open>File\<close> carries the fields of the Go struct;
  the hash state is the bytes written to it, and \<open>f_release\<close> says whether the release function
  is set. Every operation returns its result and the next state.
\<close>

section \<open>Definitions\<close>

record File =
  f_reader :: Reader
  f_entry :: Entry
  f_verifyOnClose :: bool
  f_r :: reader
  f_release :: bool
  f_hasher :: bytes
  f_remaining :: u64
  f_initialized :: bool
  f_initErr :: "err option"
  f_verified :: bool
  f_verifyErr :: "err option"

definition OpenFile :: "Reader \<Rightarrow> Entry \<Rightarrow> bool \<Rightarrow> File" where
  "OpenFile r entry verifyOnClose =
     \<lparr>f_reader = r, f_entry = entry, f_verifyOnClose = verifyOnClose, f_r = Chunks [] EOF False,
      f_release = False, f_hasher = [], f_remaining = 0, f_initialized = False, f_initErr = None,
      f_verified = False, f_verifyErr = None\<rparr>"

definition init_setup :: "zstd_lib \<Rightarrow> File \<Rightarrow> reader res" where
  "init_setup Z f =
     (let e = f_entry f; r = f_reader f
      in case ValidateForRead e (src_size (r_source r)) (r_maxFileSize r) of
           Some err \<Rightarrow> Inl (Wrap (''read '' @ Path e) err)
         | None \<Rightarrow> (case ValidateHash e of
             Some err \<Rightarrow> Inl (Wrap (''read '' @ Path e) err)
           | None \<Rightarrow> (case ValidateCompression e of
               Some err \<Rightarrow> Inl err
             | None \<Rightarrow> bindE (sectionReader r e) (entryReader Z r e))))"

definition init :: "zstd_lib \<Rightarrow> File \<Rightarrow> err option \<times> File" where
  "init Z f =
     (if f_initialized f then (f_initErr f, f)
      else let f = f\<lparr>f_initialized := True\<rparr>
           in case init_setup Z f of
                Inl err \<Rightarrow> (Some err, f\<lparr>f_initErr := Some err\<rparr>)
              | Inr rd \<Rightarrow> (None, f\<lparr>f_r := rd, f_release := True, f_remaining := OriginalSize (f_entry f),
                                    f_hasher := []\<rparr>))"

definition verifyHash :: "(bytes \<Rightarrow> bytes) \<Rightarrow> File \<Rightarrow> err option \<times> File" where
  "verifyHash sha256 f =
     (if f_verified f then (f_verifyErr f, f)
      else let f = (if sha256 (f_hasher f) \<noteq> Hash (f_entry f) then f\<lparr>f_verifyErr := Some ErrHashMismatch\<rparr> else f);
               f = f\<lparr>f_verified := True\<rparr>
           in (f_verifyErr f, f))"

definition readExtra :: "(bytes \<Rightarrow> bytes) \<Rightarrow> File \<Rightarrow> (bytes \<times> err option) \<times> File" where
  "readExtra sha256 f =
     (let ((d, err), r') = rd_Read (f_r f) 1; f = f\<lparr>f_r := r'\<rparr>
      in if length d > 0 then (([], Some ErrSizeOverflow), f)
         else if err = Some EOF then
           (case verifyHash sha256 f of
              (Some verifyErr, f) \<Rightarrow> (([], Some verifyErr), f)
            | (None, f) \<Rightarrow> (([], Some EOF), f))
         else (([], err), f))"

text \<open>\<^verbatim>\<open>Read(p)\<close> with \<open>n = len(p)\<close>: the bytes stored in \<^verbatim>\<open>p\<close> and the error.\<close>

definition File_Read :: "(bytes \<Rightarrow> bytes) \<Rightarrow> zstd_lib \<Rightarrow> File \<Rightarrow> nat \<Rightarrow> (bytes \<times> err option) \<times> File" where
  "File_Read sha256 Z f n =
     (case init Z f of
        (Some err, f) \<Rightarrow> (([], Some err), f)
      | (None, f) \<Rightarrow>
          if f_verifyErr f \<noteq> None then (([], f_verifyErr f), f)
          else if n = 0 then (([], None), f)
          else if f_remaining f = 0 then readExtra sha256 f
          else
            let n = (if of_nat n > f_remaining f then unat (f_remaining f) else n);
                ((d, err), r') = rd_Read (f_r f) n;
                f = f\<lparr>f_r := r'\<rparr>;
                f = (if length d > 0
                     then f\<lparr>f_hasher := f_hasher f @ d, f_remaining := f_remaining f - ulen d\<rparr> else f)
            in if err = Some EOF then
                 if f_remaining f \<noteq> 0 then ((d, Some (Wrap ''unexpected EOF'' ErrDecompression)), f)
                 else (case verifyHash sha256 f of
                         (Some verifyErr, f) \<Rightarrow> ((d, Some verifyErr), f)
                       | (None, f) \<Rightarrow> ((d, Some EOF), f))
               else ((d, err), f))"

definition File_ReadAt ::
  "zstd_lib \<Rightarrow> File \<Rightarrow> nat \<Rightarrow> i64 \<Rightarrow> (bytes \<times> err option) \<times> File" where
  "File_ReadAt Z f n off =
     (case init Z f of
        (Some err, f) \<Rightarrow> (([], Some err), f)
      | (None, f) \<Rightarrow>
          if f_verifyErr f \<noteq> None then (([], f_verifyErr f), f)
          else if n = 0 then (([], None), f)
          else if off < 0 then (([], Some (Errorf ''read at %d: negative offset'' [] [off])), f)
          else if Compression (f_entry f) \<noteq> CompressionNone
          then (([], Some (Errorf ''read at %s: unsupported compression'' [Path (f_entry f)] [])), f)
          else case ToInt64 (OriginalSize (f_entry f)) ErrSizeOverflow of
            Inl err \<Rightarrow> (([], Some err), f)
          | Inr sz \<Rightarrow>
              if off \<ge> sz then (([], Some EOF), f)
              else
                let expected = (if sz - off < int n then nat (sz - off) else n)
                in case ToInt64 (DataOffset (f_entry f)) ErrSizeOverflow of
                  Inl err \<Rightarrow> (([], Some err), f)
                | Inr dataOffset \<Rightarrow>
                    let (d, err) = ra_ReadAt (src_at (r_source (f_reader f))) expected (add_i64 dataOffset off);
                        err = (if err = Some EOF \<and> length d = expected then None else err)
                    in if err \<noteq> None then ((d, err), f)
                       else if expected < n then ((d, Some EOF), f)
                       else ((d, None), f))"
text \<open>A successful read uses up something of the underlying reader: the drain of \<^verbatim>\<open>Close\<close> ends.\<close>

lemma init_initialized: "init Z f = (e, f') \<Longrightarrow> f_initialized f'"
  by (auto simp: init_def Let_def split: if_splits sum.splits)

lemma init_again: "f_initialized f \<Longrightarrow> init Z f = (e, f') \<Longrightarrow> f' = f \<and> e = f_initErr f"
  by (auto simp: init_def)

lemma verifyHash_r: "verifyHash sha256 f = (e, f') \<Longrightarrow> f_r f' = f_r f \<and> f_initialized f' = f_initialized f"
  by (auto simp: verifyHash_def Let_def split: if_splits)

lemma readExtra_None:
  assumes "readExtra sha256 f = ((d, None), f')"
  shows "f_initialized f' = f_initialized f \<and> rd_size (f_r f') < rd_size (f_r f)"
proof -
  obtain x e r' where r: "rd_Read (f_r f) 1 = ((x, e), r')" by (metis prod.exhaust)
  with assms have "e = None" "f' = f\<lparr>f_r := r'\<rparr>"
    by (auto simp: readExtra_def Let_def split: if_splits prod.splits option.splits)
  with r rd_Read_decreases show ?thesis by simp
qed

lemma File_Read_None:
  assumes "File_Read sha256 Z f n = ((d, None), f')" "n > 0"
  shows "f_initialized f' \<and> (f_initialized f \<longrightarrow> rd_size (f_r f') < rd_size (f_r f))"
proof -
  obtain ie f1 where i: "init Z f = (ie, f1)" by fastforce
  with assms(1) have ie: "ie = None" "f_verifyErr f1 = None"
    by (auto simp: File_Read_def split: option.splits if_splits)
  have init: "f_initialized f1" "f_initialized f \<Longrightarrow> f1 = f"
    using i init_initialized init_again by blast+
  show ?thesis
  proof (cases "f_remaining f1 = 0")
    case True
    with assms i ie have "readExtra sha256 f1 = ((d, None), f')" by (simp add: File_Read_def)
    from readExtra_None [OF this] init show ?thesis by auto
  next
    case False
    let ?n = "if of_nat n > f_remaining f1 then unat (f_remaining f1) else n"
    have n: "?n > 0" using False assms(2) by (simp add: unat_gt_0)
    obtain x e r' where r: "rd_Read (f_r f1) ?n = ((x, e), r')" by (metis prod.exhaust)
    with assms False i ie have "e = None \<and> f_r f' = r' \<and> f_initialized f' = f_initialized f1"
      by (auto simp: File_Read_def Let_def split: if_splits option.splits prod.splits)
    then show ?thesis using rd_Read_decreases r n init by auto
  qed
qed

text \<open>\<^verbatim>\<open>Close\<close> and its loop that drains the rest of the file with a buffer of 32 KiB.\<close>

function close_drain :: "(bytes \<Rightarrow> bytes) \<Rightarrow> zstd_lib \<Rightarrow> File \<Rightarrow> err option \<times> File" where
  "close_drain sha256 Z f =
     (case File_Read sha256 Z f 32768 of
        ((d, Some err), f') \<Rightarrow> if err = EOF then (f_verifyErr f', f') else (Some err, f')
      | ((d, None), f') \<Rightarrow> close_drain sha256 Z f')"
  by pat_completeness auto
termination
proof (relation "measures [\<lambda>(sha256, Z, f). if f_initialized f then 0 else 1, \<lambda>(sha256, Z, f). rd_size (f_r f)]",
    goal_cases)
  case (2 sha256 Z f a b c d)
  then have "File_Read sha256 Z f 32768 = ((c, None), b)" by auto
  from File_Read_None [OF this] show ?case by auto
qed simp

definition File_Close :: "(bytes \<Rightarrow> bytes) \<Rightarrow> zstd_lib \<Rightarrow> File \<Rightarrow> err option \<times> File" where
  "File_Close sha256 Z f =
     (case init Z f of
        (Some err, f) \<Rightarrow> (Some err, f)
      | (None, f) \<Rightarrow>
          let (err, f) =
            (if f_verified f then (f_verifyErr f, f)
             else if \<not> f_verifyOnClose f then (None, f)
             else close_drain sha256 Z f)
          in (err, f\<lparr>f_release := False\<rparr>))"

text \<open>What \<^verbatim>\<open>io.Copy\<close> or \<^verbatim>\<open>io.ReadAll\<close> gets out of a file: the bytes up to the first error, and that error.\<close>

function file_stream :: "(bytes \<Rightarrow> bytes) \<Rightarrow> zstd_lib \<Rightarrow> File \<Rightarrow> stream \<times> File" where
  "file_stream sha256 Z f =
     (case File_Read sha256 Z f 32768 of
        ((d, Some err), f') \<Rightarrow> (\<lparr>s_data = d, s_end = err\<rparr>, f')
      | ((d, None), f') \<Rightarrow>
          (case file_stream sha256 Z f' of (st, f'') \<Rightarrow> (\<lparr>s_data = d @ s_data st, s_end = s_end st\<rparr>, f'')))"
  by pat_completeness auto
termination
proof (relation "measures [\<lambda>(sha256, Z, f). if f_initialized f then 0 else 1, \<lambda>(sha256, Z, f). rd_size (f_r f)]",
    goal_cases)
  case (2 sha256 Z f a b c d)
  then have "File_Read sha256 Z f 32768 = ((c, None), b)" by auto
  from File_Read_None [OF this] show ?case by auto
qed simp

subsection \<open>File information\<close>

record Info =
  i_entry :: Entry
  i_name :: string
  i_size :: i64

definition NewInfo :: "Entry \<Rightarrow> string \<Rightarrow> Info res" where
  "NewInfo entry name =
     bindE (ToInt64 (OriginalSize entry) ErrSizeOverflow)
       (\<lambda>sz. Inr \<lparr>i_entry = entry, i_name = name, i_size = sz\<rparr>)"

text \<open>\<^verbatim>\<open>fs.FileInfo\<close>: an \<^verbatim>\<open>Info\<close> or the \<^verbatim>\<open>DirInfo\<close> of a synthetic directory.\<close>

datatype FileInfo = FileI Info | DirI string

definition NewDirInfo :: "string \<Rightarrow> FileInfo" where
  "NewDirInfo name = DirI name"

fun fi_Name :: "FileInfo \<Rightarrow> string" where
  "fi_Name (FileI fi) = i_name fi"
| "fi_Name (DirI name) = name"

fun fi_Size :: "FileInfo \<Rightarrow> i64" where
  "fi_Size (FileI fi) = i_size fi"
| "fi_Size (DirI name) = 0"

fun fi_Mode :: "FileInfo \<Rightarrow> u32" where
  "fi_Mode (FileI fi) = Mode (i_entry fi)"
| "fi_Mode (DirI name) = ModeDir OR 493"

fun fi_IsDir :: "FileInfo \<Rightarrow> bool" where
  "fi_IsDir (FileI fi) = False"
| "fi_IsDir (DirI name) = True"

record DirEntry =
  de_info :: FileInfo
  de_infoErr :: "err option"

definition NewDirEntry :: "FileInfo \<Rightarrow> err option \<Rightarrow> DirEntry" where
  "NewDirEntry info err = \<lparr>de_info = info, de_infoErr = err\<rparr>"

definition de_Name :: "DirEntry \<Rightarrow> string" where
  "de_Name de = fi_Name (de_info de)"

definition de_IsDir :: "DirEntry \<Rightarrow> bool" where
  "de_IsDir de = fi_IsDir (de_info de)"

definition de_Type :: "DirEntry \<Rightarrow> u32" where
  "de_Type de = fi_Mode (de_info de) AND ModeType"

definition File_Stat :: "File \<Rightarrow> Info res" where
  "File_Stat f = NewInfo (f_entry f) (Base (Path (f_entry f)))"

declare close_drain.simps [simp del] file_stream.simps [simp del]

section \<open>Integrity of streamed content\<close>

text \<open>A caller that reads with the given buffer sizes until the first error.\<close>

fun File_reads :: "(bytes \<Rightarrow> bytes) \<Rightarrow> zstd_lib \<Rightarrow> File \<Rightarrow> nat list \<Rightarrow> bytes \<times> err option \<times> File" where
  "File_reads sha256 Z f [] = ([], None, f)"
| "File_reads sha256 Z f (n # ns) =
     (case File_Read sha256 Z f n of
        ((d, Some e), f') \<Rightarrow> (d, Some e, f')
      | ((d, None), f') \<Rightarrow> (case File_reads sha256 Z f' ns of (ds, e, f'') \<Rightarrow> (d @ ds, e, f'')))"

text \<open>
  The invariant of a file from which the bytes \<open>got\<close> were read: they are what was hashed, they
  and the remaining count make up the recorded size, and a verdict is only recorded at the end.
\<close>

definition file_inv :: "(bytes \<Rightarrow> bytes) \<Rightarrow> Entry \<Rightarrow> File \<Rightarrow> bytes \<Rightarrow> bool" where
  "file_inv sha256 e f got \<longleftrightarrow>
     f_entry f = e \<and>
     f_initErr f \<noteq> Some EOF \<and> (f_initErr f \<noteq> None \<longrightarrow> f_initialized f) \<and>
     f_verifyErr f \<in> {None, Some ErrHashMismatch} \<and>
     (f_verifyErr f \<noteq> None \<longrightarrow> f_verified f) \<and>
     (if f_initialized f \<and> f_initErr f = None
      then f_hasher f = got \<and> uint (f_remaining f) + int (length got) = uint (OriginalSize e) \<and>
        (f_verified f \<longrightarrow> f_remaining f = 0 \<and> (f_verifyErr f = None \<longrightarrow> sha256 got = Hash e))
      else got = [] \<and> \<not> f_verified f)"

lemma OpenFile_inv: "file_inv sha256 e (OpenFile r e v) []"
  by (simp add: file_inv_def OpenFile_def)

lemma init_setup_not_EOF: "init_setup Z f = Inl err \<Longrightarrow> err \<noteq> EOF"
  by (auto simp: init_setup_def Let_def res_simps ValidateCompression_def sectionReader_def entryReader_def mapErr_def
      split: option.splits if_splits sum.splits)

lemma init_inv: "file_inv sha256 e f got \<Longrightarrow> init Z f = (x, f') \<Longrightarrow>
  file_inv sha256 e f' got \<and> f_initErr f' = x \<and> f_initialized f'"
  by (auto simp: file_inv_def init_def Let_def dest: init_setup_not_EOF split: if_splits sum.splits)

lemma verifyHash_inv:
  assumes "file_inv sha256 e f got" "f_initialized f" "f_initErr f = None" "f_remaining f = 0"
    and "verifyHash sha256 f = (x, f')"
  shows "file_inv sha256 e f' got \<and> f_verifyErr f' = x \<and> x \<noteq> Some EOF \<and> f_verified f' \<and>
    (x = None \<longrightarrow> sha256 got = Hash e \<and> int (length got) = uint (OriginalSize e))"
  using assms by (auto simp: file_inv_def verifyHash_def Let_def split: if_splits)

lemma uint_sub_of_nat: "int k \<le> uint (x :: u64) \<Longrightarrow> uint (x - of_nat k) = uint x - int k"
proof -
  assume a: "int k \<le> uint x"
  with uint_bounded [of x] have "k < 2 ^ 64" by simp
  with a uint_bounded [of x] show ?thesis
    by (simp add: uint_word_ariths unsigned_of_nat take_bit_eq_mod)
qed

lemma readExtra_inv:
  assumes "file_inv sha256 e f got" "f_initialized f" "f_initErr f = None" "f_remaining f = 0"
    and "readExtra sha256 f = ((d, x), f')"
  shows "d = [] \<and> file_inv sha256 e f' got \<and>
    (x = Some EOF \<longrightarrow> f_verifyErr f' = None \<and> sha256 got = Hash e \<and> int (length got) = uint (OriginalSize e))"
proof -
  obtain y z r' where r: "rd_Read (f_r f) 1 = ((y, z), r')" by (metis prod.exhaust)
  define f1 where f1: "f1 = f\<lparr>f_r := r'\<rparr>"
  have inv1: "file_inv sha256 e f1 got" using assms(1) by (simp add: f1 file_inv_def)
  obtain v f2 where v: "verifyHash sha256 f1 = (v, f2)" by fastforce
  note vi = verifyHash_inv [OF inv1 _ _ _ v]
  show ?thesis
  proof (cases "y = [] \<and> z = Some EOF")
    case True
    with assms r v vi show ?thesis
      by (cases v) (auto simp: readExtra_def f1 [symmetric], auto simp: f1)
  next
    case False
    with assms r inv1 show ?thesis by (auto simp: readExtra_def f1 [symmetric] split: if_splits)
  qed
qed

lemma File_Read_inv:
  assumes inv: "file_inv sha256 e f got" and n: "n < 2 ^ 63"
    and rd: "File_Read sha256 Z f n = ((d, x), f')"
  shows "file_inv sha256 e f' (got @ d) \<and> (x = Some EOF \<longrightarrow> f_verifyErr f' = None \<and>
    sha256 (got @ d) = Hash e \<and> int (length (got @ d)) = uint (OriginalSize e))"
proof -
  obtain ie f1 where i: "init Z f = (ie, f1)" by fastforce
  note i1 = init_inv [OF inv i]
  consider (err) y where "ie = Some y" | (bad) "ie = None" "f_verifyErr f1 \<noteq> None"
    | (zero) "ie = None" "f_verifyErr f1 = None" "n = 0"
    | (extra) "ie = None" "f_verifyErr f1 = None" "n \<noteq> 0" "f_remaining f1 = 0"
    | (more) "ie = None" "f_verifyErr f1 = None" "n \<noteq> 0" "f_remaining f1 \<noteq> 0"
    by (cases ie) auto
  then show ?thesis
  proof cases
    case more
    let ?n = "if of_nat n > f_remaining f1 then unat (f_remaining f1) else n"
    have le: "int ?n \<le> uint (f_remaining f1)"
      using n by (auto simp: word_less_def unsigned_of_nat take_bit_eq_mod split: if_splits)
    obtain y z r' where r: "rd_Read (f_r f1) ?n = ((y, z), r')" by (metis prod.exhaust)
    have yle: "int (length y) \<le> uint (f_remaining f1)" using rd_Read_le [OF r] le by linarith
    define f2 where f2: "f2 = (if length y > 0 then f1\<lparr>f_r := r', f_hasher := f_hasher f1 @ y,
      f_remaining := f_remaining f1 - ulen y\<rparr> else f1\<lparr>f_r := r'\<rparr>)"
    have nv: "\<not> f_verified f1" using more i1 by (auto simp: file_inv_def)
    have inv2: "file_inv sha256 e f2 (got @ y)"
      using i1 nv more uint_sub_of_nat [OF yle] by (auto simp: file_inv_def f2)
    have st2: "f_initialized f2" "f_initErr f2 = None" using i1 more by (auto simp: f2)
    obtain v f3 where v: "verifyHash sha256 f2 = (v, f3)" by fastforce
    have "((d, x), f') = (if z = Some EOF then
         if f_remaining f2 \<noteq> 0 then ((y, Some (Wrap ''unexpected EOF'' ErrDecompression)), f2)
         else (case v of Some ve \<Rightarrow> ((y, Some ve), f3) | None \<Rightarrow> ((y, Some EOF), f3))
       else ((y, z), f2))"
      using rd i more r v
      by (auto simp: File_Read_def Let_def f2 [symmetric] split: option.splits if_splits prod.splits)
        (auto simp: f2 split: if_splits)
    with inv2 verifyHash_inv [OF inv2 st2 _ v] show ?thesis
      by (cases v) (auto split: if_splits)
  next
    case extra
    then have "readExtra sha256 f1 = ((d, x), f')" using rd i by (simp add: File_Read_def)
    from readExtra_inv [OF _ _ _ _ this] i1 extra show ?thesis by auto
  qed (use rd i i1 in \<open>auto simp: File_Read_def file_inv_def split: if_splits\<close>)
qed

lemma File_reads_inv:
  assumes "file_inv sha256 e f got" "\<forall>n\<in>set ns. n < 2 ^ 63" "File_reads sha256 Z f ns = (d, x, f')"
  shows "file_inv sha256 e f' (got @ d) \<and> (x = Some EOF \<longrightarrow> f_verifyErr f' = None \<and>
    sha256 (got @ d) = Hash e \<and> int (length (got @ d)) = uint (OriginalSize e))"
  using assms
proof (induction ns arbitrary: f got d)
  case (Cons n ns)
  obtain y z f1 where r: "File_Read sha256 Z f n = ((y, z), f1)" by (metis prod.exhaust)
  have n: "n < 2 ^ 63" using Cons.prems(2) by simp
  note inv1 = File_Read_inv [OF Cons.prems(1) n r]
  show ?case
  proof (cases z)
    case None
    obtain ds e' f2 where rs: "File_reads sha256 Z f1 ns = (ds, e', f2)" by (metis prod.exhaust)
    with None r Cons.prems(3) have "d = y @ ds" "e' = x" "f2 = f'" by auto
    with Cons.IH [of f1 "got @ y" ds] inv1 rs Cons.prems(2) show ?thesis by simp
  qed (use inv1 r Cons.prems(3) in auto)
qed simp

lemma close_drain_verified:
  "file_inv sha256 e f got \<Longrightarrow> close_drain sha256 Z f = (None, f') \<Longrightarrow>
   \<exists>rest. sha256 (got @ rest) = Hash e \<and> int (length (got @ rest)) = uint (OriginalSize e)"
proof (induction sha256 Z f arbitrary: got rule: close_drain.induct)
  case (1 sha256 Z f)
  obtain y z f1 where r: "File_Read sha256 Z f 32768 = ((y, z), f1)" by (metis prod.exhaust)
  have "(32768 :: nat) < 2 ^ 63" by simp
  note inv1 = File_Read_inv [OF "1.prems"(1) this r]
  show ?case
  proof (cases z)
    case None
    with r "1.prems"(2) have "close_drain sha256 Z f1 = (None, f')"
      by (simp add: close_drain.simps [of sha256 Z f])
    from "1.IH" [OF r [symmetric] refl None _ this, of "got @ y"] inv1 obtain rest where
      "sha256 ((got @ y) @ rest) = Hash e" "int (length ((got @ y) @ rest)) = uint (OriginalSize e)" by blast
    then show ?thesis by (metis append_assoc)
  next
    case (Some w)
    with r "1.prems"(2) have "w = EOF" by (simp add: close_drain.simps [of sha256 Z f] split: if_splits)
    with inv1 Some show ?thesis by auto
  qed
qed

lemma file_stream_inv:
  "file_inv sha256 e f got \<Longrightarrow> file_stream sha256 Z f = (st, f') \<Longrightarrow> file_inv sha256 e f' (got @ s_data st) \<and>
   (s_end st = EOF \<longrightarrow> sha256 (got @ s_data st) = Hash e \<and> int (length (got @ s_data st)) = uint (OriginalSize e))"
proof (induction sha256 Z f arbitrary: got st rule: file_stream.induct)
  case (1 sha256 Z f)
  obtain y z f1 where r: "File_Read sha256 Z f 32768 = ((y, z), f1)" by (metis prod.exhaust)
  have "(32768 :: nat) < 2 ^ 63" by simp
  note inv1 = File_Read_inv [OF "1.prems"(1) this r]
  show ?case
  proof (cases z)
    case None
    obtain st1 f2 where s1: "file_stream sha256 Z f1 = (st1, f2)" by fastforce
    with r None "1.prems"(2) have "st = \<lparr>s_data = y @ s_data st1, s_end = s_end st1\<rparr>"
      and s: "file_stream sha256 Z f1 = (st1, f')"
      by (simp_all add: file_stream.simps [of sha256 Z f])
    with "1.IH" [OF r [symmetric] refl None _ s, of "got @ y"] inv1 show ?thesis by simp
  next
    case (Some w)
    with r "1.prems"(2) have "st = \<lparr>s_data = y, s_end = w\<rparr>" "f' = f1"
      by (simp_all add: file_stream.simps [of sha256 Z f])
    with inv1 Some show ?thesis by simp
  qed
qed

lemma init_keeps: "init Z f = (x, f') \<Longrightarrow> f_verifyOnClose f' = f_verifyOnClose f"
  by (auto simp: init_def Let_def split: if_splits sum.splits)

lemma File_Close_verified:
  assumes "file_inv sha256 e f got" "f_verifyOnClose f" "File_Close sha256 Z f = (None, f')"
  shows "\<exists>rest. sha256 (got @ rest) = Hash e \<and> int (length (got @ rest)) = uint (OriginalSize e)"
proof -
  obtain ie f1 where i: "init Z f = (ie, f1)" by fastforce
  with assms(3) have ie: "ie = None" by (auto simp: File_Close_def split: option.splits)
  note i1 = init_inv [OF assms(1) i] and v = init_keeps [OF i]
  show ?thesis
  proof (cases "f_verified f1")
    case True
    with assms(3) i ie i1 have "sha256 got = Hash e" "int (length got) = uint (OriginalSize e)"
      by (auto simp: File_Close_def file_inv_def)
    then show ?thesis by (metis append_Nil2)
  next
    case False
    obtain x f2 where c: "close_drain sha256 Z f1 = (x, f2)" by fastforce
    with False assms(2,3) i ie v have "x = None" by (simp add: File_Close_def)
    with close_drain_verified c i1 show ?thesis by blast
  qed
qed

lemma File_Read_keeps: "File_Read sha256 Z f n = (r, f') \<Longrightarrow> f_verifyOnClose f' = f_verifyOnClose f"
  by (auto simp: File_Read_def readExtra_def verifyHash_def Let_def dest!: init_keeps
      split: prod.splits option.splits if_splits)

lemma File_reads_keeps: "File_reads sha256 Z f ns = (d, x, f') \<Longrightarrow> f_verifyOnClose f' = f_verifyOnClose f"
  by (induction ns arbitrary: f d) (auto dest!: File_Read_keeps split: prod.splits option.splits)

section \<open>Positioned reads\<close>

text \<open>
  \<^verbatim>\<open>ReadAt\<close> of an uncompressed file never leaves the entry: on a healthy source it returns the
  requested slice of the entry's data, with \<^verbatim>\<open>io.EOF\<close> when the slice is cut short.
\<close>

lemma init_raw:
  assumes "ValidateForRead e (src_size (r_source r)) (r_maxFileSize r) = None" "src_size (r_source r) < 2 ^ 63"
    and "Compression e = CompressionNone" "length (Hash e) = 32" "DataSize e = OriginalSize e"
  shows "\<exists>f1. init Z (OpenFile r e vc) = (None, f1) \<and> f_entry f1 = e \<and> f_reader f1 = r \<and> f_verifyErr f1 = None"
  using assms sectionReader_ok [OF assms(1,2)]
  by (simp add: init_def init_setup_def OpenFile_def ValidateHash_def ValidateCompression_def entryReader_raw)

lemma File_ReadAt_ok:
  assumes "source_ok (r_source r)" "Compression e = CompressionNone" "length (Hash e) = 32"
    and v: "ValidateForRead e (src_size (r_source r)) (r_maxFileSize r) = None"
    and sz: "DataSize e = OriginalSize e" and n: "n > 0" "0 \<le> off" "off < uint (OriginalSize e)"
  shows "fst (File_ReadAt Z (OpenFile r e vc) n off) =
    (take n (drop (nat off) (entry_data (ra_content (src_at (r_source r))) e)),
     if uint (OriginalSize e) - off < int n then Some EOF else None)"
proof -
  let ?src = "r_source r" and ?c = "ra_content (src_at (r_source r))"
  have lt: "src_size ?src < 2 ^ 63" and flt: "ra_fault (src_at ?src) = (\<lambda>_ _. None)"
    and len: "src_size ?src = int (length ?c)"
    using assms(1) by (simp_all add: source_ok_def)
  note t = ValidateForRead_ToInt64 [OF v lt]
  from v lt have le: "uint (DataOffset e) + uint (DataSize e) \<le> int (length ?c)"
    by (simp add: ValidateForRead_None len)
  have off0: "0 \<le> uint (DataOffset e) + off" using n(2) uint_ge_0 [of "DataOffset e"] by linarith
  define m where "m = (if uint (OriginalSize e) - off < int n then nat (uint (OriginalSize e) - off) else n)"
  have m: "int m \<le> uint (DataSize e) - off" "0 < m" using n sz by (auto simp: m_def)
  obtain y z where ra: "ra_ReadAt (src_at ?src) m (uint (DataOffset e) + off) = (y, z)" by fastforce
  have "off < uint (DataSize e)" using n(3) sz by simp
  then have add: "add_i64 (uint (DataOffset e)) off = uint (DataOffset e) + off"
    using le len lt off0 by (intro add_i64_id) linarith+
  have y: "y = take m (drop (nat (uint (DataOffset e) + off)) ?c)"
    and z: "z = None \<or> z = Some EOF"
    using ra_ReadAt_ok [OF flt off0 ra] by auto
  have "nat (uint (DataOffset e) + off) + m \<le> length ?c" using le m(1) off0 by linarith
  then have ylen: "length y = m" unfolding y by simp
  obtain k where k: "uint (OriginalSize e) = int k" "unat (OriginalSize e) = k"
    by (metis int_nat_eq nat_uint_eq uint_nonnegative)
  then have mm: "m = min n (unat (OriginalSize e) - nat off)"
    unfolding m_def k using n(2) by (auto simp: min_def nat_diff_distrib split: if_splits)
  have slice: "y = take n (drop (nat off) (entry_data ?c e))"
    unfolding y entry_data_def mm using n(2) sz by (simp add: drop_take nat_add_distrib add.commute)
  obtain f1 where f1: "init Z (OpenFile r e vc) = (None, f1)" "f_entry f1 = e" "f_reader f1 = r"
      "f_verifyErr f1 = None"
    using init_raw [OF v lt assms(2,3) sz] by blast
  have "uint (OriginalSize e) \<le> MaxInt64"
    using t(3) uint_ge_0 [of "DataOffset e"] unfolding sz by linarith
  then have os: "ToInt64 (OriginalSize e) ErrSizeOverflow = Inr (uint (OriginalSize e))"
    by (simp add: ToInt64_Inr_iff)
  from f1 n os t(1) ra z ylen assms(2) show ?thesis
    by (auto simp: File_ReadAt_def Let_def m_def [symmetric] add slice [symmetric])
      (auto simp: m_def split: if_splits)
qed

end
