(* ===== verification/Batch.thy ===== *)
theory Batch
  imports FileReader
begin

text \<open>
  \<^verbatim>\<open>core/internal/batch\<close>: grouping of adjacent entries (\<^verbatim>\<open>group.go\<close>), statistics (\<^verbatim>\<open>stats.go\<close>),
  the sink interface (\<^verbatim>\<open>sink.go\<close>) and the processor (\<^verbatim>\<open>batch.go\<close>) up to the serial loop; the workers
  are in \<^verbatim>\<open>Workers\<close>, the read-ahead pipeline in \<^verbatim>\<open>Pipeline\<close>.

  A sink is a record of operations over a state \<open>'s\<close> with committers \<open>'w\<close>; \<open>sk_PutBuffered\<close> is
  present when the sink implements \<^verbatim>\<open>BufferedSink\<close>. Progress reports and logging are left out.
\<close>

section \<open>Definitions\<close>

subsection \<open>Groups and statistics\<close>

record rangeGroup =
  g_start :: u64
  g_end :: u64
  g_entries :: "Entry list"

fun group_loop :: "rangeGroup list \<Rightarrow> rangeGroup \<Rightarrow> Entry list \<Rightarrow> rangeGroup list" where
  "group_loop groups current [] = groups @ [current]"
| "group_loop groups current (entry # es) =
     (let entryEnd = DataOffset entry + DataSize entry
      in if DataOffset entry = g_end current
         then group_loop groups (current\<lparr>g_end := entryEnd, g_entries := g_entries current @ [entry]\<rparr>) es
         else group_loop (groups @ [current])
                \<lparr>g_start = DataOffset entry, g_end = entryEnd, g_entries = [entry]\<rparr> es)"

text \<open>The slice must be nonempty: on an empty one the code panics, \<open>None\<close>.\<close>

definition groupAdjacentEntries :: "Entry list \<Rightarrow> rangeGroup list option" where
  "groupAdjacentEntries entries =
     (case entries of
        [] \<Rightarrow> None
      | e # es \<Rightarrow> Some (group_loop []
          \<lparr>g_start = DataOffset e, g_end = DataOffset e + DataSize e, g_entries = [e]\<rparr> es))"

record ProcessStats =
  Processed :: int
  Skipped :: int
  TotalBytes :: u64

abbreviation no_stats :: ProcessStats where
  "no_stats \<equiv> \<lparr>Processed = 0, Skipped = 0, TotalBytes = 0\<rparr>"

definition stats_add :: "ProcessStats \<Rightarrow> ProcessStats \<Rightarrow> ProcessStats" where
  "stats_add s other =
     \<lparr>Processed = Processed s + Processed other, Skipped = Skipped s + Skipped other,
      TotalBytes = TotalBytes s + TotalBytes other\<rparr>"

subsection \<open>Sinks and processors\<close>

record ('s, 'w) Sink =
  sk_ShouldProcess :: "'s \<Rightarrow> Entry \<Rightarrow> bool"
  sk_PutBuffered :: "(Entry \<Rightarrow> bytes \<Rightarrow> 's \<Rightarrow> err option \<times> 's) option"
  sk_Writer :: "Entry \<Rightarrow> 's \<Rightarrow> 'w res \<times> 's"
  sk_Write :: "'w \<Rightarrow> bytes \<Rightarrow> 's \<Rightarrow> (nat \<times> err option) \<times> 'w \<times> 's"
  sk_Commit :: "'w \<Rightarrow> 's \<Rightarrow> err option \<times> 's"
  sk_Discard :: "'w \<Rightarrow> 's \<Rightarrow> 's"

record Processor =
  pr_source :: source
  pr_pool :: "DecompressPool option"
  pr_maxFileSize :: u64
  pr_workers :: int
  pr_readConcurrency :: int
  pr_readAheadBytes :: u64
  pr_readAheadEnabled :: bool

definition WithWorkers :: "int \<Rightarrow> Processor \<Rightarrow> Processor" where
  "WithWorkers n p = p\<lparr>pr_workers := n\<rparr>"

definition WithReadConcurrency :: "int \<Rightarrow> Processor \<Rightarrow> Processor" where
  "WithReadConcurrency n p = p\<lparr>pr_readConcurrency := (if n < 1 then 1 else n)\<rparr>"

definition WithReadAheadBytes :: "u64 \<Rightarrow> Processor \<Rightarrow> Processor" where
  "WithReadAheadBytes limit p = p\<lparr>pr_readAheadBytes := limit, pr_readAheadEnabled := (limit > 0)\<rparr>"

definition NewProcessor ::
  "source \<Rightarrow> DecompressPool option \<Rightarrow> u64 \<Rightarrow> (Processor \<Rightarrow> Processor) list \<Rightarrow> Processor" where
  "NewProcessor src pool maxFileSize opts =
     fold (\<lambda>opt p. opt p) opts
       \<lparr>pr_source = src, pr_pool = pool, pr_maxFileSize = maxFileSize, pr_workers = 0,
        pr_readConcurrency = 1, pr_readAheadBytes = 0, pr_readAheadEnabled = False\<rparr>"

subsection \<open>One entry\<close>

text \<open>\<^verbatim>\<open>bytes.NewReader\<close>.\<close>

definition bytes_reader :: "bytes \<Rightarrow> reader" where
  "bytes_reader data = Chunks (if data = [] then [] else [data]) EOF False"

text \<open>\<^verbatim>\<open>writeAll\<close>: ends because every round writes at least one byte (\<open>n\<close> is at most the length).\<close>

function writeAll :: "('s, 'w) Sink \<Rightarrow> 'w \<Rightarrow> bytes \<Rightarrow> 's \<Rightarrow> err option \<times> 'w \<times> 's" where
  "writeAll S w data s =
     (if length data > 0 then
        (case sk_Write S w data s of ((n, e), w', s') \<Rightarrow>
           if e \<noteq> None then (e, w', s')
           else if n = 0 then (Some ErrShortWrite, w', s')
           else writeAll S w' (drop n data) s')
      else (None, w, s))"
  by pat_completeness auto
termination
  by (relation "measure (\<lambda>(S, w, data, s). length data)") auto

declare writeAll.simps [simp del]

definition verifyUncompressed :: "(bytes \<Rightarrow> bytes) \<Rightarrow> Entry \<Rightarrow> bytes \<Rightarrow> err option" where
  "verifyUncompressed sha256 entry data =
     (if ulen data \<noteq> OriginalSize entry then Some (Wrap ''size mismatch'' ErrDecompression)
      else if sha256 data \<noteq> Hash entry then Some ErrHashMismatch
      else None)"

definition writeVerifyUncompressed ::
  "(bytes \<Rightarrow> bytes) \<Rightarrow> ('s, 'w) Sink \<Rightarrow> Entry \<Rightarrow> bytes \<Rightarrow> 'w \<Rightarrow> 's \<Rightarrow> err option \<times> 'w \<times> 's" where
  "writeVerifyUncompressed sha256 S entry data w s =
     (case verifyUncompressed sha256 entry data of
        Some err \<Rightarrow> (Some err, w, s)
      | None \<Rightarrow> writeAll S w data s)"

definition decompress :: "zstd_lib \<Rightarrow> Processor \<Rightarrow> Entry \<Rightarrow> bytes \<Rightarrow> bytes res" where
  "decompress Z p entry data =
     (if Compression entry = CompressionNone then
        if ulen data \<noteq> OriginalSize entry then Inl (Wrap ''size mismatch'' ErrDecompression) else Inr data
      else if Compression entry = CompressionZstd then
        bindE (ToInt (OriginalSize entry) ErrSizeOverflow) (\<lambda>contentSize.
        bindE (mapErr (\<lambda>_. Wrap ''%v'' ErrDecompression) (DecompressPool_Get Z (pr_pool p) (bytes_reader data))) (\<lambda>dec.
        case ReadFull dec (nat contentSize) [] of
          ((content, Some err), dec) \<Rightarrow>
            if errors_is err EOF \<or> errors_is err ErrUnexpectedEOF
            then Inl (Wrap ''unexpected EOF'' ErrDecompression) else Inl (Wrap ''%v'' ErrDecompression)
        | ((content, None), dec) \<Rightarrow>
            (case EnsureNoExtra \<lparr>hr_r = dec, hr_h = []\<rparr> of
               (Some err, _) \<Rightarrow> Inl err
             | (None, _) \<Rightarrow> Inr content)))
      else Inl (Errorf ''unknown compression algorithm: %d'' [] [uint (Compression entry)]))"

definition newEntryReader :: "zstd_lib \<Rightarrow> Processor \<Rightarrow> Entry \<Rightarrow> bytes \<Rightarrow> reader res" where
  "newEntryReader Z p entry data =
     (if Compression entry = CompressionNone then Inr (bytes_reader data)
      else if Compression entry = CompressionZstd then
        mapErr (\<lambda>_. Wrap ''%v'' ErrDecompression) (DecompressPool_Get Z (pr_pool p) (bytes_reader data))
      else Inl (Errorf ''unknown compression algorithm: %d'' [] [uint (Compression entry)]))"

text \<open>
  The loop of \<^verbatim>\<open>io.Copy(w, io.LimitReader(tee, n))\<close>: \<open>left\<close> bytes of the limit, a buffer of
  \<open>buf > 0\<close> bytes; the tee is the \<open>HashingReader\<close>.
\<close>

definition copy_put :: "('s, 'w) Sink \<Rightarrow> 'w \<Rightarrow> bytes \<Rightarrow> 's \<Rightarrow> (nat \<times> err option) \<times> 'w \<times> 's" where
  "copy_put S w d s =
     (if length d > 0 then
        (case sk_Write S w d s of ((nw, ew), w', s') \<Rightarrow>
           if nw > length d then ((0, if ew = None then Some (ErrNew ''invalid write result'') else ew), w', s')
           else if ew = None \<and> nw \<noteq> length d then ((nw, Some ErrShortWrite), w', s')
           else ((nw, ew), w', s'))
      else ((0, None), w, s))"

function copy_limited ::
  "('s, 'w) Sink \<Rightarrow> nat \<Rightarrow> nat \<Rightarrow> HashingReader \<Rightarrow> 'w \<Rightarrow> 's \<Rightarrow> nat \<Rightarrow>
   (nat \<times> err option) \<times> HashingReader \<times> 'w \<times> 's" where
  "copy_limited S buf left hr w s written =
     (if left = 0 then ((written, None), hr, w, s)
      else if buf = 0 then ((written, None), hr, w, s)
      else case HashingReader_Read hr (min buf left) of ((d, er), hr') \<Rightarrow>
        (case copy_put S w d s of ((nw, ew), w', s') \<Rightarrow>
          if ew \<noteq> None then ((written + nw, ew), hr', w', s')
          else (case er of
                  Some e \<Rightarrow> ((written + nw, if e = EOF then None else Some e), hr', w', s')
                | None \<Rightarrow> copy_limited S buf (left - length d) hr' w' s' (written + nw))))"
  by pat_completeness auto
termination
  by (relation "measure (\<lambda>(S, buf, left, hr, w, s, written). rd_size (hr_r hr))")
    (auto dest: HashingReader_Read_decreases [OF sym])

declare copy_limited.simps [simp del]

text \<open>\<^verbatim>\<open>io.CopyN\<close>: the buffer has 32 KiB or the size of the limit if that is smaller.\<close>

definition CopyN ::
  "('s, 'w) Sink \<Rightarrow> HashingReader \<Rightarrow> nat \<Rightarrow> 'w \<Rightarrow> 's \<Rightarrow> err option \<times> HashingReader \<times> 'w \<times> 's" where
  "CopyN S hr n w s =
     (let buf = (if n < 32768 then max 1 n else 32768);
          ((written, err), hr', w', s') = copy_limited S buf n hr w s 0
      in (if written = n then None else if written < n \<and> err = None then Some EOF else err, hr', w', s'))"

definition streamDecompressVerify ::
  "(bytes \<Rightarrow> bytes) \<Rightarrow> zstd_lib \<Rightarrow> Processor \<Rightarrow> ('s, 'w) Sink \<Rightarrow> Entry \<Rightarrow> bytes \<Rightarrow> 'w \<Rightarrow> 's \<Rightarrow>
   err option \<times> 'w \<times> 's" where
  "streamDecompressVerify sha256 Z p S entry data w s =
     (case newEntryReader Z p entry data of
        Inl err \<Rightarrow> (Some err, w, s)
      | Inr reader \<Rightarrow>
          (case ToInt64 (OriginalSize entry) ErrSizeOverflow of
             Inl err \<Rightarrow> (Some err, w, s)
           | Inr expected \<Rightarrow>
               (case CopyN S \<lparr>hr_r = reader, hr_h = []\<rparr> (nat expected) w s of
                  (Some err, tee, w', s') \<Rightarrow>
                    (Some (if errors_is err EOF \<or> errors_is err ErrUnexpectedEOF
                           then Wrap ''unexpected EOF'' ErrDecompression else err), w', s')
                | (None, tee, w', s') \<Rightarrow>
                    (case EnsureNoExtra tee of
                       (Some err, tee) \<Rightarrow> (Some err, w', s')
                     | (None, tee) \<Rightarrow>
                         (if HashingReader_Sum sha256 tee \<noteq> Hash entry then Some ErrHashMismatch else None, w', s')))))"

text \<open>The bytes of an entry inside the data of its group: \<^verbatim>\<open>groupData[start:end]\<close>.\<close>

definition entry_slice :: "Entry \<Rightarrow> bytes \<Rightarrow> u64 \<Rightarrow> bytes res" where
  "entry_slice entry groupData groupStart =
     (let localOffset = DataOffset entry - groupStart; localEnd = localOffset + DataSize entry
      in if localEnd < localOffset \<or> localEnd > ulen groupData then Inl ErrSizeOverflow
         else bindE (ToInt localOffset ErrSizeOverflow) (\<lambda>start.
              bindE (ToInt localEnd ErrSizeOverflow) (\<lambda>end'.
              Inr (take (nat (end' - start)) (drop (nat start) groupData)))))"

definition batch_err :: "Entry \<Rightarrow> err \<Rightarrow> err" where
  "batch_err entry err = Wrap (''batch: '' @ Path entry) err"

definition processEntry ::
  "(bytes \<Rightarrow> bytes) \<Rightarrow> zstd_lib \<Rightarrow> Processor \<Rightarrow> ('s, 'w) Sink \<Rightarrow> Entry \<Rightarrow> bytes \<Rightarrow> u64 \<Rightarrow> 's \<Rightarrow>
   err option \<times> 's" where
  "processEntry sha256 Z p S entry groupData groupStart s =
     (case entry_slice entry groupData groupStart of
        Inl err \<Rightarrow> (Some err, s)
      | Inr entryData \<Rightarrow>
          (case sk_PutBuffered S of
             Some put \<Rightarrow>
               (case decompress Z p entry entryData of
                  Inl err \<Rightarrow> (Some (batch_err entry err), s)
                | Inr content \<Rightarrow>
                    if sha256 content \<noteq> Hash entry then (Some (batch_err entry ErrHashMismatch), s)
                    else (case put entry content s of
                            (Some err, s') \<Rightarrow> (Some (batch_err entry err), s')
                          | (None, s') \<Rightarrow> (None, s')))
           | None \<Rightarrow>
               (case sk_Writer S entry s of
                  (Inl err, s) \<Rightarrow> (Some (batch_err entry err), s)
                | (Inr w, s) \<Rightarrow>
                    (case (if Compression entry = CompressionNone
                           then writeVerifyUncompressed sha256 S entry entryData w s
                           else streamDecompressVerify sha256 Z p S entry entryData w s) of
                       (Some processErr, w, s) \<Rightarrow> (Some (batch_err entry processErr), sk_Discard S w s)
                     | (None, w, s) \<Rightarrow>
                         (case sk_Commit S w s of
                            (Some err, s) \<Rightarrow> (Some (Wrap (''batch: '' @ Path entry @ '': commit'') err), s)
                          | (None, s) \<Rightarrow> (None, s))))))"

subsection \<open>Groups of entries\<close>

fun processEntriesSerial ::
  "(bytes \<Rightarrow> bytes) \<Rightarrow> zstd_lib \<Rightarrow> Processor \<Rightarrow> ('s, 'w) Sink \<Rightarrow> bytes \<Rightarrow> u64 \<Rightarrow> ProcessStats \<Rightarrow>
   Entry list \<Rightarrow> 's \<Rightarrow> (ProcessStats \<times> err option) \<times> 's" where
  "processEntriesSerial sha256 Z p S data groupStart stats [] s = ((stats, None), s)"
| "processEntriesSerial sha256 Z p S data groupStart stats (entry # es) s =
     (case processEntry sha256 Z p S entry data groupStart s of
        (Some err, s) \<Rightarrow> ((stats, Some err), s)
      | (None, s) \<Rightarrow>
          processEntriesSerial sha256 Z p S data groupStart
            (stats\<lparr>Processed := Processed stats + 1, TotalBytes := TotalBytes stats + OriginalSize entry\<rparr>) es s)"

section \<open>Grouping\<close>

text \<open>
  A group is contiguous: its entries follow one another without a gap from \<open>g_start\<close> to \<open>g_end\<close>.
  Offsets are compared as 64-bit words, like in the code.
\<close>

fun contiguous :: "u64 \<Rightarrow> Entry list \<Rightarrow> u64 \<Rightarrow> bool" where
  "contiguous a [] b \<longleftrightarrow> a = b"
| "contiguous a (e # es) b \<longleftrightarrow> DataOffset e = a \<and> contiguous (DataOffset e + DataSize e) es b"

definition group_ok :: "rangeGroup \<Rightarrow> bool" where
  "group_ok g \<longleftrightarrow> g_entries g \<noteq> [] \<and> contiguous (g_start g) (g_entries g) (g_end g)"

lemma contiguous_snoc:
  "contiguous a es (DataOffset e) \<Longrightarrow> contiguous a (es @ [e]) (DataOffset e + DataSize e)"
  by (induction es arbitrary: a) auto

lemma group_loop_entries:
  "concat (map g_entries (group_loop gs cur es)) = concat (map g_entries gs) @ g_entries cur @ es"
  by (induction gs cur es rule: group_loop.induct) (simp_all add: Let_def)

lemma group_loop_ok:
  "\<forall>g\<in>set gs. group_ok g \<Longrightarrow> group_ok cur \<Longrightarrow> g \<in> set (group_loop gs cur es) \<Longrightarrow> group_ok g"
proof (induction gs cur es rule: group_loop.induct)
  case (2 gs cur e es)
  show ?case
  proof (cases "DataOffset e = g_end cur")
    case True
    with "2.prems"(2) have "group_ok (cur\<lparr>g_end := DataOffset e + DataSize e, g_entries := g_entries cur @ [e]\<rparr>)"
      using contiguous_snoc [of "g_start cur" "g_entries cur" e] by (simp add: group_ok_def)
    with "2.IH"(1) [OF refl True] "2.prems" True show ?thesis by (simp add: Let_def)
  next
    case False
    have "\<forall>h\<in>set (gs @ [cur]). group_ok h" using "2.prems" by auto
    moreover have "group_ok \<lparr>g_start = DataOffset e, g_end = DataOffset e + DataSize e, g_entries = [e]\<rparr>"
      by (simp add: group_ok_def)
    ultimately show ?thesis using "2.IH"(2) [OF refl False] "2.prems"(3) False by (simp add: Let_def)
  qed
qed auto

section \<open>Staging sinks\<close>

lemma upd_same: "m k = Some c \<Longrightarrow> \<exists>d. m = m(k \<mapsto> d)"
  by (metis fun_upd_triv)

text \<open>
  The contract of \<^verbatim>\<open>Sink\<close> and \<^verbatim>\<open>Committer\<close>. \<open>visible\<close> is what can be found under a path; a committer
  writes at its \<open>place\<close> only, and \<^verbatim>\<open>Commit\<close> moves the content from there to the entry's destination.
\<close>

locale staging_sink =
  fixes S :: "('s, 'w) Sink"
    and visible :: "'s \<Rightarrow> string \<Rightarrow> bytes option"
    and place :: "'w \<Rightarrow> string"
    and dest :: "'w \<Rightarrow> string"
    and dest_of :: "Entry \<Rightarrow> string"
    and ok :: "'w \<Rightarrow> bool"
  assumes unbuffered: "sk_PutBuffered S = None"
    and Writer_ok: "sk_Writer S e s = (Inr w, s') \<Longrightarrow> visible s' = (visible s)(place w \<mapsto> []) \<and> dest w = dest_of e \<and> ok w"
    and Writer_err: "sk_Writer S e s = (Inl err, s') \<Longrightarrow> visible s' = visible s"
    and Write_keeps: "sk_Write S w d s = ((n, x), w', s') \<Longrightarrow> place w' = place w \<and> dest w' = dest w \<and> (ok w \<longrightarrow> ok w')"
    and Write_appends: "sk_Write S w d s = ((n, x), w', s') \<Longrightarrow> visible s (place w) = Some c \<Longrightarrow>
      n \<le> length d \<and> visible s' = (visible s)(place w \<mapsto> c @ take n d)"
    and Commit_ok: "sk_Commit S w s = (None, s') \<Longrightarrow> ok w \<Longrightarrow> visible s (place w) = Some c \<Longrightarrow>
      visible s' = (visible s)(place w := None, dest w \<mapsto> c)"
    and Commit_err: "sk_Commit S w s = (Some err, s') \<Longrightarrow> q \<noteq> place w \<Longrightarrow> visible s' q = visible s q"
    and Discard_off: "q \<noteq> place w \<Longrightarrow> visible (sk_Discard S w s) q = visible s q"
begin

lemma Write_holds:
  assumes "sk_Write S w d s = ((n, x), w', s')" "visible s (place w) = Some c"
  shows "n \<le> length d" "place w' = place w" "dest w' = dest w \<and> (ok w \<longrightarrow> ok w')"
    "visible s' = (visible s)(place w \<mapsto> c @ take n d)"
  using Write_keeps [OF assms(1)] Write_appends [OF assms] by auto

lemma writeAll_holds:
  assumes "visible s (place w) = Some c" "writeAll S w d s = (x, w', s')"
  shows "place w' = place w \<and> dest w' = dest w \<and> (ok w \<longrightarrow> ok w') \<and>
    (\<exists>c'. visible s' = (visible s)(place w \<mapsto> c') \<and> (x = None \<longrightarrow> c' = c @ d))"
  using assms
proof (induction "length d" arbitrary: w d s c rule: less_induct)
  case less
  show ?case
  proof (cases "d = []")
    case True
    with less.prems show ?thesis by (auto simp: writeAll.simps [of S w] fun_upd_idem)
  next
    case False
    obtain n y w1 s1 where w: "sk_Write S w d s = ((n, y), w1, s1)" by (metis prod.exhaust)
    note h = Write_holds [OF w less.prems(1)]
    show ?thesis
    proof (cases "y = None \<and> n \<noteq> 0")
      case True
      have "length (drop n d) < length d" using True False by simp
      moreover have "visible s1 (place w1) = Some (c @ take n d)" using h by simp
      moreover have "writeAll S w1 (drop n d) s1 = (x, w', s')"
        using less.prems(2) w True False by (simp add: writeAll.simps [of S w])
      ultimately have "place w' = place w1 \<and> dest w' = dest w1 \<and> (ok w1 \<longrightarrow> ok w') \<and>
          (\<exists>c'. visible s' = (visible s1)(place w1 \<mapsto> c') \<and> (x = None \<longrightarrow> c' = (c @ take n d) @ drop n d))"
        by (rule less.hyps)
      with h show ?thesis by simp
    next
      case no: False
      with less.prems(2) w False have "w' = w1" "s' = s1" "x \<noteq> None"
        by (auto simp: writeAll.simps [of S w] split: if_splits)
      with h show ?thesis by (intro conjI exI [of _ "c @ take n d"]) auto
    qed
  qed
qed

lemma copy_put_holds:
  assumes "visible s (place w) = Some c" "copy_put S w d s = ((n, x), w', s')"
  shows "place w' = place w" "dest w' = dest w \<and> (ok w \<longrightarrow> ok w')" "visible s' = (visible s)(place w \<mapsto> c @ take n d)"
    "n \<le> length d" "x = None \<Longrightarrow> n = length d"
proof -
  have "place w' = place w \<and> dest w' = dest w \<and> (ok w \<longrightarrow> ok w') \<and> visible s' = (visible s)(place w \<mapsto> c @ take n d) \<and>
    n \<le> length d \<and> (x = None \<longrightarrow> n = length d)"
  proof (cases "d = []")
    case True
    with assms show ?thesis by (auto simp: copy_put_def fun_upd_idem)
  next
    case False
    obtain m y w1 s1 where w: "sk_Write S w d s = ((m, y), w1, s1)" by (metis prod.exhaust)
    from Write_holds [OF w assms(1)] w False assms(2) show ?thesis
      by (auto simp: copy_put_def split: if_splits)
  qed
  then show "place w' = place w" "dest w' = dest w \<and> (ok w \<longrightarrow> ok w')" "visible s' = (visible s)(place w \<mapsto> c @ take n d)"
    "n \<le> length d" "x = None \<Longrightarrow> n = length d" by auto
qed

lemma copy_limited_holds:
  assumes "visible s (place w) = Some c" "copy_limited S buf left hr w s written = ((n, x), hr', w', s')"
  shows "place w' = place w \<and> dest w' = dest w \<and> (ok w \<longrightarrow> ok w') \<and>
    (\<exists>k d. visible s' = (visible s)(place w \<mapsto> c @ take k d) \<and> hr_h hr' = hr_h hr @ d \<and>
       n = written + k \<and> k \<le> length d \<and> length d \<le> left)"
  using assms
proof (induction "rd_size (hr_r hr)" arbitrary: left hr w s written c rule: less_induct)
  case less
  show ?case
  proof (cases "left = 0 \<or> buf = 0")
    case True
    with less.prems have "n = written \<and> hr' = hr \<and> w' = w \<and> s' = s"
      by (auto simp: copy_limited.simps [of S buf left] split: if_splits)
    with less.prems(1) show ?thesis by (auto simp: fun_upd_idem)
  next
    case False
    obtain d e hr1 where r: "HashingReader_Read hr (min buf left) = ((d, e), hr1)" by (metis prod.exhaust)
    obtain m y w1 s1 where p: "copy_put S w d s = ((m, y), w1, s1)" by (metis prod.exhaust)
    have hh: "hr_h hr1 = hr_h hr @ d" "length d \<le> left"
      using r rd_Read_le [of "hr_r hr" "min buf left" d] by (auto simp: HashingReader_Read_eq)
    note h = copy_put_holds [OF less.prems(1) p]
    show ?thesis
    proof (cases "y = None \<and> e = None")
      case True
      have "rd_size (hr_r hr1) < rd_size (hr_r hr)"
        using HashingReader_Read_decreases r True False by simp
      moreover have "visible s1 (place w1) = Some (c @ d)" using h True by simp
      moreover have "copy_limited S buf (left - length d) hr1 w1 s1 (written + m) = ((n, x), hr', w', s')"
        using less.prems(2) r p True False by (simp add: copy_limited.simps [of S buf left])
      ultimately have *: "place w' = place w1 \<and> dest w' = dest w1 \<and> (ok w1 \<longrightarrow> ok w') \<and>
          (\<exists>k d'. visible s' = (visible s1)(place w1 \<mapsto> (c @ d) @ take k d') \<and> hr_h hr' = hr_h hr1 @ d' \<and>
            n = written + m + k \<and> k \<le> length d' \<and> length d' \<le> left - length d)"
        by (rule less.hyps)
      then obtain k d' where k: "visible s' = (visible s1)(place w1 \<mapsto> (c @ d) @ take k d')"
          "hr_h hr' = hr_h hr1 @ d'" "n = written + m + k" "k \<le> length d'" "length d' \<le> left - length d"
        by blast
      show ?thesis
        using k h True hh * by (intro conjI exI [of _ "m + k"] exI [of _ "d @ d'"]) auto
    next
      case no: False
      have "w' = w1" "s' = s1" "hr' = hr1" "n = written + m"
        using no less.prems(2) r p False
        by (auto simp: copy_limited.simps [of S buf left] split: if_splits option.splits)
      with h hh show ?thesis by (intro conjI exI [of _ m] exI [of _ d]) auto
    qed
  qed
qed

lemma CopyN_holds:
  assumes "visible s (place w) = Some c" "CopyN S hr n w s = (x, hr', w', s')"
  shows "place w' = place w \<and> dest w' = dest w \<and> (ok w \<longrightarrow> ok w') \<and>
    (\<exists>c' d. visible s' = (visible s)(place w \<mapsto> c') \<and> hr_h hr' = hr_h hr @ d \<and>
       (x = None \<longrightarrow> c' = c @ d \<and> length d = n))"
proof -
  let ?buf = "if n < 32768 then max 1 n else 32768"
  obtain m y hr1 w1 s1 where c: "copy_limited S ?buf n hr w s 0 = ((m, y), hr1, w1, s1)"
    by (metis prod.exhaust)
  with assms(2) have *: "hr' = hr1" "w' = w1" "s' = s1" "x = None \<Longrightarrow> m = n \<or> \<not> m < n"
    by (auto simp: CopyN_def Let_def split: if_splits)
  from copy_limited_holds [OF assms(1) c] obtain k d where
    k: "place w1 = place w" "dest w1 = dest w \<and> (ok w \<longrightarrow> ok w1)" "visible s1 = (visible s)(place w \<mapsto> c @ take k d)"
      "hr_h hr1 = hr_h hr @ d" "m = k" "k \<le> length d" "length d \<le> n"
    by auto
  with * show ?thesis by (intro conjI exI [of _ "c @ take k d"] exI [of _ d]) auto
qed

lemma writeVerifyUncompressed_holds:
  assumes "visible s (place w) = Some []" "length d < 2 ^ 64"
    and "writeVerifyUncompressed sha256 S e d w s = (x, w', s')"
  shows "place w' = place w \<and> dest w' = dest w \<and> (ok w \<longrightarrow> ok w') \<and> (\<exists>c. visible s' = (visible s)(place w \<mapsto> c) \<and>
    (x = None \<longrightarrow> sha256 c = Hash e \<and> int (length c) = uint (OriginalSize e)))"
proof (cases "verifyUncompressed sha256 e d")
  case None
  then have v: "sha256 d = Hash e" "ulen d = OriginalSize e"
    by (auto simp: verifyUncompressed_def split: if_splits)
  from None assms(3) have "writeAll S w d s = (x, w', s')" by (simp add: writeVerifyUncompressed_def)
  from writeAll_holds [OF assms(1) this] v assms(2) uint_ulen_id [of d] show ?thesis by auto
next
  case (Some err)
  with assms upd_same [of "visible s" "place w", OF assms(1)] show ?thesis by (auto simp: writeVerifyUncompressed_def)
qed

lemma streamDecompressVerify_holds:
  assumes "visible s (place w) = Some []"
    and "streamDecompressVerify sha256 Z p S e d w s = (x, w', s')"
  shows "place w' = place w \<and> dest w' = dest w \<and> (ok w \<longrightarrow> ok w') \<and> (\<exists>c. visible s' = (visible s)(place w \<mapsto> c) \<and>
    (x = None \<longrightarrow> sha256 c = Hash e \<and> int (length c) = uint (OriginalSize e)))"
proof (cases "newEntryReader Z p e d")
  case (Inl err)
  with assms upd_same [of "visible s" "place w", OF assms(1)] show ?thesis by (auto simp: streamDecompressVerify_def)
next
  case rd: (Inr rd)
  show ?thesis
  proof (cases "ToInt64 (OriginalSize e) ErrSizeOverflow")
    case (Inl err)
    with rd assms upd_same [of "visible s" "place w", OF assms(1)] show ?thesis by (auto simp: streamDecompressVerify_def)
  next
    case n: (Inr n)
    then have n': "n = uint (OriginalSize e)" by (simp add: ToInt64_Inr_iff)
    obtain y tee w1 s1 where c: "CopyN S \<lparr>hr_r = rd, hr_h = []\<rparr> (nat n) w s = (y, tee, w1, s1)"
      by (metis prod.exhaust)
    obtain z tee1 where ne: "EnsureNoExtra tee = (z, tee1)" by fastforce
    from CopyN_holds [OF assms(1) c] obtain c' b where
      h: "place w1 = place w" "dest w1 = dest w \<and> (ok w \<longrightarrow> ok w1)" "visible s1 = (visible s)(place w \<mapsto> c')"
        "hr_h tee = b" "y = None \<Longrightarrow> c' = b \<and> length b = nat n" by auto
    have "w' = w1" "s' = s1" and x: "x = None \<Longrightarrow> y = None \<and> z = None \<and> sha256 (hr_h tee1) = Hash e"
      using assms(2) rd n c ne
      by (auto simp: streamDecompressVerify_def HashingReader_Sum_def split: option.splits if_splits)
    moreover have "z = None \<Longrightarrow> hr_h tee1 = b" using EnsureNoExtra_None ne h(4) by blast
    ultimately show ?thesis
      using h n' by (intro conjI exI [of _ c']) (auto dest: x)
  qed
qed

lemma entry_slice_short: "entry_slice e d g = Inr x \<Longrightarrow> length x < 2 ^ 64"
proof -
  assume "entry_slice e d g = Inr x"
  then have b: "uint (DataOffset e - g + DataSize e) \<le> MaxInt64"
    and "length x \<le> nat (uint (DataOffset e - g + DataSize e) - uint (DataOffset e - g))"
    by (auto simp: entry_slice_def Let_def res_simps split: if_splits)
  moreover have "nat (uint (DataOffset e - g + DataSize e) - uint (DataOffset e - g)) \<le> nat MaxInt64"
    using b uint_ge_0 [of "DataOffset e - g"] by linarith
  ultimately show ?thesis by (simp add: MaxInt64_def)
qed

text \<open>
  An entry is either refused, and then nothing but the staging place has changed, or its
  destination holds content with the recorded hash and size.
\<close>

lemma processEntry_sound:
  assumes "processEntry sha256 Z p S e d g s = (x, s')"
  shows "\<exists>t. (x = None \<longrightarrow> (\<exists>c. visible s' = (visible s)(t := None, dest_of e \<mapsto> c) \<and>
               sha256 c = Hash e \<and> int (length c) = uint (OriginalSize e))) \<and>
    (x \<noteq> None \<longrightarrow> (\<forall>q. q \<noteq> t \<longrightarrow> visible s' q = visible s q)) \<and>
    (visible s' = visible s \<or> (\<exists>w s1. sk_Writer S e s = (Inr w, s1) \<and> t = place w))"
proof (cases "entry_slice e d g")
  case (Inl err)
  with assms show ?thesis by (auto simp: processEntry_def)
next
  case sl: (Inr ed)
  obtain rw s1 where wr: "sk_Writer S e s = (rw, s1)" by fastforce
  show ?thesis
  proof (cases rw)
    case (Inl err)
    with wr sl assms unbuffered Writer_err [of e s err s1] show ?thesis by (auto simp: processEntry_def)
  next
    case (Inr w)
    then have w: "sk_Writer S e s = (Inr w, s1)" using wr by simp
    note W = Writer_ok [OF w]
    define res where "res = (if Compression e = CompressionNone then writeVerifyUncompressed sha256 S e ed w s1
      else streamDecompressVerify sha256 Z p S e ed w s1)"
    obtain y w2 s2 where res: "res = (y, w2, s2)" by (metis prod.exhaust)
    have s1: "visible s1 (place w) = Some []" using W by simp
    obtain c where h: "place w2 = place w" "dest w2 = dest w \<and> (ok w \<longrightarrow> ok w2)" "visible s2 = (visible s1)(place w \<mapsto> c)"
      "y = None \<Longrightarrow> sha256 c = Hash e \<and> int (length c) = uint (OriginalSize e)"
      using writeVerifyUncompressed_holds [OF s1 entry_slice_short [OF sl]] streamDecompressVerify_holds [OF s1] res
      unfolding res_def by (metis (no_types, lifting))
    have eq: "processEntry sha256 Z p S e d g s =
      (case y of Some err \<Rightarrow> (Some (batch_err e err), sk_Discard S w2 s2)
       | None \<Rightarrow> (case sk_Commit S w2 s2 of
          (Some err, s) \<Rightarrow> (Some (Wrap (''batch: '' @ Path e @ '': commit'') err), s)
        | (None, s) \<Rightarrow> (None, s)))"
      using sl w unbuffered res unfolding res_def by (auto simp: processEntry_def split: option.splits)
    have off: "q \<noteq> place w \<Longrightarrow> visible s2 q = visible s q" for q using h W by simp
    obtain z s3 where cm: "sk_Commit S w2 s2 = (z, s3)" by fastforce
    have c2: "visible s2 (place w2) = Some c" using h by simp
    show ?thesis
    proof (intro exI [of _ "place w"] conjI impI)
      assume "x = None"
      with eq assms cm have "y = None" "z = None" "s' = s3" by (auto split: option.splits)
      with Commit_ok [OF _ _ c2] cm h W show "\<exists>c. visible s' = (visible s)(place w := None, dest_of e \<mapsto> c) \<and>
          sha256 c = Hash e \<and> int (length c) = uint (OriginalSize e)"
        by (intro exI [of _ c]) auto
    next
      assume "x \<noteq> None"
      with eq assms cm show "\<forall>q. q \<noteq> place w \<longrightarrow> visible s' q = visible s q"
        using off Discard_off [of _ w2 s2] Commit_err [of w2 s2] h(1)
        by (auto split: option.splits)
    next
      show "visible s' = visible s \<or> (\<exists>w' s1. sk_Writer S e s = (Inr w', s1) \<and> place w = place w')"
        using w by blast
    qed
  qed
qed

end

section \<open>Atomic sinks\<close>

text \<open>
  Content is \<open>verified\<close> for an entry when it has the recorded hash and size. Between two states of
  a destination, \<open>keeps\<close> says that no content was lost: what was there is still there, or was
  replaced by verified content of one of the entries.
\<close>

definition verified :: "(bytes \<Rightarrow> bytes) \<Rightarrow> Entry \<Rightarrow> bytes \<Rightarrow> bool" where
  "verified sha256 e c \<longleftrightarrow> sha256 c = Hash e \<and> int (length c) = uint (OriginalSize e)"

definition written :: "(bytes \<Rightarrow> bytes) \<Rightarrow> (Entry \<Rightarrow> string) \<Rightarrow> (string \<Rightarrow> bytes option) \<Rightarrow> Entry set \<Rightarrow> string \<Rightarrow> bool" where
  "written sha256 dest vis E q \<longleftrightarrow> (\<exists>e\<in>E. dest e = q \<and> (\<exists>c. vis q = Some c \<and> verified sha256 e c))"

definition keeps ::
  "(bytes \<Rightarrow> bytes) \<Rightarrow> (Entry \<Rightarrow> string) \<Rightarrow> (string \<Rightarrow> bytes option) \<Rightarrow> (string \<Rightarrow> bytes option) \<Rightarrow> Entry set \<Rightarrow> bool" where
  "keeps sha256 dest vis vis' E \<longleftrightarrow> (\<forall>q c. vis q = Some c \<longrightarrow> vis' q = Some c \<or> written sha256 dest vis' E q)"

lemma keeps_refl [simp]: "keeps sha256 dest vis vis E"
  by (simp add: keeps_def)

lemma written_mono: "written sha256 dest vis E q \<Longrightarrow> E \<subseteq> F \<Longrightarrow> written sha256 dest vis F q"
  by (auto simp: written_def)

lemma keeps_mono: "keeps sha256 dest vis vis' E \<Longrightarrow> E \<subseteq> F \<Longrightarrow> keeps sha256 dest vis vis' F"
  unfolding keeps_def using written_mono by blast

lemma written_keeps:
  "written sha256 dest vis E q \<Longrightarrow> keeps sha256 dest vis vis' E \<Longrightarrow> written sha256 dest vis' E q"
  unfolding keeps_def written_def by metis

lemma keeps_trans:
  "keeps sha256 dest vis vis1 E \<Longrightarrow> keeps sha256 dest vis1 vis2 E \<Longrightarrow> keeps sha256 dest vis vis2 E"
  unfolding keeps_def using written_keeps unfolding keeps_def by metis

text \<open>
  A sink whose committers stage their content under a path that is not in use. Such paths come from a
  supply of \<open>reserved\<close> ones, to which nothing is added.
\<close>

locale atomic_sink = staging_sink S visible place dest dest_of ok
  for S :: "('s, 'w) Sink" and visible :: "'s \<Rightarrow> string \<Rightarrow> bytes option" and place dest :: "'w \<Rightarrow> string"
    and dest_of :: "Entry \<Rightarrow> string" and ok :: "'w \<Rightarrow> bool" +
  fixes reserved :: "'s \<Rightarrow> string set"
  assumes fresh: "sk_Writer S e s = (Inr w, s') \<Longrightarrow> visible s (place w) = None"
    and place_reserved: "sk_Writer S e s = (Inr w, s') \<Longrightarrow> place w \<in> reserved s"
    and reserved_Writer: "sk_Writer S e s = (u, s') \<Longrightarrow> reserved s' \<subseteq> reserved s"
    and reserved_Write: "sk_Write S w d s = (r, w', s') \<Longrightarrow> reserved s' \<subseteq> reserved s"
    and reserved_Commit: "sk_Commit S w s = (x, s') \<Longrightarrow> reserved s' \<subseteq> reserved s"
    and reserved_Discard: "reserved (sk_Discard S w s) \<subseteq> reserved s"
begin

lemma processEntry_ok:
  assumes "processEntry sha256 Z p S e d g s = (None, s')"
  shows "\<exists>c. visible s' = (visible s)(dest_of e \<mapsto> c) \<and> verified sha256 e c"
proof -
  from processEntry_sound [OF assms] obtain t c where
    t: "visible s' = (visible s)(t := None, dest_of e \<mapsto> c)" "verified sha256 e c"
      "visible s' = visible s \<or> (\<exists>w s1. sk_Writer S e s = (Inr w, s1) \<and> t = place w)"
    unfolding verified_def by auto
  have "visible s' = (visible s)(dest_of e \<mapsto> c)"
  proof (cases "visible s t = None")
    case True
    with t(1) show ?thesis by (metis fun_upd_triv)
  next
    case False
    with t(3) fresh have "visible s' = visible s" by auto
    with t(1) False show ?thesis by (metis fun_upd_apply fun_upd_triv)
  qed
  with t(2) show ?thesis by blast
qed

lemma processEntry_keeps:
  assumes "processEntry sha256 Z p S e d g s = (x, s')"
  shows "keeps sha256 dest_of (visible s) (visible s') {e}"
proof (cases x)
  case None
  with processEntry_ok assms show ?thesis by (fastforce simp: keeps_def written_def)
next
  case (Some err)
  with processEntry_sound [OF assms] obtain t where
    "\<forall>q. q \<noteq> t \<longrightarrow> visible s' q = visible s q"
    "visible s' = visible s \<or> (\<exists>w s1. sk_Writer S e s = (Inr w, s1) \<and> t = place w)" by auto
  with fresh show ?thesis unfolding keeps_def by (metis option.distinct(1))
qed

lemma processEntry_written:
  "processEntry sha256 Z p S e d g s = (None, s') \<Longrightarrow> written sha256 dest_of (visible s') {e} (dest_of e)"
  using processEntry_ok by (fastforce simp: written_def)

lemma processEntriesSerial_keeps:
  "processEntriesSerial sha256 Z p S d g stats es s = ((st, x), s') \<Longrightarrow>
   keeps sha256 dest_of (visible s) (visible s') (set es)"
proof (induction es arbitrary: stats s)
  case (Cons e es)
  obtain y s1 where e: "processEntry sha256 Z p S e d g s = (y, s1)" by fastforce
  have k: "keeps sha256 dest_of (visible s) (visible s1) (set (e # es))"
    using keeps_mono [OF processEntry_keeps [OF e]] by simp
  show ?case
  proof (cases y)
    case None
    with e Cons have "keeps sha256 dest_of (visible s1) (visible s') (set es)" by auto
    then have "keeps sha256 dest_of (visible s1) (visible s') (set (e # es))" by (rule keeps_mono) auto
    with k show ?thesis by (rule keeps_trans)
  qed (use Cons.prems e k in auto)
qed simp

lemma processEntriesSerial_ok:
  assumes "processEntriesSerial sha256 Z p S d g stats es s = ((st, None), s')"
  shows "Processed st = Processed stats + int (length es)" "Skipped st = Skipped stats"
    "\<forall>e\<in>set es. written sha256 dest_of (visible s') (set es) (dest_of e)"
proof -
  have "Processed st = Processed stats + int (length es) \<and> Skipped st = Skipped stats \<and>
    (\<forall>e\<in>set es. written sha256 dest_of (visible s') (set es) (dest_of e))"
    using assms
  proof (induction es arbitrary: stats s)
    case (Cons e es)
    obtain y s1 where e: "processEntry sha256 Z p S e d g s = (y, s1)" by fastforce
    with Cons.prems have y: "y = None" by (cases y) auto
    with Cons.prems e have r: "processEntriesSerial sha256 Z p S d g
      (stats\<lparr>Processed := Processed stats + 1, TotalBytes := TotalBytes stats + OriginalSize e\<rparr>) es s1 = ((st, None), s')"
      by simp
    have "keeps sha256 dest_of (visible s1) (visible s') (set (e # es))"
      using keeps_mono [OF processEntriesSerial_keeps [OF r]] by auto
    moreover have "written sha256 dest_of (visible s1) (set (e # es)) (dest_of e)"
      using processEntry_written e y written_mono [of _ _ _ "{e}"] by auto
    ultimately have "written sha256 dest_of (visible s') (set (e # es)) (dest_of e)"
      using written_keeps by blast
    with Cons.IH [OF r] show ?case by (auto intro: written_mono)
  qed simp
  then show "Processed st = Processed stats + int (length es)" "Skipped st = Skipped stats"
    "\<forall>e\<in>set es. written sha256 dest_of (visible s') (set es) (dest_of e)" by auto
qed

end

end
