(* ===== verification/Workers.thy ===== *)
theory Workers
  imports Batch
begin

text \<open>
  The workers of \<^verbatim>\<open>core/internal/batch/batch.go\<close> (\<^verbatim>\<open>processEntriesParallel\<close>) and the loop over the groups.

  The goroutines interleave at every call they make on the sink: \<open>'w phase\<close> is where a worker stands
  inside \<^verbatim>\<open>processEntry\<close>, with the local variables it still needs, and one step of a worker is one call of
  \<^verbatim>\<open>Writer\<close>, \<^verbatim>\<open>PutBuffered\<close>, \<^verbatim>\<open>Write\<close>, \<^verbatim>\<open>Commit\<close> or \<^verbatim>\<open>Discard\<close>, or one access to the variables the workers share. What lies
  between two such points is local to the worker. A schedule names, for every group, the workers that take a step one after
  the other; once it is used up the workers run to their end in order. Every finite interleaving is such a schedule.
\<close>

section \<open>Definitions\<close>

subsection \<open>The steps of \<^verbatim>\<open>processEntry\<close>\<close>

datatype 'w phase =
    AtLoop
  | AtEntry
  | Writing 'w bytes
  | Copying 'w HashingReader nat nat
  | Closing 'w "err option"
  | Returned "err option"
  | Exited

text \<open>\<^verbatim>\<open>streamDecompressVerify\<close> after the copying: \<open>copied\<close> bytes, the error of the copy, the reader with its hash.\<close>

definition stream_verdict :: "(bytes \<Rightarrow> bytes) \<Rightarrow> Entry \<Rightarrow> nat \<Rightarrow> err option \<Rightarrow> HashingReader \<Rightarrow> err option" where
  "stream_verdict sha256 entry copied err tee =
     (let n = nat (uint (OriginalSize entry))
      in case (if copied = n then None else if copied < n \<and> err = None then Some EOF else err) of
           Some err \<Rightarrow>
             Some (if errors_is err EOF \<or> errors_is err ErrUnexpectedEOF
                   then Wrap ''unexpected EOF'' ErrDecompression else err)
         | None \<Rightarrow>
             (case EnsureNoExtra tee of
                (Some err, tee) \<Rightarrow> Some err
              | (None, tee) \<Rightarrow> if HashingReader_Sum sha256 tee \<noteq> Hash entry then Some ErrHashMismatch else None))"

text \<open>With a committer: the checks before the first byte is copied.\<close>

definition first_phase ::
  "(bytes \<Rightarrow> bytes) \<Rightarrow> zstd_lib \<Rightarrow> Processor \<Rightarrow> Entry \<Rightarrow> bytes \<Rightarrow> 'w \<Rightarrow> 'w phase" where
  "first_phase sha256 Z p entry data w =
     (if Compression entry = CompressionNone then
        (case verifyUncompressed sha256 entry data of
           Some err \<Rightarrow> Closing w (Some err)
         | None \<Rightarrow> Writing w data)
      else
        (case newEntryReader Z p entry data of
           Inl err \<Rightarrow> Closing w (Some err)
         | Inr reader \<Rightarrow>
             (case ToInt64 (OriginalSize entry) ErrSizeOverflow of
                Inl err \<Rightarrow> Closing w (Some err)
              | Inr expected \<Rightarrow> Copying w \<lparr>hr_r = reader, hr_h = []\<rparr> (nat expected) 0)))"

definition entry_begin ::
  "(bytes \<Rightarrow> bytes) \<Rightarrow> zstd_lib \<Rightarrow> Processor \<Rightarrow> ('s, 'w) Sink \<Rightarrow> Entry \<Rightarrow> bytes \<Rightarrow> u64 \<Rightarrow> 's \<Rightarrow> 'w phase \<times> 's" where
  "entry_begin sha256 Z p S entry groupData groupStart s =
     (case entry_slice entry groupData groupStart of
        Inl err \<Rightarrow> (Returned (Some err), s)
      | Inr entryData \<Rightarrow>
          (case sk_PutBuffered S of
             Some put \<Rightarrow>
               (case decompress Z p entry entryData of
                  Inl err \<Rightarrow> (Returned (Some (batch_err entry err)), s)
                | Inr content \<Rightarrow>
                    if sha256 content \<noteq> Hash entry then (Returned (Some (batch_err entry ErrHashMismatch)), s)
                    else (case put entry content s of
                            (Some err, s') \<Rightarrow> (Returned (Some (batch_err entry err)), s')
                          | (None, s') \<Rightarrow> (Returned None, s')))
           | None \<Rightarrow>
               (case sk_Writer S entry s of
                  (Inl err, s) \<Rightarrow> (Returned (Some (batch_err entry err)), s)
                | (Inr w, s) \<Rightarrow> (first_phase sha256 Z p entry entryData w, s))))"

text \<open>The buffer of \<^verbatim>\<open>io.CopyN\<close>.\<close>

definition copy_buf :: "Entry \<Rightarrow> nat" where
  "copy_buf entry = (let n = nat (uint (OriginalSize entry)) in if n < 32768 then max 1 n else 32768)"

fun entry_step ::
  "(bytes \<Rightarrow> bytes) \<Rightarrow> zstd_lib \<Rightarrow> Processor \<Rightarrow> ('s, 'w) Sink \<Rightarrow> Entry \<Rightarrow> bytes \<Rightarrow> u64 \<Rightarrow> 'w phase \<times> 's \<Rightarrow>
   'w phase \<times> 's" where
  "entry_step sha256 Z p S entry groupData groupStart (AtEntry, s) = entry_begin sha256 Z p S entry groupData groupStart s"
| "entry_step sha256 Z p S entry groupData groupStart (Writing w data, s) =
     (if length data > 0 then
        (case sk_Write S w data s of ((n, e), w', s') \<Rightarrow>
           if e \<noteq> None then (Closing w' e, s')
           else if n = 0 then (Closing w' (Some ErrShortWrite), s')
           else (Writing w' (drop n data), s'))
      else (Closing w None, s))"
| "entry_step sha256 Z p S entry groupData groupStart (Copying w hr left copied, s) =
     (if left = 0 then (Closing w (stream_verdict sha256 entry copied None hr), s)
      else case HashingReader_Read hr (min (copy_buf entry) left) of ((d, er), hr') \<Rightarrow>
        (case copy_put S w d s of ((nw, ew), w', s') \<Rightarrow>
          if ew \<noteq> None then (Closing w' (stream_verdict sha256 entry (copied + nw) ew hr'), s')
          else (case er of
                  Some e \<Rightarrow> (Closing w' (stream_verdict sha256 entry (copied + nw) (if e = EOF then None else Some e) hr'), s')
                | None \<Rightarrow> (Copying w' hr' (left - length d) (copied + nw), s'))))"
| "entry_step sha256 Z p S entry groupData groupStart (Closing w (Some processErr), s) =
     (Returned (Some (batch_err entry processErr)), sk_Discard S w s)"
| "entry_step sha256 Z p S entry groupData groupStart (Closing w None, s) =
     (case sk_Commit S w s of
        (Some err, s) \<Rightarrow> (Returned (Some (Wrap (''batch: '' @ Path entry @ '': commit'') err)), s)
      | (None, s) \<Rightarrow> (Returned None, s))"
| "entry_step sha256 Z p S entry groupData groupStart (ph, s) = (ph, s)"

subsection \<open>The workers\<close>

text \<open>
  Worker \<open>w\<close> handles the entries \<open>w, w + workers, \<dots>\<close>; its index is \<open>pw_next ! w\<close> and it stands at
  \<open>pw_phase ! w\<close>. \<open>pw_stop\<close>, \<open>pw_processed\<close> and \<open>pw_totalBytes\<close> are the atomic variables; the error that
  wins the \<^verbatim>\<open>CompareAndSwap\<close> is the one in the channel, \<open>pw_err\<close>. An entry that is under way when another worker
  fails is carried to its end, and its error is dropped.
\<close>

record ('s, 'w) parState =
  pw_next :: "nat list"
  pw_phase :: "'w phase list"
  pw_stop :: bool
  pw_processed :: int
  pw_totalBytes :: u64
  pw_err :: "err option"
  pw_sink :: 's

definition worker_step ::
  "(bytes \<Rightarrow> bytes) \<Rightarrow> zstd_lib \<Rightarrow> Processor \<Rightarrow> ('s, 'w) Sink \<Rightarrow> bytes \<Rightarrow> u64 \<Rightarrow> Entry list \<Rightarrow> nat \<Rightarrow> nat \<Rightarrow>
   ('s, 'w) parState \<Rightarrow> ('s, 'w) parState" where
  "worker_step sha256 Z p S data groupStart es workers w st =
     (let i = pw_next st ! w; goto = (\<lambda>ph st. st\<lparr>pw_phase := (pw_phase st)[w := ph]\<rparr>)
      in if w \<ge> workers then st
         else case pw_phase st ! w of
           Exited \<Rightarrow> st
         | AtLoop \<Rightarrow> goto (if i \<ge> length es \<or> pw_stop st then Exited else AtEntry) st
         | Returned (Some err) \<Rightarrow> goto Exited (if pw_stop st then st else st\<lparr>pw_stop := True, pw_err := Some err\<rparr>)
         | Returned None \<Rightarrow>
             goto AtLoop (st\<lparr>pw_next := (pw_next st)[w := i + workers], pw_processed := pw_processed st + 1,
                             pw_totalBytes := pw_totalBytes st + OriginalSize (es ! i)\<rparr>)
         | ph \<Rightarrow>
             (case entry_step sha256 Z p S (es ! i) data groupStart (ph, pw_sink st) of
                (ph', s) \<Rightarrow> goto ph' (st\<lparr>pw_sink := s\<rparr>)))"

text \<open>A worker that runs to its end: every step brings it closer, by the entries left, the place in the code and the bytes left.\<close>

fun phase_rank :: "nat \<Rightarrow> nat \<Rightarrow> 'w phase \<Rightarrow> nat" where
  "phase_rank n i AtLoop = (if i < n then 6 else 1)"
| "phase_rank n i AtEntry = 5"
| "phase_rank n i (Writing w data) = 4"
| "phase_rank n i (Copying w hr left copied) = 4"
| "phase_rank n i (Closing w x) = 3"
| "phase_rank n i (Returned x) = 2"
| "phase_rank n i Exited = 0"

fun phase_left :: "'w phase \<Rightarrow> nat" where
  "phase_left (Writing w data) = length data"
| "phase_left (Copying w hr left copied) = rd_size (hr_r hr)"
| "phase_left _ = 0"

definition worker_measure :: "Entry list \<Rightarrow> nat \<Rightarrow> ('s, 'w) parState \<Rightarrow> nat \<times> nat \<times> nat" where
  "worker_measure es w st =
     (length es - pw_next st ! w, phase_rank (length es) (pw_next st ! w) (pw_phase st ! w), phase_left (pw_phase st ! w))"

fun running :: "'w phase \<Rightarrow> bool" where
  "running Exited = False"
| "running _ = True"

lemma first_phase_rank: "phase_rank n i (first_phase sha256 Z p e d w) \<le> 4"
  by (auto simp: first_phase_def split: option.split sum.split)

lemma entry_begin_rank: "entry_begin sha256 Z p S e d g s = (ph, s') \<Longrightarrow> phase_rank n i ph < 5"
  using first_phase_rank [of n i sha256 Z p e]
  by (auto simp: entry_begin_def less_Suc_eq_le numeral_eq_Suc split: sum.splits option.splits prod.splits if_splits)

lemma entry_step_decreases:
  assumes "entry_step sha256 Z p S e d g (ph, s) = (ph', s')" "phase_rank n i ph \<in> {3, 4, 5}"
  shows "phase_rank n i ph' < phase_rank n i ph \<or> phase_rank n i ph' = phase_rank n i ph \<and> phase_left ph' < phase_left ph"
proof (cases ph)
  case AtEntry
  with assms entry_begin_rank show ?thesis by fastforce
next
  case (Writing w data)
  with assms show ?thesis by (auto split: prod.splits if_splits)
next
  case (Copying w hr left copied)
  have "0 < min (copy_buf e) left" if "left \<noteq> 0" using that by (auto simp: copy_buf_def Let_def less_max_iff_disj)
  with Copying assms show ?thesis
    by (auto split: prod.splits if_splits option.splits dest!: HashingReader_Read_decreases)
next
  case (Closing w x)
  with assms show ?thesis by (cases x) (auto split: prod.splits option.splits)
qed (use assms in \<open>auto split: if_splits\<close>)

lemma worker_step_decreases:
  assumes "w < W" "w < length (pw_next st)" "w < length (pw_phase st)" "running (pw_phase st ! w)"
  shows "(worker_measure es w (worker_step sha256 Z p S d g es W w st), worker_measure es w st) \<in>
    less_than <*lex*> less_than <*lex*> less_than"
proof (cases "phase_rank (length es) (pw_next st ! w) (pw_phase st ! w) \<in> {3, 4, 5}")
  case True
  obtain ph s where "entry_step sha256 Z p S (es ! (pw_next st ! w)) d g (pw_phase st ! w, pw_sink st) = (ph, s)" by fastforce
  with entry_step_decreases [OF this True] assms(1-3) True show ?thesis
    by (cases "pw_phase st ! w") (auto simp: worker_measure_def worker_step_def Let_def split: if_splits)
next
  case False
  with assms show ?thesis
    by (cases "pw_phase st ! w") (auto simp: worker_measure_def worker_step_def Let_def split: option.splits)
qed

function finish_worker ::
  "(bytes \<Rightarrow> bytes) \<Rightarrow> zstd_lib \<Rightarrow> Processor \<Rightarrow> ('s, 'w) Sink \<Rightarrow> bytes \<Rightarrow> u64 \<Rightarrow> Entry list \<Rightarrow> nat \<Rightarrow> nat \<Rightarrow>
   ('s, 'w) parState \<Rightarrow> ('s, 'w) parState" where
  "finish_worker sha256 Z p S data groupStart es workers w st =
     (if w < workers \<and> w < length (pw_next st) \<and> w < length (pw_phase st) \<and> running (pw_phase st ! w)
      then finish_worker sha256 Z p S data groupStart es workers w (worker_step sha256 Z p S data groupStart es workers w st)
      else st)"
  by pat_completeness auto
termination
proof (relation "inv_image (less_than <*lex*> less_than <*lex*> less_than)
    (\<lambda>(sha256, Z, p, S, data, groupStart, es, workers, w, st). worker_measure es w st)", goal_cases)
  case (2 sha256 Z p S data groupStart es workers w st)
  then show ?case unfolding in_inv_image prod.case by (elim conjE) (rule worker_step_decreases)
qed auto

declare finish_worker.simps [simp del]

definition processEntriesParallel ::
  "(bytes \<Rightarrow> bytes) \<Rightarrow> zstd_lib \<Rightarrow> Processor \<Rightarrow> ('s, 'w) Sink \<Rightarrow> nat list \<Rightarrow> bytes \<Rightarrow> u64 \<Rightarrow> Entry list \<Rightarrow> nat \<Rightarrow> 's \<Rightarrow>
   (ProcessStats \<times> err option) \<times> 's" where
  "processEntriesParallel sha256 Z p S sched data groupStart es workers s =
     (let st0 = \<lparr>pw_next = [0..<workers], pw_phase = replicate workers AtLoop, pw_stop = False, pw_processed = 0,
                 pw_totalBytes = 0, pw_err = None, pw_sink = s\<rparr>;
          st1 = fold (worker_step sha256 Z p S data groupStart es workers) sched st0;
          st = fold (finish_worker sha256 Z p S data groupStart es workers) [0..<workers] st1
      in ((\<lparr>Processed = pw_processed st, Skipped = 0, TotalBytes = pw_totalBytes st\<rparr>, pw_err st), pw_sink st))"

subsection \<open>The groups\<close>

type_synonym schedule = "rangeGroup \<Rightarrow> nat list"

fun worker_total :: "u64 \<Rightarrow> Entry list \<Rightarrow> u64" where
  "worker_total acc [] = acc"
| "worker_total acc (entry # es) =
     (let (next, ok) = AddUint64 acc (OriginalSize entry) in if \<not> ok then - 1 else worker_total next es)"

definition workerCount :: "int \<Rightarrow> Processor \<Rightarrow> Entry list \<Rightarrow> int" where
  "workerCount gomaxprocs p es =
     (if length es < 2 then 1
      else if pr_workers p < 0 then 1
      else if pr_workers p = 0 \<and>
        (gomaxprocs < 2 \<or> worker_total 0 es div ulen es < 65536)
      then 1
      else let workers = (if pr_workers p = 0 then gomaxprocs else pr_workers p);
               workers = (if workers > int (length es) then int (length es) else workers)
           in if workers < 2 then 1 else workers)"

definition processGroupWithData ::
  "(bytes \<Rightarrow> bytes) \<Rightarrow> zstd_lib \<Rightarrow> int \<Rightarrow> schedule \<Rightarrow> Processor \<Rightarrow> ('s, 'w) Sink \<Rightarrow> rangeGroup \<Rightarrow> bytes \<Rightarrow> 's \<Rightarrow>
   (ProcessStats \<times> err option) \<times> 's" where
  "processGroupWithData sha256 Z gomaxprocs sched p S grp data s =
     (if length (g_entries grp) = 0 then ((no_stats, None), s)
      else let workers = workerCount gomaxprocs p (g_entries grp)
           in if workers < 2
              then processEntriesSerial sha256 Z p S data (g_start grp) no_stats (g_entries grp) s
              else processEntriesParallel sha256 Z p S (sched grp) data (g_start grp) (g_entries grp) (nat workers) s)"

definition readGroupData :: "Processor \<Rightarrow> rangeGroup \<Rightarrow> bytes res" where
  "readGroupData p grp =
     (let sz = g_end grp - g_start grp
      in bindE (mapErr (Wrap ''batch'') (ToInt sz ErrSizeOverflow)) (\<lambda>sizeInt.
         case ra_ReadAt (src_at (pr_source p)) (nat sizeInt) (sint (g_start grp)) of
           (d, err) \<Rightarrow>
             if err \<noteq> None \<and> \<not> errors_is (the err) EOF then Inl (Wrap ''batch'' (the err))
             else if ulen d \<noteq> sz
             then Inl (Errorf ''batch: short read (%d of %d bytes)'' [] [int (length d), uint sz])
             else Inr d))"

definition groupSize :: "rangeGroup \<Rightarrow> i64 res" where
  "groupSize grp = ToInt64 (g_end grp - g_start grp) ErrSizeOverflow"

definition processGroup ::
  "(bytes \<Rightarrow> bytes) \<Rightarrow> zstd_lib \<Rightarrow> int \<Rightarrow> schedule \<Rightarrow> Processor \<Rightarrow> ('s, 'w) Sink \<Rightarrow> rangeGroup \<Rightarrow> 's \<Rightarrow>
   (ProcessStats \<times> err option) \<times> 's" where
  "processGroup sha256 Z gomaxprocs sched p S grp s =
     (case readGroupData p grp of
        Inl err \<Rightarrow> ((no_stats, Some err), s)
      | Inr data \<Rightarrow> processGroupWithData sha256 Z gomaxprocs sched p S grp data s)"

fun processGroupsSequential ::
  "(bytes \<Rightarrow> bytes) \<Rightarrow> zstd_lib \<Rightarrow> int \<Rightarrow> schedule \<Rightarrow> Processor \<Rightarrow> ('s, 'w) Sink \<Rightarrow> ProcessStats \<Rightarrow>
   rangeGroup list \<Rightarrow> 's \<Rightarrow> (ProcessStats \<times> err option) \<times> 's" where
  "processGroupsSequential sha256 Z gomaxprocs sched p S stats [] s = ((stats, None), s)"
| "processGroupsSequential sha256 Z gomaxprocs sched p S stats (grp # groups) s =
     (case processGroup sha256 Z gomaxprocs sched p S grp s of
        ((groupStats, err), s) \<Rightarrow>
          let stats = stats_add stats groupStats
          in if err \<noteq> None then ((stats, err), s)
             else processGroupsSequential sha256 Z gomaxprocs sched p S stats groups s)"

section \<open>The steps make up \<^verbatim>\<open>processEntry\<close>\<close>

text \<open>A worker that is not interrupted does what \<^verbatim>\<open>processEntry\<close> does.\<close>

definition entry_next ::
  "(bytes \<Rightarrow> bytes) \<Rightarrow> zstd_lib \<Rightarrow> Processor \<Rightarrow> ('s, 'w) Sink \<Rightarrow> Entry \<Rightarrow> bytes \<Rightarrow> u64 \<Rightarrow> 'w phase \<times> 's \<Rightarrow>
   'w phase \<times> 's \<Rightarrow> bool" where
  "entry_next sha256 Z p S e d g a b \<longleftrightarrow> b = entry_step sha256 Z p S e d g a"

lemma entry_runs:
  "entry_step sha256 Z p S e d g a = b \<Longrightarrow> (entry_next sha256 Z p S e d g)\<^sup>*\<^sup>* b c \<Longrightarrow> (entry_next sha256 Z p S e d g)\<^sup>*\<^sup>* a c"
  by (rule converse_rtranclp_into_rtranclp [of _ _ b]) (simp_all add: entry_next_def)

lemma entry_run1: "entry_step sha256 Z p S e d g a = b \<Longrightarrow> (entry_next sha256 Z p S e d g)\<^sup>*\<^sup>* a b"
  by (erule entry_runs) (rule rtranclp.rtrancl_refl)

lemma writeAll_runs:
  "writeAll S w data s = (x, w', s') \<Longrightarrow> (entry_next sha256 Z p S e d g)\<^sup>*\<^sup>* (Writing w data, s) (Closing w' x, s')"
proof (induction "length data" arbitrary: data w s rule: less_induct)
  case less
  obtain n y w1 s1 where w: "sk_Write S w data s = ((n, y), w1, s1)" by (metis prod.exhaust)
  show ?case
  proof (cases "data \<noteq> [] \<and> y = None \<and> n \<noteq> 0")
    case True
    then have "entry_step sha256 Z p S e d g (Writing w data, s) = (Writing w1 (drop n data), s1)" using w by simp
    moreover have "length (drop n data) < length data" "writeAll S w1 (drop n data) s1 = (x, w', s')"
      using True w less.prems by (simp_all add: writeAll.simps [of S w])
    ultimately show ?thesis using less.hyps by (blast intro: entry_runs)
  next
    case False
    with w less.prems show ?thesis by (intro entry_run1) (auto simp: writeAll.simps [of S w] split: if_splits)
  qed
qed

lemma copy_runs:
  "copy_limited S (copy_buf e) left hr w s copied = ((n, x), hr', w', s') \<Longrightarrow>
   (entry_next sha256 Z p S e d g)\<^sup>*\<^sup>* (Copying w hr left copied, s) (Closing w' (stream_verdict sha256 e n x hr'), s')"
proof (induction "rd_size (hr_r hr)" arbitrary: left hr w s copied rule: less_induct)
  case less
  have buf: "0 < copy_buf e" by (auto simp: copy_buf_def Let_def less_max_iff_disj)
  obtain c er hr1 where r: "HashingReader_Read hr (min (copy_buf e) left) = ((c, er), hr1)" by (metis prod.exhaust)
  obtain m y w1 s1 where q: "copy_put S w c s = ((m, y), w1, s1)" by (metis prod.exhaust)
  show ?case
  proof (cases "left \<noteq> 0 \<and> y = None \<and> er = None")
    case True
    then have "entry_step sha256 Z p S e d g (Copying w hr left copied, s) = (Copying w1 hr1 (left - length c) (copied + m), s1)"
      using r q by simp
    moreover have "rd_size (hr_r hr1) < rd_size (hr_r hr)" using HashingReader_Read_decreases r True buf by simp
    moreover have "copy_limited S (copy_buf e) (left - length c) hr1 w1 s1 (copied + m) = ((n, x), hr', w', s')"
      using less.prems r q True buf by (simp add: copy_limited.simps [of S _ left])
    ultimately show ?thesis using less.hyps by (blast intro: entry_runs)
  next
    case False
    with r q buf less.prems show ?thesis
      by (intro entry_run1) (auto simp: copy_limited.simps [of S _ left] split: if_splits option.splits)
  qed
qed

lemma first_phase_runs:
  assumes "(if Compression e = CompressionNone then writeVerifyUncompressed sha256 S e data w s
      else streamDecompressVerify sha256 Z p S e data w s) = (x, w', s')"
  shows "(entry_next sha256 Z p S e d g)\<^sup>*\<^sup>* (first_phase sha256 Z p e data w, s) (Closing w' x, s')"
proof (cases "Compression e = CompressionNone")
  case True
  show ?thesis
  proof (cases "verifyUncompressed sha256 e data")
    case None
    with True assms have "writeAll S w data s = (x, w', s')" by (simp add: writeVerifyUncompressed_def)
    with True None show ?thesis by (simp add: first_phase_def writeAll_runs)
  next
    case (Some err)
    with True assms have "x = Some err" "w' = w" "s' = s" by (simp_all add: writeVerifyUncompressed_def)
    with True Some show ?thesis by (simp add: first_phase_def)
  qed
next
  case comp: False
  show ?thesis
  proof (cases "newEntryReader Z p e data")
    case (Inl err)
    with comp assms show ?thesis by (auto simp: first_phase_def streamDecompressVerify_def)
  next
    case rd: (Inr rd)
    show ?thesis
    proof (cases "ToInt64 (OriginalSize e) ErrSizeOverflow")
      case (Inl err)
      with comp rd assms show ?thesis by (auto simp: first_phase_def streamDecompressVerify_def)
    next
      case n: (Inr n)
      then have n': "n = uint (OriginalSize e)" by (simp add: ToInt64_Inr_iff)
      let ?hr = "\<lparr>hr_r = rd, hr_h = []\<rparr>"
      obtain m y tee w1 s1 where c: "copy_limited S (copy_buf e) (nat n) ?hr w s 0 = ((m, y), tee, w1, s1)" by (metis prod.exhaust)
      let ?err = "if m = nat n then None else if m < nat n \<and> y = None then Some EOF else y"
      obtain z tee1 where z: "EnsureNoExtra tee = (z, tee1)" by fastforce
      have c': "CopyN S ?hr (nat n) w s = (?err, tee, w1, s1)"
        using c by (simp add: CopyN_def Let_def copy_buf_def n')
      have "streamDecompressVerify sha256 Z p S e data w s = (stream_verdict sha256 e m y tee, w1, s1)"
        unfolding streamDecompressVerify_def stream_verdict_def rd n sum.case c' prod.case Let_def z n' [symmetric]
        by (cases ?err; cases z) simp_all
      with comp assms have "(x, w', s') = (stream_verdict sha256 e m y tee, w1, s1)" by simp
      then have "w1 = w'" "s1 = s'" "x = stream_verdict sha256 e m y tee" by simp_all
      with copy_runs [OF c] comp rd n show ?thesis by (simp add: first_phase_def)
    qed
  qed
qed

lemma processEntry_runs:
  assumes "processEntry sha256 Z p S e d g s = (x, s')"
  shows "(entry_next sha256 Z p S e d g)\<^sup>*\<^sup>* (AtEntry, s) (Returned x, s')"
proof (cases "entry_slice e d g")
  case (Inl err)
  with assms show ?thesis by (intro entry_run1) (auto simp: processEntry_def entry_begin_def)
next
  case sl: (Inr data)
  show ?thesis
  proof (cases "sk_PutBuffered S")
    case (Some put)
    with sl assms show ?thesis
      by (intro entry_run1) (auto simp: processEntry_def entry_begin_def split: sum.splits prod.splits option.splits)
  next
    case un: None
    obtain y s1 where y: "sk_Writer S e s = (y, s1)" by fastforce
    show ?thesis
    proof (cases y)
      case (Inl err)
      with sl un y assms show ?thesis by (intro entry_run1) (auto simp: processEntry_def entry_begin_def)
    next
      case (Inr w)
      let ?r = "if Compression e = CompressionNone then writeVerifyUncompressed sha256 S e data w s1
        else streamDecompressVerify sha256 Z p S e data w s1"
      obtain z w2 s2 where z: "?r = (z, w2, s2)" by (metis prod.exhaust)
      have "(entry_next sha256 Z p S e d g)\<^sup>*\<^sup>* (AtEntry, s) (Closing w2 z, s2)"
        by (rule entry_runs [OF _ first_phase_runs [OF z]]) (simp add: entry_begin_def sl un y Inr)
      moreover have "(entry_next sha256 Z p S e d g)\<^sup>*\<^sup>* (Closing w2 z, s2) (Returned x, s')"
        using assms z by (intro entry_run1, cases z) (auto simp: processEntry_def sl un y Inr split: prod.splits option.splits)
      ultimately show ?thesis by (rule rtranclp_trans)
    qed
  qed
qed

section \<open>Freedom from interference\<close>

text \<open>
  In the manner of Owicki and Gries: every phase of a worker has an assertion, which speaks of the
  staging place of the worker alone; a step of a worker moves it from one assertion to the next and
  changes nothing but this place and, with verified content, the destination of its entry.
\<close>

fun phase_writer :: "'w phase \<Rightarrow> 'w option" where
  "phase_writer (Writing w data) = Some w"
| "phase_writer (Copying w hr left copied) = Some w"
| "phase_writer (Closing w x) = Some w"
| "phase_writer _ = None"

definition advances ::
  "(bytes \<Rightarrow> bytes) \<Rightarrow> (Entry \<Rightarrow> string) \<Rightarrow> Entry \<Rightarrow> string \<Rightarrow> (string \<Rightarrow> bytes option) \<Rightarrow> (string \<Rightarrow> bytes option) \<Rightarrow> bool" where
  "advances sha256 dest e t vis vis' \<longleftrightarrow>
     (\<forall>q. q \<noteq> t \<longrightarrow> vis' q = vis q \<or> q = dest e \<and> (\<exists>c. vis' q = Some c \<and> verified sha256 e c))"

lemma advances_refl [simp]: "advances sha256 dest e t vis vis"
  by (simp add: advances_def)

lemma advances_place: "advances sha256 dest e t vis (vis(t := x))"
  by (simp add: advances_def)

lemma written_advances:
  assumes "advances sha256 dest e t vis vis'" "e \<in> E" "t \<notin> dest ` E" "written sha256 dest vis E q"
  shows "written sha256 dest vis' E q"
  using assms unfolding advances_def written_def by (metis image_eqI)

lemma keeps_advances:
  assumes "keeps sha256 dest vis0 vis E" "advances sha256 dest e t vis vis'" "e \<in> E" "t \<notin> dest ` E" "vis0 t = None"
  shows "keeps sha256 dest vis0 vis' E"
proof -
  have "vis' q = Some c \<or> written sha256 dest vis' E q" if q: "vis0 q = Some c" for q c
  proof -
    have "q \<noteq> t" using q assms(5) by auto
    then have "vis' q = vis q \<or> written sha256 dest vis' E q"
      using assms(2,3) unfolding advances_def written_def by blast
    moreover have "vis q = Some c \<or> written sha256 dest vis E q" using assms(1) q by (simp add: keeps_def)
    ultimately show ?thesis using written_advances [OF assms(2-4)] by auto
  qed
  then show ?thesis by (simp add: keeps_def)
qed

lemma keeps_None: "keeps sha256 dest vis vis' E \<Longrightarrow> vis' t = None \<Longrightarrow> vis t = None"
  unfolding keeps_def written_def by (metis option.exhaust option.distinct(1))

lemma verdict_None:
  assumes "stream_verdict sha256 e n x tee = None" "n \<le> nat (uint (OriginalSize e))"
  shows "n = nat (uint (OriginalSize e)) \<and> sha256 (hr_h tee) = Hash e"
proof -
  obtain y tee' where y: "EnsureNoExtra tee = (y, tee')" by fastforce
  with assms have "n = nat (uint (OriginalSize e))" "y = None" "sha256 (hr_h tee') = Hash e"
    by (auto simp: stream_verdict_def Let_def HashingReader_Sum_def split: if_splits option.splits prod.splits)
  with EnsureNoExtra_None y show ?thesis by fastforce
qed

context atomic_sink
begin

fun phase_ok :: "(bytes \<Rightarrow> bytes) \<Rightarrow> Entry set \<Rightarrow> Entry \<Rightarrow> (string \<Rightarrow> bytes option) \<Rightarrow> 'w phase \<Rightarrow> bool" where
  "phase_ok sha256 E e vis (Writing w data) \<longleftrightarrow>
     ok w \<and> dest w = dest_of e \<and> (\<exists>c. vis (place w) = Some c \<and> verified sha256 e (c @ data))"
| "phase_ok sha256 E e vis (Copying w hr left copied) \<longleftrightarrow>
     ok w \<and> dest w = dest_of e \<and> vis (place w) = Some (hr_h hr) \<and> copied = length (hr_h hr) \<and>
     copied + left = nat (uint (OriginalSize e))"
| "phase_ok sha256 E e vis (Closing w x) \<longleftrightarrow>
     ok w \<and> dest w = dest_of e \<and> (\<exists>c. vis (place w) = Some c \<and> (x = None \<longrightarrow> verified sha256 e c))"
| "phase_ok sha256 E e vis (Returned x) \<longleftrightarrow> (x = None \<longrightarrow> written sha256 dest_of vis E (dest_of e))"
| "phase_ok sha256 E e vis _ \<longleftrightarrow> True"

lemma phase_ok_visible: "phase_ok sha256 E e vis ph \<Longrightarrow> phase_writer ph = Some w \<Longrightarrow> vis (place w) \<noteq> None"
  by (cases ph) auto

text \<open>The assertion of another worker survives.\<close>

lemma phase_ok_advances:
  assumes "phase_ok sha256 E e vis ph" "advances sha256 dest_of e' t vis vis'" "e' \<in> E" "t \<notin> dest_of ` E"
    and "\<And>w. phase_writer ph = Some w \<Longrightarrow> place w \<noteq> t \<and> place w \<notin> dest_of ` E"
  shows "phase_ok sha256 E e vis' ph"
proof -
  have "vis' (place w) = vis (place w)" if "phase_writer ph = Some w" for w
    using assms(2,3) assms(5) [OF that] by (auto simp: advances_def)
  with assms(1) written_advances [OF assms(2-4)] show ?thesis by (cases ph) auto
qed

lemma first_phase_ok:
  assumes "ok w" "dest w = dest_of e" "vis (place w) = Some []" "length data < 2 ^ 64"
  shows "phase_ok sha256 E e vis (first_phase sha256 Z p e data w) \<and> phase_writer (first_phase sha256 Z p e data w) = Some w"
  using assms uint_ulen_id [of data]
  by (auto simp: first_phase_def verified_def verifyUncompressed_def ToInt64_Inr_iff split: option.split sum.split if_splits)

text \<open>A step of a worker: \<open>t\<close> is its staging place, which is fresh when it has none yet.\<close>

definition entry_moves ::
  "(bytes \<Rightarrow> bytes) \<Rightarrow> Entry set \<Rightarrow> Entry \<Rightarrow> string \<Rightarrow> 'w phase \<Rightarrow> 's \<Rightarrow> 'w phase \<Rightarrow> 's \<Rightarrow> bool" where
  "entry_moves sha256 E e t ph s ph' s' \<longleftrightarrow>
     advances sha256 dest_of e t (visible s) (visible s') \<and> phase_ok sha256 E e (visible s') ph' \<and>
     (\<forall>w. phase_writer ph = Some w \<or> phase_writer ph' = Some w \<longrightarrow> place w = t) \<and>
     (phase_writer ph = None \<longrightarrow>
        visible s' = visible s \<and> phase_writer ph' = None \<or> visible s t = None \<and> t \<in> reserved s)"

lemma entry_begin_moves:
  assumes "entry_begin sha256 Z p S e d g s = (ph', s')"
  shows "\<exists>t. entry_moves sha256 E e t AtEntry s ph' s'"
proof (cases "entry_slice e d g")
  case (Inl err)
  with assms show ?thesis by (auto simp: entry_begin_def entry_moves_def)
next
  case sl: (Inr data)
  obtain y s1 where y: "sk_Writer S e s = (y, s1)" by fastforce
  show ?thesis
  proof (cases y)
    case (Inl err)
    with assms sl unbuffered y Writer_err [of e s err s1] show ?thesis by (auto simp: entry_begin_def entry_moves_def)
  next
    case (Inr w)
    then have w: "sk_Writer S e s = (Inr w, s1)" using y by simp
    have s': "s' = s1" "ph' = first_phase sha256 Z p e data w" using assms sl unbuffered w by (simp_all add: entry_begin_def)
    have "advances sha256 dest_of e (place w) (visible s) (visible s1)" using Writer_ok [OF w] by (simp add: advances_place)
    moreover have "phase_ok sha256 E e (visible s1) ph' \<and> phase_writer ph' = Some w"
      unfolding s'(2) using Writer_ok [OF w] entry_slice_short [OF sl] by (intro first_phase_ok) auto
    ultimately show ?thesis
      using fresh [OF w] place_reserved [OF w] s' by (intro exI [of _ "place w"]) (auto simp: entry_moves_def)
  qed
qed

lemma Writing_moves:
  assumes "entry_step sha256 Z p S e d g (Writing w data, s) = (ph', s')" "phase_ok sha256 E e (visible s) (Writing w data)"
  shows "entry_moves sha256 E e (place w) (Writing w data) s ph' s'"
proof -
  obtain c where c: "visible s (place w) = Some c" "verified sha256 e (c @ data)" "ok w" "dest w = dest_of e" using assms(2) by auto
  obtain n y w1 s1 where w: "sk_Write S w data s = ((n, y), w1, s1)" by (metis prod.exhaust)
  note h = Write_holds [OF w c(1)]
  from assms(1) w h c show ?thesis by (auto simp: entry_moves_def advances_place split: if_splits)
qed

lemma Copying_moves:
  assumes "entry_step sha256 Z p S e d g (Copying w hr left copied, s) = (ph', s')"
    and "phase_ok sha256 E e (visible s) (Copying w hr left copied)"
  shows "entry_moves sha256 E e (place w) (Copying w hr left copied) s ph' s'"
proof (cases "left = 0")
  case True
  with assms show ?thesis
    by (auto simp: entry_moves_def verified_def dest!: verdict_None split: if_splits)
next
  case False
  have vis: "visible s (place w) = Some (hr_h hr)" and own: "ok w" "dest w = dest_of e"
    and n: "copied = length (hr_h hr)" "copied + left = nat (uint (OriginalSize e))" using assms(2) by auto
  obtain c er hr1 where r: "HashingReader_Read hr (min (copy_buf e) left) = ((c, er), hr1)" by (metis prod.exhaust)
  have hh: "hr_h hr1 = hr_h hr @ c" "length c \<le> left"
    using r rd_Read_le [of "hr_r hr" "min (copy_buf e) left" c] by (auto simp: HashingReader_Read_eq)
  obtain m y w1 s1 where q: "copy_put S w c s = ((m, y), w1, s1)" by (metis prod.exhaust)
  note h = copy_put_holds [OF vis q]
  have ver: "verified sha256 e (hr_h hr @ take m c)" if "stream_verdict sha256 e (copied + m) z hr1 = None" for z
  proof -
    from verdict_None [OF that] n h(4) hh(2) have v: "copied + m = nat (uint (OriginalSize e))" "sha256 (hr_h hr1) = Hash e" by simp_all
    then have m: "take m c = c" using n h(4) hh(2) by simp
    have "length (hr_h hr @ c) = nat (uint (OriginalSize e))" using v(1) n h(4) hh(2) by simp
    then have "int (length (hr_h hr @ c)) = uint (OriginalSize e)" using nat_0_le [OF uint_ge_0, of "OriginalSize e"] by (simp only:)
    with v(2) m hh(1) show ?thesis unfolding verified_def by simp
  qed
  have s': "s' = s1" "ph' = Copying w1 hr1 (left - length c) (copied + m) \<and> y = None \<or> (\<exists>z. ph' = Closing w1 (stream_verdict sha256 e (copied + m) z hr1))"
    using assms(1) False r q by (auto split: if_splits option.splits)
  from s' h own n hh ver show ?thesis by (auto simp: entry_moves_def advances_place)
qed

lemma Closing_moves:
  assumes "entry_step sha256 Z p S e d g (Closing w x, s) = (ph', s')" "phase_ok sha256 E e (visible s) (Closing w x)" "e \<in> E"
  shows "entry_moves sha256 E e (place w) (Closing w x) s ph' s'"
proof (cases x)
  case (Some err)
  with assms Discard_off show ?thesis by (auto simp: entry_moves_def advances_def)
next
  case None
  then obtain c where c: "visible s (place w) = Some c" "verified sha256 e c" "ok w" "dest w = dest_of e" using assms(2) by auto
  obtain y s1 where y: "sk_Commit S w s = (y, s1)" by fastforce
  show ?thesis
  proof (cases y)
    case None
    with y Commit_ok [OF _ c(3,1)] c have "visible s1 = (visible s)(place w := None, dest_of e \<mapsto> c)" by simp
    with c(2) assms(3) have "advances sha256 dest_of e (place w) (visible s) (visible s1)" "written sha256 dest_of (visible s1) E (dest_of e)"
      by (auto simp: advances_def written_def)
    with assms(1) \<open>x = None\<close> y None show ?thesis by (auto simp: entry_moves_def)
  next
    case (Some err)
    with assms(1) \<open>x = None\<close> y Commit_err [of w s err s1] show ?thesis by (auto simp: entry_moves_def advances_def)
  qed
qed

lemma entry_step_moves:
  assumes "entry_step sha256 Z p S e d g (ph, s) = (ph', s')" "phase_ok sha256 E e (visible s) ph" "e \<in> E"
  shows "\<exists>t. entry_moves sha256 E e t ph s ph' s'"
proof (cases ph)
  case AtEntry
  with assms(1) entry_begin_moves show ?thesis by simp
next
  case (Writing w data)
  with assms Writing_moves show ?thesis by blast
next
  case (Copying w hr left copied)
  with assms Copying_moves show ?thesis by blast
next
  case (Closing w x)
  with assms Closing_moves show ?thesis by blast
qed (use assms in \<open>auto simp: entry_moves_def\<close>)

lemma copy_put_reserved: "copy_put S w d s = (r, w', s') \<Longrightarrow> reserved s' \<subseteq> reserved s"
  using reserved_Write [of w d s] by (fastforce simp: copy_put_def split: prod.splits if_splits)

lemma entry_step_reserved:
  assumes "entry_step sha256 Z p S e d g (ph, s) = (ph', s')"
  shows "reserved s' \<subseteq> reserved s"
proof (cases ph)
  case AtEntry
  with assms reserved_Writer [of e s] unbuffered show ?thesis by (auto simp: entry_begin_def split: sum.splits prod.splits)
next
  case (Writing w data)
  with assms reserved_Write [of w data s] show ?thesis by (auto split: prod.splits if_splits)
next
  case (Copying w hr left copied)
  with assms copy_put_reserved [of w _ s] show ?thesis by (auto split: prod.splits if_splits option.splits)
next
  case (Closing w x)
  with assms reserved_Commit [of w s] reserved_Discard [of w s] show ?thesis by (cases x) (auto split: prod.splits option.splits)
qed (use assms in auto)

lemma processEntry_reserved:
  assumes "processEntry sha256 Z p S e d g s = (x, s')"
  shows "reserved s' \<subseteq> reserved s"
proof -
  have "reserved (snd b) \<subseteq> reserved (snd a)" if "(entry_next sha256 Z p S e d g)\<^sup>*\<^sup>* a b" for a b
    using that
  proof (induction rule: rtranclp_induct)
    case (step y z)
    then show ?case using entry_step_reserved [of sha256 Z p e d g "fst y" "snd y" "fst z" "snd z"] by (simp add: entry_next_def)
  qed simp
  from this [OF processEntry_runs [OF assms]] show ?thesis by simp
qed

lemma processEntriesSerial_reserved:
  "processEntriesSerial sha256 Z p S d g stats es s = (r, s') \<Longrightarrow> reserved s' \<subseteq> reserved s"
proof (induction es arbitrary: stats s)
  case (Cons e es)
  obtain y s1 where e: "processEntry sha256 Z p S e d g s = (y, s1)" by fastforce
  with processEntry_reserved [OF e] Cons show ?case by (cases y) fastforce+
qed simp

end

section \<open>Parallel processing of a group\<close>

lemma same_residue_lt: "(j :: nat) mod W = i mod W \<Longrightarrow> j < i + W \<Longrightarrow> j \<le> i"
proof (rule ccontr)
  assume a: "j mod W = i mod W" "j < i + W" "\<not> j \<le> i"
  then have "(j - i) mod W = 0" by (simp add: mod_eq_dvd_iff_nat)
  moreover have "j - i < W" using a by linarith
  ultimately show False using a(3) by simp
qed

text \<open>
  The state of the workers while none has failed: worker \<open>w\<close> is at an index of its own residue
  class, and the entries counted as processed are those below the workers' indices.
\<close>

definition done_idx :: "nat \<Rightarrow> nat \<Rightarrow> nat list \<Rightarrow> nat set" where
  "done_idx n W next = {i. i < n \<and> i < next ! (i mod W)}"

lemma done_idx_upd:
  assumes "w < W" "length next = W" "next ! w mod W = w" "next ! w < n"
  shows "done_idx n W (next[w := next ! w + W]) = insert (next ! w) (done_idx n W next)"
    and "next ! w \<notin> done_idx n W next"
proof -
  have "j < next ! w + W \<longleftrightarrow> j = next ! w \<or> j < next ! w" if "j mod W = w" for j
    using same_residue_lt [of j W "next ! w"] that assms by auto
  then show "done_idx n W (next[w := next ! w + W]) = insert (next ! w) (done_idx n W next)"
    using assms by (auto simp: done_idx_def nth_list_update split: if_splits)
  show "next ! w \<notin> done_idx n W next" using assms by (simp add: done_idx_def)
qed

lemma finite_done_idx [simp]: "finite (done_idx n W next)"
  by (rule finite_subset [of _ "{..<n}"]) (auto simp: done_idx_def)

text \<open>A worker between its stop check and the return of \<^verbatim>\<open>processEntry\<close>; a worker that is at an entry.\<close>

fun inside :: "'w phase \<Rightarrow> bool" where
  "inside AtLoop = False"
| "inside (Returned x) = False"
| "inside Exited = False"
| "inside _ = True"

fun busy :: "'w phase \<Rightarrow> bool" where
  "busy AtLoop = False"
| "busy Exited = False"
| "busy _ = True"

lemma entry_begin_busy: "entry_begin sha256 Z p S e d g s = (ph, s') \<Longrightarrow> busy ph"
  by (auto simp: entry_begin_def first_phase_def split: sum.splits option.splits prod.splits if_splits)

lemma entry_step_busy: "entry_step sha256 Z p S e d g (ph, s) = (ph', s') \<Longrightarrow> inside ph \<Longrightarrow> busy ph'"
  by (induction sha256 Z p S e d g "(ph, s)" rule: entry_step.induct)
    (auto split: prod.splits if_splits option.splits dest: entry_begin_busy)

lemma worker_step_inside:
  "w < W \<Longrightarrow> inside (pw_phase st ! w) \<Longrightarrow> entry_step sha256 Z p S (es ! (pw_next st ! w)) d g (pw_phase st ! w, pw_sink st) = (ph', s') \<Longrightarrow>
   worker_step sha256 Z p S d g es W w st = st\<lparr>pw_sink := s', pw_phase := (pw_phase st)[w := ph']\<rparr>"
  by (cases "pw_phase st ! w") (simp_all add: worker_step_def Let_def)

context atomic_sink
begin

text \<open>What holds of one worker at all times, and of all of them.\<close>

definition worker_inv :: "(bytes \<Rightarrow> bytes) \<Rightarrow> Entry list \<Rightarrow> 's \<Rightarrow> (string \<Rightarrow> bytes option) \<Rightarrow> nat \<Rightarrow> 'w phase \<Rightarrow> bool" where
  "worker_inv sha256 es s0 vis i ph \<longleftrightarrow>
     phase_ok sha256 (set es) (es ! i) vis ph \<and> (busy ph \<longrightarrow> i < length es) \<and>
     (\<forall>w. phase_writer ph = Some w \<longrightarrow> place w \<notin> dest_of ` set es \<and> visible s0 (place w) = None)"

definition apart :: "'w phase list \<Rightarrow> bool" where
  "apart phs \<longleftrightarrow>
     (\<forall>v<length phs. \<forall>w<length phs. v \<noteq> w \<longrightarrow>
        (\<forall>a b. phase_writer (phs ! v) = Some a \<longrightarrow> phase_writer (phs ! w) = Some b \<longrightarrow> place a \<noteq> place b))"

definition par_inv :: "(bytes \<Rightarrow> bytes) \<Rightarrow> Entry list \<Rightarrow> nat \<Rightarrow> 's \<Rightarrow> ('s, 'w) parState \<Rightarrow> bool" where
  "par_inv sha256 es W s0 st \<longleftrightarrow>
     keeps sha256 dest_of (visible s0) (visible (pw_sink st)) (set es) \<and> reserved (pw_sink st) \<subseteq> reserved s0 \<and>
     length (pw_next st) = W \<and> length (pw_phase st) = W \<and> (pw_stop st \<longleftrightarrow> pw_err st \<noteq> None) \<and>
     apart (pw_phase st) \<and> (\<forall>w<W. worker_inv sha256 es s0 (visible (pw_sink st)) (pw_next st ! w) (pw_phase st ! w)) \<and>
     (\<not> pw_stop st \<longrightarrow>
        (\<forall>w<W. pw_next st ! w mod W = w \<and> (running (pw_phase st ! w) \<or> length es \<le> pw_next st ! w)) \<and>
        (\<forall>i\<in>done_idx (length es) W (pw_next st). written sha256 dest_of (visible (pw_sink st)) (set es) (dest_of (es ! i))) \<and>
        pw_processed st = int (card (done_idx (length es) W (pw_next st))))"

lemma apart_update: "apart phs \<Longrightarrow> phase_writer ph = None \<Longrightarrow> apart (phs[w := ph])"
  by (cases "w < length phs") (auto simp: apart_def nth_list_update split: if_splits)

lemma apart_writer:
  assumes "apart phs" "phase_writer ph = Some a"
    and "\<forall>v<length phs. v \<noteq> w \<longrightarrow> (\<forall>b. phase_writer (phs ! v) = Some b \<longrightarrow> place b \<noteq> place a)"
  shows "apart (phs[w := ph])"
  unfolding apart_def
proof (intro allI impI)
  fix u v b c
  assume h: "u < length (phs[w := ph])" "v < length (phs[w := ph])" "u \<noteq> v" "phase_writer (phs[w := ph] ! u) = Some b"
    "phase_writer (phs[w := ph] ! v) = Some c"
  consider "u = w" | "v = w" | "u \<noteq> w" "v \<noteq> w" by blast
  then show "place b \<noteq> place c"
  proof cases
    case 1
    with h assms(2,3) show ?thesis by fastforce
  next
    case 2
    with h assms(2,3) show ?thesis by fastforce
  next
    case 3
    with h assms(1) show ?thesis by (auto simp: apart_def)
  qed
qed

text \<open>
  The place of a step: nothing outside the worker depends on it. It is neither a destination, nor was there
  anything at the beginning, nor is it the place of another worker.
\<close>

lemma step_place:
  assumes inv: "par_inv sha256 es W s0 st" and res: "reserved s0 \<inter> dest_of ` set es = {}"
    and w: "w < W" and moves: "entry_moves sha256 E e t (pw_phase st ! w) (pw_sink st) ph' s'"
  shows "visible s' = visible (pw_sink st) \<and> phase_writer ph' = None \<or>
    t \<notin> dest_of ` set es \<and> visible s0 t = None \<and>
    (\<forall>v<W. v \<noteq> w \<longrightarrow> (\<forall>a. phase_writer (pw_phase st ! v) = Some a \<longrightarrow> place a \<noteq> t))"
proof (cases "phase_writer (pw_phase st ! w)")
  case (Some b)
  then have t: "place b = t" using moves by (simp add: entry_moves_def)
  with inv w Some show ?thesis by (auto simp: par_inv_def worker_inv_def apart_def)
next
  case None
  show ?thesis
  proof (cases "visible s' = visible (pw_sink st) \<and> phase_writer ph' = None")
    case False
    with moves None have t: "visible (pw_sink st) t = None" "t \<in> reserved (pw_sink st)" by (auto simp: entry_moves_def)
    have "t \<notin> dest_of ` set es" using inv res t(2) by (auto simp: par_inv_def)
    moreover have "keeps sha256 dest_of (visible s0) (visible (pw_sink st)) (set es)" using inv by (simp add: par_inv_def)
    then have "visible s0 t = None" using t(1) by (rule keeps_None)
    moreover have "place a \<noteq> t" if "v < W" "phase_writer (pw_phase st ! v) = Some a" for v a
    proof -
      have "phase_ok sha256 (set es) (es ! (pw_next st ! v)) (visible (pw_sink st)) (pw_phase st ! v)"
        using inv that(1) by (simp add: par_inv_def worker_inv_def)
      from phase_ok_visible [OF this that(2)] t(1) show ?thesis by auto
    qed
    ultimately show ?thesis by blast
  qed simp
qed

lemma inside_step_inv:
  assumes inv: "par_inv sha256 es W s0 st" and res: "reserved s0 \<inter> dest_of ` set es = {}"
    and w: "w < W" "inside (pw_phase st ! w)"
    and step: "entry_step sha256 Z p S (es ! (pw_next st ! w)) d g (pw_phase st ! w, pw_sink st) = (ph', s')"
  shows "par_inv sha256 es W s0 (st\<lparr>pw_sink := s', pw_phase := (pw_phase st)[w := ph']\<rparr>)"
proof -
  let ?i = "pw_next st ! w" and ?V = "visible (pw_sink st)" and ?V' = "visible s'" and ?E = "set es"
  have len: "length (pw_next st) = W" "length (pw_phase st) = W" using inv by (simp_all add: par_inv_def)
  have wi: "worker_inv sha256 es s0 ?V ?i (pw_phase st ! w)" using inv w by (simp add: par_inv_def)
  have "busy (pw_phase st ! w)" using w(2) by (cases "pw_phase st ! w") auto
  with wi have i: "?i < length es" and mem: "es ! ?i \<in> ?E" by (auto simp: worker_inv_def)
  obtain t where mv: "entry_moves sha256 ?E (es ! ?i) t (pw_phase st ! w) (pw_sink st) ph' s'"
    using entry_step_moves [OF step _ mem] wi by (auto simp: worker_inv_def)
  note place = step_place [OF inv res w(1) mv]
  have adv: "advances sha256 dest_of (es ! ?i) t ?V ?V'" and ok': "phase_ok sha256 ?E (es ! ?i) ?V' ph'"
    and own: "\<And>a. phase_writer ph' = Some a \<Longrightarrow> place a = t" using mv by (auto simp: entry_moves_def)
  have busy': "busy ph'" by (rule entry_step_busy [OF step w(2)])
  then have run': "running ph'" by (cases ph') auto
  have keeps: "keeps sha256 dest_of (visible s0) ?V' ?E"
    using place inv keeps_advances [OF _ adv mem] by (auto simp: par_inv_def)
  have wr: "written sha256 dest_of ?V' ?E q" if "written sha256 dest_of ?V ?E q" for q
    using place that written_advances [OF adv mem] by auto
  have others: "worker_inv sha256 es s0 ?V' (pw_next st ! v) (pw_phase st ! v)" if v: "v < W" "v \<noteq> w" for v
  proof -
    have vi: "worker_inv sha256 es s0 ?V (pw_next st ! v) (pw_phase st ! v)" using inv v by (simp add: par_inv_def)
    then have "phase_ok sha256 ?E (es ! (pw_next st ! v)) ?V' (pw_phase st ! v)"
      using place v phase_ok_advances [OF _ adv mem] by (auto simp: worker_inv_def)
    with vi show ?thesis by (simp add: worker_inv_def)
  qed
  have self: "worker_inv sha256 es s0 ?V' ?i ph'" using ok' i own place by (auto simp: worker_inv_def)
  have all: "\<forall>v<W. worker_inv sha256 es s0 ?V' (pw_next st ! v) ((pw_phase st)[w := ph'] ! v)"
    using others self len w by (auto simp: nth_list_update)
  have "apart ((pw_phase st)[w := ph'])"
  proof (cases "phase_writer ph'")
    case None
    with inv apart_update show ?thesis by (simp add: par_inv_def)
  next
    case (Some a)
    with place own have "\<forall>v<W. v \<noteq> w \<longrightarrow> (\<forall>b. phase_writer (pw_phase st ! v) = Some b \<longrightarrow> place b \<noteq> place a)" by auto
    with inv Some len apart_writer show ?thesis by (simp add: par_inv_def)
  qed
  moreover have "running ((pw_phase st)[w := ph'] ! v)" if "running (pw_phase st ! v)" for v
    using that run' len w by (cases "v = w") auto
  ultimately show ?thesis using inv keeps all wr len entry_step_reserved [OF step] by (fastforce simp: par_inv_def)
qed

lemma worker_step_inv:
  assumes inv: "par_inv sha256 es W s0 st" and res: "reserved s0 \<inter> dest_of ` set es = {}"
  shows "par_inv sha256 es W s0 (worker_step sha256 Z p S d g es W w st)"
proof (cases "w < W")
  case w: True
  have len: "length (pw_next st) = W" "length (pw_phase st) = W" using inv by (simp_all add: par_inv_def)
  let ?i = "pw_next st ! w"
  have wi: "worker_inv sha256 es s0 (visible (pw_sink st)) ?i (pw_phase st ! w)" using inv w by (simp add: par_inv_def)
  have quiet: "apart ((pw_phase st)[w := ph])" if "phase_writer ph = None" for ph
    using inv that apart_update by (simp add: par_inv_def)
  show ?thesis
  proof (cases "pw_phase st ! w")
    case AtLoop
    with inv w len quiet [of AtEntry] quiet [of Exited] show ?thesis
      by (auto simp: worker_step_def Let_def par_inv_def worker_inv_def nth_list_update)
  next
    case (Returned x)
    show ?thesis
    proof (cases x)
      case (Some err)
      with Returned inv w len quiet [of Exited] show ?thesis
        by (auto simp: worker_step_def Let_def par_inv_def worker_inv_def nth_list_update)
    next
      case None
      have i: "?i < length es" and wr: "written sha256 dest_of (visible (pw_sink st)) (set es) (dest_of (es ! ?i))"
        using wi Returned None by (simp_all add: worker_inv_def)
      let ?next = "(pw_next st)[w := ?i + W]"
      have st': "worker_step sha256 Z p S d g es W w st = st\<lparr>pw_next := ?next, pw_processed := pw_processed st + 1,
          pw_totalBytes := pw_totalBytes st + OriginalSize (es ! ?i), pw_phase := (pw_phase st)[w := AtLoop]\<rparr>"
        using Returned None w by (simp add: worker_step_def Let_def)
      have all: "\<forall>v<W. worker_inv sha256 es s0 (visible (pw_sink st)) (?next ! v) ((pw_phase st)[w := AtLoop] ! v)"
        using inv w len by (auto simp: par_inv_def worker_inv_def nth_list_update)
      have count: "(\<forall>v<W. ?next ! v mod W = v \<and> (running ((pw_phase st)[w := AtLoop] ! v) \<or> length es \<le> ?next ! v)) \<and>
          (\<forall>i\<in>done_idx (length es) W ?next. written sha256 dest_of (visible (pw_sink st)) (set es) (dest_of (es ! i))) \<and>
          pw_processed st + 1 = int (card (done_idx (length es) W ?next))" if "\<not> pw_stop st"
      proof -
        have old: "\<forall>v<W. pw_next st ! v mod W = v \<and> (running (pw_phase st ! v) \<or> length es \<le> pw_next st ! v)"
          "\<forall>i\<in>done_idx (length es) W (pw_next st). written sha256 dest_of (visible (pw_sink st)) (set es) (dest_of (es ! i))"
          "pw_processed st = int (card (done_idx (length es) W (pw_next st)))" using inv that by (simp_all add: par_inv_def)
        have mod: "?i mod W = w" using old(1) w by blast
        note upd = done_idx_upd [OF w len(1) mod i]
        show ?thesis unfolding upd(1) using old upd(2) wr mod w len by (auto simp: nth_list_update)
      qed
      show ?thesis unfolding st' par_inv_def using inv all count quiet [of AtLoop] len by (simp add: par_inv_def)
    qed
  next
    case Exited
    with inv show ?thesis by (simp add: worker_step_def Let_def)
  qed (use inside_step_inv [OF inv res w] worker_step_inside [OF w] in \<open>metis inside.simps prod.exhaust\<close>)+
qed (use inv in \<open>simp add: worker_step_def\<close>)

lemma worker_steps_inv:
  "par_inv sha256 es W s0 st \<Longrightarrow> reserved s0 \<inter> dest_of ` set es = {} \<Longrightarrow>
   par_inv sha256 es W s0 (fold (worker_step sha256 Z p S d g es W) ws st)"
  by (induction ws arbitrary: st) (auto intro: worker_step_inv)

lemma finish_worker_inv:
  "S' = S \<Longrightarrow> par_inv sha256 es W s0 st \<Longrightarrow> reserved s0 \<inter> dest_of ` set es = {} \<Longrightarrow>
   par_inv sha256 es W s0 (finish_worker sha256 Z p S' d g es W w st)"
proof (induction sha256 Z p S' d g es W w st rule: finish_worker.induct)
  case (1 sha256 Z p S' d g es W w st)
  then show ?case by (subst finish_worker.simps) (auto intro: worker_step_inv)
qed

end

text \<open>The workers have all returned at the end: \<^verbatim>\<open>wg.Wait()\<close>.\<close>

lemma worker_step_lengths:
  "length (pw_next (worker_step sha256 Z p S d g es W w st)) = length (pw_next st)"
  "length (pw_phase (worker_step sha256 Z p S d g es W w st)) = length (pw_phase st)"
  "v \<noteq> w \<Longrightarrow> pw_phase (worker_step sha256 Z p S d g es W w st) ! v = pw_phase st ! v"
  by (auto simp: worker_step_def Let_def split: phase.split option.split prod.split)

lemma finish_worker_exits:
  "(length (pw_next (finish_worker sha256 Z p S d g es W w st)) = length (pw_next st) \<and>
    length (pw_phase (finish_worker sha256 Z p S d g es W w st)) = length (pw_phase st) \<and>
    (\<forall>v. v \<noteq> w \<longrightarrow> pw_phase (finish_worker sha256 Z p S d g es W w st) ! v = pw_phase st ! v)) \<and>
   (w < W \<and> w < length (pw_next st) \<and> w < length (pw_phase st) \<longrightarrow>
      \<not> running (pw_phase (finish_worker sha256 Z p S d g es W w st) ! w))"
proof (induction sha256 Z p S d g es W w st rule: finish_worker.induct)
  case (1 sha256 Z p S d g es W w st)
  show ?case
  proof (cases "w < W \<and> w < length (pw_next st) \<and> w < length (pw_phase st) \<and> running (pw_phase st ! w)")
    case True
    with 1 [OF True] show ?thesis by (subst (1 2 3 4) finish_worker.simps) (simp add: worker_step_lengths)
  next
    case False
    then show ?thesis by (subst (1 2 3 4) finish_worker.simps) auto
  qed
qed

lemma finish_workers_exit:
  "k \<le> W \<Longrightarrow> length (pw_next st) = W \<Longrightarrow> length (pw_phase st) = W \<Longrightarrow>
   (let st' = fold (finish_worker sha256 Z p S d g es W) [0..<k] st
    in length (pw_next st') = W \<and> length (pw_phase st') = W \<and> (\<forall>w<k. \<not> running (pw_phase st' ! w)))"
proof (induction k)
  case (Suc k)
  then show ?case
    using finish_worker_exits [of sha256 Z p S d g es W k "fold (finish_worker sha256 Z p S d g es W) [0..<k] st"]
    by (auto simp: Let_def less_Suc_eq)
qed simp

context atomic_sink
begin

lemma finish_workers_inv:
  "par_inv sha256 es W s0 st \<Longrightarrow> reserved s0 \<inter> dest_of ` set es = {} \<Longrightarrow>
   par_inv sha256 es W s0 (fold (finish_worker sha256 Z p S d g es W) ws st)"
  by (induction ws arbitrary: st) (auto intro: finish_worker_inv [OF refl])

lemma processEntriesParallel_keeps:
  assumes "processEntriesParallel sha256 Z p S sched d g es W s = ((st, x), s')" and W: "0 < W"
    and res: "reserved s \<inter> dest_of ` set es = {}"
  shows "keeps sha256 dest_of (visible s) (visible s') (set es)" "reserved s' \<subseteq> reserved s"
    and "x = None \<Longrightarrow> Processed st = int (length es) \<and>
      (\<forall>e\<in>set es. written sha256 dest_of (visible s') (set es) (dest_of e))"
proof -
  let ?st0 = "\<lparr>pw_next = [0..<W], pw_phase = replicate W AtLoop, pw_stop = False, pw_processed = 0, pw_totalBytes = 0,
    pw_err = None, pw_sink = s\<rparr>"
  define st1 where "st1 = fold (worker_step sha256 Z p S d g es W) sched ?st0"
  define stf where "stf = fold (finish_worker sha256 Z p S d g es W) [0..<W] st1"
  have "done_idx (length es) W [0..<W] = {}"
    using W by (auto simp: done_idx_def not_less)
  then have "par_inv sha256 es W s ?st0" by (simp add: par_inv_def worker_inv_def apart_def)
  from worker_steps_inv [OF this res] have inv1: "par_inv sha256 es W s st1" unfolding st1_def .
  from finish_workers_inv [OF this res] have inv: "par_inv sha256 es W s stf" unfolding stf_def .
  have r: "st = \<lparr>Processed = pw_processed stf, Skipped = 0, TotalBytes = pw_totalBytes stf\<rparr>" "x = pw_err stf" "s' = pw_sink stf"
    using assms(1) by (auto simp: processEntriesParallel_def Let_def stf_def st1_def)
  from inv r show "keeps sha256 dest_of (visible s) (visible s') (set es)" "reserved s' \<subseteq> reserved s" by (simp_all add: par_inv_def)
  assume "x = None"
  then have ns: "\<not> pw_stop stf" using inv r by (simp add: par_inv_def)
  have "\<forall>w<W. \<not> running (pw_phase stf ! w)"
    using finish_workers_exit [of W W st1 sha256 Z p S d g es] inv1 unfolding stf_def by (simp add: Let_def par_inv_def)
  then have "length es \<le> pw_next stf ! w" if "w < W" for w using inv ns that by (auto simp: par_inv_def)
  then have all: "done_idx (length es) W (pw_next stf) = {..<length es}"
    using W by (auto simp: done_idx_def intro: less_le_trans)
  with inv ns r show "Processed st = int (length es) \<and>
      (\<forall>e\<in>set es. written sha256 dest_of (visible s') (set es) (dest_of e))"
    by (auto simp: par_inv_def in_set_conv_nth)
qed

text \<open>With a negative number of workers every group is processed serially, and the names of temporary files do not matter.\<close>

lemma processGroupWithData_sound:
  assumes "processGroupWithData sha256 Z mp sched p S grp d s = ((st, x), s')" and res: "pr_workers p < 0 \<or> reserved s \<inter> dest_of ` set (g_entries grp) = {}"
  shows "keeps sha256 dest_of (visible s) (visible s') (set (g_entries grp))" "reserved s' \<subseteq> reserved s"
    and "x = None \<Longrightarrow> Processed st = int (length (g_entries grp)) \<and>
      (\<forall>e\<in>set (g_entries grp). written sha256 dest_of (visible s') (set (g_entries grp)) (dest_of e))"
proof -
  let ?W = "workerCount mp p (g_entries grp)"
  have serial: "pr_workers p < 0 \<Longrightarrow> ?W = 1" by (simp add: workerCount_def)
  consider "g_entries grp = []" | "g_entries grp \<noteq> []" "?W < 2" | "g_entries grp \<noteq> []" "\<not> ?W < 2" by blast
  then have "keeps sha256 dest_of (visible s) (visible s') (set (g_entries grp)) \<and> reserved s' \<subseteq> reserved s \<and>
    (x = None \<longrightarrow> Processed st = int (length (g_entries grp)) \<and>
      (\<forall>e\<in>set (g_entries grp). written sha256 dest_of (visible s') (set (g_entries grp)) (dest_of e)))"
  proof cases
    case 1
    with assms show ?thesis by (auto simp: processGroupWithData_def)
  next
    case 2
    with assms have r: "processEntriesSerial sha256 Z p S d (g_start grp) no_stats (g_entries grp) s = ((st, x), s')"
      by (simp add: processGroupWithData_def)
    from processEntriesSerial_keeps [OF r] processEntriesSerial_reserved [OF r] show ?thesis
      using processEntriesSerial_ok(1,3) [of sha256 Z p d "g_start grp" no_stats "g_entries grp" s st s'] r by auto
  next
    case 3
    with assms have r: "processEntriesParallel sha256 Z p S (sched grp) d (g_start grp) (g_entries grp) (nat ?W) s = ((st, x), s')"
      by (simp add: processGroupWithData_def)
    have "0 < nat ?W" "reserved s \<inter> dest_of ` set (g_entries grp) = {}" using 3 res serial by auto
    from processEntriesParallel_keeps [OF r this] show ?thesis by blast
  qed
  then show "keeps sha256 dest_of (visible s) (visible s') (set (g_entries grp))" "reserved s' \<subseteq> reserved s"
    "x = None \<Longrightarrow> Processed st = int (length (g_entries grp)) \<and>
      (\<forall>e\<in>set (g_entries grp). written sha256 dest_of (visible s') (set (g_entries grp)) (dest_of e))" by auto
qed

lemma processGroup_sound:
  assumes "processGroup sha256 Z mp sched p S grp s = ((st, x), s')" "pr_workers p < 0 \<or> reserved s \<inter> dest_of ` set (g_entries grp) = {}"
  shows "keeps sha256 dest_of (visible s) (visible s') (set (g_entries grp))" "reserved s' \<subseteq> reserved s"
    and "x = None \<Longrightarrow> Processed st = int (length (g_entries grp)) \<and>
      (\<forall>e\<in>set (g_entries grp). written sha256 dest_of (visible s') (set (g_entries grp)) (dest_of e))"
  using assms processGroupWithData_sound [of sha256 Z mp sched p grp _ s st x s']
  by (auto simp: processGroup_def split: sum.splits)

lemma processGroupsSequential_keeps:
  "processGroupsSequential sha256 Z mp sched p S stats gs s = ((st, x), s') \<Longrightarrow>
   pr_workers p < 0 \<or> reserved s \<inter> dest_of ` set (concat (map g_entries gs)) = {} \<Longrightarrow>
   keeps sha256 dest_of (visible s) (visible s') (set (concat (map g_entries gs)))"
proof (induction gs arbitrary: stats s)
  case (Cons grp gs)
  let ?E = "set (concat (map g_entries (grp # gs)))"
  obtain st1 y s1 where g: "processGroup sha256 Z mp sched p S grp s = ((st1, y), s1)" by (metis prod.exhaust)
  have res: "pr_workers p < 0 \<or> reserved s \<inter> dest_of ` set (g_entries grp) = {}" using Cons.prems(2) by auto
  have k: "keeps sha256 dest_of (visible s) (visible s1) ?E"
    using keeps_mono [OF processGroup_sound(1) [OF g res]] by auto
  have res1: "pr_workers p < 0 \<or> reserved s1 \<inter> dest_of ` set (concat (map g_entries gs)) = {}"
    using processGroup_sound(2) [OF g res] Cons.prems(2) by auto
  show ?case
  proof (cases y)
    case None
    with g Cons.prems(1) Cons.IH [OF _ res1] have "keeps sha256 dest_of (visible s1) (visible s') (set (concat (map g_entries gs)))"
      by (auto simp: Let_def)
    then have "keeps sha256 dest_of (visible s1) (visible s') ?E" by (rule keeps_mono) auto
    with k show ?thesis by (rule keeps_trans)
  qed (use Cons.prems g k in \<open>auto simp: Let_def\<close>)
qed simp

lemma processGroupsSequential_ok:
  assumes "processGroupsSequential sha256 Z mp sched p S stats gs s = ((st, None), s')"
    and "pr_workers p < 0 \<or> reserved s \<inter> dest_of ` set (concat (map g_entries gs)) = {}"
  shows "Processed st = Processed stats + int (length (concat (map g_entries gs))) \<and>
    (\<forall>e\<in>set (concat (map g_entries gs)).
       written sha256 dest_of (visible s') (set (concat (map g_entries gs))) (dest_of e))"
  using assms
proof (induction gs arbitrary: stats s)
  case (Cons grp gs)
  let ?E = "set (concat (map g_entries (grp # gs)))"
  obtain st1 y s1 where g: "processGroup sha256 Z mp sched p S grp s = ((st1, y), s1)" by (metis prod.exhaust)
  with Cons.prems have y: "y = None" by (auto simp: Let_def split: if_splits)
  with Cons.prems g have r: "processGroupsSequential sha256 Z mp sched p S (stats_add stats st1) gs s1 = ((st, None), s')"
    by (simp add: Let_def)
  have res: "pr_workers p < 0 \<or> reserved s \<inter> dest_of ` set (g_entries grp) = {}" using Cons.prems(2) by auto
  have res1: "pr_workers p < 0 \<or> reserved s1 \<inter> dest_of ` set (concat (map g_entries gs)) = {}"
    using processGroup_sound(2) [OF g res] Cons.prems(2) by auto
  have "keeps sha256 dest_of (visible s1) (visible s') ?E"
    using keeps_mono [OF processGroupsSequential_keeps [OF r res1]] by auto
  moreover have "written sha256 dest_of (visible s1) ?E (dest_of e)" if "e \<in> set (g_entries grp)" for e
    using processGroup_sound(3) [OF g res y] that written_mono [of _ _ _ "set (g_entries grp)" _ ?E] by auto
  ultimately have "written sha256 dest_of (visible s') ?E (dest_of e)" if "e \<in> set (g_entries grp)" for e
    using that written_keeps by blast
  with Cons.IH [OF r res1] processGroup_sound(3) [OF g res y] show ?case
    by (auto simp: stats_add_def intro: written_mono)
qed simp

end

end
