(* ===== verification/Filesystem.thy ===== *)
theory Filesystem
  imports Paths "HOL-Library.AList"
begin

text \<open>
  The operating system's file operations as the program uses them (\<^verbatim>\<open>os\<close>, \<^verbatim>\<open>os.Root\<close>,
  \<^verbatim>\<open>path/filepath\<close> on a slash-separated platform). A file system is an association list of the
  files by path and knows which paths are directories. Every operation that can fail consults the next element of
  \<open>fs_faults\<close>: \<open>Some (k, e)\<close> makes it fail with \<open>e\<close> (a write after \<open>k\<close> bytes), so that any pattern
  of failures is a value of the model. \<open>fs_rand\<close> is the supply of random name suffixes,
  \<open>fs_clock\<close> the time, which a write advances.
\<close>

section \<open>Definitions\<close>

record fnode =
  n_content :: bytes
  n_mode :: u32
  n_mtime :: int

record fsys =
  fs_list :: "(string \<times> fnode) list"
  fs_dirs :: "string \<Rightarrow> bool"
  fs_faults :: "(nat \<times> err) option list"
  fs_rand :: "string list"
  fs_clock :: int

abbreviation fs_files :: "fsys \<Rightarrow> string \<rightharpoonup> fnode" where
  "fs_files s \<equiv> map_of (fs_list s)"

definition pop_fault :: "fsys \<Rightarrow> (nat \<times> err) option \<times> fsys" where
  "pop_fault s = (case fs_faults s of [] \<Rightarrow> (None, s) | f # fs \<Rightarrow> (f, s\<lparr>fs_faults := fs\<rparr>))"

text \<open>An operation with its fault check.\<close>

definition guarded :: "(fsys \<Rightarrow> err option \<times> fsys) \<Rightarrow> fsys \<Rightarrow> err option \<times> fsys" where
  "guarded op s = (case pop_fault s of (Some (k, e), s) \<Rightarrow> (Some e, s) | (None, s) \<Rightarrow> op s)"

text \<open>\<^verbatim>\<open>filepath.Dir\<close> and \<^verbatim>\<open>filepath.Join\<close> of clean arguments.\<close>

definition dir_of :: "string \<Rightarrow> string" where
  "dir_of p = (case last_index p slash of Some i \<Rightarrow> (if i = 0 then ''/'' else take i p) | None \<Rightarrow> ''.'')"

definition join_path :: "string \<Rightarrow> string \<Rightarrow> string" where
  "join_path d p =
     (if p = ''.'' then d else if d = [] \<or> d = ''.'' then p else if d = ''/'' then slash # p else d @ slash # p)"

definition is_dir :: "fsys \<Rightarrow> string \<Rightarrow> bool" where
  "is_dir s p \<longleftrightarrow> p = ''.'' \<or> p = ''/'' \<or> fs_dirs s p"

definition fs_exists :: "fsys \<Rightarrow> string \<Rightarrow> bool" where
  "fs_exists s p \<longleftrightarrow> fs_files s p \<noteq> None \<or> is_dir s p"

text \<open>The directory and its parents.\<close>

definition parents :: "string \<Rightarrow> string list" where
  "parents p = (let ws = split_on slash p in map (\<lambda>k. join_with slash (take k ws)) [1..<length ws + 1])"

definition os_MkdirAll :: "string \<Rightarrow> fsys \<Rightarrow> err option \<times> fsys" where
  "os_MkdirAll p = guarded (\<lambda>s.
     if list_ex (\<lambda>q. fs_files s q \<noteq> None) (parents p) then (Some (ErrNew ''not a directory''), s)
     else (None, s\<lparr>fs_dirs := (\<lambda>q. fs_dirs s q \<or> q \<in> set (parents p))\<rparr>))"

text \<open>\<^verbatim>\<open>os.OpenRoot\<close>.\<close>

definition os_OpenRoot :: "string \<Rightarrow> fsys \<Rightarrow> err option \<times> fsys" where
  "os_OpenRoot p = guarded (\<lambda>s.
     if is_dir s p then (None, s)
     else (Some (if fs_files s p \<noteq> None then ErrNew ''not a directory'' else ErrNotExist), s))"

text \<open>\<^verbatim>\<open>O_CREATE|O_EXCL\<close> and \<^verbatim>\<open>O_CREATE|O_TRUNC\<close>, with mode 0600.\<close>

definition os_CreateExcl :: "string \<Rightarrow> fsys \<Rightarrow> err option \<times> fsys" where
  "os_CreateExcl p = guarded (\<lambda>s.
     if fs_exists s p then (Some ErrExist, s)
     else if \<not> is_dir s (dir_of p) then (Some ErrNotExist, s)
     else (None, s\<lparr>fs_list := AList.update p (\<lparr>n_content = [], n_mode = 384, n_mtime = fs_clock s\<rparr>) (fs_list s)\<rparr>))"

definition os_CreateTrunc :: "string \<Rightarrow> fsys \<Rightarrow> err option \<times> fsys" where
  "os_CreateTrunc p = guarded (\<lambda>s.
     if is_dir s p then (Some (ErrNew ''is a directory''), s)
     else if \<not> is_dir s (dir_of p) then (Some ErrNotExist, s)
     else let md = (case fs_files s p of Some n \<Rightarrow> n_mode n | None \<Rightarrow> 384)
          in (None, s\<lparr>fs_list := AList.update p (\<lparr>n_content = [], n_mode = md, n_mtime = fs_clock s\<rparr>) (fs_list s)\<rparr>))"

text \<open>\<^verbatim>\<open>File.Write\<close> at the end of the open file \<open>p\<close>.\<close>

definition os_append :: "string \<Rightarrow> bytes \<Rightarrow> fsys \<Rightarrow> fsys" where
  "os_append p d s =
     (case fs_files s p of
        Some n \<Rightarrow> s\<lparr>fs_list := AList.update p (n\<lparr>n_content := n_content n @ d, n_mtime := fs_clock s\<rparr>) (fs_list s),
                   fs_clock := fs_clock s + 1\<rparr>
      | None \<Rightarrow> s)"

definition os_Write :: "string \<Rightarrow> bytes \<Rightarrow> fsys \<Rightarrow> (nat \<times> err option) \<times> fsys" where
  "os_Write p d s =
     (case pop_fault s of
        (Some (k, e), s) \<Rightarrow> let m = min k (length d) in ((m, Some e), os_append p (take m d) s)
      | (None, s) \<Rightarrow> ((length d, None), os_append p d s))"

definition os_Close :: "fsys \<Rightarrow> err option \<times> fsys" where
  "os_Close = guarded (\<lambda>s. (None, s))"

definition os_Chmod :: "string \<Rightarrow> u32 \<Rightarrow> fsys \<Rightarrow> err option \<times> fsys" where
  "os_Chmod p m = guarded (\<lambda>s.
     case fs_files s p of
       None \<Rightarrow> (Some ErrNotExist, s)
     | Some n \<Rightarrow> (None, s\<lparr>fs_list := AList.update p (n\<lparr>n_mode := m\<rparr>) (fs_list s)\<rparr>))"

definition os_Chtimes :: "string \<Rightarrow> int \<Rightarrow> fsys \<Rightarrow> err option \<times> fsys" where
  "os_Chtimes p t = guarded (\<lambda>s.
     case fs_files s p of
       None \<Rightarrow> (Some ErrNotExist, s)
     | Some n \<Rightarrow> (None, s\<lparr>fs_list := AList.update p (n\<lparr>n_mtime := t\<rparr>) (fs_list s)\<rparr>))"

definition os_Remove :: "string \<Rightarrow> fsys \<Rightarrow> err option \<times> fsys" where
  "os_Remove p = guarded (\<lambda>s.
     case fs_files s p of
       None \<Rightarrow> (Some ErrNotExist, s)
     | Some n \<Rightarrow> (None, s\<lparr>fs_list := AList.delete p (fs_list s)\<rparr>))"

definition os_Rename :: "string \<Rightarrow> string \<Rightarrow> fsys \<Rightarrow> err option \<times> fsys" where
  "os_Rename a b = guarded (\<lambda>s.
     case fs_files s a of
       None \<Rightarrow> (Some ErrNotExist, s)
     | Some n \<Rightarrow> if is_dir s b then (Some (ErrNew ''is a directory''), s)
                else (None, s\<lparr>fs_list := AList.update b n (AList.delete a (fs_list s))\<rparr>))"

text \<open>\<^verbatim>\<open>os.ReadFile\<close>.\<close>

definition os_ReadFile :: "string \<Rightarrow> fsys \<Rightarrow> bytes res \<times> fsys" where
  "os_ReadFile p s =
     (case pop_fault s of
        (Some (k, e), s) \<Rightarrow> (Inl e, s)
      | (None, s) \<Rightarrow> (case fs_files s p of None \<Rightarrow> (Inl ErrNotExist, s) | Some n \<Rightarrow> (Inr (n_content n), s)))"

text \<open>\<^verbatim>\<open>os.RemoveAll\<close>: the path and everything below it.\<close>

definition os_RemoveAll :: "string \<Rightarrow> fsys \<Rightarrow> err option \<times> fsys" where
  "os_RemoveAll p = guarded (\<lambda>s.
     let below = (\<lambda>q. q = p \<or> prefix (p @ [slash]) q)
     in (None, s\<lparr>fs_list := filter (\<lambda>(q, n). \<not> below q) (fs_list s),
                 fs_dirs := (\<lambda>q. fs_dirs s q \<and> \<not> below q)\<rparr>))"

text \<open>What can be read under a path.\<close>

definition fs_content :: "fsys \<Rightarrow> string \<Rightarrow> bytes option" where
  "fs_content s p = map_option n_content (fs_files s p)"

text \<open>\<^verbatim>\<open>os.CreateTemp\<close> (which retries 10000 names) for a pattern that ends in \<^verbatim>\<open>*\<close>.\<close>

fun create_temp :: "nat \<Rightarrow> string \<Rightarrow> string \<Rightarrow> fsys \<Rightarrow> string res \<times> fsys" where
  "create_temp 0 dir pre s = (Inl ErrExist, s)"
| "create_temp (Suc attempts) dir pre s =
     (case fs_rand s of
        [] \<Rightarrow> (Inl (ErrNew ''random source''), s)
      | name # rs \<Rightarrow>
          let p = join_path dir (pre @ name)
          in case os_CreateExcl p (s\<lparr>fs_rand := rs\<rparr>) of
               (None, s) \<Rightarrow> (Inr p, s)
             | (Some err, s) \<Rightarrow> if err = ErrExist then create_temp attempts dir pre s else (Inl err, s))"

definition os_CreateTemp :: "string \<Rightarrow> string \<Rightarrow> fsys \<Rightarrow> string res \<times> fsys" where
  "os_CreateTemp dir pre s = create_temp 10000 dir pre s"

text \<open>The first attempt, for evaluation.\<close>

lemma os_CreateTemp_first [code]:
  "os_CreateTemp dir pre s =
     (case fs_rand s of
        [] \<Rightarrow> (Inl (ErrNew ''random source''), s)
      | name # rs \<Rightarrow>
          (case os_CreateExcl (join_path dir (pre @ name)) (s\<lparr>fs_rand := rs\<rparr>) of
             (None, s) \<Rightarrow> (Inr (join_path dir (pre @ name)), s)
           | (Some err, s) \<Rightarrow> if err = ErrExist then create_temp 9999 dir pre s else (Inl err, s)))"
proof -
  have "(10000 :: nat) = Suc 9999" by simp
  then show ?thesis unfolding os_CreateTemp_def by (simp only: create_temp.simps Let_def)
qed

text \<open>\<^verbatim>\<open>filepath.WalkDir\<close> over the regular files under \<open>root\<close>.\<close>

definition below_dir :: "string \<Rightarrow> string \<Rightarrow> bool" where
  "below_dir root p =
     (if root = ''.'' then \<not> prefix ''/'' p else if root = ''/'' then prefix ''/'' p else prefix (root @ [slash]) p)"

definition walk_files :: "string \<Rightarrow> fsys \<Rightarrow> (string \<times> fnode) list" where
  "walk_files root s = filter (\<lambda>(p, n). below_dir root p) (fs_list s)"

section \<open>Contents\<close>

lemma pop_fault_content: "pop_fault s = (f, s') \<Longrightarrow> fs_list s' = fs_list s \<and> fs_dirs s' = fs_dirs s"
  by (auto simp: pop_fault_def split: list.splits)

lemmas os_defs = os_MkdirAll_def os_CreateExcl_def os_CreateTrunc_def os_Close_def os_Chmod_def
  os_Chtimes_def os_Remove_def os_Rename_def guarded_def fs_content_def update_conv' delete_conv'

lemma os_same_content:
  "os_MkdirAll p s = (x, s') \<Longrightarrow> fs_content s' = fs_content s"
  "os_Close s = (x, s') \<Longrightarrow> fs_content s' = fs_content s"
  "os_Chmod p m s = (x, s') \<Longrightarrow> fs_content s' = fs_content s"
  "os_Chtimes p t s = (x, s') \<Longrightarrow> fs_content s' = fs_content s"
  by (rule ext, auto simp: os_defs split: prod.splits option.splits if_splits dest!: pop_fault_content)+

lemma os_OpenRoot_content: "os_OpenRoot p s = (x, s') \<Longrightarrow> fs_content s' = fs_content s"
  by (rule ext, auto simp: os_OpenRoot_def guarded_def fs_content_def split: prod.splits option.splits if_splits dest!: pop_fault_content)

text \<open>Only the creation of temporary files uses up random names.\<close>

lemma pop_fault_rand: "pop_fault s = (f, s') \<Longrightarrow> fs_rand s' = fs_rand s"
  by (auto simp: pop_fault_def split: list.splits)

lemma os_same_rand:
  "os_OpenRoot p s = (x, s') \<Longrightarrow> fs_rand s' = fs_rand s"
  "os_MkdirAll p s = (x, s') \<Longrightarrow> fs_rand s' = fs_rand s"
  "os_CreateExcl p s = (x, s') \<Longrightarrow> fs_rand s' = fs_rand s"
  "os_Close s = (x, s') \<Longrightarrow> fs_rand s' = fs_rand s"
  "os_Chmod p m s = (x, s') \<Longrightarrow> fs_rand s' = fs_rand s"
  "os_Chtimes p t s = (x, s') \<Longrightarrow> fs_rand s' = fs_rand s"
  "os_Remove p s = (x, s') \<Longrightarrow> fs_rand s' = fs_rand s"
  "os_Rename a b s = (x, s') \<Longrightarrow> fs_rand s' = fs_rand s"
  by (auto simp: os_defs os_OpenRoot_def split: prod.splits option.splits if_splits dest!: pop_fault_rand)

lemma os_Write_rand: "os_Write p d s = (r, s') \<Longrightarrow> fs_rand s' = fs_rand s"
  by (auto simp: os_Write_def os_append_def Let_def split: prod.splits option.splits dest!: pop_fault_rand)

lemma os_CreateExcl_content:
  "os_CreateExcl p s = (None, s') \<Longrightarrow> fs_content s p = None \<and> fs_content s' = (fs_content s)(p \<mapsto> [])"
  "os_CreateExcl p s = (Some e, s') \<Longrightarrow> fs_content s' = fs_content s"
  by (auto simp: os_defs fs_exists_def fun_eq_iff split: prod.splits option.splits if_splits dest!: pop_fault_content)

lemma os_CreateTrunc_content:
  "os_CreateTrunc p s = (None, s') \<Longrightarrow> fs_content s' = (fs_content s)(p \<mapsto> [])"
  "os_CreateTrunc p s = (Some e, s') \<Longrightarrow> fs_content s' = fs_content s"
  by (auto simp: os_defs Let_def fun_eq_iff split: prod.splits option.splits if_splits dest!: pop_fault_content)

lemma os_Write_content:
  "os_Write p d s = ((n, x), s') \<Longrightarrow> fs_content s p = Some c \<Longrightarrow>
   n \<le> length d \<and> fs_content s' = (fs_content s)(p \<mapsto> c @ take n d)"
  by (auto simp: os_Write_def os_append_def fs_content_def update_conv' Let_def fun_eq_iff
      split: prod.splits option.splits dest!: pop_fault_content)

lemma os_Remove_content: "os_Remove p s = (x, s') \<Longrightarrow> q \<noteq> p \<Longrightarrow> fs_content s' q = fs_content s q"
  by (auto simp: os_defs split: prod.splits option.splits if_splits dest!: pop_fault_content)

lemma os_Rename_content:
  "os_Rename a b s = (None, s') \<Longrightarrow> fs_content s a = Some c \<Longrightarrow>
   fs_content s' = (fs_content s)(a := None, b \<mapsto> c)"
  "os_Rename a b s = (Some e, s') \<Longrightarrow> fs_content s' = fs_content s"
  by (auto simp: os_defs fun_eq_iff split: prod.splits option.splits if_splits dest!: pop_fault_content)

lemma os_ReadFile_content:
  "os_ReadFile p s = (x, s') \<Longrightarrow> fs_content s' = fs_content s \<and> fs_rand s' = fs_rand s \<and> fs_dirs s' = fs_dirs s \<and>
   (\<forall>d. x = Inr d \<longrightarrow> fs_content s p = Some d)"
  by (auto simp: os_ReadFile_def fs_content_def pop_fault_def split: list.splits option.splits prod.splits)

lemma fs_content_rand [simp]: "fs_content (s\<lparr>fs_rand := rs\<rparr>) = fs_content s"
  by (rule ext) (simp add: fs_content_def)

lemma create_temp_content:
  assumes "create_temp n dir pre s = (r, s')"
  shows "(\<forall>t. r = Inr t \<longrightarrow> fs_content s t = None \<and> fs_content s' = (fs_content s)(t \<mapsto> [])) \<and>
    (\<forall>e. r = Inl e \<longrightarrow> fs_content s' = fs_content s)"
  using assms
proof (induction n arbitrary: s)
  case (Suc n)
  show ?case
  proof (cases "fs_rand s")
    case Nil
    with Suc.prems show ?thesis by auto
  next
    case (Cons name rs)
    obtain x s1 where c: "os_CreateExcl (join_path dir (pre @ name)) (s\<lparr>fs_rand := rs\<rparr>) = (x, s1)" by fastforce
    show ?thesis
    proof (cases x)
      case None
      with os_CreateExcl_content(1) [of _ "s\<lparr>fs_rand := rs\<rparr>" s1] c Cons Suc.prems show ?thesis
        by (auto simp: Let_def)
    next
      case (Some e)
      then have "fs_content s1 = fs_content s"
        using os_CreateExcl_content(2) [of _ "s\<lparr>fs_rand := rs\<rparr>" e s1] c by simp
      with Some c Cons Suc.prems Suc.IH [of s1] show ?thesis by (auto simp: Let_def split: if_splits)
    qed
  qed
qed auto


lemma create_temp_dirs: "create_temp n dir pre s = (r, s') \<Longrightarrow> fs_dirs s' = fs_dirs s"
proof (induction n arbitrary: s)
  case (Suc n)
  show ?case
  proof (cases "fs_rand s")
    case (Cons name rs)
    obtain x s1 where c: "os_CreateExcl (join_path dir (pre @ name)) (s\<lparr>fs_rand := rs\<rparr>) = (x, s1)" by fastforce
    then have "fs_dirs s1 = fs_dirs s"
      by (auto simp: os_CreateExcl_def guarded_def pop_fault_def split: list.splits option.splits if_splits)
    with Suc.prems Suc.IH [of s1] Cons c show ?thesis by (auto simp: Let_def split: option.splits if_splits)
  qed (use Suc.prems in auto)
qed auto

end
