(* ===== verification/FileSink.thy ===== *)
theory FileSink
  imports Workers Filesystem
begin

text \<open>
  \<^verbatim>\<open>core/internal/batch/filesink.go\<close>: the sink that extracts entries into a directory, through a
  temporary file that is renamed on commit, or directly. \<^verbatim>\<open>os.Root\<close> operations address
  \<open>join_path destDir rel\<close>. A committer is one record for both \<^verbatim>\<open>fileCommitter\<close> (\<open>c_direct\<close> false,
  \<open>c_file\<close> the temporary file) and \<^verbatim>\<open>directCommitter\<close> (\<open>c_file\<close> the destination itself).

  The sink is interpreted as an \<open>atomic_sink\<close> when it writes through temporary files.
\<close>

section \<open>Definitions\<close>

record FileSink =
  destDir :: string
  overwrite :: bool
  preserveMode :: bool
  preserveTimes :: bool
  directWrite :: bool

definition WithOverwrite :: "bool \<Rightarrow> FileSink \<Rightarrow> FileSink" where
  "WithOverwrite b s = s\<lparr>overwrite := b\<rparr>"

definition WithPreserveMode :: "bool \<Rightarrow> FileSink \<Rightarrow> FileSink" where
  "WithPreserveMode b s = s\<lparr>preserveMode := b\<rparr>"

definition WithPreserveTimes :: "bool \<Rightarrow> FileSink \<Rightarrow> FileSink" where
  "WithPreserveTimes b s = s\<lparr>preserveTimes := b\<rparr>"

definition WithDirectWrites :: "bool \<Rightarrow> FileSink \<Rightarrow> FileSink" where
  "WithDirectWrites b s = s\<lparr>directWrite := b\<rparr>"

definition NewFileSink :: "string \<Rightarrow> (FileSink \<Rightarrow> FileSink) list \<Rightarrow> FileSink" where
  "NewFileSink dir opts =
     fold (\<lambda>opt s. opt s) opts
       \<lparr>destDir = dir, overwrite = False, preserveMode = False, preserveTimes = False, directWrite = False\<rparr>"

text \<open>\<^verbatim>\<open>os.IsNotExist\<close> of the result of \<^verbatim>\<open>os.Stat\<close>: there is nothing, and no file in place of one of the parents.\<close>

definition ShouldProcess :: "FileSink \<Rightarrow> fsys \<Rightarrow> Entry \<Rightarrow> bool" where
  "ShouldProcess fsk s entry =
     (if overwrite fsk then True
      else if \<not> valid_path (Path entry) then False
      else let destPath = join_path (destDir fsk) (Path entry)
           in \<not> fs_exists s destPath \<and> \<not> list_ex (\<lambda>q. fs_files s q \<noteq> None) (parents destPath))"

text \<open>\<^verbatim>\<open>createTempFile\<close>, with the attempts left.\<close>

fun createTempFile :: "nat \<Rightarrow> string \<Rightarrow> string \<Rightarrow> fsys \<Rightarrow> string res \<times> fsys" where
  "createTempFile 0 dir pre s = (Inl (ErrNew ''create temp file: exhausted retries''), s)"
| "createTempFile (Suc attempts) dir pre s =
     (case fs_rand s of
        [] \<Rightarrow> (Inl (ErrNew ''random source''), s)
      | name # rs \<Rightarrow>
          let relPath = join_path dir (pre @ name)
          in case os_CreateExcl relPath (s\<lparr>fs_rand := rs\<rparr>) of
               (None, s) \<Rightarrow> (Inr relPath, s)
             | (Some err, s) \<Rightarrow>
                 if \<not> errors_is err ErrExist then (Inl err, s) else createTempFile attempts dir pre s)"

record committer =
  c_entry :: Entry
  c_dest :: string
  c_file :: string
  c_direct :: bool
  c_sink :: FileSink

definition FileSink_Writer :: "FileSink \<Rightarrow> Entry \<Rightarrow> fsys \<Rightarrow> committer res \<times> fsys" where
  "FileSink_Writer fsk entry s =
     (if \<not> valid_path (Path entry) then (Inl (PathError ''copy'' (Path entry) ErrInvalid), s)
      else
        let destPath = join_path (destDir fsk) (Path entry); dir = dir_of destPath
        in case os_OpenRoot (destDir fsk) s of
          (Some err, s) \<Rightarrow> (Inl (Wrap (''open destination root '' @ destDir fsk) err), s)
        | (None, s) \<Rightarrow>
            (case os_MkdirAll dir s of
               (Some err, s) \<Rightarrow> (Inl (Wrap (''create directory '' @ dir) err), s)
             | (None, s) \<Rightarrow>
                 if directWrite fsk then
                   (case os_CreateTrunc destPath s of
                      (Some err, s) \<Rightarrow> (Inl (Wrap (''create file '' @ destPath) err), s)
                    | (None, s) \<Rightarrow> (Inr \<lparr>c_entry = entry, c_dest = destPath, c_file = destPath, c_direct = True, c_sink = fsk\<rparr>, s))
                 else
                   (case createTempFile 10 dir ''.blob-'' s of
                      (Inl err, s) \<Rightarrow> (Inl (Wrap ''create temp file'' err), s)
                    | (Inr temp, s) \<Rightarrow>
                        (Inr \<lparr>c_entry = entry, c_dest = destPath, c_file = temp, c_direct = False, c_sink = fsk\<rparr>, s))))"

definition committer_Write :: "committer \<Rightarrow> bytes \<Rightarrow> fsys \<Rightarrow> (nat \<times> err option) \<times> committer \<times> fsys" where
  "committer_Write c p s = (case os_Write (c_file c) p s of (r, s) \<Rightarrow> (r, c, s))"

text \<open>The clean-up of a failed commit: the file is removed as well as possible.\<close>

definition remove_quietly :: "string \<Rightarrow> err \<Rightarrow> fsys \<Rightarrow> err option \<times> fsys" where
  "remove_quietly p err s = (Some err, snd (os_Remove p s))"

text \<open>The metadata steps shared by both committers' \<^verbatim>\<open>Commit\<close>.\<close>

definition commit_meta :: "committer \<Rightarrow> fsys \<Rightarrow> err option \<times> fsys" where
  "commit_meta c s =
     (case (if preserveMode (c_sink c) then os_Chmod (c_file c) (mode_perm (Mode (c_entry c))) s else (None, s)) of
        (Some err, s) \<Rightarrow> remove_quietly (c_file c) (Wrap ''chmod'' err) s
      | (None, s) \<Rightarrow>
          (case (if preserveTimes (c_sink c) then os_Chtimes (c_file c) (ModTime (c_entry c)) s else (None, s)) of
             (Some err, s) \<Rightarrow> remove_quietly (c_file c) (Wrap ''chtimes'' err) s
           | (None, s) \<Rightarrow> (None, s)))"

definition fileCommitter_Commit :: "committer \<Rightarrow> fsys \<Rightarrow> err option \<times> fsys" where
  "fileCommitter_Commit c s =
     (case os_Close s of
        (Some err, s) \<Rightarrow> remove_quietly (c_file c) (Wrap ''close temp file'' err) s
      | (None, s) \<Rightarrow>
          (case commit_meta c s of
             (Some err, s) \<Rightarrow> (Some err, s)
           | (None, s) \<Rightarrow>
               (case os_Rename (c_file c) (c_dest c) s of
                  (Some err, s) \<Rightarrow> remove_quietly (c_file c) (Wrap (''rename to '' @ c_dest c) err) s
                | (None, s) \<Rightarrow> (None, s))))"

definition directCommitter_Commit :: "committer \<Rightarrow> fsys \<Rightarrow> err option \<times> fsys" where
  "directCommitter_Commit c s =
     (case os_Close s of
        (Some err, s) \<Rightarrow> remove_quietly (c_file c) (Wrap ''close file'' err) s
      | (None, s) \<Rightarrow> commit_meta c s)"

definition committer_Commit :: "committer \<Rightarrow> fsys \<Rightarrow> err option \<times> fsys" where
  "committer_Commit c s = (if c_direct c then directCommitter_Commit c s else fileCommitter_Commit c s)"

definition committer_Discard :: "committer \<Rightarrow> fsys \<Rightarrow> fsys" where
  "committer_Discard c s = snd (os_Remove (c_file c) (snd (os_Close s)))"

definition file_sink :: "FileSink \<Rightarrow> (fsys, committer) Sink" where
  "file_sink fsk =
     \<lparr>sk_ShouldProcess = ShouldProcess fsk,
      sk_PutBuffered = None,
      sk_Writer = FileSink_Writer fsk,
      sk_Write = committer_Write,
      sk_Commit = committer_Commit,
      sk_Discard = committer_Discard\<rparr>"

section \<open>The sink keeps the staging contract\<close>

definition sink_dest :: "FileSink \<Rightarrow> Entry \<Rightarrow> string" where
  "sink_dest fsk e = join_path (destDir fsk) (Path e)"

lemma createTempFile_content:
  assumes "createTempFile n dir pre s = (r, s')"
  shows "(\<forall>t. r = Inr t \<longrightarrow> fs_content s t = None \<and> fs_content s' = (fs_content s)(t \<mapsto> [])) \<and>
    (\<forall>e. r = Inl e \<longrightarrow> fs_content s' = fs_content s)"
  using assms
proof (induction n arbitrary: s)
  case (Suc n)
  show ?case
  proof (cases "fs_rand s")
    case Nil
    with Suc.prems show ?thesis by auto
  next
    case (Cons name rs)
    obtain x s1 where c: "os_CreateExcl (join_path dir (pre @ name)) (s\<lparr>fs_rand := rs\<rparr>) = (x, s1)" by fastforce
    show ?thesis
    proof (cases x)
      case None
      with os_CreateExcl_content(1) [of _ "s\<lparr>fs_rand := rs\<rparr>" s1] c Cons Suc.prems show ?thesis
        by (auto simp: Let_def)
    next
      case (Some e)
      then have "fs_content s1 = fs_content s"
        using os_CreateExcl_content(2) [of _ "s\<lparr>fs_rand := rs\<rparr>" e s1] c by simp
      with Some c Cons Suc.prems Suc.IH [of s1] show ?thesis by (auto simp: Let_def split: if_splits)
    qed
  qed
qed auto

lemma FileSink_Writer_content:
  assumes "FileSink_Writer fsk e s = (r, s')"
  shows "(\<forall>w. r = Inr w \<longrightarrow> fs_content s' = (fs_content s)(c_file w \<mapsto> []) \<and> c_dest w = sink_dest fsk e \<and>
      valid_path (Path e) \<and> c_direct w = directWrite fsk \<and>
      (if directWrite fsk then c_file w = c_dest w else fs_content s (c_file w) = None)) \<and>
    (\<forall>x. r = Inl x \<longrightarrow> fs_content s' = fs_content s)"
proof (cases "valid_path (Path e)")
  case False
  with assms show ?thesis by (auto simp: FileSink_Writer_def)
next
  case True
  let ?dest = "join_path (destDir fsk) (Path e)"
  obtain f s1 where f: "os_OpenRoot (destDir fsk) s = (f, s1)" by fastforce
  obtain x s2 where m: "os_MkdirAll (dir_of ?dest) s1 = (x, s2)" by fastforce
  note s1 = os_OpenRoot_content [OF f]
  have s2: "fs_content s2 = fs_content s" using os_same_content(1) [OF m] s1 by simp
  obtain y s3 where d: "os_CreateTrunc ?dest s2 = (y, s3)" by fastforce
  obtain z s4 where t: "createTempFile 10 (dir_of ?dest) ''.blob-'' s2 = (z, s4)" by fastforce
  note D = os_CreateTrunc_content [of ?dest s2] and T = createTempFile_content [OF t]
  show ?thesis
  proof (cases "f = None \<and> x = None")
    case False
    with assms f m True s1 s2 show ?thesis
      by (auto simp: FileSink_Writer_def Let_def split: option.splits)
  next
    case ok: True
    show ?thesis
    proof (cases "directWrite fsk")
      case dw: True
      with assms f m ok d D s2 True show ?thesis
        by (cases y) (auto simp: FileSink_Writer_def Let_def sink_dest_def)
    next
      case dw: False
      with assms f m ok t T s2 True show ?thesis
        by (cases z) (auto simp: FileSink_Writer_def Let_def sink_dest_def)
    qed
  qed
qed

lemma commit_meta_content:
  assumes "commit_meta c s = (x, s')"
  shows "(x = None \<longrightarrow> fs_content s' = fs_content s) \<and> (\<forall>q. q \<noteq> c_file c \<longrightarrow> fs_content s' q = fs_content s q)"
proof -
  let ?m = "if preserveMode (c_sink c) then os_Chmod (c_file c) (mode_perm (Mode (c_entry c))) s else (None, s)"
  obtain y s1 where m: "?m = (y, s1)" by fastforce
  let ?t = "if preserveTimes (c_sink c) then os_Chtimes (c_file c) (ModTime (c_entry c)) s1 else (None, s1)"
  obtain z s2 where t: "?t = (z, s2)" by fastforce
  have s1: "fs_content s1 = fs_content s" using m os_same_content(3) by (auto split: if_splits)
  have s2: "fs_content s2 = fs_content s" using t s1 os_same_content(4) by (auto split: if_splits)
  have r: "q \<noteq> c_file c \<Longrightarrow> fs_content (snd (os_Remove (c_file c) u)) q = fs_content u q" for q u
    using os_Remove_content by (metis prod.collapse)
  show ?thesis
    using assms s1 s2 r unfolding commit_meta_def m t
    by (cases y; cases z) (auto simp: remove_quietly_def t)
qed

lemma committer_Commit_content:
  assumes "committer_Commit c s = (x, s')"
  shows "x = None \<Longrightarrow> fs_content s (c_file c) = Some d \<Longrightarrow> \<not> c_direct c \<Longrightarrow>
      fs_content s' = (fs_content s)(c_file c := None, c_dest c \<mapsto> d)"
    and "x = None \<Longrightarrow> c_direct c \<Longrightarrow> fs_content s' = fs_content s"
    and "x \<noteq> None \<Longrightarrow> q \<noteq> c_file c \<Longrightarrow> fs_content s' q = fs_content s q"
proof -
  obtain y s1 where cl: "os_Close s = (y, s1)" by fastforce
  note s1 = os_same_content(2) [OF cl]
  obtain z s2 where m: "commit_meta c s1 = (z, s2)" by fastforce
  note M = commit_meta_content [OF m]
  obtain v s3 where r: "os_Rename (c_file c) (c_dest c) s2 = (v, s3)" by fastforce
  have rm: "q \<noteq> c_file c \<Longrightarrow> fs_content (snd (os_Remove (c_file c) u)) q = fs_content u q" for q u
    using os_Remove_content by (metis prod.collapse)
  have R: "v = None \<Longrightarrow> fs_content s2 (c_file c) = Some d \<Longrightarrow>
      fs_content s3 = (fs_content s2)(c_file c := None, c_dest c \<mapsto> d)"
    "v \<noteq> None \<Longrightarrow> fs_content s3 = fs_content s2" for d
    using os_Rename_content r by auto
  show "x = None \<Longrightarrow> fs_content s (c_file c) = Some d \<Longrightarrow> \<not> c_direct c \<Longrightarrow>
      fs_content s' = (fs_content s)(c_file c := None, c_dest c \<mapsto> d)"
    "x = None \<Longrightarrow> c_direct c \<Longrightarrow> fs_content s' = fs_content s"
    "x \<noteq> None \<Longrightarrow> q \<noteq> c_file c \<Longrightarrow> fs_content s' q = fs_content s q"
    using assms cl s1 m M r R(1) [of d] R(2) rm
    by (cases y; cases z; cases v;
        auto simp: committer_Commit_def fileCommitter_Commit_def directCommitter_Commit_def remove_quietly_def
          split: if_splits)+
qed

lemma committer_Discard_content: "q \<noteq> c_file c \<Longrightarrow> fs_content (committer_Discard c s) q = fs_content s q"
  using os_Remove_content [of "c_file c" "snd (os_Close s)"] os_same_content(2) [of s]
  by (metis committer_Discard_def prod.collapse)

definition committer_ok :: "committer \<Rightarrow> bool" where
  "committer_ok c \<longleftrightarrow> (c_direct c \<longrightarrow> c_file c = c_dest c)"

text \<open>
  Every configuration keeps the staging contract; without direct writes the staging place is
  fresh, which makes the sink atomic.
\<close>

interpretation staged: staging_sink "file_sink fsk" fs_content c_file c_dest "sink_dest fsk" committer_ok for fsk
proof (unfold_locales, goal_cases)
  case 1
  show ?case by (simp add: file_sink_def)
next
  case (2 e s w s')
  then show ?case
    using FileSink_Writer_content [of fsk e s] by (auto simp: file_sink_def committer_ok_def split: if_splits)
next
  case (3 e s err s')
  then show ?case using FileSink_Writer_content [of fsk e s] by (auto simp: file_sink_def)
next
  case (4 w d s n x w' s')
  then show ?case by (auto simp: file_sink_def committer_Write_def split: prod.splits)
next
  case (5 w d s n x w' s' c)
  then show ?case
    using os_Write_content [of "c_file w" d s n x s' c] by (auto simp: file_sink_def committer_Write_def split: prod.splits)
next
  case (6 w s s' c)
  then show ?case
    using committer_Commit_content(1,2) [of w s None s']
    by (cases "c_direct w") (auto simp: file_sink_def committer_ok_def fun_eq_iff)
next
  case (7 w s err s' q)
  then show ?case using committer_Commit_content(3) [of w s "Some err" s'] by (simp add: file_sink_def)
next
  case (8 q w s)
  then show ?case using committer_Discard_content by (simp add: file_sink_def)
qed

abbreviation atomic :: "FileSink \<Rightarrow> FileSink" where
  "atomic fsk \<equiv> fsk\<lparr>directWrite := False\<rparr>"

text \<open>The names that the temporary files can still get: those that the random source will supply.\<close>

definition temp_names :: "fsys \<Rightarrow> string set" where
  "temp_names s = {q. \<exists>name\<in>set (fs_rand s). suffix (''.blob-'' @ name) q}"

lemma temp_names_mono: "set (fs_rand s') \<subseteq> set (fs_rand s) \<Longrightarrow> temp_names s' \<subseteq> temp_names s"
  by (auto simp: temp_names_def)

lemma suffix_join_path: "p \<noteq> ''.'' \<Longrightarrow> suffix p (join_path dir p)"
  by (auto simp: join_path_def suffix_def)

lemma createTempFile_name:
  "createTempFile n dir pre s = (r, s') \<Longrightarrow>
   set (fs_rand s') \<subseteq> set (fs_rand s) \<and> (\<forall>t. r = Inr t \<longrightarrow> (\<exists>name\<in>set (fs_rand s). t = join_path dir (pre @ name)))"
proof (induction n arbitrary: s)
  case (Suc n)
  show ?case
  proof (cases "fs_rand s")
    case Nil
    with Suc.prems show ?thesis by auto
  next
    case (Cons name rs)
    obtain x s1 where c: "os_CreateExcl (join_path dir (pre @ name)) (s\<lparr>fs_rand := rs\<rparr>) = (x, s1)" by fastforce
    then have s1: "fs_rand s1 = rs" using os_same_rand(3) by fastforce
    show ?thesis
    proof (cases x)
      case None
      with c Cons Suc.prems s1 show ?thesis by (auto simp: Let_def)
    next
      case (Some e)
      with c Cons Suc.prems s1 Suc.IH [of s1] show ?thesis by (auto simp: Let_def split: if_splits)
    qed
  qed
qed auto

lemma FileSink_Writer_rand:
  assumes "FileSink_Writer (atomic fsk) e s = (r, s')"
  shows "set (fs_rand s') \<subseteq> set (fs_rand s) \<and> (\<forall>w. r = Inr w \<longrightarrow> c_file w \<in> temp_names s)"
proof (cases "valid_path (Path e)")
  case False
  with assms show ?thesis by (auto simp: FileSink_Writer_def)
next
  case True
  let ?dir = "dir_of (join_path (destDir fsk) (Path e))"
  obtain f s1 where f: "os_OpenRoot (destDir fsk) s = (f, s1)" by fastforce
  obtain x s2 where m: "os_MkdirAll ?dir s1 = (x, s2)" by fastforce
  obtain z s3 where t: "createTempFile 10 ?dir ''.blob-'' s2 = (z, s3)" by fastforce
  have s2: "fs_rand s1 = fs_rand s" "fs_rand s2 = fs_rand s" using os_same_rand(1) [OF f] os_same_rand(2) [OF m] by simp_all
  have "t \<in> temp_names s" if "z = Inr t" for t
    using createTempFile_name [OF t] that s2 suffix_join_path [of "''.blob-'' @ _" ?dir] by (auto simp: temp_names_def)
  with createTempFile_name [OF t] assms f m t True s2 show ?thesis
    by (cases f; cases x; cases z) (auto simp: FileSink_Writer_def Let_def)
qed

lemma committer_rand:
  "committer_Write c d s = (r, c', s') \<Longrightarrow> fs_rand s' = fs_rand s"
  "committer_Commit c s = (x, s') \<Longrightarrow> fs_rand s' = fs_rand s"
  "fs_rand (committer_Discard c s) = fs_rand s"
proof -
  have remove: "fs_rand (snd (os_Remove q u)) = fs_rand u" for q u using os_same_rand(7) by (metis prod.collapse)
  have meta: "fs_rand s' = fs_rand s" if "commit_meta c s = (x, s')" for x s s'
  proof -
    let ?m = "if preserveMode (c_sink c) then os_Chmod (c_file c) (mode_perm (Mode (c_entry c))) s else (None, s)"
    obtain y s1 where m: "?m = (y, s1)" by fastforce
    let ?t = "if preserveTimes (c_sink c) then os_Chtimes (c_file c) (ModTime (c_entry c)) s1 else (None, s1)"
    obtain z s2 where t: "?t = (z, s2)" by fastforce
    have "fs_rand s1 = fs_rand s" using m os_same_rand(5) by (auto split: if_splits)
    moreover have "fs_rand s2 = fs_rand s1" using t os_same_rand(6) by (auto split: if_splits)
    ultimately show ?thesis using that remove unfolding commit_meta_def m by (cases y; cases z) (auto simp: remove_quietly_def t)
  qed
  show "committer_Write c d s = (r, c', s') \<Longrightarrow> fs_rand s' = fs_rand s"
    using os_Write_rand by (auto simp: committer_Write_def split: prod.splits)
  show "fs_rand (committer_Discard c s) = fs_rand s"
    using remove os_same_rand(4) by (metis committer_Discard_def prod.collapse)
  obtain y s1 where cl: "os_Close s = (y, s1)" by fastforce
  obtain z s2 where m: "commit_meta c s1 = (z, s2)" by fastforce
  obtain v s3 where r: "os_Rename (c_file c) (c_dest c) s2 = (v, s3)" by fastforce
  have "fs_rand s1 = fs_rand s" "fs_rand s2 = fs_rand s" "fs_rand s3 = fs_rand s"
    using os_same_rand(4) [OF cl] meta [OF m] os_same_rand(8) [OF r] by simp_all
  with remove cl m r show "committer_Commit c s = (x, s') \<Longrightarrow> fs_rand s' = fs_rand s"
    by (cases y; cases z; cases v)
      (auto simp: committer_Commit_def fileCommitter_Commit_def directCommitter_Commit_def remove_quietly_def split: if_splits)
qed

interpretation fsink: atomic_sink "file_sink (atomic fsk)" fs_content c_file c_dest "sink_dest (atomic fsk)" committer_ok temp_names
  for fsk
proof (unfold_locales, goal_cases)
  case (1 e s w s')
  then show ?case using FileSink_Writer_content [of "atomic fsk" e s] by (auto simp: file_sink_def)
next
  case (2 e s w s')
  then show ?case using FileSink_Writer_rand [of fsk e s] by (auto simp: file_sink_def)
next
  case (3 e s u s')
  then show ?case using FileSink_Writer_rand [of fsk e s] by (auto simp: file_sink_def intro!: temp_names_mono)
next
  case (4 w d s r w' s')
  then show ?case using committer_rand(1) by (fastforce simp: file_sink_def intro!: temp_names_mono)
next
  case (5 w s x s')
  then show ?case using committer_rand(2) by (fastforce simp: file_sink_def intro!: temp_names_mono)
next
  case (6 w s)
  then show ?case by (simp add: file_sink_def temp_names_mono committer_rand(3))
qed

text \<open>
  No entry leaves the destination directory: a writer is only given for a valid path, whose
  elements are neither \<^verbatim>\<open>.\<close> nor \<^verbatim>\<open>..\<close>.
\<close>

lemma FileSink_Writer_valid:
  "FileSink_Writer fsk e s = (Inr w, s') \<Longrightarrow> valid_path (Path e) \<and> c_dest w = join_path (destDir fsk) (Path e)"
  using FileSink_Writer_content by (fastforce simp: sink_dest_def)

end
