(* ===== verification/Pipeline.thy ===== *)
theory Pipeline
  imports FileSink
begin

text \<open>
  The read-ahead pipeline of \<^verbatim>\<open>core/internal/batch/batch.go\<close> (\<^verbatim>\<open>processGroupsPipelined\<close>) as a step
  relation over the states of its goroutines, and \<^verbatim>\<open>Process\<close>, which chooses between it and the
  sequential loop.

  The dispatcher hands group indices to the readers over the unbuffered \<^verbatim>\<open>readCh\<close>; a reader
  acquires the group's size from the weighted semaphore, reads the data and puts it into
  \<^verbatim>\<open>readyCh\<close> (capacity: the number of readers); the consumer collects results in \<^verbatim>\<open>pending\<close> and
  processes them in order. \<open>q_err\<close> is the first error of the \<^verbatim>\<open>errgroup\<close>, which cancels its context.
  The semaphore grants a request exactly when enough is available (it never grants more than its
  size, and a larger request waits for the cancellation, as \<^verbatim>\<open>golang.org/x/sync/semaphore\<close>
  documents); every order of grants is a run of the relation.
\<close>

section \<open>Definitions\<close>

datatype rworker = WIdle | WGot nat | WAcq nat | WData nat bytes | WDone

record 's pipe =
  q_sent :: nat
  q_closed :: bool
  q_workers :: "rworker list"
  q_ready :: "(nat \<times> bytes) list"
  q_pending :: "nat \<rightharpoonup> bytes"
  q_next :: nat
  q_returned :: bool
  q_budget :: "int option"
  q_err :: "err option"
  q_stats :: ProcessStats
  q_sink :: 's

definition group_sz :: "rangeGroup list \<Rightarrow> nat \<Rightarrow> int" where
  "group_sz groups i = (case groupSize (groups ! i) of Inr n \<Rightarrow> n | Inl _ \<Rightarrow> 0)"

definition pipe_release :: "rangeGroup list \<Rightarrow> nat \<Rightarrow> 's pipe \<Rightarrow> 's pipe" where
  "pipe_release groups i st = st\<lparr>q_budget := map_option (\<lambda>b. b + group_sz groups i) (q_budget st)\<rparr>"

definition pipe_fail :: "err \<Rightarrow> 's pipe \<Rightarrow> 's pipe" where
  "pipe_fail e st = (if q_err st = None then st\<lparr>q_err := Some e\<rparr> else st)"

text \<open>
  The consumer's inner loop: process the pending results that are next in order. Only indices of
  groups are ever pending, so the test for the end of the list is never the one that stops it.
\<close>

function consume_pending ::
  "(bytes \<Rightarrow> bytes) \<Rightarrow> zstd_lib \<Rightarrow> int \<Rightarrow> schedule \<Rightarrow> Processor \<Rightarrow> ('s, 'w) Sink \<Rightarrow> rangeGroup list \<Rightarrow>
   's pipe \<Rightarrow> 's pipe" where
  "consume_pending sha256 Z mp sched p S groups st =
     (if q_next st \<ge> length groups then st
      else case q_pending st (q_next st) of
        None \<Rightarrow> st
      | Some data \<Rightarrow>
          (case processGroupWithData sha256 Z mp sched p S (groups ! q_next st) data (q_sink st) of
             ((groupStats, err), s) \<Rightarrow>
               let st1 = pipe_release groups (q_next st)
                           (st\<lparr>q_pending := (q_pending st)(q_next st := None),
                               q_stats := stats_add (q_stats st) groupStats, q_sink := s\<rparr>)
               in (case err of
                     Some e \<Rightarrow> pipe_fail e (st1\<lparr>q_returned := True\<rparr>)
                   | None \<Rightarrow> consume_pending sha256 Z mp sched p S groups (st1\<lparr>q_next := q_next st + 1\<rparr>))))"
  by pat_completeness auto
termination
  by (relation "measure (\<lambda>(sha256, Z, mp, sched, p, S, groups, st). length groups - q_next st)") auto

declare consume_pending.simps [simp del]

inductive pipe_step ::
  "(bytes \<Rightarrow> bytes) \<Rightarrow> zstd_lib \<Rightarrow> int \<Rightarrow> schedule \<Rightarrow> Processor \<Rightarrow> ('s, 'w) Sink \<Rightarrow> rangeGroup list \<Rightarrow>
   's pipe \<Rightarrow> 's pipe \<Rightarrow> bool"
  for sha256 Z mp sched p S groups where
  dispatch: "\<not> q_closed st \<Longrightarrow> q_sent st < length groups \<Longrightarrow> groupSize (groups ! q_sent st) = Inr n \<Longrightarrow>
    w < length (q_workers st) \<Longrightarrow> q_workers st ! w = WIdle \<Longrightarrow>
    pipe_step sha256 Z mp sched p S groups st
      (st\<lparr>q_sent := q_sent st + 1, q_workers := (q_workers st)[w := WGot (q_sent st)]\<rparr>)"
| dispatch_err: "\<not> q_closed st \<Longrightarrow> q_sent st < length groups \<Longrightarrow> groupSize (groups ! q_sent st) = Inl e \<Longrightarrow>
    pipe_step sha256 Z mp sched p S groups st (pipe_fail e (st\<lparr>q_closed := True\<rparr>))"
| dispatch_end: "\<not> q_closed st \<Longrightarrow> q_sent st = length groups \<or> q_err st \<noteq> None \<Longrightarrow>
    pipe_step sha256 Z mp sched p S groups st (st\<lparr>q_closed := True\<rparr>)"
| worker_end: "w < length (q_workers st) \<Longrightarrow> q_workers st ! w = WIdle \<Longrightarrow> q_closed st \<Longrightarrow>
    pipe_step sha256 Z mp sched p S groups st (st\<lparr>q_workers := (q_workers st)[w := WDone]\<rparr>)"
| worker_cancel: "w < length (q_workers st) \<Longrightarrow> q_workers st ! w = WGot i \<Longrightarrow> q_err st \<noteq> None \<Longrightarrow>
    pipe_step sha256 Z mp sched p S groups st (st\<lparr>q_workers := (q_workers st)[w := WDone]\<rparr>)"
| worker_acquire: "w < length (q_workers st) \<Longrightarrow> q_workers st ! w = WGot i \<Longrightarrow>
    (case q_budget st of None \<Rightarrow> True | Some b \<Rightarrow> group_sz groups i \<le> b) \<Longrightarrow>
    pipe_step sha256 Z mp sched p S groups st
      (st\<lparr>q_workers := (q_workers st)[w := WAcq i], q_budget := map_option (\<lambda>b. b - group_sz groups i) (q_budget st)\<rparr>)"
| worker_read: "w < length (q_workers st) \<Longrightarrow> q_workers st ! w = WAcq i \<Longrightarrow> readGroupData p (groups ! i) = Inr d \<Longrightarrow>
    pipe_step sha256 Z mp sched p S groups st (st\<lparr>q_workers := (q_workers st)[w := WData i d]\<rparr>)"
| worker_read_err: "w < length (q_workers st) \<Longrightarrow> q_workers st ! w = WAcq i \<Longrightarrow> readGroupData p (groups ! i) = Inl e \<Longrightarrow>
    pipe_step sha256 Z mp sched p S groups st
      (pipe_fail e (pipe_release groups i (st\<lparr>q_workers := (q_workers st)[w := WDone]\<rparr>)))"
| worker_send: "w < length (q_workers st) \<Longrightarrow> q_workers st ! w = WData i d \<Longrightarrow> length (q_ready st) < length (q_workers st) \<Longrightarrow>
    pipe_step sha256 Z mp sched p S groups st
      (st\<lparr>q_workers := (q_workers st)[w := WIdle], q_ready := q_ready st @ [(i, d)]\<rparr>)"
| worker_send_cancel: "w < length (q_workers st) \<Longrightarrow> q_workers st ! w = WData i d \<Longrightarrow> q_err st \<noteq> None \<Longrightarrow>
    pipe_step sha256 Z mp sched p S groups st (pipe_release groups i (st\<lparr>q_workers := (q_workers st)[w := WDone]\<rparr>))"
| consume: "\<not> q_returned st \<Longrightarrow> q_next st < length groups \<Longrightarrow> q_ready st = (i, d) # rest \<Longrightarrow>
    pipe_step sha256 Z mp sched p S groups st
      (consume_pending sha256 Z mp sched p S groups (st\<lparr>q_ready := rest, q_pending := (q_pending st)(i \<mapsto> d)\<rparr>))"
| consume_closed: "\<not> q_returned st \<Longrightarrow> q_next st < length groups \<Longrightarrow> q_ready st = [] \<Longrightarrow>
    (\<forall>w \<in> set (q_workers st). w = WDone) \<Longrightarrow>
    pipe_step sha256 Z mp sched p S groups st
      (pipe_fail (ErrNew ''batch: read pipeline ended unexpectedly'') (st\<lparr>q_returned := True\<rparr>))"
| consume_end: "\<not> q_returned st \<Longrightarrow> q_next st \<ge> length groups \<or> q_err st \<noteq> None \<Longrightarrow>
    pipe_step sha256 Z mp sched p S groups st (st\<lparr>q_returned := True\<rparr>)"

inductive_cases pipe_stepE: "pipe_step sha256 Z mp sched p S groups st st'"

definition pipe_init :: "Processor \<Rightarrow> int option \<Rightarrow> 's \<Rightarrow> 's pipe" where
  "pipe_init p budget s =
     \<lparr>q_sent = 0, q_closed = False,
      q_workers = replicate (nat (if pr_readConcurrency p < 1 then 1 else pr_readConcurrency p)) WIdle,
      q_ready = [], q_pending = (\<lambda>_. None), q_next = 0, q_returned = False, q_budget = budget, q_err = None,
      q_stats = no_stats, q_sink = s\<rparr>"

text \<open>All goroutines of the group have returned: \<^verbatim>\<open>eg.Wait()\<close> returns.\<close>

definition pipe_final :: "'s pipe \<Rightarrow> bool" where
  "pipe_final st \<longleftrightarrow> q_closed st \<and> q_returned st \<and> (\<forall>w \<in> set (q_workers st). w = WDone)"

definition pipe_budget :: "Processor \<Rightarrow> int option res" where
  "pipe_budget p =
     (if pr_readAheadEnabled p
      then mapErr (Wrap ''batch'') (bindE (ToInt64 (pr_readAheadBytes p) ErrSizeOverflow) (\<lambda>n. Inr (Some n)))
      else Inr None)"

inductive processGroupsPipelined ::
  "(bytes \<Rightarrow> bytes) \<Rightarrow> zstd_lib \<Rightarrow> int \<Rightarrow> schedule \<Rightarrow> Processor \<Rightarrow> ('s, 'w) Sink \<Rightarrow> rangeGroup list \<Rightarrow> 's \<Rightarrow>
   (ProcessStats \<times> err option) \<times> 's \<Rightarrow> bool"
  for sha256 Z mp sched p S where
  pp_empty: "processGroupsPipelined sha256 Z mp sched p S [] s ((no_stats, None), s)"
| pp_budget: "groups \<noteq> [] \<Longrightarrow> pipe_budget p = Inl e \<Longrightarrow>
    processGroupsPipelined sha256 Z mp sched p S groups s ((no_stats, Some e), s)"
| pp_run: "groups \<noteq> [] \<Longrightarrow> pipe_budget p = Inr budget \<Longrightarrow>
    (pipe_step sha256 Z mp sched p S groups)\<^sup>*\<^sup>* (pipe_init p budget s) st \<Longrightarrow> pipe_final st \<Longrightarrow>
    processGroupsPipelined sha256 Z mp sched p S groups s ((q_stats st, q_err st), q_sink st)"

subsection \<open>Process\<close>

fun Process_validate :: "Processor \<Rightarrow> Entry list \<Rightarrow> err option" where
  "Process_validate p [] = None"
| "Process_validate p (entry # es) =
     (case ValidateAll entry (src_size (pr_source p)) (pr_maxFileSize p) of
        Some err \<Rightarrow> Some (batch_err entry err)
      | None \<Rightarrow> Process_validate p es)"

text \<open>
  \<^verbatim>\<open>slices.SortFunc\<close> promises a sorted permutation, in which the order of equal offsets is not
  fixed: it is the argument \<open>SortFunc\<close> with this property.
\<close>

definition sorts_by_offset :: "(Entry list \<Rightarrow> Entry list) \<Rightarrow> bool" where
  "sorts_by_offset SortFunc \<longleftrightarrow>
     (\<forall>es. mset (SortFunc es) = mset es \<and> sorted (map DataOffset (SortFunc es)))"

inductive Process ::
  "(bytes \<Rightarrow> bytes) \<Rightarrow> zstd_lib \<Rightarrow> int \<Rightarrow> schedule \<Rightarrow> (Entry list \<Rightarrow> Entry list) \<Rightarrow> Processor \<Rightarrow> ('s, 'w) Sink \<Rightarrow>
   Entry list \<Rightarrow> 's \<Rightarrow> (ProcessStats \<times> err option) \<times> 's \<Rightarrow> bool"
  for sha256 Z mp sched SortFunc p S where
  process_none: "filter (sk_ShouldProcess S s) entries = [] \<Longrightarrow>
    Process sha256 Z mp sched SortFunc p S entries s ((no_stats\<lparr>Skipped := int (length entries)\<rparr>, None), s)"
| process_invalid: "toProcess = filter (sk_ShouldProcess S s) entries \<Longrightarrow> toProcess \<noteq> [] \<Longrightarrow>
    Process_validate p toProcess = Some err \<Longrightarrow>
    Process sha256 Z mp sched SortFunc p S entries s
      ((no_stats\<lparr>Skipped := int (length entries) - int (length toProcess)\<rparr>, Some err), s)"
| process_pipelined: "toProcess = filter (sk_ShouldProcess S s) entries \<Longrightarrow> toProcess \<noteq> [] \<Longrightarrow>
    Process_validate p toProcess = None \<Longrightarrow> groupAdjacentEntries (SortFunc toProcess) = Some groups \<Longrightarrow>
    length groups > 1 \<and> (pr_readConcurrency p > 1 \<or> pr_readAheadEnabled p) \<Longrightarrow>
    processGroupsPipelined sha256 Z mp sched p S groups s ((procStats, err), s') \<Longrightarrow>
    Process sha256 Z mp sched SortFunc p S entries s
      ((stats_add (no_stats\<lparr>Skipped := int (length entries) - int (length toProcess)\<rparr>) procStats, err), s')"
| process_sequential: "toProcess = filter (sk_ShouldProcess S s) entries \<Longrightarrow> toProcess \<noteq> [] \<Longrightarrow>
    Process_validate p toProcess = None \<Longrightarrow> groupAdjacentEntries (SortFunc toProcess) = Some groups \<Longrightarrow>
    \<not> (length groups > 1 \<and> (pr_readConcurrency p > 1 \<or> pr_readAheadEnabled p)) \<Longrightarrow>
    processGroupsSequential sha256 Z mp sched p S no_stats groups s = ((procStats, err), s') \<Longrightarrow>
    Process sha256 Z mp sched SortFunc p S entries s
      ((stats_add (no_stats\<lparr>Skipped := int (length entries) - int (length toProcess)\<rparr>) procStats, err), s')"

section \<open>The pipeline refines the sequential loop\<close>

lemma processGroupsSequential_snoc:
  "processGroupsSequential sha256 Z mp sched p S stats (gs @ [grp]) s =
     (case processGroupsSequential sha256 Z mp sched p S stats gs s of
        ((st, Some e), s1) \<Rightarrow> ((st, Some e), s1)
      | ((st, None), s1) \<Rightarrow>
          (case processGroup sha256 Z mp sched p S grp s1 of
             ((gst, e), s2) \<Rightarrow> ((stats_add st gst, e), s2)))"
  by (induction gs arbitrary: stats s) (auto simp: Let_def split: prod.splits option.splits)

text \<open>What the readers hold is what the sequential loop would read.\<close>

definition pipe_data_ok :: "Processor \<Rightarrow> rangeGroup list \<Rightarrow> 's pipe \<Rightarrow> bool" where
  "pipe_data_ok p groups st \<longleftrightarrow>
     (\<forall>i d. (WData i d \<in> set (q_workers st) \<or> (i, d) \<in> set (q_ready st) \<or> q_pending st i = Some d) \<longrightarrow>
        readGroupData p (groups ! i) = Inr d)"

text \<open>
  The consumer has processed the first \<open>q_next\<close> groups as the sequential loop does; when it has
  returned with an error, one more group, with that error.
\<close>

definition pipe_seq ::
  "(bytes \<Rightarrow> bytes) \<Rightarrow> zstd_lib \<Rightarrow> int \<Rightarrow> schedule \<Rightarrow> Processor \<Rightarrow> ('s, 'w) Sink \<Rightarrow> rangeGroup list \<Rightarrow> 's \<Rightarrow> 's pipe \<Rightarrow> bool" where
  "pipe_seq sha256 Z mp sched p S groups s0 st \<longleftrightarrow>
     q_next st \<le> length groups \<and>
     (processGroupsSequential sha256 Z mp sched p S no_stats (take (q_next st) groups) s0 = ((q_stats st, None), q_sink st) \<or>
      q_returned st \<and> q_err st \<noteq> None \<and> (\<exists>e. processGroupsSequential sha256 Z mp sched p S no_stats
        (take (q_next st + 1) groups) s0 = ((q_stats st, Some e), q_sink st)))"

lemma consume_pending_cases:
  "q_next st \<ge> length groups \<Longrightarrow> consume_pending sha256 Z mp sched p S groups st = st"
  "q_next st < length groups \<Longrightarrow> q_pending st (q_next st) = None \<Longrightarrow> consume_pending sha256 Z mp sched p S groups st = st"
  by (subst consume_pending.simps, simp)+

lemma consume_pending_inv:
  assumes "pipe_data_ok p groups st" "\<not> q_returned st" "pipe_seq sha256 Z mp sched p S groups s0 st"
  shows "pipe_data_ok p groups (consume_pending sha256 Z mp sched p S groups st) \<and>
    pipe_seq sha256 Z mp sched p S groups s0 (consume_pending sha256 Z mp sched p S groups st)"
  using assms
proof (induction "length groups - q_next st" arbitrary: st rule: less_induct)
  case less
  show ?case
  proof (cases "q_next st < length groups \<and> q_pending st (q_next st) \<noteq> None")
    case False
    with less.prems show ?thesis
      by (cases "q_next st < length groups") (simp_all add: consume_pending_cases)
  next
    case True
    let ?k = "q_next st"
    from True obtain data where d: "q_pending st ?k = Some data" by blast
    with less.prems(1) have rd: "readGroupData p (groups ! ?k) = Inr data" by (auto simp: pipe_data_ok_def)
    obtain gst e s where g: "processGroupWithData sha256 Z mp sched p S (groups ! ?k) data (q_sink st) = ((gst, e), s)"
      by (metis prod.exhaust)
    define st1 where "st1 = pipe_release groups ?k (st\<lparr>q_pending := (q_pending st)(?k := None),
      q_stats := stats_add (q_stats st) gst, q_sink := s\<rparr>)"
    have st1: "q_stats st1 = stats_add (q_stats st) gst" "q_sink st1 = s" "q_next st1 = ?k" "q_returned st1 = q_returned st"
        "q_workers st1 = q_workers st" "q_ready st1 = q_ready st" "q_pending st1 = (q_pending st)(?k := None)"
      by (simp_all add: st1_def pipe_release_def)
    have c: "consume_pending sha256 Z mp sched p S groups st = (case e of
        Some x \<Rightarrow> pipe_fail x (st1\<lparr>q_returned := True\<rparr>)
      | None \<Rightarrow> consume_pending sha256 Z mp sched p S groups (st1\<lparr>q_next := ?k + 1\<rparr>))"
      using True d g by (cases e; subst consume_pending.simps) (simp_all add: st1_def Let_def)
    have dok: "pipe_data_ok p groups st1" using less.prems(1) by (auto simp: pipe_data_ok_def st1 split: if_splits)
    have "processGroupsSequential sha256 Z mp sched p S no_stats (take ?k groups) s0 = ((q_stats st, None), q_sink st)"
      using less.prems(2,3) by (auto simp: pipe_seq_def)
    moreover have "take (?k + 1) groups = take ?k groups @ [groups ! ?k]"
      using True by (simp add: take_Suc_conv_app_nth)
    moreover have "processGroup sha256 Z mp sched p S (groups ! ?k) (q_sink st) = ((gst, e), s)"
      using rd g by (simp add: processGroup_def)
    ultimately have seq: "processGroupsSequential sha256 Z mp sched p S no_stats (take (?k + 1) groups) s0 = ((q_stats st1, e), q_sink st1)"
      by (simp add: processGroupsSequential_snoc st1)
    show ?thesis
    proof (cases e)
      case None
      have "length groups - q_next (st1\<lparr>q_next := ?k + 1\<rparr>) < length groups - ?k" using True by auto
      moreover have "pipe_data_ok p groups (st1\<lparr>q_next := ?k + 1\<rparr>)" using dok by (simp add: pipe_data_ok_def)
      moreover have "\<not> q_returned (st1\<lparr>q_next := ?k + 1\<rparr>)" using less.prems(2) st1 by simp
      moreover have "pipe_seq sha256 Z mp sched p S groups s0 (st1\<lparr>q_next := ?k + 1\<rparr>)"
        using seq None True by (simp add: pipe_seq_def)
      ultimately show ?thesis unfolding c None option.case by (rule less.hyps)
    next
      case (Some x)
      with dok seq True show ?thesis
        by (auto simp: c pipe_data_ok_def pipe_seq_def pipe_fail_def st1)
    qed
  qed
qed

lemma pipe_release_simps [simp]:
  "q_workers (pipe_release groups i st) = q_workers st" "q_ready (pipe_release groups i st) = q_ready st"
  "q_pending (pipe_release groups i st) = q_pending st" "q_next (pipe_release groups i st) = q_next st"
  "q_returned (pipe_release groups i st) = q_returned st" "q_stats (pipe_release groups i st) = q_stats st"
  "q_sink (pipe_release groups i st) = q_sink st" "q_err (pipe_release groups i st) = q_err st"
  "q_sent (pipe_release groups i st) = q_sent st" "q_closed (pipe_release groups i st) = q_closed st"
  by (simp_all add: pipe_release_def)

lemma pipe_fail_simps [simp]:
  "q_workers (pipe_fail e st) = q_workers st" "q_ready (pipe_fail e st) = q_ready st"
  "q_pending (pipe_fail e st) = q_pending st" "q_next (pipe_fail e st) = q_next st"
  "q_returned (pipe_fail e st) = q_returned st" "q_stats (pipe_fail e st) = q_stats st"
  "q_sink (pipe_fail e st) = q_sink st" "q_err (pipe_fail e st) \<noteq> None"
  "q_sent (pipe_fail e st) = q_sent st" "q_closed (pipe_fail e st) = q_closed st"
  by (simp_all add: pipe_fail_def)

lemma set_update_WData: "WData i d \<in> set (ws[w := x]) \<Longrightarrow> WData i d = x \<or> WData i d \<in> set ws"
  using set_update_subset_insert [of ws w x] by auto

lemma pipe_step_inv:
  assumes "pipe_step sha256 Z mp sched p S groups st st'"
    and "pipe_data_ok p groups st" "pipe_seq sha256 Z mp sched p S groups s0 st"
  shows "pipe_data_ok p groups st' \<and> pipe_seq sha256 Z mp sched p S groups s0 st'"
  using assms
proof (induction rule: pipe_step.induct)
  case (consume st i d rest)
  let ?st = "st\<lparr>q_ready := rest, q_pending := (q_pending st)(i \<mapsto> d)\<rparr>"
  have "pipe_data_ok p groups ?st" using consume by (auto simp: pipe_data_ok_def split: if_splits)
  moreover have "pipe_seq sha256 Z mp sched p S groups s0 ?st" using consume by (simp add: pipe_seq_def)
  ultimately show ?case using consume_pending_inv consume.hyps(1) by fastforce
next
  case (worker_send w st i d)
  then have "WData i d \<in> set (q_workers st)" by (metis nth_mem)
  with worker_send show ?case
    by (auto simp: pipe_data_ok_def pipe_seq_def dest!: set_update_WData)
qed (auto simp: pipe_data_ok_def pipe_seq_def dest!: set_update_WData)

lemma pipe_reach_inv:
  assumes "(pipe_step sha256 Z mp sched p S groups)\<^sup>*\<^sup>* (pipe_init p budget s0) st"
  shows "pipe_data_ok p groups st \<and> pipe_seq sha256 Z mp sched p S groups s0 st"
  using assms
proof (induction rule: rtranclp_induct)
  case base
  then show ?case by (auto simp: pipe_data_ok_def pipe_seq_def pipe_init_def)
next
  case (step y z)
  from pipe_step_inv [OF step.hyps(2)] step.IH show ?case by blast
qed

lemma consume_pending_returned:
  "\<not> q_returned st \<Longrightarrow> q_returned (consume_pending sha256 Z mp sched p S groups st) \<Longrightarrow>
   q_err (consume_pending sha256 Z mp sched p S groups st) \<noteq> None"
proof (induction "length groups - q_next st" arbitrary: st rule: less_induct)
  case less
  show ?case
  proof (cases "q_next st < length groups \<and> q_pending st (q_next st) \<noteq> None")
    case False
    with less.prems show ?thesis by (cases "q_next st < length groups") (simp_all add: consume_pending_cases)
  next
    case True
    let ?k = "q_next st"
    from True obtain data where d: "q_pending st ?k = Some data" by blast
    obtain gst e s where g: "processGroupWithData sha256 Z mp sched p S (groups ! ?k) data (q_sink st) = ((gst, e), s)"
      by (metis prod.exhaust)
    define st2 where "st2 = (pipe_release groups ?k (st\<lparr>q_pending := (q_pending st)(?k := None),
      q_stats := stats_add (q_stats st) gst, q_sink := s\<rparr>))\<lparr>q_next := ?k + 1\<rparr>"
    show ?thesis
    proof (cases e)
      case None
      with True d g have c: "consume_pending sha256 Z mp sched p S groups st = consume_pending sha256 Z mp sched p S groups st2"
        by (subst consume_pending.simps) (simp add: st2_def Let_def)
      have "length groups - q_next st2 < length groups - ?k" using True by (auto simp: st2_def)
      moreover have "\<not> q_returned st2" using less.prems by (simp add: st2_def)
      ultimately show ?thesis using less.hyps less.prems(2) c by simp
    next
      case (Some x)
      with True d g show ?thesis by (subst consume_pending.simps) (simp add: Let_def)
    qed
  qed
qed

definition pipe_ret :: "rangeGroup list \<Rightarrow> 's pipe \<Rightarrow> bool" where
  "pipe_ret groups st \<longleftrightarrow> (q_returned st \<and> q_err st = None \<longrightarrow> length groups \<le> q_next st)"

lemma pipe_reach_ret:
  assumes "(pipe_step sha256 Z mp sched p S groups)\<^sup>*\<^sup>* (pipe_init p budget s0) st"
  shows "pipe_ret groups st"
  using assms
proof (induction rule: rtranclp_induct)
  case base
  then show ?case by (simp add: pipe_ret_def pipe_init_def)
next
  case (step y z)
  from step.hyps(2) step.IH show ?case
  proof (induction rule: pipe_step.induct)
    case (consume st i d rest)
    then show ?case
      using consume_pending_returned [of "st\<lparr>q_ready := rest, q_pending := (q_pending st)(i \<mapsto> d)\<rparr>" sha256 Z mp sched p S groups]
      by (auto simp: pipe_ret_def)
  qed (auto simp: pipe_ret_def)
qed

text \<open>
  A pipelined run that reports no error has done exactly what the sequential loop does. With an
  error it has done what the sequential loop does on a beginning of the groups.
\<close>

lemma pipelined_prefix:
  assumes "processGroupsPipelined sha256 Z mp sched p S groups s ((stats, x), s')"
  shows "\<exists>k y. processGroupsSequential sha256 Z mp sched p S no_stats (take k groups) s = ((stats, y), s') \<and>
    (x = None \<longrightarrow> y = None \<and> length groups \<le> k)"
  using assms
proof cases
  case (pp_run budget st)
  note inv = conjunct2 [OF pipe_reach_inv [OF pp_run(6)]] and ret = pipe_reach_ret [OF pp_run(6)]
  show ?thesis
  proof (cases "processGroupsSequential sha256 Z mp sched p S no_stats (take (q_next st) groups) s = ((q_stats st, None), q_sink st)")
    case True
    with pp_run ret show ?thesis
      by (intro exI [of _ "q_next st"] exI [of _ None]) (auto simp: pipe_ret_def pipe_final_def)
  next
    case False
    with inv pp_run show ?thesis unfolding pipe_seq_def by (intro exI [of _ "q_next st + 1"]) auto
  qed
qed (auto intro: exI [of _ 0])

section \<open>Batch processing into an atomic sink\<close>

lemma groupAdjacentEntries_entries:
  "groupAdjacentEntries es = Some gs \<Longrightarrow> concat (map g_entries gs) = es"
  by (cases es) (auto simp: groupAdjacentEntries_def group_loop_entries)

lemma groupAdjacentEntries_ok: "groupAdjacentEntries es = Some gs \<Longrightarrow> g \<in> set gs \<Longrightarrow> group_ok g"
  by (cases es) (auto simp: groupAdjacentEntries_def group_ok_def dest!: group_loop_ok [rotated 2])

lemma SortFunc_set: "sorts_by_offset SortFunc \<Longrightarrow> set (SortFunc es) = set es \<and> length (SortFunc es) = length es"
  unfolding sorts_by_offset_def by (metis mset_eq_setD size_mset)

context atomic_sink
begin

lemma pipelined_keeps:
  assumes "processGroupsPipelined sha256 Z mp sched p S groups s ((st, x), s')"
    and res: "pr_workers p < 0 \<or> reserved s \<inter> dest_of ` set (concat (map g_entries groups)) = {}"
  shows "keeps sha256 dest_of (visible s) (visible s') (set (concat (map g_entries groups)))"
proof -
  obtain k y where k: "processGroupsSequential sha256 Z mp sched p S no_stats (take k groups) s = ((st, y), s')"
    using pipelined_prefix [OF assms(1)] by blast
  have sub: "set (concat (map g_entries (take k groups))) \<subseteq> set (concat (map g_entries groups))" by (auto dest: in_set_takeD)
  then have "pr_workers p < 0 \<or> reserved s \<inter> dest_of ` set (concat (map g_entries (take k groups))) = {}" using res by blast
  from keeps_mono [OF processGroupsSequential_keeps [OF k this] sub] show ?thesis .
qed

lemma pipelined_ok:
  assumes "processGroupsPipelined sha256 Z mp sched p S groups s ((st, None), s')"
  shows "processGroupsSequential sha256 Z mp sched p S no_stats groups s = ((st, None), s')"
  using pipelined_prefix [OF assms] by auto

lemma groups_subset:
  assumes "groupAdjacentEntries (SortFunc (filter P entries)) = Some groups" "sorts_by_offset SortFunc"
  shows "set (concat (map g_entries groups)) \<subseteq> set entries"
  using groupAdjacentEntries_entries [OF assms(1)] SortFunc_set [OF assms(2), of "filter P entries"] by auto

lemma Process_keeps:
  assumes "Process sha256 Z mp sched SortFunc p S entries s ((st, x), s')" "sorts_by_offset SortFunc"
    and res: "pr_workers p < 0 \<or> reserved s \<inter> dest_of ` set entries = {}"
  shows "keeps sha256 dest_of (visible s) (visible s') (set entries)"
  using assms(1)
proof cases
  case (process_pipelined toProcess groups ps)
  then have sub: "set (concat (map g_entries groups)) \<subseteq> set entries" using groups_subset [OF _ assms(2)] by blast
  then have "pr_workers p < 0 \<or> reserved s \<inter> dest_of ` set (concat (map g_entries groups)) = {}" using res by blast
  from keeps_mono [OF pipelined_keeps [OF process_pipelined(7) this] sub] show ?thesis .
next
  case (process_sequential toProcess groups ps)
  then have sub: "set (concat (map g_entries groups)) \<subseteq> set entries" using groups_subset [OF _ assms(2)] by blast
  then have "pr_workers p < 0 \<or> reserved s \<inter> dest_of ` set (concat (map g_entries groups)) = {}" using res by blast
  from keeps_mono [OF processGroupsSequential_keeps [OF process_sequential(7) this] sub] show ?thesis .
qed auto

lemma seq_all_written:
  assumes "processGroupsSequential sha256 Z mp sched p S no_stats groups s = ((ps, None), s')"
    and "groupAdjacentEntries (SortFunc toP) = Some groups" "sorts_by_offset SortFunc" "pr_workers p < 0 \<or> reserved s \<inter> dest_of ` set toP = {}"
  shows "Processed ps = int (length toP) \<and>
    (\<forall>e\<in>set toP. written sha256 dest_of (visible s') (set toP) (dest_of e))"
  using processGroupsSequential_ok [OF assms(1)] groupAdjacentEntries_entries [OF assms(2)]
    SortFunc_set [OF assms(3), of toP] assms(4) by auto

lemma Process_ok:
  assumes "Process sha256 Z mp sched SortFunc p S entries s ((st, None), s')" "sorts_by_offset SortFunc"
    and res: "pr_workers p < 0 \<or> reserved s \<inter> dest_of ` set entries = {}"
  defines "toP \<equiv> filter (sk_ShouldProcess S s) entries"
  shows "Processed st = int (length toP) \<and>
    (\<forall>e\<in>set toP. written sha256 dest_of (visible s') (set toP) (dest_of e))"
proof -
  have res': "pr_workers p < 0 \<or> reserved s \<inter> dest_of ` set toP = {}" using res unfolding toP_def by auto
  show ?thesis
    using assms(1)
  proof cases
    case (process_pipelined toProcess groups ps)
    from seq_all_written [OF pipelined_ok [OF process_pipelined(7)] process_pipelined(5) assms(2)]
    show ?thesis using process_pipelined(1,2) res' unfolding toP_def by (auto simp: stats_add_def)
  next
    case (process_sequential toProcess groups ps)
    from seq_all_written [OF process_sequential(7) process_sequential(5) assms(2)]
    show ?thesis using process_sequential(1,2) res' unfolding toP_def by (auto simp: stats_add_def)
  qed (auto simp: toP_def)
qed

end

section \<open>The read-ahead budget\<close>

text \<open>
  A first group larger than the budget is never granted by the semaphore. If no group has a read
  error, nothing cancels the pipeline, and no run of it ends.
\<close>

definition worker_blocked :: "nat \<Rightarrow> rworker \<Rightarrow> bool" where
  "worker_blocked n w =
     (case w of WIdle \<Rightarrow> True | WDone \<Rightarrow> True | WGot i \<Rightarrow> i < n | WAcq i \<Rightarrow> i \<noteq> 0 \<and> i < n | WData i d \<Rightarrow> i \<noteq> 0 \<and> i < n)"

definition pipe_blocked :: "rangeGroup list \<Rightarrow> int \<Rightarrow> 's pipe \<Rightarrow> bool" where
  "pipe_blocked groups limit st \<longleftrightarrow>
     q_err st = None \<and> q_next st = 0 \<and> \<not> q_returned st \<and> q_pending st 0 = None \<and>
     (\<forall>(i, d)\<in>set (q_ready st). i \<noteq> 0 \<and> i < length groups) \<and>
     (\<forall>w\<in>set (q_workers st). worker_blocked (length groups) w) \<and>
     (q_sent st = 0 \<or> WGot 0 \<in> set (q_workers st)) \<and>
     (q_closed st \<longrightarrow> q_sent st = length groups) \<and>
     q_workers st \<noteq> [] \<and> (WDone \<in> set (q_workers st) \<longrightarrow> q_closed st) \<and>
     (\<exists>b \<le> limit. q_budget st = Some b)"

lemma in_set_update_other: "x \<in> set ws \<Longrightarrow> ws ! w \<noteq> x \<Longrightarrow> x \<in> set (ws[w := z])"
  by (metis in_set_conv_nth length_list_update nth_list_update_neq)

lemma group_sz_nonneg: "0 \<le> group_sz groups i"
  by (auto simp: group_sz_def groupSize_def res_simps split: sum.splits)

lemma set_updateD: "x \<in> set (ws[w := y]) \<Longrightarrow> x = y \<or> x \<in> set ws"
  using set_update_subset_insert [of ws w y] by auto

lemma ball_update: "\<forall>x\<in>set ws. P x \<Longrightarrow> P y \<Longrightarrow> \<forall>x\<in>set (ws[w := y]). P x"
  by (auto dest: set_updateD)

lemma pipe_blocked_worker:
  assumes "pipe_blocked groups limit st" "w < length (q_workers st)"
    and "worker_blocked (length groups) x" "q_workers st ! w \<noteq> WGot 0" "x = WDone \<longrightarrow> q_closed st"
    and "q_budget st' = q_budget st \<or> (\<exists>n\<ge>0. q_budget st' = map_option (\<lambda>b. b - n) (q_budget st))"
    and "st' = st\<lparr>q_workers := (q_workers st)[w := x], q_budget := q_budget st', q_ready := q_ready st'\<rparr>"
    and "\<forall>(i, d)\<in>set (q_ready st'). i \<noteq> 0 \<and> i < length groups"
  shows "pipe_blocked groups limit st'"
proof -
  have "\<forall>w\<in>set (q_workers st'). worker_blocked (length groups) w"
    unfolding arg_cong [OF assms(7), of q_workers] 
    using assms(1,3) ball_update [of "q_workers st" "worker_blocked (length groups)" x w] by (simp add: pipe_blocked_def)
  moreover have "q_sent st' = 0 \<or> WGot 0 \<in> set (q_workers st')"
    unfolding arg_cong [OF assms(7), of q_workers] arg_cong [OF assms(7), of q_sent]
    using assms(1,4) by (auto simp: pipe_blocked_def intro: in_set_update_other)
  moreover have "WDone \<in> set (q_workers st') \<longrightarrow> q_closed st'"
    unfolding arg_cong [OF assms(7), of q_workers] arg_cong [OF assms(7), of q_closed]
    using assms(1,5) by (auto simp: pipe_blocked_def dest!: set_updateD)
  moreover have "\<exists>b\<le>limit. q_budget st' = Some b"
    using assms(1,6) by (auto simp: pipe_blocked_def)
  ultimately show ?thesis
    using assms(1,8) arg_cong [OF assms(7), of q_err] arg_cong [OF assms(7), of q_next]
      arg_cong [OF assms(7), of q_returned] arg_cong [OF assms(7), of q_pending]
      arg_cong [OF assms(7), of q_closed] arg_cong [OF assms(7), of q_sent] arg_cong [OF assms(7), of q_workers]
    by (simp add: pipe_blocked_def)
qed

lemma worker_blocked_nth:
  "pipe_blocked groups limit st \<Longrightarrow> w < length (q_workers st) \<Longrightarrow> worker_blocked (length groups) (q_workers st ! w)"
  by (simp add: pipe_blocked_def)

lemma pipe_blocked_step:
  assumes step: "pipe_step sha256 Z mp sched p S groups st st'" and inv: "pipe_blocked groups limit st"
    and big: "group_sz groups 0 > limit" and ne: "groups \<noteq> []"
    and reads: "\<And>g. g \<in> set groups \<Longrightarrow> (\<exists>d. readGroupData p g = Inr d) \<and> (\<exists>n. groupSize g = Inr n)"
  shows "pipe_blocked groups limit st'"
  using step inv
proof (induction rule: pipe_step.induct)
  case (dispatch st n w)
  let ?ws = "(q_workers st)[w := WGot (q_sent st)]"
  have "\<forall>v\<in>set ?ws. worker_blocked (length groups) v"
    using dispatch by (intro ball_update) (auto simp: pipe_blocked_def worker_blocked_def)
  moreover have "WGot 0 \<in> set ?ws"
  proof (cases "q_sent st = 0")
    case True
    with dispatch(4) show ?thesis using set_update_memI [of w "q_workers st" "WGot 0"] by simp
  next
    case False
    with dispatch show ?thesis by (auto simp: pipe_blocked_def intro: in_set_update_other)
  qed
  ultimately show ?case using dispatch by (auto simp: pipe_blocked_def dest!: set_updateD)
next
  case (dispatch_err st e)
  then show ?case using reads [of "groups ! q_sent st"] by auto
next
  case (worker_end w st)
  show ?case
    by (rule pipe_blocked_worker [of groups limit st w WDone]) (use worker_end in \<open>auto simp: worker_blocked_def pipe_blocked_def\<close>)
next
  case (worker_acquire w st i)
  obtain b where "b \<le> limit" "q_budget st = Some b" using worker_acquire(4) by (auto simp: pipe_blocked_def)
  with worker_acquire(3) big have i: "i \<noteq> 0" by (cases "i = 0") auto
  show ?case
    by (rule pipe_blocked_worker [of groups limit st w "WAcq i"])
      (use worker_acquire i worker_blocked_nth [OF worker_acquire(4,1)] group_sz_nonneg [of groups i] in
        \<open>auto simp: worker_blocked_def pipe_blocked_def\<close>)
next
  case (worker_read w st i d)
  show ?case
    by (rule pipe_blocked_worker [of groups limit st w "WData i d"])
      (use worker_read worker_blocked_nth [OF worker_read(4,1)] in \<open>auto simp: worker_blocked_def pipe_blocked_def\<close>)
next
  case (worker_read_err w st i e)
  have "i < length groups"
    using worker_blocked_nth [OF worker_read_err(4,1)] worker_read_err(2) by (simp add: worker_blocked_def)
  with worker_read_err(3) reads [of "groups ! i"] show ?case by auto
next
  case (worker_send w st i d)
  show ?case
    by (rule pipe_blocked_worker [of groups limit st w WIdle])
      (use worker_send worker_blocked_nth [OF worker_send(4,1)] in \<open>auto simp: worker_blocked_def pipe_blocked_def\<close>)
next
  case (consume st i d rest)
  let ?st = "st\<lparr>q_ready := rest, q_pending := (q_pending st)(i \<mapsto> d)\<rparr>"
  have "consume_pending sha256 Z mp sched p S groups ?st = ?st"
    using consume by (intro consume_pending_cases) (auto simp: pipe_blocked_def)
  with consume show ?case by (auto simp: pipe_blocked_def)
next
  case (consume_closed st)
  then have "WDone \<in> set (q_workers st)" by (auto simp: pipe_blocked_def neq_Nil_conv)
  with consume_closed ne show ?case by (auto simp: pipe_blocked_def)
qed (use ne in \<open>auto simp: pipe_blocked_def\<close>)

lemma pipe_blocked_not_final: "pipe_blocked groups limit st \<Longrightarrow> \<not> pipe_final st"
  by (auto simp: pipe_blocked_def pipe_final_def)

lemma pipe_blocked_init:
  "pipe_blocked groups limit (pipe_init p (Some limit) s)"
  by (auto simp: pipe_blocked_def pipe_init_def worker_blocked_def)

lemma pipe_blocked_reach:
  assumes "(pipe_step sha256 Z mp sched p S groups)\<^sup>*\<^sup>* (pipe_init p (Some limit) s) st"
    and "group_sz groups 0 > limit" "groups \<noteq> []"
    and "\<And>g. g \<in> set groups \<Longrightarrow> (\<exists>d. readGroupData p g = Inr d) \<and> (\<exists>n. groupSize g = Inr n)"
  shows "pipe_blocked groups limit st"
  using assms(1)
proof (induction rule: rtranclp_induct)
  case base
  show ?case by (rule pipe_blocked_init)
next
  case (step y z)
  from pipe_blocked_step [OF step.hyps(2) step.IH assms(2,3,4)] show ?case .
qed

section \<open>Completing runs\<close>

text \<open>
  Between two groups the pipeline can be at rest: \<open>k\<close> groups are processed, no reader is busy, the
  budget is full. When every group fits the budget and the sequential loop succeeds, the pipeline
  has a run from each such state to the next, so that it can finish with the same result.
\<close>

definition pipe_rest :: "nat \<Rightarrow> rworker list \<Rightarrow> int option \<Rightarrow> ProcessStats \<Rightarrow> 's \<Rightarrow> 's pipe" where
  "pipe_rest k ws budget stats s =
     \<lparr>q_sent = k, q_closed = False, q_workers = ws, q_ready = [], q_pending = (\<lambda>_. None), q_next = k,
      q_returned = False, q_budget = budget, q_err = None, q_stats = stats, q_sink = s\<rparr>"

lemma consume_pending_one:
  assumes "q_next st < length groups" "q_pending st = (\<lambda>_. None)(q_next st \<mapsto> d)"
    and "processGroupWithData sha256 Z mp sched p S (groups ! q_next st) d (q_sink st) = ((gst, None), s')"
  shows "consume_pending sha256 Z mp sched p S groups st =
    pipe_release groups (q_next st) (st\<lparr>q_pending := (\<lambda>_. None), q_stats := stats_add (q_stats st) gst,
      q_sink := s', q_next := q_next st + 1\<rparr>)"
proof -
  let ?st1 = "(pipe_release groups (q_next st) (st\<lparr>q_pending := (\<lambda>_. None), q_stats := stats_add (q_stats st) gst,
      q_sink := s'\<rparr>))\<lparr>q_next := q_next st + 1\<rparr>"
  have "consume_pending sha256 Z mp sched p S groups st = consume_pending sha256 Z mp sched p S groups ?st1"
    using assms by (subst consume_pending.simps) (simp add: Let_def)
  also have "\<dots> = ?st1" by (cases "q_next st + 1 < length groups") (simp_all add: consume_pending_cases)
  finally show ?thesis by (simp add: pipe_release_def)
qed

lemma pipe_round:
  assumes k: "k < length groups" and sz: "groupSize (groups ! k) = Inr n" and rd: "readGroupData p (groups ! k) = Inr d"
    and g: "processGroupWithData sha256 Z mp sched p S (groups ! k) d s = ((gst, None), s')"
    and b: "\<forall>b. budget = Some b \<longrightarrow> n \<le> b"
  shows "(pipe_step sha256 Z mp sched p S groups)\<^sup>*\<^sup>* (pipe_rest k (WIdle # ws) budget stats s)
    (pipe_rest (k + 1) (WIdle # ws) budget (stats_add stats gst) s')"
proof -
  let ?step = "pipe_step sha256 Z mp sched p S groups"
  let ?b' = "map_option (\<lambda>b. b - n) budget"
  let ?s0 = "pipe_rest k (WIdle # ws) budget stats s"
  have n: "group_sz groups k = n" using sz by (simp add: group_sz_def)
  have s1: "?step ?s0 (?s0\<lparr>q_sent := k + 1, q_workers := WGot k # ws\<rparr>)"
    using dispatch [of ?s0 groups n 0 sha256 Z mp sched p S] k sz by (simp add: pipe_rest_def)
  have s2: "?step (?s0\<lparr>q_sent := k + 1, q_workers := WGot k # ws\<rparr>)
      (?s0\<lparr>q_sent := k + 1, q_workers := WAcq k # ws, q_budget := ?b'\<rparr>)"
    using worker_acquire [of 0 "?s0\<lparr>q_sent := k + 1, q_workers := WGot k # ws\<rparr>" k groups sha256 Z mp sched p S] b n
    by (simp add: pipe_rest_def split: option.splits)
  have s3: "?step (?s0\<lparr>q_sent := k + 1, q_workers := WAcq k # ws, q_budget := ?b'\<rparr>)
      (?s0\<lparr>q_sent := k + 1, q_workers := WData k d # ws, q_budget := ?b'\<rparr>)"
    using worker_read [of 0 "?s0\<lparr>q_sent := k + 1, q_workers := WAcq k # ws, q_budget := ?b'\<rparr>" k p groups d sha256 Z mp sched S] rd
    by (simp add: pipe_rest_def)
  have s4: "?step (?s0\<lparr>q_sent := k + 1, q_workers := WData k d # ws, q_budget := ?b'\<rparr>)
      (?s0\<lparr>q_sent := k + 1, q_budget := ?b', q_ready := [(k, d)]\<rparr>)"
    using worker_send [of 0 "?s0\<lparr>q_sent := k + 1, q_workers := WData k d # ws, q_budget := ?b'\<rparr>" k d sha256 Z mp sched p S groups]
    by (simp add: pipe_rest_def)
  have s5: "?step (?s0\<lparr>q_sent := k + 1, q_budget := ?b', q_ready := [(k, d)]\<rparr>)
      (pipe_rest (k + 1) (WIdle # ws) budget (stats_add stats gst) s')"
  proof -
    let ?s4 = "?s0\<lparr>q_sent := k + 1, q_budget := ?b', q_ready := [(k, d)]\<rparr>"
    let ?s5 = "?s4\<lparr>q_ready := [], q_pending := (q_pending ?s4)(k \<mapsto> d)\<rparr>"
    have "?step ?s4 (consume_pending sha256 Z mp sched p S groups ?s5)"
      using consume [of ?s4 groups k d "[]" sha256 Z mp sched p S] k by (simp add: pipe_rest_def)
    moreover have "consume_pending sha256 Z mp sched p S groups ?s5 = pipe_rest (k + 1) (WIdle # ws) budget (stats_add stats gst) s'"
      using consume_pending_one [of ?s5 groups d sha256 Z mp sched p S gst s'] k g n
      by (cases budget) (simp_all add: pipe_rest_def pipe_release_def)
    ultimately show ?thesis by simp
  qed
  from s1 s2 s3 s4 s5 show ?thesis by (meson converse_rtranclp_into_rtranclp rtranclp.rtrancl_refl)
qed

lemma pipe_rounds:
  assumes "processGroupsSequential sha256 Z mp sched p S stats (drop k groups) s = ((st, None), s')" "k \<le> length groups"
    and fit: "\<forall>b g. budget = Some b \<longrightarrow> g \<in> set groups \<longrightarrow> (\<exists>n \<le> b. groupSize g = Inr n)"
    and sz: "\<forall>g\<in>set groups. \<exists>n. groupSize g = Inr n"
  shows "(pipe_step sha256 Z mp sched p S groups)\<^sup>*\<^sup>* (pipe_rest k (WIdle # ws) budget stats s)
    (pipe_rest (length groups) (WIdle # ws) budget st s')"
  using assms(1,2)
proof (induction "length groups - k" arbitrary: k stats s)
  case 0
  then show ?case by simp
next
  case (Suc m)
  then have k: "k < length groups" by simp
  obtain gst e s1 where g: "processGroup sha256 Z mp sched p S (groups ! k) s = ((gst, e), s1)" by (metis prod.exhaust)
  have d: "drop k groups = groups ! k # drop (k + 1) groups" using k by (simp add: Cons_nth_drop_Suc)
  with Suc.prems(1) g have e: "e = None"
    and r: "processGroupsSequential sha256 Z mp sched p S (stats_add stats gst) (drop (k + 1) groups) s1 = ((st, None), s')"
    by (auto simp: Let_def split: if_splits)
  obtain n where n: "groupSize (groups ! k) = Inr n" "\<forall>b. budget = Some b \<longrightarrow> n \<le> b"
    using sz fit k by (metis nth_mem sum.inject(2))
  obtain dat where "readGroupData p (groups ! k) = Inr dat"
      "processGroupWithData sha256 Z mp sched p S (groups ! k) dat s = ((gst, None), s1)"
    using g e by (auto simp: processGroup_def split: sum.splits)
  note round = pipe_round [OF k n(1) this n(2)]
  have "m = length groups - (k + 1)" "k + 1 \<le> length groups" using Suc.hyps(2) k by simp_all
  from rtranclp_trans [OF round Suc.hyps(1) [OF this(1) r this(2)]] show ?case .
qed

lemma pipe_finish_workers:
  "q_closed st \<Longrightarrow> q_workers st = replicate a WDone @ replicate b WIdle \<Longrightarrow>
   (pipe_step sha256 Z mp sched p S groups)\<^sup>*\<^sup>* st (st\<lparr>q_workers := replicate (a + b) WDone\<rparr>)"
proof (induction b arbitrary: a st)
  case (Suc b)
  let ?st = "st\<lparr>q_workers := (q_workers st)[a := WDone]\<rparr>"
  have "pipe_step sha256 Z mp sched p S groups st ?st"
    using Suc.prems by (intro worker_end) (auto simp: nth_append)
  moreover have "(pipe_step sha256 Z mp sched p S groups)\<^sup>*\<^sup>* ?st (?st\<lparr>q_workers := replicate (Suc a + b) WDone\<rparr>)"
  proof (intro Suc.IH)
    have "(replicate a WDone @ WIdle # replicate b WIdle)[a := WDone] = replicate a WDone @ WDone # replicate b WIdle"
      by (simp add: list_update_append)
    also have "\<dots> = replicate (Suc a) WDone @ replicate b WIdle"
      by (simp only: replicate_Suc append_Cons replicate_append_same [symmetric] append_assoc append_Nil)
    finally show "q_workers ?st = replicate (Suc a) WDone @ replicate b WIdle" using Suc.prems(2) by simp
  qed (use Suc.prems in simp)
  ultimately show ?case by (simp add: converse_rtranclp_into_rtranclp)
next
  case 0
  then have "st\<lparr>q_workers := replicate (a + 0) WDone\<rparr> = st" by (cases st) simp
  then show ?case by (metis rtranclp.rtrancl_refl)
qed

text \<open>
  When every group fits the read-ahead budget and the sequential loop succeeds, the pipeline has a
  run that returns its result.
\<close>

lemma pipelined_can_finish:
  assumes "processGroupsSequential sha256 Z mp sched p S no_stats groups s = ((st, None), s')" "groups \<noteq> []"
    and "pipe_budget p = Inr budget" "\<forall>g\<in>set groups. \<exists>n. groupSize g = Inr n"
    and "\<forall>b g. budget = Some b \<longrightarrow> g \<in> set groups \<longrightarrow> (\<exists>n \<le> b. groupSize g = Inr n)"
  shows "processGroupsPipelined sha256 Z mp sched p S groups s ((st, None), s')"
proof -
  let ?step = "pipe_step sha256 Z mp sched p S groups"
  let ?W = "nat (if pr_readConcurrency p < 1 then 1 else pr_readConcurrency p)"
  have "?W \<noteq> 0" by auto
  then obtain m where m: "?W = Suc m" using not0_implies_Suc by blast
  let ?ws = "replicate ?W WIdle"
  let ?r = "pipe_rest (length groups) ?ws budget st s'"
  have r: "?step\<^sup>*\<^sup>* (pipe_init p budget s) ?r"
  proof -
    have "processGroupsSequential sha256 Z mp sched p S no_stats (drop 0 groups) s = ((st, None), s')" using assms(1) by simp
    from pipe_rounds [OF this _ assms(5,4), of "replicate m WIdle"]
    show ?thesis unfolding m by (simp add: pipe_rest_def pipe_init_def m)
  qed
  have "?step ?r (?r\<lparr>q_closed := True\<rparr>)" by (intro dispatch_end) (simp_all add: pipe_rest_def)
  moreover have "?step\<^sup>*\<^sup>* (?r\<lparr>q_closed := True\<rparr>) (?r\<lparr>q_closed := True, q_workers := replicate ?W WDone\<rparr>)"
    using pipe_finish_workers [of "?r\<lparr>q_closed := True\<rparr>" 0 ?W sha256 Z mp sched p S groups] by (simp add: pipe_rest_def)
  moreover have "?step (?r\<lparr>q_closed := True, q_workers := replicate ?W WDone\<rparr>)
      (?r\<lparr>q_closed := True, q_workers := replicate ?W WDone, q_returned := True\<rparr>)"
    using consume_end [of "?r\<lparr>q_closed := True, q_workers := replicate ?W WDone\<rparr>" groups sha256 Z mp sched p S]
    by (simp add: pipe_rest_def)
  ultimately have run: "?step\<^sup>*\<^sup>* (pipe_init p budget s)
      (?r\<lparr>q_closed := True, q_workers := replicate ?W WDone, q_returned := True\<rparr>)"
    using r by (meson rtranclp.rtrancl_into_rtrancl rtranclp_trans)
  have "pipe_final (?r\<lparr>q_closed := True, q_workers := replicate ?W WDone, q_returned := True\<rparr>)"
    by (simp add: pipe_final_def pipe_rest_def)
  from pp_run [OF assms(2,3) run this] show ?thesis by (simp add: pipe_rest_def)
qed

end
