(* ===== verification/ContentCache.thy ===== *)
theory ContentCache
  imports FileHandle
begin

text \<open>
  \<^verbatim>\<open>core/cache/cache.go\<close>, the interface of a content-addressed cache, and \<^verbatim>\<open>core/cache_support.go\<close>,
  the file that verifies cached content while it is read.

  A cache is a record of operations over a state \<open>'c\<close>: \<^verbatim>\<open>Get\<close> opens the stored content as a reader,
  \<^verbatim>\<open>Put\<close> stores what a file delivers (its bytes and its final error), \<^verbatim>\<open>Delete\<close> removes an entry.
  The contract is the locale \<open>content_cache\<close>.
\<close>

section \<open>Definitions\<close>

record 'c Cache =
  ca_Get :: "'c \<Rightarrow> bytes \<Rightarrow> reader option"
  ca_Put :: "bytes \<Rightarrow> stream \<Rightarrow> 'c \<Rightarrow> err option \<times> 'c"
  ca_Delete :: "bytes \<Rightarrow> 'c \<Rightarrow> err option \<times> 'c"

record cachedFile =
  cf_file :: reader
  cf_entry :: Entry
  cf_verifyOnClose :: bool
  cf_hasher :: bytes
  cf_verified :: bool
  cf_verifyErr :: "err option"

definition newCachedFile :: "reader \<Rightarrow> Entry \<Rightarrow> bool \<Rightarrow> cachedFile" where
  "newCachedFile f entry verifyOnClose =
     \<lparr>cf_file = f, cf_entry = entry, cf_verifyOnClose = verifyOnClose, cf_hasher = [], cf_verified = False,
      cf_verifyErr = None\<rparr>"

text \<open>The delete function of a cached file is the cache's \<^verbatim>\<open>Delete\<close>, so its operations thread the cache.\<close>

definition cachedFile_verifyHash ::
  "(bytes \<Rightarrow> bytes) \<Rightarrow> 'c Cache \<Rightarrow> cachedFile \<Rightarrow> 'c \<Rightarrow> err option \<times> cachedFile \<times> 'c" where
  "cachedFile_verifyHash sha256 ca f c =
     (if cf_verified f then (cf_verifyErr f, f, c)
      else if sha256 (cf_hasher f) \<noteq> Hash (cf_entry f)
      then (Some ErrHashMismatch, f\<lparr>cf_verifyErr := Some ErrHashMismatch, cf_verified := True\<rparr>,
            snd (ca_Delete ca (Hash (cf_entry f)) c))
      else (cf_verifyErr f, f\<lparr>cf_verified := True\<rparr>, c))"

definition cachedFile_Read ::
  "(bytes \<Rightarrow> bytes) \<Rightarrow> 'c Cache \<Rightarrow> cachedFile \<Rightarrow> nat \<Rightarrow> 'c \<Rightarrow> (bytes \<times> err option) \<times> cachedFile \<times> 'c" where
  "cachedFile_Read sha256 ca f n c =
     (if cf_verifyErr f \<noteq> None then (([], cf_verifyErr f), f, c)
      else
        let ((d, err), r') = rd_Read (cf_file f) n;
            f = f\<lparr>cf_file := r', cf_hasher := (if length d > 0 then cf_hasher f @ d else cf_hasher f)\<rparr>
        in if err = Some EOF then
             (case cachedFile_verifyHash sha256 ca f c of
                (Some verifyErr, f, c) \<Rightarrow> ((d, Some verifyErr), f, c)
              | (None, f, c) \<Rightarrow> ((d, Some EOF), f, c))
           else ((d, err), f, c))"

definition cachedFile_ReadAt :: "cachedFile \<Rightarrow> nat \<Rightarrow> i64 \<Rightarrow> bytes \<times> err option" where
  "cachedFile_ReadAt f n off =
     (if cf_verifyErr f \<noteq> None then ([], cf_verifyErr f)
      else case cf_file f of
        SectionReader ra _ _ \<Rightarrow> ra_ReadAt ra n off
      | Chunks _ _ _ \<Rightarrow> ([], Some (Errorf ''read at %s: reader does not support random access'' [Path (cf_entry f)] [])))"

definition cachedFile_Stat :: "cachedFile \<Rightarrow> Info res" where
  "cachedFile_Stat f = NewInfo (cf_entry f) (Base (Path (cf_entry f)))"

lemma cachedFile_verifyHash_file: "cachedFile_verifyHash sha256 ca f c = (x, f', c') \<Longrightarrow> cf_file f' = cf_file f"
  by (auto simp: cachedFile_verifyHash_def split: if_splits)

lemma cachedFile_Read_decreases:
  "cachedFile_Read sha256 ca f n c = ((d, None), f', c') \<Longrightarrow> n > 0 \<Longrightarrow> rd_size (cf_file f') < rd_size (cf_file f)"
  by (cases "rd_Read (cf_file f) n")
    (auto simp: cachedFile_Read_def Let_def dest: rd_Read_decreases split: if_splits option.splits prod.splits)

text \<open>The drain of \<^verbatim>\<open>Close\<close>: \<open>None\<close> when it reaches the end of the file.\<close>

function cached_drain :: "(bytes \<Rightarrow> bytes) \<Rightarrow> 'c Cache \<Rightarrow> cachedFile \<Rightarrow> 'c \<Rightarrow> err option \<times> cachedFile \<times> 'c" where
  "cached_drain sha256 ca f c =
     (case cachedFile_Read sha256 ca f 32768 c of
        ((d, Some err), f', c') \<Rightarrow> if err = EOF then (None, f', c') else (Some err, f', c')
      | ((d, None), f', c') \<Rightarrow> cached_drain sha256 ca f' c')"
  by pat_completeness auto
termination
  by (relation "measure (\<lambda>(sha256, ca, f, c). rd_size (cf_file f))") (auto dest: cachedFile_Read_decreases [OF sym])

declare cached_drain.simps [simp del]

text \<open>What \<^verbatim>\<open>io.Copy\<close> gets out of a cached file.\<close>

function cached_stream :: "(bytes \<Rightarrow> bytes) \<Rightarrow> 'c Cache \<Rightarrow> cachedFile \<Rightarrow> 'c \<Rightarrow> stream \<times> cachedFile \<times> 'c" where
  "cached_stream sha256 ca f c =
     (case cachedFile_Read sha256 ca f 32768 c of
        ((d, Some err), f', c') \<Rightarrow> (\<lparr>s_data = d, s_end = err\<rparr>, f', c')
      | ((d, None), f', c') \<Rightarrow>
          (case cached_stream sha256 ca f' c' of
             (st, f'', c'') \<Rightarrow> (\<lparr>s_data = d @ s_data st, s_end = s_end st\<rparr>, f'', c'')))"
  by pat_completeness auto
termination
  by (relation "measure (\<lambda>(sha256, ca, f, c). rd_size (cf_file f))") (auto dest: cachedFile_Read_decreases [OF sym])

declare cached_stream.simps [simp del]

text \<open>Closing the underlying file of the cache is assumed to succeed.\<close>

definition cachedFile_Close :: "(bytes \<Rightarrow> bytes) \<Rightarrow> 'c Cache \<Rightarrow> cachedFile \<Rightarrow> 'c \<Rightarrow> err option \<times> cachedFile \<times> 'c" where
  "cachedFile_Close sha256 ca f c =
     (if cf_verified f \<or> \<not> cf_verifyOnClose f then (cf_verifyErr f, f, c)
      else case cached_drain sha256 ca f c of
        (Some err, f, c) \<Rightarrow> (Some err, f, c)
      | (None, f, c) \<Rightarrow> (cf_verifyErr f, f, c))"

text \<open>\<^verbatim>\<open>bytesFile\<close>: content in memory as a file.\<close>

definition bytesFile :: "bytes \<Rightarrow> stream" where
  "bytesFile content = \<lparr>s_data = content, s_end = EOF\<rparr>"

section \<open>Verification of cached content\<close>

text \<open>A cached file from which the bytes \<open>got\<close> were read and that has not failed.\<close>

definition cached_inv :: "cachedFile \<Rightarrow> Entry \<Rightarrow> bytes \<Rightarrow> bool" where
  "cached_inv f e got \<longleftrightarrow> cf_entry f = e \<and> cf_hasher f = got \<and> \<not> cf_verified f \<and> cf_verifyErr f = None"

lemma newCachedFile_inv: "cached_inv (newCachedFile r e v) e []"
  by (simp add: cached_inv_def newCachedFile_def)

lemma cachedFile_Read_inv:
  assumes "cached_inv f e got" "cachedFile_Read sha256 ca f n c = ((d, x), f', c')"
  shows "(x = None \<longrightarrow> cached_inv f' e (got @ d)) \<and> (x = Some EOF \<longrightarrow> sha256 (got @ d) = Hash e)"
proof -
  obtain d1 x1 r1 where r: "rd_Read (cf_file f) n = ((d1, x1), r1)" by (metis prod.exhaust)
  then show ?thesis using assms
    by (auto simp: cachedFile_Read_def cached_inv_def cachedFile_verifyHash_def Let_def split: if_splits option.splits prod.splits)
qed

lemma cached_stream_inv:
  "cached_inv f e got \<Longrightarrow> cached_stream sha256 ca f c = (st, f', c') \<Longrightarrow> s_end st = EOF \<Longrightarrow> sha256 (got @ s_data st) = Hash e"
proof (induction sha256 ca f c arbitrary: got st f' c' rule: cached_stream.induct)
  case (1 sha256 ca f c)
  obtain d x f1 c1 where r: "cachedFile_Read sha256 ca f 32768 c = ((d, x), f1, c1)" by (metis prod.exhaust)
  note inv = cachedFile_Read_inv [OF "1.prems"(1) r]
  show ?case
  proof (cases x)
    case None
    obtain st1 f2 c2 where s: "cached_stream sha256 ca f1 c1 = (st1, f2, c2)" by (metis prod.exhaust)
    have "st = \<lparr>s_data = d @ s_data st1, s_end = s_end st1\<rparr>"
      using "1.prems"(2) r None s by (subst (asm) cached_stream.simps) simp
    then show ?thesis using "1.IH" [OF r [symmetric] refl None refl _ s, of "got @ d"] inv None "1.prems"(3) by simp
  next
    case (Some err)
    then have "st = \<lparr>s_data = d, s_end = err\<rparr>" using "1.prems"(2) r by (subst (asm) cached_stream.simps) simp
    then show ?thesis using inv Some "1.prems"(3) by simp
  qed
qed

section \<open>The cache interface\<close>

text \<open>
  What the archive relies on. A state keeps an internal invariant \<open>inv\<close>. \<^verbatim>\<open>Put\<close> may drop other
  entries and may decline to store, but it never makes content visible other than the complete
  stream it was given, under the hash it was given; \<^verbatim>\<open>Delete\<close> only removes.
\<close>

locale content_cache =
  fixes ca :: "'c Cache"
    and inv :: "'c \<Rightarrow> bool"
  assumes Put_inv: "inv c \<Longrightarrow> ca_Put ca h st c = (x, c') \<Longrightarrow> inv c'"
    and Put_other: "inv c \<Longrightarrow> ca_Put ca h st c = (x, c') \<Longrightarrow> ca_Get ca c' h' = Some r \<Longrightarrow>
      ca_Get ca c h' = Some r \<or> h' = h \<and> s_end st = EOF \<and> delivers r (s_data st)"
    and Delete_inv: "inv c \<Longrightarrow> ca_Delete ca h c = (x, c') \<Longrightarrow> inv c'"
    and Delete_other: "inv c \<Longrightarrow> ca_Delete ca h c = (x, c') \<Longrightarrow> ca_Get ca c' h' = Some r \<Longrightarrow> ca_Get ca c h' = Some r"
begin

text \<open>Every entry of a sound cache delivers content with its hash.\<close>

definition sound :: "(bytes \<Rightarrow> bytes) \<Rightarrow> 'c \<Rightarrow> bool" where
  "sound sha256 c \<longleftrightarrow> inv c \<and> (\<forall>h r. ca_Get ca c h = Some r \<longrightarrow> (\<exists>d. delivers r d \<and> sha256 d = h))"

lemma Put_sound:
  "sound sha256 c \<Longrightarrow> s_end st = EOF \<longrightarrow> sha256 (s_data st) = h \<Longrightarrow> ca_Put ca h st c = (x, c') \<Longrightarrow> sound sha256 c'"
  unfolding sound_def using Put_inv Put_other by metis

lemma Delete_sound: "sound sha256 c \<Longrightarrow> ca_Delete ca h c = (x, c') \<Longrightarrow> sound sha256 c'"
  unfolding sound_def using Delete_inv Delete_other by metis

lemma verifyHash_sound:
  "sound sha256 c \<Longrightarrow> cachedFile_verifyHash sha256 ca f c = (x, f', c') \<Longrightarrow> sound sha256 c'"
  by (auto simp: cachedFile_verifyHash_def split: if_splits) (metis Delete_sound prod.collapse)

lemma Read_sound: "sound sha256 c \<Longrightarrow> cachedFile_Read sha256 ca f n c = (r, f', c') \<Longrightarrow> sound sha256 c'"
  by (auto simp: cachedFile_Read_def Let_def dest: verifyHash_sound split: if_splits prod.splits option.splits)

end

end
