(* ===== verification/DiskCache.thy ===== *)
theory DiskCache
  imports ContentCache Filesystem Texts "HOL-Library.Product_Lexorder"
begin

text \<open>
  \<^verbatim>\<open>core/cache/disk/cache.go\<close> and \<^verbatim>\<open>size.go\<close>: the content cache in a directory, with its size
  accounting and pruning. The state is the cache record and the file system. The bytes that
  \<^verbatim>\<open>io.Copy\<close> moves into the temporary file are one write of the model. \<^verbatim>\<open>sort.Slice\<close> orders by
  modification time and path, which is a strict order of the files. Sizes are added up without
  wrap-around (a directory holds less than \<open>2^63\<close> bytes), and \<^verbatim>\<open>Get\<close>, which reports any failure of
  \<^verbatim>\<open>os.Open\<close> as a miss, misses exactly the files that are not there.

  The cache is interpreted as a \<open>content_cache\<close>.
\<close>

section \<open>Definitions\<close>

record DiskCache =
  dc_dir :: string
  dc_shardPrefixLen :: int
  dc_dirPerm :: u32
  dc_maxBytes :: i64
  dc_bytes :: i64

definition WithShardPrefixLen :: "int \<Rightarrow> DiskCache \<Rightarrow> DiskCache" where
  "WithShardPrefixLen n c = c\<lparr>dc_shardPrefixLen := n\<rparr>"

definition WithDirPerm :: "u32 \<Rightarrow> DiskCache \<Rightarrow> DiskCache" where
  "WithDirPerm m c = c\<lparr>dc_dirPerm := m\<rparr>"

definition WithMaxBytes :: "i64 \<Rightarrow> DiskCache \<Rightarrow> DiskCache" where
  "WithMaxBytes n c = c\<lparr>dc_maxBytes := n\<rparr>"

definition file_size :: "fnode \<Rightarrow> i64" where
  "file_size n = int (length (n_content n))"

definition dirSize :: "string \<Rightarrow> fsys \<Rightarrow> i64" where
  "dirSize root s = sum_list (map (\<lambda>(p, n). file_size n) (walk_files root s))"

definition DiskCache_New ::
  "string \<Rightarrow> (DiskCache \<Rightarrow> DiskCache) list \<Rightarrow> fsys \<Rightarrow> DiskCache res \<times> fsys" where
  "DiskCache_New dir opts s =
     (if dir = [] then (Inl (ErrNew ''cache dir is empty''), s)
      else
        let c = fold (\<lambda>opt c. opt c) opts
              \<lparr>dc_dir = dir, dc_shardPrefixLen = 2, dc_dirPerm = 448, dc_maxBytes = 0, dc_bytes = 0\<rparr>
        in if dc_shardPrefixLen c < 0 then (Inl (ErrNew ''shard prefix length must be >= 0''), s)
           else if dc_maxBytes c < 0 then (Inl (ErrNew ''max bytes must be >= 0''), s)
           else case os_MkdirAll dir s of
             (Some err, s) \<Rightarrow> (Inl err, s)
           | (None, s) \<Rightarrow> (Inr (c\<lparr>dc_bytes := dirSize dir s\<rparr>), s))"

definition shard_path :: "string \<Rightarrow> int \<Rightarrow> string \<Rightarrow> string" where
  "shard_path dir n hex =
     (if n \<le> 0 then join_path dir hex
      else let prefixLen = (if n > int (length hex) then int (length hex) else n)
           in join_path (join_path dir (take (nat prefixLen) hex)) hex)"

definition cache_path :: "DiskCache \<Rightarrow> bytes \<Rightarrow> string res" where
  "cache_path c hash =
     (if length hash = 0 then Inl (ErrNew ''hash is empty'')
      else Inr (shard_path (dc_dir c) (dc_shardPrefixLen c) (hex_encode hash)))"

text \<open>An \<^verbatim>\<open>os.File\<close> opened for reading.\<close>

definition os_reader :: "bytes \<Rightarrow> reader" where
  "os_reader content =
     SectionReader \<lparr>ra_content = content, ra_fault = (\<lambda>_ _. None), ra_eager = False\<rparr> 0 (int (length content))"

definition DiskCache_Get :: "DiskCache \<times> fsys \<Rightarrow> bytes \<Rightarrow> reader option" where
  "DiskCache_Get cs hash =
     (case cache_path (fst cs) hash of
        Inl err \<Rightarrow> None
      | Inr path \<Rightarrow> map_option (\<lambda>n. os_reader (n_content n)) (fs_files (snd cs) path))"

text \<open>\<^verbatim>\<open>pruneDir\<close>: the loop over the files, oldest first, and the whole.\<close>

fun prune_loop :: "i64 \<Rightarrow> (string \<times> fnode) list \<Rightarrow> i64 \<Rightarrow> i64 \<Rightarrow> fsys \<Rightarrow> (i64 \<times> i64 \<times> err option) \<times> fsys" where
  "prune_loop target [] freed remaining s = ((freed, remaining, None), s)"
| "prune_loop target ((p, n) # es) freed remaining s =
     (if remaining \<le> target then ((freed, remaining, None), s)
      else case os_Remove p s of
        (Some err, s) \<Rightarrow>
          if errors_is err ErrNotExist then prune_loop target es freed remaining s
          else ((freed, remaining, Some err), s)
      | (None, s) \<Rightarrow> prune_loop target es (freed + file_size n) (remaining - file_size n) s)"

definition pruneDir :: "string \<Rightarrow> i64 \<Rightarrow> fsys \<Rightarrow> (i64 \<times> i64 \<times> err option) \<times> fsys" where
  "pruneDir root targetBytes s =
     (let target = (if targetBytes < 0 then 0 else targetBytes);
          entries = walk_files root s;
          total' = dirSize root s
      in if total' \<le> target then ((0, total', None), s)
         else prune_loop target (sort_key (\<lambda>(p, n). (n_mtime n, p)) entries) 0 total' s)"

definition DiskCache_Prune :: "i64 \<Rightarrow> DiskCache \<times> fsys \<Rightarrow> i64 res \<times> (DiskCache \<times> fsys)" where
  "DiskCache_Prune targetBytes cs =
     (let target = (if targetBytes < 0 then 0 else targetBytes)
      in case pruneDir (dc_dir (fst cs)) target (snd cs) of
           ((freed, remaining, Some err), s) \<Rightarrow> (Inl err, (fst cs, s))
         | ((freed, remaining, None), s) \<Rightarrow> (Inr freed, ((fst cs)\<lparr>dc_bytes := remaining\<rparr>, s)))"

definition ensureCapacity :: "i64 \<Rightarrow> DiskCache \<times> fsys \<Rightarrow> bool res \<times> (DiskCache \<times> fsys)" where
  "ensureCapacity need cs =
     (let c = fst cs
      in if dc_maxBytes c \<le> 0 then (Inr True, cs)
         else if need > dc_maxBytes c then (Inr False, cs)
         else if add_i64 (dc_bytes c) need \<le> dc_maxBytes c then (Inr True, cs)
         else case DiskCache_Prune (dc_maxBytes c - need) cs of
           (Inl err, cs) \<Rightarrow> (Inl err, cs)
         | (Inr freed, cs) \<Rightarrow> (Inr (add_i64 (dc_bytes (fst cs)) need \<le> dc_maxBytes (fst cs)), cs))"

text \<open>\<^verbatim>\<open>io.Copy(tmp, f)\<close> for a source that delivers the stream.\<close>

definition copy_stream :: "string \<Rightarrow> stream \<Rightarrow> fsys \<Rightarrow> (nat \<times> err option) \<times> fsys" where
  "copy_stream p st s =
     (case os_Write p (s_data st) s of
        ((n, Some e), s) \<Rightarrow> ((n, Some e), s)
      | ((n, None), s) \<Rightarrow> ((n, if s_end st = EOF then None else Some (s_end st)), s))"

text \<open>The end of \<^verbatim>\<open>Put\<close>, from the rename on: shared by the content cache and the block cache.\<close>

definition install :: "string \<Rightarrow> string \<Rightarrow> i64 \<Rightarrow> DiskCache \<times> fsys \<Rightarrow> err option \<times> (DiskCache \<times> fsys)" where
  "install tmpPath path written cs =
     (let (c, s) = cs
      in case os_Rename tmpPath path s of
           (Some err, s) \<Rightarrow>
             if fs_exists s path then (None, (c, snd (os_Remove tmpPath s)))
             else (Some err, (c, snd (os_Remove tmpPath s)))
         | (None, s) \<Rightarrow> (None, (c\<lparr>dc_bytes := add_i64 (dc_bytes c) written\<rparr>, s)))"

text \<open>\<^verbatim>\<open>Put\<close> from the copy into the temporary file on.\<close>

definition Put_temp :: "stream \<Rightarrow> string \<Rightarrow> string \<Rightarrow> DiskCache \<times> fsys \<Rightarrow> err option \<times> (DiskCache \<times> fsys)" where
  "Put_temp f tmpPath path cs =
     (let (c, s) = cs
      in case copy_stream tmpPath f s of
           ((written, Some err), s) \<Rightarrow> (Some err, (c, snd (os_Remove tmpPath (snd (os_Close s)))))
         | ((written, None), s) \<Rightarrow>
             (case os_Close s of
                (Some err, s) \<Rightarrow> (Some err, (c, snd (os_Remove tmpPath s)))
              | (None, s) \<Rightarrow>
                  (case ensureCapacity (int written) (c, s) of
                     (Inl err, (c, s)) \<Rightarrow> (Some err, (c, snd (os_Remove tmpPath s)))
                   | (Inr ok, (c, s)) \<Rightarrow>
                       if \<not> ok then (None, (c, snd (os_Remove tmpPath s)))
                       else install tmpPath path (int written) (c, s))))"

definition DiskCache_Put :: "bytes \<Rightarrow> stream \<Rightarrow> DiskCache \<times> fsys \<Rightarrow> err option \<times> (DiskCache \<times> fsys)" where
  "DiskCache_Put hash f cs =
     (let (c, s) = cs
      in case cache_path c hash of
           Inl err \<Rightarrow> (Some err, cs)
         | Inr path \<Rightarrow>
             if fs_exists s path then (None, cs)
             else
               (case os_MkdirAll (dir_of path) s of
                  (Some err, s) \<Rightarrow> (Some err, (c, s))
                | (None, s) \<Rightarrow>
                    (case os_CreateTemp (dir_of path) ''cache-'' s of
                       (Inl err, s) \<Rightarrow> (Some err, (c, s))
                     | (Inr tmpPath, s) \<Rightarrow> Put_temp f tmpPath path (c, s))))"

definition DiskCache_Delete :: "bytes \<Rightarrow> DiskCache \<times> fsys \<Rightarrow> err option \<times> (DiskCache \<times> fsys)" where
  "DiskCache_Delete hash cs =
     (let (c, s) = cs
      in case cache_path c hash of
           Inl err \<Rightarrow> (Some err, cs)
         | Inr path \<Rightarrow>
             (case fs_files s path of
                None \<Rightarrow> (None, cs)
              | Some info \<Rightarrow>
                  (case os_Remove path s of
                     (Some err, s) \<Rightarrow> (if errors_is err ErrNotExist then None else Some err, (c, s))
                   | (None, s) \<Rightarrow> (None, (c\<lparr>dc_bytes := sub_i64 (dc_bytes c) (file_size info)\<rparr>, s)))))"

definition disk_cache :: "(DiskCache \<times> fsys) Cache" where
  "disk_cache = \<lparr>ca_Get = DiskCache_Get, ca_Put = DiskCache_Put, ca_Delete = DiskCache_Delete\<rparr>"

section \<open>Names\<close>

definition base_name :: "string \<Rightarrow> string" where
  "base_name p = rev (takeWhile (\<lambda>c. c \<noteq> slash) (rev p))"

lemma base_name_append: "slash \<notin> set w \<Longrightarrow> base_name (d @ slash # w) = w"
  using takeWhile_neq_append [of slash "rev w" "rev d"] by (simp add: base_name_def)

lemma base_name_id: "slash \<notin> set w \<Longrightarrow> base_name w = w"
  unfolding base_name_def by (metis rev_rev_ident set_rev takeWhile_neq_id)

lemma base_name_join: "slash \<notin> set w \<Longrightarrow> w \<noteq> ''.'' \<Longrightarrow> base_name (join_path d w) = w"
  using base_name_append [of w "[]"] base_name_append [of w d] base_name_id [of w] unfolding join_path_def by simp

lemma hex_digit_inj: "a < 16 \<Longrightarrow> b < 16 \<Longrightarrow> hex_digit a = hex_digit b \<Longrightarrow> a = b"
proof -
  assume a: "a < 16" "b < 16" "hex_digit a = hex_digit b"
  have "distinct ''0123456789abcdef''" "length ''0123456789abcdef'' = 16" by simp_all
  with a show ?thesis by (metis hex_digit_def nth_eq_iff_index_eq)
qed

lemma hex_digit_set: "a < 16 \<Longrightarrow> hex_digit a \<in> set ''0123456789abcdef''"
proof -
  assume "a < 16"
  moreover have "length ''0123456789abcdef'' = 16" by simp
  ultimately show ?thesis unfolding hex_digit_def by (metis nth_mem)
qed

lemma byte_div_mod: "unat (b :: u8) div 16 < 16 \<and> unat b mod 16 < 16"
proof -
  have "unat b < 2 ^ 8" using unsigned_less [of b, where ?'a = nat] by simp
  then show ?thesis by (simp add: less_mult_imp_div_less)
qed

lemma hex_encode_inj: "hex_encode a = hex_encode b \<Longrightarrow> a = b"
proof (induction a arbitrary: b)
  case Nil
  then show ?case by (cases b) (simp_all add: hex_encode_def)
next
  case (Cons x xs)
  then obtain y ys where b: "b = y # ys" by (cases b) (simp_all add: hex_encode_def)
  with Cons.prems have "unat x div 16 = unat y div 16" "unat x mod 16 = unat y mod 16" "hex_encode xs = hex_encode ys"
    using byte_div_mod [of x] byte_div_mod [of y] hex_digit_inj by (auto simp: hex_encode_def)
  then have "unat x = unat y" by (metis div_mult_mod_eq)
  with Cons.IH [OF \<open>hex_encode xs = hex_encode ys\<close>] b show ?case by (simp add: word_unat_eq_iff)
qed

lemma hex_encode_set: "set (hex_encode a) \<subseteq> set ''0123456789abcdef''"
proof (induction a)
  case (Cons x a)
  have "hex_encode (x # a) = hex_digit (unat x div 16) # hex_digit (unat x mod 16) # hex_encode a"
    by (simp add: hex_encode_def)
  with Cons hex_digit_set [of "unat x div 16"] hex_digit_set [of "unat x mod 16"] byte_div_mod [of x]
  show ?case by (metis insert_subset list.set(2))
qed (simp add: hex_encode_def)

lemma hex_encode_chars: "slash \<notin> set (hex_encode a)" "CHR ''-'' \<notin> set (hex_encode a)" "hex_encode a \<noteq> ''.''"
proof -
  have "slash \<notin> set ''0123456789abcdef''" "CHR ''-'' \<notin> set ''0123456789abcdef''" "CHR ''.'' \<notin> set ''0123456789abcdef''"
    by simp_all
  with hex_encode_set [of a] show "slash \<notin> set (hex_encode a)" "CHR ''-'' \<notin> set (hex_encode a)" "hex_encode a \<noteq> ''.''"
    by auto
qed

lemma base_name_shard: "base_name (shard_path d n (hex_encode h)) = hex_encode h"
  using base_name_join [OF hex_encode_chars(1,3)] by (simp add: shard_path_def Let_def)

lemma cache_path_inj:
  "cache_path c h = Inr p \<Longrightarrow> cache_path c h' = Inr p \<Longrightarrow> h' = h"
  using base_name_shard hex_encode_inj by (auto simp: cache_path_def split: if_splits) metis

lemma create_temp_name:
  "create_temp n dir pre s = (Inr t, s') \<Longrightarrow> \<exists>name\<in>set (fs_rand s). t = join_path dir (pre @ name)"
proof (induction n arbitrary: s)
  case (Suc n)
  then obtain name rs where r: "fs_rand s = name # rs" by (cases "fs_rand s") auto
  obtain x s1 where c: "os_CreateExcl (join_path dir (pre @ name)) (s\<lparr>fs_rand := rs\<rparr>) = (x, s1)" by fastforce
  have rs: "fs_rand s1 = rs"
    using c by (auto simp: os_CreateExcl_def guarded_def pop_fault_def split: list.splits option.splits if_splits)
  show ?case
  proof (cases x)
    case None
    with Suc.prems r c show ?thesis by (auto simp: Let_def)
  next
    case (Some e)
    with Suc.prems r c have "create_temp n dir pre s1 = (Inr t, s')" by (auto simp: Let_def split: if_splits)
    from Suc.IH [OF this] rs r show ?thesis by auto
  qed
qed simp

section \<open>The contract of a content cache\<close>

lemma Get_iff:
  "DiskCache_Get (c, s) h = Some r \<longleftrightarrow> (\<exists>p d. cache_path c h = Inr p \<and> fs_content s p = Some d \<and> r = os_reader d)"
  by (cases "cache_path c h") (auto simp: DiskCache_Get_def fs_content_def)

lemma os_reader_delivers: "delivers (os_reader d) d"
  by (simp add: os_reader_def delivers_def )

text \<open>Removing files, and the suffixes of temporary names that are left.\<close>

lemma os_Remove_shrinks: "os_Remove p s = (x, s') \<Longrightarrow> fs_content s' \<subseteq>\<^sub>m fs_content s \<and> fs_rand s' = fs_rand s \<and> fs_dirs s' = fs_dirs s"
  by (auto simp: os_defs pop_fault_def map_le_def split: list.splits option.splits if_splits)

lemma prune_loop_shrinks:
  "prune_loop t es f r s = (x, s') \<Longrightarrow> fs_content s' \<subseteq>\<^sub>m fs_content s \<and> fs_rand s' = fs_rand s \<and> fs_dirs s' = fs_dirs s"
proof (induction es arbitrary: f r s)
  case (Cons e es)
  obtain p n where e: "e = (p, n)" by fastforce
  obtain y s1 where o: "os_Remove p s = (y, s1)" by fastforce
  note sh = os_Remove_shrinks [OF o]
  show ?case
  proof (cases "r \<le> t")
    case False
    with Cons.prems o e consider f' r' where "prune_loop t es f' r' s1 = (x, s')" | "s' = s1"
      by (cases y) (auto split: if_splits)
    then show ?thesis
      using Cons.IH sh by cases (metis map_le_trans)+
  qed (use Cons.prems e in auto)
qed auto

lemma pruneDir_shrinks: "pruneDir d t s = (x, s') \<Longrightarrow> fs_content s' \<subseteq>\<^sub>m fs_content s \<and> fs_rand s' = fs_rand s \<and> fs_dirs s' = fs_dirs s"
  by (auto simp: pruneDir_def Let_def split: if_splits dest: prune_loop_shrinks)

definition same_place :: "DiskCache \<Rightarrow> DiskCache \<Rightarrow> bool" where
  "same_place c c' \<longleftrightarrow> dc_dir c' = dc_dir c \<and> dc_shardPrefixLen c' = dc_shardPrefixLen c \<and> dc_maxBytes c' = dc_maxBytes c"

lemma cache_path_same: "same_place c c' \<Longrightarrow> cache_path c' = cache_path c"
  by (rule ext) (simp add: same_place_def cache_path_def)

lemma ensureCapacity_shrinks:
  "ensureCapacity n (c, s) = (x, (c', s')) \<Longrightarrow>
   fs_content s' \<subseteq>\<^sub>m fs_content s \<and> fs_rand s' = fs_rand s \<and> fs_dirs s' = fs_dirs s \<and> same_place c c'"
  by (auto simp: ensureCapacity_def DiskCache_Prune_def Let_def same_place_def
      split: if_splits prod.splits option.splits sum.splits dest: pruneDir_shrinks)

lemma os_rand:
  "os_MkdirAll p s = (x, s') \<Longrightarrow> fs_rand s' = fs_rand s"
  "os_Close s = (x, s') \<Longrightarrow> fs_rand s' = fs_rand s"
  "os_Rename p q s = (x, s') \<Longrightarrow> fs_rand s' = fs_rand s"
  "os_CreateExcl p s = (x, s') \<Longrightarrow> fs_rand s' = fs_rand s"
  by (auto simp: os_defs pop_fault_def split: list.splits option.splits if_splits)

lemma copy_stream_rand: "copy_stream p st s = (x, s') \<Longrightarrow> fs_rand s' = fs_rand s"
  by (auto simp: copy_stream_def os_Write_def pop_fault_def os_append_def Let_def split: list.splits option.splits if_splits)

lemma create_temp_rand: "create_temp n d pre s = (x, s') \<Longrightarrow> set (fs_rand s') \<subseteq> set (fs_rand s)"
proof (induction n arbitrary: s)
  case (Suc n)
  show ?case
  proof (cases "fs_rand s")
    case (Cons name rs)
    obtain e s1 where c: "os_CreateExcl (join_path d (pre @ name)) (s\<lparr>fs_rand := rs\<rparr>) = (e, s1)" by fastforce
    from os_rand(4) [OF c] have "fs_rand s1 = rs" by simp
    with Suc.prems Cons c Suc.IH [of s1] show ?thesis by (auto simp: Let_def split: option.splits if_splits)
  qed (use Suc.prems in auto)
qed auto


text \<open>The files that are not temporary: those whose name has no dash.\<close>

definition settled :: "fsys \<Rightarrow> string \<Rightarrow> bytes option" where
  "settled s p = (if CHR ''-'' \<in> set (base_name p) then None else fs_content s p)"

lemma settled_shrinks: "fs_content s' \<subseteq>\<^sub>m fs_content s \<Longrightarrow> settled s' \<subseteq>\<^sub>m settled s"
  by (auto simp: settled_def map_le_def dom_def)

lemma settled_same: "fs_content s' = fs_content s \<Longrightarrow> settled s' = settled s"
  by (rule ext) (simp add: settled_def)

lemma settled_upd: "fs_content s' = (fs_content s)(t := y) \<Longrightarrow> CHR ''-'' \<in> set (base_name t) \<Longrightarrow> settled s' = settled s"
  by (rule ext) (auto simp: settled_def)

lemma cache_path_settled: "cache_path c h = Inr p \<Longrightarrow> settled s p = fs_content s p"
  using hex_encode_chars(2) by (auto simp: settled_def cache_path_def base_name_shard split: if_splits)

lemma Get_settled:
  "DiskCache_Get (c, s) h = Some r \<longleftrightarrow> (\<exists>p d. cache_path c h = Inr p \<and> settled s p = Some d \<and> r = os_reader d)"
  unfolding Get_iff using cache_path_settled by metis

definition tmp_ok :: "fsys \<Rightarrow> bool" where
  "tmp_ok s \<longleftrightarrow> (\<forall>name\<in>set (fs_rand s). slash \<notin> set name)"

lemma cache_temp_dash:
  assumes "os_CreateTemp d ''cache-'' s = (Inr t, s')" "tmp_ok s"
  shows "CHR ''-'' \<in> set (base_name t)"
proof -
  obtain name where "name \<in> set (fs_rand s)" "t = join_path d (''cache-'' @ name)"
    using create_temp_name assms(1) unfolding os_CreateTemp_def by blast
  with assms(2) base_name_join [of "''cache-'' @ name" d] show ?thesis by (simp add: tmp_ok_def)
qed

lemma os_Rename_Some: "os_Rename a b s = (None, s') \<Longrightarrow> fs_content s a \<noteq> None"
  by (auto simp: os_defs split: prod.splits option.splits if_splits dest!: pop_fault_content)

text \<open>The installation of a temporary file: nothing but its content appears, under the given path.\<close>

lemma install_settled:
  assumes "install t p w (c, s) = (x, (c', s'))" "CHR ''-'' \<in> set (base_name t)"
  shows "same_place c c' \<and> fs_rand s' = fs_rand s \<and>
    (settled s' \<subseteq>\<^sub>m settled s \<or> (\<exists>d. fs_content s t = Some d \<and> settled s' \<subseteq>\<^sub>m (settled s)(p \<mapsto> d)))"
proof -
  obtain e s1 where r: "os_Rename t p s = (e, s1)" by fastforce
  show ?thesis
  proof (cases e)
    case None
    obtain d where d: "fs_content s t = Some d" using os_Rename_Some r None by fastforce
    have "s' = s1" "same_place c c'" using assms(1) r None by (auto simp: install_def same_place_def)
    moreover have "settled s1 \<subseteq>\<^sub>m (settled s)(p \<mapsto> d)"
      using os_Rename_content(1) [of t p s s1 d] r None d assms(2) by (auto simp: settled_def map_le_def)
    ultimately show ?thesis using d os_rand(3) [OF r] by auto
  next
    case (Some y)
    have c1: "fs_content s1 = fs_content s" using os_Rename_content(2) r Some by blast
    obtain z s2 where m: "os_Remove t s1 = (z, s2)" by fastforce
    have "s' = s2" "c' = c" using assms(1) r Some m by (auto simp: install_def split: if_splits)
    moreover have "settled s2 \<subseteq>\<^sub>m settled s" using os_Remove_shrinks [OF m] c1 settled_shrinks by fastforce
    ultimately show ?thesis using os_rand(3) [OF r] os_Remove_shrinks [OF m] by (simp add: same_place_def)
  qed
qed


text \<open>Creating and filling the temporary file.\<close>

lemma copy_stream_content:
  "copy_stream t st s = ((w, x), s') \<Longrightarrow> fs_content s t = Some c \<Longrightarrow>
   \<exists>d. fs_content s' = (fs_content s)(t \<mapsto> c @ d) \<and> (x = None \<longrightarrow> s_end st = EOF \<and> d = s_data st \<and> w = length d)"
proof -
  assume a: "copy_stream t st s = ((w, x), s')" "fs_content s t = Some c"
  obtain n y s1 where o: "os_Write t (s_data st) s = ((n, y), s1)" by (metis prod.exhaust)
  from os_Write_content [OF o a(2)] o a(1) show ?thesis
    by (auto simp: copy_stream_def os_Write_def Let_def split: option.splits if_splits prod.splits)
qed

definition storing :: "bytes \<Rightarrow> stream \<Rightarrow> DiskCache \<times> fsys \<Rightarrow> DiskCache \<times> fsys \<Rightarrow> bool" where
  "storing h st cs cs' \<longleftrightarrow> same_place (fst cs) (fst cs') \<and> set (fs_rand (snd cs')) \<subseteq> set (fs_rand (snd cs)) \<and>
     (settled (snd cs') \<subseteq>\<^sub>m settled (snd cs) \<or>
      s_end st = EOF \<and> (\<exists>p. cache_path (fst cs) h = Inr p \<and> settled (snd cs') \<subseteq>\<^sub>m (settled (snd cs))(p \<mapsto> s_data st)))"

lemma storing_shrinks:
  "settled s' \<subseteq>\<^sub>m settled s \<Longrightarrow> set (fs_rand s') \<subseteq> set (fs_rand s) \<Longrightarrow> same_place c c' \<Longrightarrow> storing h st (c, s) (c', s')"
  by (simp add: storing_def)

lemma remove_tmp:
  assumes "settled s1 \<subseteq>\<^sub>m settled s" "set (fs_rand s1) \<subseteq> set (fs_rand s)" "same_place c c'"
  shows "storing h st (c, s) (c', snd (os_Remove t s1))"
proof -
  obtain x s2 where r: "os_Remove t s1 = (x, s2)" by fastforce
  note os_Remove_shrinks [OF r]
  then have "settled s2 \<subseteq>\<^sub>m settled s" using assms(1) settled_shrinks map_le_trans by blast
  with assms os_Remove_shrinks [OF r] show ?thesis unfolding r by (simp add: storing_shrinks)
qed

lemma Put_temp_storing:
  assumes put: "Put_temp st tmp p (c, s) = (x, cs')" and dash: "CHR ''-'' \<in> set (base_name tmp)"
    and p: "cache_path c h = Inr p" and tmp: "fs_content s tmp = Some []"
  shows "storing h st (c, s) cs'"
proof -
  obtain w e3 s3 where cp: "copy_stream tmp st s = ((w, e3), s3)" by (metis prod.exhaust)
  with copy_stream_content [OF cp tmp] obtain d where
    c3: "fs_content s3 = (fs_content s)(tmp \<mapsto> d)" "e3 = None \<longrightarrow> s_end st = EOF \<and> d = s_data st" by auto
  obtain e4 s4 where cl: "os_Close s3 = (e4, s4)" by fastforce
  have c4: "fs_content s4 = (fs_content s)(tmp \<mapsto> d)" using os_same_content(2) [OF cl] c3(1) by simp
  have r4: "fs_rand s4 = fs_rand s" using os_rand(2) [OF cl] copy_stream_rand [OF cp] by simp
  have st4: "settled s4 = settled s" using settled_upd [OF c4 dash] .
  obtain e5 c5 s5 where en: "ensureCapacity (int w) (c, s4) = (e5, (c5, s5))" by (metis prod.exhaust)
  note sh = ensureCapacity_shrinks [OF en]
  have st5: "settled s5 \<subseteq>\<^sub>m settled s" using settled_shrinks st4 sh by metis
  consider "cs' = (c, snd (os_Remove tmp s4))" | "cs' = (c5, snd (os_Remove tmp s5))"
    | "e3 = None" "install tmp p (int w) (c5, s5) = (x, cs')"
    using put cp cl en by (cases e3; cases e4; cases e5) (auto simp: Put_temp_def split: if_splits)
  then show ?thesis
  proof cases
    case 1
    then show ?thesis using remove_tmp [of s4 s c c] st4 r4 by (simp add: same_place_def)
  next
    case 2
    then show ?thesis using remove_tmp st5 r4 sh by simp
  next
    case 3
    obtain c6 s6 where cs': "cs' = (c6, s6)" by fastforce
    with 3 have i: "same_place c5 c6 \<and> fs_rand s6 = fs_rand s5 \<and>
      (settled s6 \<subseteq>\<^sub>m settled s5 \<or> (\<exists>d. fs_content s5 tmp = Some d \<and> settled s6 \<subseteq>\<^sub>m (settled s5)(p \<mapsto> d)))"
      using install_settled dash by blast
    have d: "d' = s_data st \<and> s_end st = EOF" if "fs_content s5 tmp = Some d'" for d'
      using map_le_def [of "fs_content s5" "fs_content s4"] sh that c4 c3(2) 3 by force
    have "settled s6 \<subseteq>\<^sub>m settled s \<or> s_end st = EOF \<and>
        (\<exists>p. cache_path c h = Inr p \<and> settled s6 \<subseteq>\<^sub>m (settled s)(p \<mapsto> s_data st))"
      using i d st5 p map_le_upd [OF st5] by (metis map_le_trans)
    moreover have "same_place c c6" using i sh by (simp add: same_place_def)
    ultimately show ?thesis using i sh r4 unfolding cs' storing_def by simp
  qed
qed

lemma Put_storing:
  assumes "DiskCache_Put h st (c, s) = (x, cs')" "tmp_ok s"
  shows "storing h st (c, s) cs'"
proof (cases "\<exists>p. cache_path c h = Inr p \<and> \<not> fs_exists s p")
  case False
  then have "cs' = (c, s)" using assms(1) by (auto simp: DiskCache_Put_def split: sum.splits)
  then show ?thesis by (simp add: storing_def same_place_def)
next
  case True
  then obtain p where p: "cache_path c h = Inr p" "\<not> fs_exists s p" by blast
  obtain e1 s1 where m: "os_MkdirAll (dir_of p) s = (e1, s1)" by fastforce
  note m' = os_same_content(1) [OF m] os_rand(1) [OF m]
  obtain e2 s2 where t: "os_CreateTemp (dir_of p) ''cache-'' s1 = (e2, s2)" by fastforce
  note t' = create_temp_content [OF t [unfolded os_CreateTemp_def]] create_temp_rand [OF t [unfolded os_CreateTemp_def]]
  consider "cs' = (c, s1)" | e where "cs' = (c, s2)" "e2 = Inl e"
    | tmp where "e2 = Inr tmp" "Put_temp st tmp p (c, s2) = (x, cs')"
    using assms(1) p m t by (cases e1; cases e2) (auto simp: DiskCache_Put_def)
  then show ?thesis
  proof cases
    case 1
    then show ?thesis using m' settled_same [of s1 s] by (simp add: storing_def same_place_def)
  next
    case 2
    then show ?thesis using m' t' settled_same [of s2 s] by (simp add: storing_def same_place_def)
  next
    case (3 tmp)
    have "CHR ''-'' \<in> set (base_name tmp)"
      using cache_temp_dash t 3(1) assms(2) m'(2) by (simp add: tmp_ok_def)
    moreover have "fs_content s2 = (fs_content s)(tmp \<mapsto> [])" using t'(1) 3(1) m'(1) by simp
    ultimately have "storing h st (c, s2) cs'" "settled s2 = settled s"
      using Put_temp_storing [OF 3(2) _ p(1)] settled_upd by simp_all
    then show ?thesis using t'(2) m'(2) by (auto simp: storing_def)
  qed
qed

text \<open>The laws.\<close>

lemma disk_Put_inv: "tmp_ok s \<Longrightarrow> DiskCache_Put h st (c, s) = (x, cs') \<Longrightarrow> tmp_ok (snd cs')"
  using Put_storing by (fastforce simp: storing_def tmp_ok_def)

lemma disk_Put_other:
  assumes "tmp_ok s" "DiskCache_Put h st (c, s) = (x, cs')" "DiskCache_Get cs' h' = Some r"
  shows "DiskCache_Get (c, s) h' = Some r \<or> h' = h \<and> s_end st = EOF \<and> delivers r (s_data st)"
proof -
  obtain c' s' where cs': "cs' = (c', s')" by fastforce
  have st: "storing h st (c, s) (c', s')" using Put_storing assms(1,2) cs' by blast
  then obtain p d where p: "cache_path c h' = Inr p" "settled s' p = Some d" "r = os_reader d"
    using assms(3) cache_path_same by (auto simp: cs' Get_settled storing_def)
  from st consider "settled s' \<subseteq>\<^sub>m settled s"
    | q where "s_end st = EOF" "cache_path c h = Inr q" "settled s' \<subseteq>\<^sub>m (settled s)(q \<mapsto> s_data st)"
    by (auto simp: storing_def)
  then show ?thesis
  proof cases
    case 1
    with p have "settled s p = Some d" by (metis domI map_le_def)
    with p show ?thesis by (auto simp: Get_settled)
  next
    case 2
    with p have "((settled s)(q \<mapsto> s_data st)) p = Some d" by (metis domI map_le_def)
    with p 2 cache_path_inj os_reader_delivers show ?thesis
      by (auto simp: Get_settled split: if_splits)
  qed
qed

lemma disk_Delete_shrinks:
  assumes "DiskCache_Delete h (c, s) = (x, (c', s'))"
  shows "same_place c c' \<and> fs_content s' \<subseteq>\<^sub>m fs_content s \<and> fs_rand s' = fs_rand s \<and> fs_dirs s' = fs_dirs s"
proof (cases "\<exists>p n. cache_path c h = Inr p \<and> fs_files s p = Some n")
  case True
  then obtain p n where p: "cache_path c h = Inr p" "fs_files s p = Some n" by blast
  obtain e s1 where r: "os_Remove p s = (e, s1)" by fastforce
  have "s' = s1" "same_place c c'"
    using assms p r by (cases e; auto simp: DiskCache_Delete_def same_place_def)+
  then show ?thesis using os_Remove_shrinks [OF r] by simp
next
  case False
  then show ?thesis using assms
    by (auto simp: DiskCache_Delete_def same_place_def split: sum.splits option.splits)
qed

lemma disk_Delete_other:
  assumes "DiskCache_Delete h (c, s) = (x, cs')" "DiskCache_Get cs' h' = Some r"
  shows "DiskCache_Get (c, s) h' = Some r"
proof -
  obtain c' s' where cs': "cs' = (c', s')" by fastforce
  with assms(1) disk_Delete_shrinks [of h c s x c' s'] have "same_place c c'" "fs_content s' \<subseteq>\<^sub>m fs_content s"
    by auto
  then show ?thesis using assms(2) cache_path_same [of c c']
    by (auto simp: Get_iff cs' map_le_def dom_def)
qed

interpretation disk: content_cache disk_cache "\<lambda>cs. tmp_ok (snd cs)"
proof
  fix c :: "DiskCache \<times> fsys" and h st x c' h' r
  show "tmp_ok (snd c) \<Longrightarrow> ca_Put disk_cache h st c = (x, c') \<Longrightarrow> tmp_ok (snd c')"
    using disk_Put_inv by (cases c) (simp add: disk_cache_def)
  show "tmp_ok (snd c) \<Longrightarrow> ca_Put disk_cache h st c = (x, c') \<Longrightarrow> ca_Get disk_cache c' h' = Some r \<Longrightarrow>
      ca_Get disk_cache c h' = Some r \<or> h' = h \<and> s_end st = EOF \<and> delivers r (s_data st)"
    using disk_Put_other by (cases c) (simp add: disk_cache_def)
  show "tmp_ok (snd c) \<Longrightarrow> ca_Delete disk_cache h c = (x, c') \<Longrightarrow> tmp_ok (snd c')"
    using disk_Delete_shrinks by (cases c; cases c') (fastforce simp: disk_cache_def tmp_ok_def)
  show "tmp_ok (snd c) \<Longrightarrow> ca_Delete disk_cache h c = (x, c') \<Longrightarrow> ca_Get disk_cache c' h' = Some r \<Longrightarrow>
      ca_Get disk_cache c h' = Some r"
    using disk_Delete_other by (cases c) (simp add: disk_cache_def)
qed

end
