(* ===== verification/DiskLimits.thy ===== *)
theory DiskLimits
  imports DiskCache
begin

text \<open>
  The size accounting of the disk cache (\<^verbatim>\<open>core/cache/disk/size.go\<close>, \<^verbatim>\<open>ensureCapacity\<close>, \<^verbatim>\<open>Prune\<close>): what
  pruning removes, the invariant \<open>within_limit\<close> that \<^verbatim>\<open>Put\<close> and \<^verbatim>\<open>Delete\<close> keep in a file system
  without faults, and the case in which \<^verbatim>\<open>Put\<close> prunes its own temporary file.
\<close>

section \<open>Pruning\<close>

text \<open>The bytes of the regular files under the directory, for a file system whose list is a map.\<close>

definition fs_wf :: "fsys \<Rightarrow> bool" where
  "fs_wf s \<longleftrightarrow> distinct (map fst (fs_list s))"

abbreviation sizes :: "(string \<times> fnode) list \<Rightarrow> int" where
  "sizes es \<equiv> sum_list (map (\<lambda>(p, n). file_size n) es)"

lemma sizes_set: "distinct (map fst es) \<Longrightarrow> sizes es = (\<Sum>(p, n)\<in>set es. file_size n)"
  by (subst sum_list_distinct_conv_sum_set) (auto simp: distinct_map)

lemma sizes_nonneg: "0 \<le> sizes es"
  by (rule sum_list_nonneg) (auto simp: file_size_def)

lemma os_Remove_ok:
  "fs_faults s = [] \<Longrightarrow> fs_files s p = Some n \<Longrightarrow> os_Remove p s = (None, s\<lparr>fs_list := AList.delete p (fs_list s)\<rparr>)"
  by (simp add: os_Remove_def guarded_def pop_fault_def)

lemma prune_loop_spec:
  assumes "fs_faults s = []" "distinct (map fst es)" "\<forall>(p, n)\<in>set es. fs_files s p = Some n"
  shows "\<exists>k\<le>length es.
    prune_loop t es f r s = ((f + sizes (take k es), r - sizes (take k es), None),
      s\<lparr>fs_list := filter (\<lambda>(q, n). q \<notin> fst ` set (take k es)) (fs_list s)\<rparr>) \<and>
    (r - sizes (take k es) \<le> t \<or> k = length es) \<and> (k > 0 \<longrightarrow> t < r - sizes (take (k - 1) es))"
  using assms
proof (induction es arbitrary: f r s)
  case Nil
  then show ?case by (auto simp: case_prod_unfold)
next
  case (Cons e es)
  obtain p n where e: "e = (p, n)" by fastforce
  show ?case
  proof (cases "r \<le> t")
    case True
    then show ?thesis using e by (auto simp: case_prod_unfold intro!: exI [of _ 0])
  next
    case False
    let ?s = "s\<lparr>fs_list := AList.delete p (fs_list s)\<rparr>"
    have "os_Remove p s = (None, ?s)" using os_Remove_ok Cons.prems e by simp
    then have step: "prune_loop t (e # es) f r s = prune_loop t es (f + file_size n) (r - file_size n) ?s"
      using False e by simp
    have "\<forall>(q, m)\<in>set es. fs_files ?s q = Some m"
      using Cons.prems e by (force simp: delete_conv')
    from Cons.IH [OF _ _ this, of "f + file_size n" "r - file_size n"] Cons.prems obtain k where k: "k \<le> length es"
      "prune_loop t es (f + file_size n) (r - file_size n) ?s =
        ((f + file_size n + sizes (take k es), r - file_size n - sizes (take k es), None),
         ?s\<lparr>fs_list := filter (\<lambda>(q, n). q \<notin> fst ` set (take k es)) (fs_list ?s)\<rparr>)"
      "r - file_size n - sizes (take k es) \<le> t \<or> k = length es" "k > 0 \<longrightarrow> t < r - file_size n - sizes (take (k - 1) es)"
      by auto
    have "filter (\<lambda>(q, n). q \<notin> fst ` set (take k es)) (AList.delete p (fs_list s)) =
        filter (\<lambda>(q, n). q \<notin> fst ` set (take (Suc k) (e # es))) (fs_list s)"
      using e by (auto simp: AList.delete_eq intro!: filter_cong)
    then show ?thesis using k False step e
      by (intro exI [of _ "Suc k"]) (auto simp: take_Cons' split: if_splits)
  qed
qed


text \<open>The files under the directory, oldest first.\<close>

definition by_age :: "string \<Rightarrow> fsys \<Rightarrow> (string \<times> fnode) list" where
  "by_age root s = sort_key (\<lambda>(p, n). (n_mtime n, p)) (walk_files root s)"

definition without :: "(string \<times> fnode) list \<Rightarrow> fsys \<Rightarrow> fsys" where
  "without es s = s\<lparr>fs_list := filter (\<lambda>(q, n). q \<notin> fst ` set es) (fs_list s)\<rparr>"

lemma without_simps [simp]:
  "without [] s = s" "fs_faults (without es s) = fs_faults s" "fs_wf s \<Longrightarrow> fs_wf (without es s)"
  "fs_rand (without es s) = fs_rand s" "fs_clock (without es s) = fs_clock s" "fs_dirs (without es s) = fs_dirs s"
  by (auto simp: without_def fs_wf_def case_prod_unfold distinct_map_filter)

lemma by_age_simps [simp]: "set (by_age root s) = set (walk_files root s)" "length (by_age root s) = length (walk_files root s)"
  "fs_wf s \<Longrightarrow> distinct (map fst (by_age root s))"
proof -
  show "fs_wf s \<Longrightarrow> distinct (map fst (by_age root s))"
    using mset_map [of fst "by_age root s"] mset_map [of fst "walk_files root s"]
    by (metis by_age_def distinct_map_filter fs_wf_def mset_eq_imp_distinct_iff mset_sort walk_files_def)
qed (simp_all add: by_age_def)

lemma walk_files_wf: "fs_wf s \<Longrightarrow> (p, n) \<in> set (walk_files root s) \<Longrightarrow> fs_files s p = Some n"
  by (auto simp: walk_files_def fs_wf_def)

lemma dirSize_by_age: "dirSize root s = sizes (by_age root s)"
  unfolding dirSize_def by_age_def sum_mset_sum_list [symmetric] mset_map mset_sort ..

lemma dirSize_without:
  assumes "fs_wf s"
  shows "dirSize root (without (take k (by_age root s)) s) = sizes (drop k (by_age root s))"
proof -
  let ?es = "by_age root s"
  have d: "distinct (map fst (take k ?es @ drop k ?es))" using assms by simp
  have "set (walk_files root (without (take k ?es) s)) = {x \<in> set ?es. fst x \<notin> fst ` set (take k ?es)}"
    by (force simp: walk_files_def without_def)
  also have "\<dots> = {x \<in> set (take k ?es @ drop k ?es). fst x \<notin> fst ` set (take k ?es)}" by simp
  also have "\<dots> = set (drop k ?es)" using d unfolding map_append distinct_append set_append set_map by blast
  finally have "set (walk_files root (without (take k ?es) s)) = set (drop k ?es)" .
  moreover have "distinct (map fst (walk_files root (without (take k ?es) s)))"
    using assms by (auto simp: walk_files_def without_def fs_wf_def distinct_map_filter)
  moreover have "distinct (map fst (drop k ?es))" using d unfolding map_append distinct_append by blast
  ultimately show ?thesis by (simp add: dirSize_def sizes_set)
qed

text \<open>Pruning removes the oldest files, and only as many as the target requires.\<close>

lemma pruneDir_spec:
  assumes "fs_faults s = []" "fs_wf s"
  shows "\<exists>k. let es = by_age root s; s' = without (take k es) s
    in pruneDir root t s = ((sizes (take k es), dirSize root s', None), s') \<and>
       dirSize root s' \<le> max 0 t \<and> (k > 0 \<longrightarrow> max 0 t < sizes (drop (k - 1) es))"
proof -
  let ?es = "by_age root s" and ?t = "max 0 t"
  have t: "(if t < 0 then 0 else t) = ?t" by simp
  have split: "sizes ?es - sizes (take k ?es) = sizes (drop k ?es)" for k
    by (metis add_diff_cancel_left' append_take_drop_id map_append sum_list_append)
  show ?thesis
  proof (cases "dirSize root s \<le> ?t")
    case True
    then show ?thesis by (intro exI [of _ 0]) (auto simp: pruneDir_def Let_def dirSize_by_age t)
  next
    case False
    have "\<forall>(p, n)\<in>set ?es. fs_files s p = Some n" using walk_files_wf [OF assms(2)] by auto
    from prune_loop_spec [OF assms(1) by_age_simps(3) [OF assms(2)] this, of ?t 0 "dirSize root s"] obtain k where k:
      "prune_loop ?t ?es 0 (dirSize root s) s = ((sizes (take k ?es), sizes (drop k ?es), None), without (take k ?es) s)"
      "sizes (drop k ?es) \<le> ?t \<or> k = length ?es" "k > 0 \<longrightarrow> ?t < sizes (drop (k - 1) ?es)"
      unfolding dirSize_by_age split without_def by auto
    from k(2) have "sizes (drop k ?es) \<le> ?t" by (auto simp del: by_age_simps)
    with k False show ?thesis
      by (intro exI [of _ k]) (simp add: pruneDir_def dirSize_without [OF assms(2)] by_age_def [symmetric] Let_def t)
  qed
qed

section \<open>The size limit\<close>

text \<open>The bytes a path contributes to the size of the directory.\<close>

definition path_size :: "string \<Rightarrow> fsys \<Rightarrow> string \<Rightarrow> int" where
  "path_size root s p = (case fs_content s p of Some d \<Rightarrow> (if below_dir root p then int (length d) else 0) | None \<Rightarrow> 0)"

lemma path_size_files:
  "path_size root s p = (case fs_files s p of Some n \<Rightarrow> (if below_dir root p then file_size n else 0) | None \<Rightarrow> 0)"
  by (simp add: path_size_def fs_content_def file_size_def split: option.splits)

lemma sizes_update:
  "distinct (map fst l) \<Longrightarrow> sizes (filter (\<lambda>(p, n). below_dir root p) (AList.update q m l)) =
   sizes (filter (\<lambda>(p, n). below_dir root p) l) + (if below_dir root q then file_size m else 0) -
   (case map_of l q of Some n \<Rightarrow> (if below_dir root q then file_size n else 0) | None \<Rightarrow> 0)"
  by (induction l) (auto split: option.splits)

lemma sizes_delete:
  "distinct (map fst l) \<Longrightarrow> sizes (filter (\<lambda>(p, n). below_dir root p) (AList.delete q l)) =
   sizes (filter (\<lambda>(p, n). below_dir root p) l) -
   (case map_of l q of Some n \<Rightarrow> (if below_dir root q then file_size n else 0) | None \<Rightarrow> 0)"
proof (induction l)
  case (Cons x l)
  then show ?case
    by (cases "fst x = q") (auto simp: delete_id [of q l] map_of_eq_None_iff split: option.splits)
qed simp

lemma dirSize_list:
  "fs_wf s \<Longrightarrow> fs_list s' = AList.update q m (fs_list s) \<Longrightarrow>
   dirSize root s' = dirSize root s + (if below_dir root q then file_size m else 0) - path_size root s q \<and> fs_wf s'"
  "fs_wf s \<Longrightarrow> fs_list s' = AList.delete q (fs_list s) \<Longrightarrow>
   dirSize root s' = dirSize root s - path_size root s q \<and> fs_wf s'"
  "fs_list s' = fs_list s \<Longrightarrow> dirSize root s' = dirSize root s \<and> fs_wf s' = fs_wf s"
  by (auto simp: dirSize_def walk_files_def sizes_update sizes_delete fs_wf_def path_size_files
      distinct_update distinct_delete)

lemma path_size_nonneg: "0 \<le> path_size root s p"
  by (simp add: path_size_def split: option.splits)

text \<open>The operations of \<^verbatim>\<open>Put\<close> in a file system without faults.\<close>

definition calm :: "fsys \<Rightarrow> bool" where
  "calm s \<longleftrightarrow> fs_faults s = [] \<and> fs_wf s"

lemma guarded_calm: "calm s \<Longrightarrow> guarded op s = op s"
  by (simp add: guarded_def pop_fault_def calm_def)

lemma calm_MkdirAll: "os_MkdirAll p s = (x, s') \<Longrightarrow> calm s \<Longrightarrow> calm s' \<and> dirSize root s' = dirSize root s"
  using dirSize_list(3) [of s' s root] by (auto simp: os_MkdirAll_def guarded_calm calm_def split: if_splits)

lemma calm_Close: "calm s \<Longrightarrow> os_Close s = (None, s)"
  by (simp add: os_Close_def guarded_calm)

lemma calm_Remove: "os_Remove p s = (x, s') \<Longrightarrow> calm s \<Longrightarrow> calm s' \<and> dirSize root s' = dirSize root s - path_size root s p"
  using dirSize_list(2) [of s s' p root] by (auto simp: os_Remove_def guarded_calm calm_def path_size_def fs_content_def split: option.splits)

lemma calm_Rename:
  "os_Rename a b s = (x, s') \<Longrightarrow> calm s \<Longrightarrow> calm s' \<and>
   dirSize root s' \<le> dirSize root s - (if x = None then path_size root s a else 0) +
     (if x = None \<and> below_dir root b then int (length (the (fs_content s a))) else 0)"
proof (cases "\<exists>n. fs_files s a = Some n \<and> \<not> is_dir s b")
  case True
  assume a: "os_Rename a b s = (x, s')" "calm s"
  from True obtain n where n: "fs_files s a = Some n" "\<not> is_dir s b" by blast
  let ?s = "s\<lparr>fs_list := AList.delete a (fs_list s)\<rparr>"
  from a n have "x = None" "s' = s\<lparr>fs_list := AList.update b n (AList.delete a (fs_list s))\<rparr>"
    by (simp_all add: os_Rename_def guarded_calm)
  with dirSize_list(2) [of s ?s a root] dirSize_list(1) [of ?s s' b n root] a(2) n path_size_nonneg [of root ?s b]
  show ?thesis by (simp add: calm_def fs_content_def file_size_def)
qed (auto simp: os_Rename_def guarded_calm split: option.splits)

lemma calm_create_temp:
  "create_temp n dir pre s = (x, s') \<Longrightarrow> calm s \<Longrightarrow> calm s' \<and> dirSize root s' = dirSize root s"
proof (induction n arbitrary: s)
  case (Suc n)
  show ?case
  proof (cases "fs_rand s")
    case (Cons name rs)
    obtain e s1 where c: "os_CreateExcl (join_path dir (pre @ name)) (s\<lparr>fs_rand := rs\<rparr>) = (e, s1)" by fastforce
    have k: "calm (s\<lparr>fs_rand := rs\<rparr>)" using Suc.prems by (simp add: calm_def fs_wf_def)
    have "dirSize root (s\<lparr>fs_rand := rs\<rparr>) = dirSize root s" using dirSize_list(3) [of "s\<lparr>fs_rand := rs\<rparr>" s root] by simp
    with c k dirSize_list(1) [of "s\<lparr>fs_rand := rs\<rparr>" s1 "join_path dir (pre @ name)" _ root]
    have "calm s1 \<and> dirSize root s1 = dirSize root s"
      by (auto simp: os_CreateExcl_def guarded_calm calm_def fs_exists_def path_size_def fs_content_def file_size_def split: if_splits)
    with Suc.prems Cons c Suc.IH [of s1] show ?thesis by (auto simp: Let_def split: option.splits if_splits)
  qed (use Suc.prems in auto)
qed auto

lemma calm_copy:
  "copy_stream t st s = ((w, x), s') \<Longrightarrow> calm s \<Longrightarrow> fs_content s t = Some [] \<Longrightarrow>
   calm s' \<and> fs_content s' t = Some (s_data st) \<and> w = length (s_data st) \<and>
   dirSize root s' = dirSize root s + (if below_dir root t then int w else 0)"
  using dirSize_list(1) [of s s' t _ root]
  by (auto simp: copy_stream_def os_Write_def pop_fault_def os_append_def calm_def fs_content_def path_size_def update_conv'
      file_size_def split: option.splits if_splits)


text \<open>The accounting of the cache: what is counted covers what is stored, and respects the limit.\<close>

definition within_limit :: "DiskCache \<times> fsys \<Rightarrow> bool" where
  "within_limit cs \<longleftrightarrow> calm (snd cs) \<and> 0 < dc_maxBytes (fst cs) \<and> dc_maxBytes (fst cs) < 2 ^ 62 \<and>
     dirSize (dc_dir (fst cs)) (snd cs) \<le> dc_bytes (fst cs) \<and> dc_bytes (fst cs) \<le> dc_maxBytes (fst cs)"

lemma dirSize_nonneg: "0 \<le> dirSize root s"
  by (simp add: dirSize_by_age sizes_nonneg)

lemma calm_pruneDir:
  assumes "pruneDir root t s = ((f, r, e), s')" "calm s"
  shows "e = None \<and> calm s' \<and> r = dirSize root s' \<and> dirSize root s' \<le> max 0 t \<and> dirSize root s' \<le> dirSize root s"
proof -
  obtain k where k: "pruneDir root t s = ((sizes (take k (by_age root s)), dirSize root (without (take k (by_age root s)) s), None),
      without (take k (by_age root s)) s)" "dirSize root (without (take k (by_age root s)) s) \<le> max 0 t"
    using pruneDir_spec [of s root t] assms(2) by (auto simp: calm_def Let_def)
  have "sizes (drop k (by_age root s)) \<le> sizes (take k (by_age root s) @ drop k (by_age root s))"
    using sizes_nonneg by (simp del: append_take_drop_id)
  then have "dirSize root (without (take k (by_age root s)) s) \<le> dirSize root s"
    using assms(2) by (simp add: dirSize_without calm_def dirSize_by_age [of root s])
  with k assms show ?thesis by (auto simp: calm_def)
qed

lemma ensureCapacity_calm:
  assumes "ensureCapacity need (c, s) = (x, (c', s'))" "calm s" "0 \<le> need" "0 \<le> dc_bytes c" "dc_bytes c \<le> dc_maxBytes c"
    "0 < dc_maxBytes c" "dc_maxBytes c < 2 ^ 62"
  shows "calm s' \<and> same_place c c' \<and> 0 \<le> dc_bytes c' \<and> dc_bytes c' \<le> dc_maxBytes c \<and>
    x = Inr (dc_bytes c' + need \<le> dc_maxBytes c) \<and>
    (c' = c \<and> s' = s \<and> (dc_maxBytes c < need \<or> dc_bytes c + need \<le> dc_maxBytes c) \<or>
     dc_bytes c' = dirSize (dc_dir c) s' \<and> dirSize (dc_dir c) s' \<le> dc_maxBytes c - need)"
proof -
  have add: "add_i64 a need = a + need" if "0 \<le> a" "a \<le> dc_maxBytes c" "need \<le> dc_maxBytes c" for a
    using that assms(3,7) by (intro add_i64_id) simp_all
  obtain f r e s1 where p: "pruneDir (dc_dir c) (max 0 (dc_maxBytes c - need)) s = ((f, r, e), s1)" by (metis prod.exhaust)
  note q = calm_pruneDir [OF p assms(2)]
  have t: "(if t < 0 then 0 else t) = max 0 t" for t :: int by simp
  consider "dc_maxBytes c < need" | "need \<le> dc_maxBytes c" "dc_bytes c + need \<le> dc_maxBytes c"
    | "need \<le> dc_maxBytes c" "\<not> dc_bytes c + need \<le> dc_maxBytes c" by linarith
  then show ?thesis
  proof cases
    case 3
    then have "x = Inr (dc_bytes c' + need \<le> dc_maxBytes c) \<and> s' = s1 \<and> c' = c\<lparr>dc_bytes := r\<rparr>"
      using assms(1,4-7) p q add [of r] dirSize_nonneg [of "dc_dir c" s1]
      by (auto simp: ensureCapacity_def DiskCache_Prune_def Let_def t add)
    then show ?thesis using q 3 dirSize_nonneg [of "dc_dir c" s1] assms(3) by (auto simp: same_place_def)
  qed (use assms add in \<open>auto simp: ensureCapacity_def same_place_def\<close>)
qed

lemma install_limit:
  assumes inst: "install tmp p w (c, s) = (x, (c', s'))" and s: "calm s"
    and below: "below_dir (dc_dir c) tmp" "below_dir (dc_dir c) p"
    and tmp: "\<And>d. fs_content s tmp = Some d \<Longrightarrow> int (length d) = w"
    and l: "0 < dc_maxBytes c" "dc_maxBytes c < 2 ^ 62" "0 \<le> dc_bytes c" "0 \<le> w" "dc_bytes c + w \<le> dc_maxBytes c"
    and d: "dirSize (dc_dir c) s \<le> dc_bytes c + w" "dirSize (dc_dir c) s - path_size (dc_dir c) s tmp \<le> dc_bytes c"
  shows "within_limit (c', s')"
proof -
  obtain e s1 where rn: "os_Rename tmp p s = (e, s1)" by fastforce
  note s1 = calm_Rename [OF rn s, of "dc_dir c"]
  obtain y s2 where rm: "os_Remove tmp s1 = (y, s2)" by fastforce
  note s2 = calm_Remove [OF rm, of "dc_dir c"]
  show ?thesis
  proof (cases e)
    case None
    then obtain b where b: "fs_content s tmp = Some b" using os_Rename_Some rn by fastforce
    have "s' = s1" "c' = c\<lparr>dc_bytes := dc_bytes c + w\<rparr>"
      using inst rn None l by (auto simp: install_def add_i64_id)
    then show ?thesis using s1 None b tmp [OF b] below d l by (simp add: within_limit_def path_size_def)
  next
    case (Some er)
    have "fs_content s1 = fs_content s" using os_Rename_content(2) rn Some by blast
    then have "path_size (dc_dir c) s1 tmp = path_size (dc_dir c) s tmp" by (simp add: path_size_def)
    moreover have "s' = s2" "c' = c" using inst rn rm Some by (auto simp: install_def split: if_splits)
    ultimately show ?thesis using s1 s2 Some d l by (simp add: within_limit_def)
  qed
qed

lemma Put_temp_limit:
  assumes put: "Put_temp st tmp p (c, s) = (x, (c', s'))" and lim: "within_limit (c, s)"
    and below: "below_dir (dc_dir c) tmp" "below_dir (dc_dir c) p" and tmp: "fs_content s tmp = Some []"
  shows "within_limit (c', s')"
proof -
  let ?d = "dirSize (dc_dir c)"
  from lim have l: "calm s" "0 < dc_maxBytes c" "dc_maxBytes c < 2 ^ 62" "?d s \<le> dc_bytes c" "dc_bytes c \<le> dc_maxBytes c"
    "0 \<le> dc_bytes c" using dirSize_nonneg [of "dc_dir c" s] by (auto simp: within_limit_def)
  obtain w e3 s3 where cp: "copy_stream tmp st s = ((w, e3), s3)" by (metis prod.exhaust)
  note s3 = calm_copy [OF cp l(1) tmp, of "dc_dir c"]
  obtain e5 c5 s5 where en: "ensureCapacity (int w) (c, s3) = (e5, (c5, s5))" by (metis prod.exhaust)
  note s5 = ensureCapacity_calm [OF en conjunct1 [OF s3] _ l(6,5,2,3), simplified]
  have c5: "dc_dir c5 = dc_dir c" "dc_maxBytes c5 = dc_maxBytes c" using s5 by (simp_all add: same_place_def)
  have d5: "length d = w" if "fs_content s5 tmp = Some d" for d
    using ensureCapacity_shrinks [OF en] s3 that map_le_def [of "fs_content s5" "fs_content s3"] by force
  have u: "?d s5 - path_size (dc_dir c) s5 tmp \<le> dc_bytes c5" "?d s5 \<le> dc_bytes c5 + int w"
    using s5 s3 l below path_size_nonneg [of "dc_dir c" s5 tmp] by (auto simp: path_size_def)
  obtain y6 s6 where r3: "os_Remove tmp s3 = (y6, s6)" by fastforce
  obtain y7 s7 where r5: "os_Remove tmp s5 = (y7, s7)" by fastforce
  have "within_limit (c, s6)"
    using calm_Remove [OF r3, of "dc_dir c"] s3 l below by (simp add: within_limit_def path_size_def)
  moreover have "within_limit (c5, s7)"
    using calm_Remove [OF r5, of "dc_dir c"] s5 u l c5 by (simp add: within_limit_def)
  moreover have "within_limit (c', s')" if "install tmp p (int w) (c5, s5) = (x, (c', s'))" "e5 = Inr True"
    using install_limit [OF that(1)] s5 below c5 d5 l u that(2) by auto
  ultimately show ?thesis
    using put cp en r3 r5 s5 calm_Close [of s3] s3
    by (cases e3; cases e5) (auto simp: Put_temp_def split: if_splits)
qed


text \<open>The path of an entry and of its temporary file lie under the directory of the cache.\<close>

definition proper_dir :: "string \<Rightarrow> bool" where
  "proper_dir d \<longleftrightarrow> d \<noteq> [] \<and> d \<noteq> ''.'' \<and> last d \<noteq> slash"

lemma proper_not_root: "proper_dir d \<Longrightarrow> d \<noteq> ''/''"
  by (auto simp: proper_dir_def)

lemma join_path_proper:
  assumes "slash \<notin> set w" "w \<noteq> []" "w \<noteq> ''.''" "proper_dir d"
  shows "join_path d w = d @ slash # w" "dir_of (join_path d w) = d" "proper_dir (join_path d w)"
proof -
  show j: "join_path d w = d @ slash # w" using assms by (auto simp: join_path_def proper_dir_def)
  have "takeWhile (\<lambda>x. x \<noteq> slash) (rev w @ slash # r) = rev w" for r
    using takeWhile_neq_append [of slash "rev w" r] assms(1) by simp
  then show "dir_of (join_path d w) = d"
    unfolding j using assms by (auto simp: dir_of_def last_index_def proper_dir_def)
  have "last (d @ slash # w) \<noteq> slash" using assms(1,2) by (metis last_ConsR last_appendR last_in_set list.distinct(1))
  then show "proper_dir (join_path d w)" unfolding j using assms by (cases d) (auto simp: proper_dir_def)
qed

lemma below_prefix: "proper_dir d \<Longrightarrow> below_dir d p \<longleftrightarrow> prefix (d @ [slash]) p"
  using proper_not_root by (auto simp: below_dir_def proper_dir_def)

lemma hex_piece:
  assumes "hex_encode h \<noteq> []" "n > 0"
  shows "take n (hex_encode h) \<noteq> []" "slash \<notin> set (take n (hex_encode h))" "take n (hex_encode h) \<noteq> ''.''"
proof -
  have "set (take n (hex_encode h)) \<subseteq> set ''0123456789abcdef''" using hex_encode_set set_take_subset by fast
  moreover have "slash \<notin> set ''0123456789abcdef''" "CHR ''.'' \<notin> set ''0123456789abcdef''" by simp_all
  ultimately show "slash \<notin> set (take n (hex_encode h))" "take n (hex_encode h) \<noteq> ''.''" by (blast, force)
qed (use assms in simp)

lemma cache_path_below:
  assumes "cache_path c h = Inr p" "proper_dir (dc_dir c)"
  shows "below_dir (dc_dir c) p \<and> proper_dir (dir_of p) \<and> (dir_of p = dc_dir c \<or> prefix (dc_dir c @ [slash]) (dir_of p))"
proof -
  let ?h = "hex_encode h" and ?n = "nat (if dc_shardPrefixLen c > int (length (hex_encode h)) then int (length (hex_encode h)) else dc_shardPrefixLen c)"
  have ne: "?h \<noteq> []" using assms(1) by (cases h) (auto simp: cache_path_def hex_encode_def)
  have h: "slash \<notin> set ?h" "?h \<noteq> ''.''" using hex_encode_chars by auto
  note jp = join_path_proper [OF h(1) ne h(2)]
  show ?thesis
  proof (cases "dc_shardPrefixLen c \<le> 0")
    case True
    then have p: "p = join_path (dc_dir c) ?h" using assms(1) by (auto simp: cache_path_def shard_path_def split: if_splits)
    show ?thesis using jp(1,2) [OF assms(2)] assms(2) unfolding p by (simp add: below_prefix)
  next
    case False
    then have w: "take ?n ?h \<noteq> []" "slash \<notin> set (take ?n ?h)" "take ?n ?h \<noteq> ''.''"
      using hex_piece [OF ne, of ?n] ne by auto
    note jw = join_path_proper [OF w(2,1,3) assms(2)]
    have p: "p = join_path (join_path (dc_dir c) (take ?n ?h)) ?h"
      using assms(1) False by (auto simp: cache_path_def shard_path_def Let_def split: if_splits)
    show ?thesis using jp(1,2) [OF jw(3)] jw assms(2) unfolding p by (simp add: below_prefix)
  qed
qed


lemma create_temp_below:
  assumes "os_CreateTemp (dir_of p) ''cache-'' s = (Inr t, s')" "tmp_ok s" "cache_path c h = Inr p" "proper_dir (dc_dir c)"
  shows "below_dir (dc_dir c) t"
proof -
  obtain name where n: "name \<in> set (fs_rand s)" "t = join_path (dir_of p) (''cache-'' @ name)"
    using create_temp_name assms(1) unfolding os_CreateTemp_def by blast
  note b = cache_path_below [OF assms(3,4)]
  have "slash \<notin> set (''cache-'' @ name)" using n(1) assms(2) by (simp add: tmp_ok_def)
  then have "t = dir_of p @ slash # ''cache-'' @ name" using join_path_proper(1) n(2) b by simp
  with b assms(4) show ?thesis by (auto simp: below_prefix prefix_def)
qed

lemma Put_limit:
  assumes "within_limit (c, s)" "tmp_ok s" "proper_dir (dc_dir c)" "DiskCache_Put h st (c, s) = (x, cs')"
  shows "within_limit cs'"
proof (cases "\<exists>p. cache_path c h = Inr p \<and> \<not> fs_exists s p")
  case False
  then have "cs' = (c, s)" using assms(4) by (auto simp: DiskCache_Put_def split: sum.splits)
  then show ?thesis using assms(1) by simp
next
  case True
  then obtain p where p: "cache_path c h = Inr p" "\<not> fs_exists s p" by blast
  obtain e1 s1 where m: "os_MkdirAll (dir_of p) s = (e1, s1)" by fastforce
  obtain e2 s2 where t: "os_CreateTemp (dir_of p) ''cache-'' s1 = (e2, s2)" by fastforce
  have s: "calm s" using assms(1) by (simp add: within_limit_def)
  note s1 = calm_MkdirAll [OF m s, of "dc_dir c"]
  note s2 = calm_create_temp [OF t [unfolded os_CreateTemp_def], of "dc_dir c"]
  have w: "within_limit (c, s1)" "within_limit (c, s2)" using assms(1) s1 s2 by (simp_all add: within_limit_def)
  have k: "tmp_ok s1" using os_rand(1) [OF m] assms(2) by (simp add: tmp_ok_def)
  obtain c' s' where cs': "cs' = (c', s')" by fastforce
  have "within_limit cs'" if "e2 = Inr tmp" "Put_temp st tmp p (c, s2) = (x, cs')" for tmp
  proof -
    have "fs_content s2 tmp = Some []" using create_temp_content t that(1) unfolding os_CreateTemp_def by fastforce
    then show ?thesis using Put_temp_limit [OF _ w(2)] create_temp_below [OF _ k p(1) assms(3)] cache_path_below [OF p(1) assms(3)]
        t that cs' by blast
  qed
  then show ?thesis using assms(4) p m t w by (cases e1; cases e2) (auto simp: DiskCache_Put_def)
qed

lemma Delete_limit:
  assumes "within_limit (c, s)" "proper_dir (dc_dir c)" "DiskCache_Delete h (c, s) = (x, cs')"
  shows "within_limit cs'"
proof (cases "\<exists>p n. cache_path c h = Inr p \<and> fs_files s p = Some n")
  case False
  then show ?thesis using assms by (auto simp: DiskCache_Delete_def split: sum.splits option.splits)
next
  case True
  then obtain p n where p: "cache_path c h = Inr p" "fs_files s p = Some n" by blast
  from assms(1) have l: "calm s" "dirSize (dc_dir c) s \<le> dc_bytes c" "dc_bytes c \<le> dc_maxBytes c" "dc_maxBytes c < 2 ^ 62"
    by (simp_all add: within_limit_def)
  then have r: "os_Remove p s = (None, s\<lparr>fs_list := AList.delete p (fs_list s)\<rparr>)" using os_Remove_ok p(2) by (simp add: calm_def)
  have sz: "path_size (dc_dir c) s p = file_size n"
    using p(2) cache_path_below [OF p(1) assms(2)] by (simp add: path_size_files)
  with calm_Remove [OF r l(1), of "dc_dir c"] dirSize_nonneg [of "dc_dir c" "s\<lparr>fs_list := AList.delete p (fs_list s)\<rparr>"]
  have d: "calm (s\<lparr>fs_list := AList.delete p (fs_list s)\<rparr>)"
    "dirSize (dc_dir c) (s\<lparr>fs_list := AList.delete p (fs_list s)\<rparr>) = dirSize (dc_dir c) s - file_size n"
    "file_size n \<le> dirSize (dc_dir c) s" by simp_all
  have "sub_i64 (dc_bytes c) (file_size n) = dc_bytes c - file_size n"
    using l d(3) by (intro sub_i64_id) (auto simp: file_size_def)
  then have "cs' = (c\<lparr>dc_bytes := dc_bytes c - file_size n\<rparr>, s\<lparr>fs_list := AList.delete p (fs_list s)\<rparr>)"
    using assms(3) p r by (simp add: DiskCache_Delete_def)
  then show ?thesis using d l assms(1) by (simp add: within_limit_def file_size_def)
qed


text \<open>
  The temporary file lies in the directory that \<^verbatim>\<open>Put\<close> prunes: when the content is larger than what
  the pruning may leave, the pruning removes the temporary file itself.
\<close>

lemma path_size_le:
  assumes "calm s"
  shows "path_size root s p \<le> dirSize root s"
proof -
  obtain x s' where r: "os_Remove p s = (x, s')" by fastforce
  show ?thesis using calm_Remove [OF r assms, of root] dirSize_nonneg [of root s'] by simp
qed

lemma install_missing:
  "calm s \<Longrightarrow> fs_content s t = None \<Longrightarrow> \<not> fs_exists s p \<Longrightarrow> install t p w (c, s) = (Some ErrNotExist, (c, s))"
  by (auto simp: install_def os_Rename_def os_Remove_def guarded_calm fs_content_def)

lemma Put_temp_lost:
  assumes lim: "within_limit (c, s)" and below: "below_dir (dc_dir c) tmp" and tmp: "fs_content s tmp = Some []" "tmp \<noteq> p"
    and p: "\<not> fs_exists s p" and st: "s_end st = EOF" and need: "int (length (s_data st)) \<le> dc_maxBytes c"
    "dc_maxBytes c < dc_bytes c + int (length (s_data st))" "dc_maxBytes c < 2 * int (length (s_data st))"
  shows "\<exists>cs'. Put_temp st tmp p (c, s) = (Some ErrNotExist, cs') \<and> same_place c (fst cs') \<and> fs_content (snd cs') p = None"
proof -
  from lim have l: "calm s" "0 < dc_maxBytes c" "dc_maxBytes c < 2 ^ 62" "dc_bytes c \<le> dc_maxBytes c"
    "0 \<le> dc_bytes c" using dirSize_nonneg [of "dc_dir c" s] by (auto simp: within_limit_def)
  obtain w e3 s3 where cp: "copy_stream tmp st s = ((w, e3), s3)" by (metis prod.exhaust)
  note s3 = calm_copy [OF cp l(1) tmp(1), of "dc_dir c"]
  have e3: "e3 = None" "fs_dirs s3 = fs_dirs s"
    using cp st l(1) by (auto simp: copy_stream_def os_Write_def os_append_def pop_fault_def calm_def split: option.splits)
  obtain d where d: "fs_content s3 = (fs_content s)(tmp \<mapsto> d)" using copy_stream_content [OF cp tmp(1)] by auto
  obtain e5 c5 s5 where en: "ensureCapacity (int w) (c, s3) = (e5, (c5, s5))" by (metis prod.exhaust)
  note s5 = ensureCapacity_calm [OF en conjunct1 [OF s3] _ l(5,4,2,3), simplified] and sh = ensureCapacity_shrinks [OF en]
  have pr: "dirSize (dc_dir c) s5 \<le> dc_maxBytes c - int w" and ok: "e5 = Inr True"
    using need s3 s5 by auto
  have gone: "fs_content s5 tmp = None"
  proof (rule ccontr)
    assume "fs_content s5 tmp \<noteq> None"
    then have "fs_content s5 tmp = fs_content s3 tmp" using sh by (metis domIff map_le_def)
    then have "path_size (dc_dir c) s5 tmp = int w" using s3 below by (simp add: path_size_def)
    then show False using path_size_le [of s5 "dc_dir c" tmp] s5 pr need s3 by simp
  qed
  have "fs_content s5 p = None"
  proof (rule ccontr)
    assume "fs_content s5 p \<noteq> None"
    then have "fs_content s3 p \<noteq> None" using sh by (metis domIff map_le_def)
    then show False using d tmp(2) p by (auto simp: fs_exists_def fs_content_def)
  qed
  moreover from this have "\<not> fs_exists s5 p" using p sh e3(2) by (simp add: fs_exists_def fs_content_def is_dir_def)
  ultimately show ?thesis
    using cp e3 calm_Close [of s3] s3 en ok install_missing [of s5 tmp p "int w" c5] gone s5 
    by (simp add: Put_temp_def)
qed

end
