(* ===== verification/BlockCache.thy ===== *)
theory BlockCache
  imports DiskLimits "HOL-Library.Signed_Division"
begin

text \<open>
  \<^verbatim>\<open>core/cache/blockcache.go\<close> and \<^verbatim>\<open>core/cache/disk/blockcache.go\<close>: a byte source read in blocks that
  are kept in files. The cache has the fields and the pruning of the content cache, so its state is
  the same record. \<^verbatim>\<open>singleflight\<close> gives concurrent callers of one block the result of one call, which
  is the call modelled. Go's division of integers truncates (\<open>sdiv\<close>).
\<close>

section \<open>Definitions\<close>

type_synonym BlockCache = DiskCache

definition WithBlockMaxBytes :: "i64 \<Rightarrow> BlockCache \<Rightarrow> BlockCache" where
  "WithBlockMaxBytes n c = c\<lparr>dc_maxBytes := n\<rparr>"

definition WithBlockShardPrefixLen :: "int \<Rightarrow> BlockCache \<Rightarrow> BlockCache" where
  "WithBlockShardPrefixLen n c = c\<lparr>dc_shardPrefixLen := n\<rparr>"

definition WithBlockDirPerm :: "u32 \<Rightarrow> BlockCache \<Rightarrow> BlockCache" where
  "WithBlockDirPerm m c = c\<lparr>dc_dirPerm := m\<rparr>"

definition NewBlockCache ::
  "string \<Rightarrow> (BlockCache \<Rightarrow> BlockCache) list \<Rightarrow> fsys \<Rightarrow> BlockCache res \<times> fsys" where
  "NewBlockCache dir opts s =
     (if dir = [] then (Inl (ErrNew ''block cache dir is empty''), s)
      else
        let c = fold (\<lambda>opt c. opt c) opts
              \<lparr>dc_dir = dir, dc_shardPrefixLen = 2, dc_dirPerm = 448, dc_maxBytes = 0, dc_bytes = 0\<rparr>
        in if dc_shardPrefixLen c < 0 then (Inl (ErrNew ''block cache shard prefix length must be >= 0''), s)
           else if dc_maxBytes c < 0 then (Inl (ErrNew ''block cache max bytes must be >= 0''), s)
           else case os_MkdirAll dir s of
             (Some err, s) \<Rightarrow> (Inl err, s)
           | (None, s) \<Rightarrow> (Inr (c\<lparr>dc_bytes := dirSize dir s\<rparr>), s))"

record WrapConfig =
  BlockSize :: i64
  MaxBlocksPerRead :: int

definition DefaultWrapConfig :: WrapConfig where
  "DefaultWrapConfig = \<lparr>BlockSize = 65536, MaxBlocksPerRead = 4\<rparr>"

definition WithBlockSize :: "i64 \<Rightarrow> WrapConfig \<Rightarrow> WrapConfig" where
  "WithBlockSize n cfg = cfg\<lparr>BlockSize := n\<rparr>"

definition WithMaxBlocksPerRead :: "int \<Rightarrow> WrapConfig \<Rightarrow> WrapConfig" where
  "WithMaxBlocksPerRead n cfg = cfg\<lparr>MaxBlocksPerRead := n\<rparr>"

record cachedSource =
  bs_src :: source
  bs_sourceID :: string
  bs_blockSize :: i64
  bs_maxBlocksPerRead :: int

definition Wrap_source :: "source option \<Rightarrow> (WrapConfig \<Rightarrow> WrapConfig) list \<Rightarrow> cachedSource res" where
  "Wrap_source src opts =
     (case src of
        None \<Rightarrow> Inl (ErrNew ''block cache: source is nil'')
      | Some src \<Rightarrow>
          let cfg = fold (\<lambda>opt c. opt c) opts DefaultWrapConfig
          in if BlockSize cfg \<le> 0 then Inl (ErrNew ''block cache: block size must be > 0'')
             else if BlockSize cfg > MaxInt then Inl (ErrNew ''block cache: block size exceeds max int'')
             else if MaxBlocksPerRead cfg < 0 then Inl (ErrNew ''block cache: max blocks per read must be >= 0'')
             else if src_id src = [] then Inl (ErrNew ''block cache: source id is empty'')
             else Inr \<lparr>bs_src = src, bs_sourceID = src_id src, bs_blockSize = BlockSize cfg,
                       bs_maxBlocksPerRead = MaxBlocksPerRead cfg\<rparr>)"

text \<open>\<^verbatim>\<open>binary.BigEndian.PutUint64\<close>, and the bytes of a string.\<close>

definition be64 :: "i64 \<Rightarrow> bytes" where
  "be64 x = map (\<lambda>k. word_of_int (x div 256 ^ k)) [7, 6, 5, 4, 3, 2, 1, 0]"

definition str_bytes :: "string \<Rightarrow> bytes" where
  "str_bytes s = map of_char s"

definition blockKeyHex :: "(bytes \<Rightarrow> bytes) \<Rightarrow> string \<Rightarrow> i64 \<Rightarrow> i64 \<Rightarrow> string" where
  "blockKeyHex sha256 sourceID blockSize blockIndex =
     hex_encode (sha256 (str_bytes sourceID @ be64 blockSize @ be64 blockIndex))"

definition pathForKey :: "BlockCache \<Rightarrow> string \<Rightarrow> string" where
  "pathForKey c hexKey = shard_path (dc_dir c) (dc_shardPrefixLen c) hexKey"

text \<open>\<^verbatim>\<open>Prune\<close> and \<^verbatim>\<open>ensureCapacity\<close> repeat those of the content cache.\<close>

definition BlockCache_Prune :: "i64 \<Rightarrow> BlockCache \<times> fsys \<Rightarrow> i64 res \<times> (BlockCache \<times> fsys)" where
  "BlockCache_Prune = DiskCache_Prune"

definition BlockCache_ensureCapacity :: "i64 \<Rightarrow> BlockCache \<times> fsys \<Rightarrow> bool res \<times> (BlockCache \<times> fsys)" where
  "BlockCache_ensureCapacity = ensureCapacity"

definition writeBlock :: "string \<Rightarrow> bytes \<Rightarrow> BlockCache \<times> fsys \<Rightarrow> err option \<times> (BlockCache \<times> fsys)" where
  "writeBlock path data cs =
     (if length data = 0 then (None, cs)
      else if fs_exists (snd cs) path then (None, cs)
      else case BlockCache_ensureCapacity (int (length data)) cs of
        (Inl err, cs) \<Rightarrow> (Some err, cs)
      | (Inr ok, (c, s)) \<Rightarrow>
          if \<not> ok then (None, (c, s))
          else case os_MkdirAll (dir_of path) s of
            (Some err, s) \<Rightarrow> (Some err, (c, s))
          | (None, s) \<Rightarrow>
              (case os_CreateTemp (dir_of path) ''block-'' s of
                 (Inl err, s) \<Rightarrow> (Some err, (c, s))
               | (Inr tmpPath, s) \<Rightarrow>
                   (case os_Write tmpPath data s of
                      ((n, Some err), s) \<Rightarrow> (Some err, (c, snd (os_Remove tmpPath (snd (os_Close s)))))
                    | ((n, None), s) \<Rightarrow>
                        (case os_Close s of
                           (Some err, s) \<Rightarrow> (Some err, (c, snd (os_Remove tmpPath s)))
                         | (None, s) \<Rightarrow> install tmpPath path (int (length data)) (c, s)))))"

text \<open>\<^verbatim>\<open>getBlock\<close>; the fetched data is the value of the callback.\<close>

definition getBlock ::
  "(bytes \<Rightarrow> bytes) \<Rightarrow> string \<Rightarrow> i64 \<Rightarrow> i64 \<Rightarrow> i64 \<Rightarrow> bytes res \<Rightarrow> BlockCache \<times> fsys \<Rightarrow>
   bytes res \<times> (BlockCache \<times> fsys)" where
  "getBlock sha256 sourceID blockSize blockIndex blockLen fetch cs =
     (let (c, s) = cs;
          path = pathForKey c (blockKeyHex sha256 sourceID blockSize blockIndex);
          miss = (\<lambda>cs. case fetch of
                    Inl err \<Rightarrow> (Inl err, cs)
                  | Inr data \<Rightarrow>
                      if int (length data) \<noteq> blockLen then (Inl ErrUnexpectedEOF, cs)
                      else (Inr data, snd (writeBlock path data cs)))
      in case os_ReadFile path s of
           (Inr data, s) \<Rightarrow>
             if int (length data) = blockLen then (Inr data, (c, s))
             else miss (c\<lparr>dc_bytes := sub_i64 (dc_bytes c) (int (length data))\<rparr>, snd (os_Remove path s))
         | (Inl err, s) \<Rightarrow> if \<not> errors_is err ErrNotExist then (Inl err, (c, s)) else miss (c, s))"

definition readBlockFromSource :: "source \<Rightarrow> i64 \<Rightarrow> i64 \<Rightarrow> bytes res" where
  "readBlockFromSource src off len =
     (if len = 0 then Inr []
      else case src_range src of
        Some rr \<Rightarrow>
          bindE (rr off len) (\<lambda>rc.
            let st = rd_stream rc
            in if s_end st \<noteq> EOF then Inl (s_end st)
               else if int (length (s_data st)) \<noteq> len then Inl ErrUnexpectedEOF
               else Inr (s_data st))
      | None \<Rightarrow>
          if len > MaxInt then Inl (ErrNew ''block cache: block length exceeds max int'')
          else case ra_ReadAt (src_at src) (nat len) off of
            (d, Some err) \<Rightarrow>
              if err \<noteq> EOF then Inl err else if int (length d) \<noteq> len then Inl ErrUnexpectedEOF else Inr d
          | (d, None) \<Rightarrow> if int (length d) \<noteq> len then Inl ErrUnexpectedEOF else Inr d)"

text \<open>\<^verbatim>\<open>copy(p[dst:dst+len(src)], src)\<close>.\<close>

definition copy_at :: "bytes \<Rightarrow> nat \<Rightarrow> bytes \<Rightarrow> bytes" where
  "copy_at p dst src = take dst p @ src @ drop (dst + length src) p"

text \<open>The loop of \<^verbatim>\<open>ReadAt\<close> over the block indices, with the buffer and the count.\<close>

primrec read_blocks ::
  "(bytes \<Rightarrow> bytes) \<Rightarrow> cachedSource \<Rightarrow> i64 \<Rightarrow> i64 \<Rightarrow> i64 list \<Rightarrow> bytes \<Rightarrow> i64 \<Rightarrow> BlockCache \<times> fsys \<Rightarrow>
   (bytes \<times> i64 \<times> err option) \<times> (BlockCache \<times> fsys)" where
  "read_blocks sha256 cs off endOff [] p n st = ((p, n, None), st)"
| "read_blocks sha256 cs off endOff (blockIndex # bs) p n st =
     (let size' = src_size (bs_src cs);
          blockStart = blockIndex * bs_blockSize cs;
          blockEnd0 = add_i64 blockStart (bs_blockSize cs);
          blockEnd = (if blockEnd0 > size' then size' else blockEnd0);
          blockLen = blockEnd - blockStart
      in case getBlock sha256 (bs_sourceID cs) (bs_blockSize cs) blockIndex blockLen
                (readBlockFromSource (bs_src cs) blockStart blockLen) st of
           (Inl err, st) \<Rightarrow> ((p, n, Some err), st)
         | (Inr data, st) \<Rightarrow>
             if int (length data) < blockLen then ((p, n, Some ErrUnexpectedEOF), st)
             else
               let copyStart = max off blockStart;
                   copyEnd = min endOff blockEnd;
                   srcOffset = copyStart - blockStart;
                   dstOffset = copyStart - off;
                   len = copyEnd - copyStart
               in if len > 0
                  then read_blocks sha256 cs off endOff bs
                         (copy_at p (nat dstOffset) (take (nat len) (drop (nat srcOffset) data))) (n + len) st
                  else read_blocks sha256 cs off endOff bs p n st)"

text \<open>\<^verbatim>\<open>ReadAt(p, off)\<close>: the bytes \<^verbatim>\<open>p[:n]\<close> and the error.\<close>

definition cachedSource_ReadAt ::
  "(bytes \<Rightarrow> bytes) \<Rightarrow> cachedSource \<Rightarrow> bytes \<Rightarrow> i64 \<Rightarrow> BlockCache \<times> fsys \<Rightarrow> (bytes \<times> err option) \<times> (BlockCache \<times> fsys)" where
  "cachedSource_ReadAt sha256 cs p off st =
     (if length p = 0 then (([], None), st)
      else if off < 0 then (([], Some (Errorf ''read at %d: negative offset'' [] [off])), st)
      else if off \<ge> src_size (bs_src cs) then (([], Some EOF), st)
      else
        let expected0 = int (length p);
            expected = (if add_i64 off expected0 > src_size (bs_src cs) then src_size (bs_src cs) - off else expected0);
            startBlock = off sdiv bs_blockSize cs;
            endBlock = (add_i64 off expected - 1) sdiv bs_blockSize cs;
            blockCount = endBlock - startBlock + 1
        in if bs_maxBlocksPerRead cs > 0 \<and> blockCount > bs_maxBlocksPerRead cs
           then (ra_ReadAt (src_at (bs_src cs)) (length p) off, st)
           else
             let ((p', n, err), st) = read_blocks sha256 cs off (add_i64 off expected) [startBlock..endBlock] p 0 st
             in case err of
                  Some e \<Rightarrow> ((take (nat n) p', Some e), st)
                | None \<Rightarrow> ((take (nat n) p', if expected < int (length p) then Some EOF else None), st))"

text \<open>\<^verbatim>\<open>ReadRange\<close>: the section of the cached source that the reader delivers.\<close>

definition cachedSource_ReadRange :: "cachedSource \<Rightarrow> i64 \<Rightarrow> i64 \<Rightarrow> ((i64 \<times> i64) option) \<times> err option" where
  "cachedSource_ReadRange cs off len =
     (if len < 0 then (None, Some (Errorf ''read range length %d: negative length'' [] [len]))
      else if len = 0 then (Some (0, 0), None)
      else if off < 0 then (None, Some (Errorf ''read range %d: negative offset'' [] [off]))
      else if off \<ge> src_size (bs_src cs) then (Some (0, 0), Some EOF)
      else (Some (off, if len > src_size (bs_src cs) - off then src_size (bs_src cs) - off else len), None))"

declare read_blocks.simps(2) [simp del]

section \<open>Blocks\<close>

text \<open>The extent and the content of a block of the source.\<close>

definition block_len :: "cachedSource \<Rightarrow> i64 \<Rightarrow> i64" where
  "block_len cs i = min (bs_blockSize cs) (src_size (bs_src cs) - i * bs_blockSize cs)"

definition block_data :: "cachedSource \<Rightarrow> i64 \<Rightarrow> bytes" where
  "block_data cs i =
     take (nat (block_len cs i)) (drop (nat (i * bs_blockSize cs)) (ra_content (src_at (bs_src cs))))"

definition is_block :: "cachedSource \<Rightarrow> i64 \<Rightarrow> bool" where
  "is_block cs i \<longleftrightarrow> 0 \<le> i \<and> i * bs_blockSize cs < src_size (bs_src cs)"

definition block_path :: "(bytes \<Rightarrow> bytes) \<Rightarrow> cachedSource \<Rightarrow> BlockCache \<Rightarrow> i64 \<Rightarrow> string" where
  "block_path sha256 cs c i = pathForKey c (blockKeyHex sha256 (bs_sourceID cs) (bs_blockSize cs) i)"

text \<open>The blocks of the source have different keys.\<close>

definition keys_differ :: "(bytes \<Rightarrow> bytes) \<Rightarrow> cachedSource \<Rightarrow> bool" where
  "keys_differ sha256 cs \<longleftrightarrow> (\<forall>i j. is_block cs i \<longrightarrow> is_block cs j \<longrightarrow>
     blockKeyHex sha256 (bs_sourceID cs) (bs_blockSize cs) i = blockKeyHex sha256 (bs_sourceID cs) (bs_blockSize cs) j \<longrightarrow> i = j)"

text \<open>A file of the cache that has the length of its block has its content.\<close>

definition coherent :: "(bytes \<Rightarrow> bytes) \<Rightarrow> cachedSource \<Rightarrow> BlockCache \<times> fsys \<Rightarrow> bool" where
  "coherent sha256 cs st \<longleftrightarrow> tmp_ok (snd st) \<and>
     (\<forall>i d. is_block cs i \<longrightarrow> settled (snd st) (block_path sha256 cs (fst st) i) = Some d \<longrightarrow>
        int (length d) = block_len cs i \<longrightarrow> d = block_data cs i)"

lemma block_len_pos: "is_block cs i \<Longrightarrow> 0 < bs_blockSize cs \<Longrightarrow> 0 < block_len cs i"
  by (simp add: is_block_def block_len_def)

lemma block_data_length:
  assumes "source_ok (bs_src cs)" "is_block cs i" "0 < bs_blockSize cs"
  shows "int (length (block_data cs i)) = block_len cs i"
proof -
  have "0 \<le> i * bs_blockSize cs" "i * bs_blockSize cs + block_len cs i \<le> int (length (ra_content (src_at (bs_src cs))))"
    "0 < block_len cs i"
    using assms block_len_pos [OF assms(2,3)] by (auto simp: source_ok_def is_block_def block_len_def)
  then show ?thesis by (simp add: block_data_def)
qed

lemma readBlockFromSource_ok:
  assumes "source_ok (bs_src cs)" "is_block cs i" "0 < bs_blockSize cs"
  shows "readBlockFromSource (bs_src cs) (i * bs_blockSize cs) (block_len cs i) = Inr (block_data cs i)"
proof -
  let ?off = "i * bs_blockSize cs" and ?n = "block_len cs i"
  have r: "0 \<le> ?off" "0 < ?n" "?off + ?n \<le> src_size (bs_src cs)"
    using assms block_len_pos [OF assms(2,3)] by (auto simp: is_block_def block_len_def)
  note len = block_data_length [OF assms]
  show ?thesis
  proof (cases "src_range (bs_src cs)")
    case None
    have "ra_ReadAt (src_at (bs_src cs)) (nat ?n) ?off = (block_data cs i, None) \<or>
        ra_ReadAt (src_at (bs_src cs)) (nat ?n) ?off = (block_data cs i, Some EOF)"
      using assms(1) r len by (auto simp: ra_ReadAt_def block_data_def source_ok_def Let_def)
    moreover have "?n \<le> MaxInt64" using r assms(1) by (simp add: source_ok_def MaxInt64_def)
    ultimately show ?thesis using None len r by (auto simp: readBlockFromSource_def)
  next
    case (Some rr)
    then obtain rd where "rr ?off ?n = Inr rd" "delivers rd (block_data cs i)"
      using assms(1) r unfolding source_ok_def block_data_def by blast
    with Some len r show ?thesis by (simp add: readBlockFromSource_def delivers_def rd_stream_ok)
  qed
qed

lemma block_path_settled: "settled s (block_path sha256 cs c i) = fs_content s (block_path sha256 cs c i)"
  using hex_encode_chars(2) by (simp add: settled_def block_path_def pathForKey_def blockKeyHex_def base_name_shard)

lemma block_path_inj:
  assumes "keys_differ sha256 cs" "is_block cs i" "is_block cs j" "block_path sha256 cs c i = block_path sha256 cs c j"
  shows "i = j"
proof -
  have "blockKeyHex sha256 (bs_sourceID cs) (bs_blockSize cs) i = blockKeyHex sha256 (bs_sourceID cs) (bs_blockSize cs) j"
    using assms(4) base_name_shard unfolding block_path_def pathForKey_def blockKeyHex_def by metis
  with assms show ?thesis by (simp add: keys_differ_def)
qed

section \<open>Writing a block\<close>

lemma temp_dash:
  assumes "os_CreateTemp d pre s = (Inr t, s')" "tmp_ok s" "CHR ''-'' \<in> set pre" "slash \<notin> set pre"
  shows "CHR ''-'' \<in> set (base_name t)"
proof -
  obtain name where "name \<in> set (fs_rand s)" "t = join_path d (pre @ name)"
    using create_temp_name assms(1) unfolding os_CreateTemp_def by blast
  moreover have "pre @ name \<noteq> ''.''" for name using assms(3) by (cases pre) auto
  ultimately show ?thesis using assms base_name_join [of "pre @ name" d] by (simp add: tmp_ok_def)
qed

text \<open>What a step of the cache may do to the settled files: drop some, and add one.\<close>

definition adds :: "string \<Rightarrow> bytes \<Rightarrow> BlockCache \<times> fsys \<Rightarrow> BlockCache \<times> fsys \<Rightarrow> bool" where
  "adds p d cs cs' \<longleftrightarrow> same_place (fst cs) (fst cs') \<and> set (fs_rand (snd cs')) \<subseteq> set (fs_rand (snd cs)) \<and>
     (settled (snd cs') \<subseteq>\<^sub>m settled (snd cs) \<or> settled (snd cs') \<subseteq>\<^sub>m (settled (snd cs))(p \<mapsto> d))"

lemma adds_remove:
  assumes "settled s1 \<subseteq>\<^sub>m settled s" "set (fs_rand s1) \<subseteq> set (fs_rand s)" "same_place c c'"
  shows "adds p d (c, s) (c', snd (os_Remove t s1))"
  using remove_tmp [OF assms, of undefined "\<lparr>s_data = [], s_end = ErrInvalid\<rparr>"] by (simp add: storing_def adds_def)

text \<open>The temporary file after a write, which is not a settled file.\<close>

lemma temp_written:
  assumes t: "os_CreateTemp dir ''block-'' s = (Inr tmp, s1)" and w: "os_Write tmp d s1 = ((n, y), s2)" and s: "tmp_ok s"
  shows "settled s2 = settled s \<and> set (fs_rand s2) \<subseteq> set (fs_rand s) \<and> CHR ''-'' \<in> set (base_name tmp) \<and>
    (y = None \<longrightarrow> fs_content s2 tmp = Some d)"
proof -
  have dash: "CHR ''-'' \<in> set (base_name tmp)" using temp_dash [OF t s] by simp
  have c1: "fs_content s1 = (fs_content s)(tmp \<mapsto> [])" using create_temp_content t unfolding os_CreateTemp_def by blast
  have c2: "fs_content s2 = (fs_content s)(tmp \<mapsto> take n d)" using os_Write_content [OF w, of "[]"] c1 by simp
  have "y = None \<longrightarrow> n = length d" "fs_rand s2 = fs_rand s1"
    using w by (auto simp: os_Write_def os_append_def pop_fault_def Let_def split: list.splits option.splits)
  then show ?thesis
    using settled_upd [OF c2 dash] dash c2 create_temp_rand t unfolding os_CreateTemp_def by auto
qed

lemma writeBlock_adds:
  assumes w: "writeBlock p d (c, s) = (x, cs')" and s: "tmp_ok s"
  shows "adds p d (c, s) cs'"
proof -
  obtain e1 c1 s1 where en: "ensureCapacity (int (length d)) (c, s) = (e1, (c1, s1))" by (metis prod.exhaust)
  note sh = ensureCapacity_shrinks [OF en]
  obtain e2 s2 where m: "os_MkdirAll (dir_of p) s1 = (e2, s2)" by fastforce
  obtain e3 s3 where t: "os_CreateTemp (dir_of p) ''block-'' s2 = (e3, s3)" by fastforce
  note t' = create_temp_content [OF t [unfolded os_CreateTemp_def]] create_temp_rand [OF t [unfolded os_CreateTemp_def]]
  have st2: "settled s1 \<subseteq>\<^sub>m settled s" "settled s2 \<subseteq>\<^sub>m settled s" "fs_rand s2 = fs_rand s" "tmp_ok s2"
    using sh settled_shrinks os_same_content(1) [OF m] os_rand(1) [OF m] s settled_same [of s2 s1]
    by (auto simp: tmp_ok_def)
  consider "cs' = (c, s)" | "cs' = (c1, s1)" | "cs' = (c1, s2)" | e where "cs' = (c1, s3)" "e3 = Inl e"
    | tmp n y s4 where "e3 = Inr tmp" "os_Write tmp d s3 = ((n, Some y), s4)" "cs' = (c1, snd (os_Remove tmp (snd (os_Close s4))))"
    | tmp n y s4 s5 where "e3 = Inr tmp" "os_Write tmp d s3 = ((n, None), s4)" "os_Close s4 = (y, s5)"
        "cs' = (c1, snd (os_Remove tmp s5)) \<or> install tmp p (int (length d)) (c1, s5) = (x, cs')"
    using w en m t unfolding writeBlock_def BlockCache_ensureCapacity_def
    by (auto split: if_splits sum.splits option.splits prod.splits)
  then show ?thesis
  proof cases
    case 1
    then show ?thesis by (simp add: adds_def same_place_def)
  next
    case 4
    then show ?thesis using sh st2 t' settled_same [of s3 s2] by (auto simp: adds_def)
  next
    case (5 tmp n y s4)
    obtain z s5 where cl: "os_Close s4 = (z, s5)" by fastforce
    then show ?thesis
      using adds_remove [of s5 s c c1 p d tmp] temp_written [of "dir_of p" s2 tmp s3 d n "Some y" s4] 5 t st2 sh
        os_rand(2) [OF cl] settled_same [OF os_same_content(2) [OF cl]] by simp
  next
    case (6 tmp n y s4 s5)
    have f: "settled s5 \<subseteq>\<^sub>m settled s" "set (fs_rand s5) \<subseteq> set (fs_rand s)" "CHR ''-'' \<in> set (base_name tmp)"
      "fs_content s5 tmp = Some d"
      using temp_written [of "dir_of p" s2 tmp s3 d n None s4] 6 t st2 os_rand(2) [OF 6(3)]
        settled_same [OF os_same_content(2) [OF 6(3)]] os_same_content(2) [OF 6(3)] by auto
    obtain c6 s6 where cs': "cs' = (c6, s6)" by fastforce
    show ?thesis
    proof (cases "cs' = (c1, snd (os_Remove tmp s5))")
      case True
      then show ?thesis using adds_remove [of s5 s c c1] f sh by simp
    next
      case False
      then have i: "same_place c1 c6" "fs_rand s6 = fs_rand s5" "settled s6 \<subseteq>\<^sub>m settled s5 \<or> settled s6 \<subseteq>\<^sub>m (settled s5)(p \<mapsto> d)"
        using install_settled [of tmp p "int (length d)" c1 s5 x c6 s6] 6(4) cs' f(3,4) by auto
      have "same_place c c6" using i(1) sh by (simp add: same_place_def)
      moreover have "settled s6 \<subseteq>\<^sub>m settled s \<or> settled s6 \<subseteq>\<^sub>m (settled s)(p \<mapsto> d)"
        using i(3) f(1) map_le_upd [OF f(1)] by (metis map_le_trans)
      ultimately show ?thesis using i(2) f(2) by (simp add: adds_def cs')
    qed
  qed (use sh st2 in \<open>auto simp: adds_def\<close>)
qed


section \<open>Reading through the cache\<close>

lemma coherent_adds:
  assumes "coherent sha256 cs st" "adds (block_path sha256 cs (fst st) i) (block_data cs i) st st'"
    and "keys_differ sha256 cs" "is_block cs i"
  shows "coherent sha256 cs st'"
proof -
  have bp: "block_path sha256 cs (fst st') = block_path sha256 cs (fst st)"
    using assms(2) by (auto simp: adds_def same_place_def block_path_def pathForKey_def)
  have "d = block_data cs j" if j: "is_block cs j" "settled (snd st') (block_path sha256 cs (fst st) j) = Some d"
    "int (length d) = block_len cs j" for j d
  proof -
    have "settled (snd st) (block_path sha256 cs (fst st) j) = Some d \<or> i = j \<and> d = block_data cs i"
      using assms(2) j(2) block_path_inj [OF assms(3,4) j(1)] unfolding adds_def
      by (smt (verit, best) domI fun_upd_apply map_le_def option.inject)
    with assms(1) j show ?thesis unfolding coherent_def by auto
  qed
  moreover have "tmp_ok (snd st')" using assms(1,2) by (auto simp: coherent_def adds_def tmp_ok_def)
  ultimately show ?thesis unfolding coherent_def bp by blast
qed

lemma coherent_shrinks:
  assumes "coherent sha256 cs (c, s)" "settled s' \<subseteq>\<^sub>m settled s" "fs_rand s' = fs_rand s" "same_place c c'"
  shows "coherent sha256 cs (c', s')"
proof -
  have "block_path sha256 cs c' = block_path sha256 cs c"
    using assms(4) by (auto simp: same_place_def block_path_def pathForKey_def)
  then show ?thesis using assms(1-3) unfolding coherent_def tmp_ok_def
    by (simp add: map_le_def) (metis domI)
qed

lemma getBlock_coherent:
  assumes g: "getBlock sha256 (bs_sourceID cs) (bs_blockSize cs) i (block_len cs i)
      (readBlockFromSource (bs_src cs) (i * bs_blockSize cs) (block_len cs i)) (c, s) = (r, st')"
    and k: "coherent sha256 cs (c, s)" "keys_differ sha256 cs" "source_ok (bs_src cs)" "is_block cs i" "0 < bs_blockSize cs"
  shows "coherent sha256 cs st' \<and> (r = Inr (block_data cs i) \<or> (\<exists>e. r = Inl e) \<and> fs_faults s \<noteq> [])"
proof -
  let ?p = "block_path sha256 cs c i"
  note fetch = readBlockFromSource_ok [OF k(3-5)] and len = block_data_length [OF k(3-5)]
  obtain x s1 where rf: "os_ReadFile ?p s = (x, s1)" by fastforce
  note rf' = os_ReadFile_content [OF rf]
  obtain y s2 where rm: "os_Remove ?p s1 = (y, s2)" by fastforce
  define c2 where "c2 = (case x of Inr d \<Rightarrow> c\<lparr>dc_bytes := sub_i64 (dc_bytes c) (int (length d))\<rparr> | Inl _ \<Rightarrow> c)"
  have c2: "same_place c c2" by (simp add: c2_def same_place_def split: sum.splits)
  have k1: "coherent sha256 cs (c, s1)" "coherent sha256 cs (c2, s2)" "coherent sha256 cs (c2, s1)"
    using coherent_shrinks [OF k(1)] rf' os_Remove_shrinks [OF rm] settled_shrinks [of s1 s] settled_shrinks [of s2 s] c2
    by (auto simp: same_place_def)
  have w: "coherent sha256 cs (snd (writeBlock ?p (block_data cs i) (c3, s3)))" if "coherent sha256 cs (c3, s3)" "same_place c c3" for c3 s3
  proof -
    obtain z st3 where wb: "writeBlock ?p (block_data cs i) (c3, s3) = (z, st3)" by (metis prod.exhaust)
    have "block_path sha256 cs c3 = block_path sha256 cs c" using that(2) by (auto simp: same_place_def block_path_def pathForKey_def)
    then show ?thesis using coherent_adds [OF that(1) _ k(2,4)] writeBlock_adds [OF wb] that(1) wb by (simp add: coherent_def)
  qed
  have "fs_faults s = [] \<Longrightarrow> x = Inl e \<Longrightarrow> e = ErrNotExist" for e
    using rf by (auto simp: os_ReadFile_def pop_fault_def split: option.splits)
  moreover have "d = block_data cs i" if "x = Inr d" "int (length d) = block_len cs i" for d
    using k(1,4) rf' that block_path_settled [of s sha256 cs c i] by (simp add: coherent_def)
  moreover have bp: "pathForKey c (blockKeyHex sha256 (bs_sourceID cs) (bs_blockSize cs) i) = ?p" by (simp add: block_path_def)
  ultimately show ?thesis
    using g k1 c2 w [OF k1(2) c2] w [OF k1(1)] rf rm fetch len
    by (cases x) (auto simp: getBlock_def Let_def c2_def same_place_def split: if_splits)
qed


text \<open>No step of the cache makes a file system without faults fail.\<close>

lemma ensureCapacity_keeps_calm: "ensureCapacity n (c, s) = (x, (c', s')) \<Longrightarrow> calm s \<Longrightarrow> calm s'"
  by (auto simp: ensureCapacity_def DiskCache_Prune_def Let_def split: if_splits prod.splits option.splits sum.splits
      dest: calm_pruneDir)

lemma calm_Write: "os_Write p d s = (x, s') \<Longrightarrow> calm s \<Longrightarrow> calm s'"
  by (auto simp: os_Write_def os_append_def pop_fault_def calm_def fs_wf_def distinct_update split: option.splits)

lemma install_calm: "install t p w (c, s) = (x, (c', s')) \<Longrightarrow> calm s \<Longrightarrow> calm s'"
proof -
  assume a: "install t p w (c, s) = (x, (c', s'))" "calm s"
  obtain e s1 where rn: "os_Rename t p s = (e, s1)" by fastforce
  obtain y s2 where rm: "os_Remove t s1 = (y, s2)" by fastforce
  show ?thesis using a rn rm calm_Rename [OF rn a(2)] calm_Remove [OF rm]
    by (cases e) (auto simp: install_def split: if_splits)
qed

lemma writeBlock_calm:
  assumes w: "writeBlock p d (c, s) = (x, (c', s'))" and s: "calm s"
  shows "calm s'"
proof -
  obtain e1 c1 s1 where en: "ensureCapacity (int (length d)) (c, s) = (e1, (c1, s1))" by (metis prod.exhaust)
  obtain e2 s2 where m: "os_MkdirAll (dir_of p) s1 = (e2, s2)" by fastforce
  obtain e3 s3 where t: "os_CreateTemp (dir_of p) ''block-'' s2 = (e3, s3)" by fastforce
  have c: "calm s1" "calm s2" "calm s3"
    using ensureCapacity_keeps_calm [OF en s] calm_MkdirAll [OF m] calm_create_temp [OF t [unfolded os_CreateTemp_def]] by auto
  have "calm s'" if "e3 = Inr tmp" "os_Write tmp d s3 = ((n, y), s4)" "s' = snd (os_Remove tmp s4) \<or>
      install tmp p (int (length d)) (c1, s4) = (x, (c', s'))" for tmp n y s4
    using that calm_Write [OF that(2) c(3)] calm_Remove [of tmp s4] install_calm by (metis prod.collapse)
  then show ?thesis using w en m t s c calm_Close calm_Write [OF _ c(3)]
    unfolding writeBlock_def BlockCache_ensureCapacity_def
    by (auto split: if_splits sum.splits option.splits prod.splits)
qed

lemma getBlock_calm:
  assumes "getBlock sha256 src bs i n f (c, s) = (r, (c', s'))" "calm s"
  shows "calm s'"
proof -
  let ?p = "pathForKey c (blockKeyHex sha256 src bs i)"
  obtain x s1 where rf: "os_ReadFile ?p s = (x, s1)" by fastforce
  have c1: "calm s1" using rf assms(2) by (auto simp: os_ReadFile_def pop_fault_def calm_def split: option.splits)
  obtain y s2 where rm: "os_Remove ?p s1 = (y, s2)" by fastforce
  have c2: "calm s2" using calm_Remove [OF rm c1] by blast
  have w: "calm t" if "calm s3" "snd (writeBlock ?p d (c3, s3)) = (c4, t)" for d c3 s3 c4 t
    using writeBlock_calm [of ?p d c3 s3] that by (metis prod.collapse)
  show ?thesis using assms rf rm c1 c2
    by (cases x; cases f) (auto simp: getBlock_def Let_def split: if_splits dest: w [OF c1] w [OF c2])
qed

text \<open>The loop over the blocks: the buffer holds the bytes of the source from \<open>off\<close> on.\<close>

definition src_slice :: "cachedSource \<Rightarrow> i64 \<Rightarrow> i64 \<Rightarrow> bytes" where
  "src_slice cs off n = take (nat n) (drop (nat off) (ra_content (src_at (bs_src cs))))"

definition filled :: "cachedSource \<Rightarrow> i64 \<Rightarrow> bytes \<Rightarrow> i64 \<Rightarrow> bool" where
  "filled cs off p n \<longleftrightarrow> 0 \<le> n \<and> n \<le> int (length p) \<and> take (nat n) p = src_slice cs off n"

lemma take_copy_at: "dst + length d \<le> length p \<Longrightarrow> take (dst + length d) (copy_at p dst d) = take dst p @ d \<and> length (copy_at p dst d) = length p"
  by (simp add: copy_at_def)

lemma block_slice:
  assumes "0 \<le> a" "0 \<le> l" "a + l \<le> block_len cs i" "0 \<le> i * bs_blockSize cs"
  shows "take (nat l) (drop (nat a) (block_data cs i)) = src_slice cs (i * bs_blockSize cs + a) l"
proof -
  have "nat (i * bs_blockSize cs + a) = nat a + nat (i * bs_blockSize cs)" "nat l \<le> nat (block_len cs i) - nat a"
    using assms by linarith+
  then show ?thesis by (simp add: block_data_def src_slice_def drop_take min_def)
qed

lemma slice_append: "0 \<le> off \<Longrightarrow> 0 \<le> m \<Longrightarrow> 0 \<le> n \<Longrightarrow> src_slice cs off m @ src_slice cs (off + m) n = src_slice cs off (m + n)"
  by (simp add: src_slice_def nat_add_distrib take_add drop_drop add.commute)

lemma slice_length:
  "source_ok (bs_src cs) \<Longrightarrow> 0 \<le> off \<Longrightarrow> 0 \<le> n \<Longrightarrow> off + n \<le> src_size (bs_src cs) \<Longrightarrow> int (length (src_slice cs off n)) = n"
  by (simp add: src_slice_def source_ok_def)

lemma copy_filled:
  assumes "filled cs off p n" "0 \<le> off" "0 \<le> l" "n + l \<le> int (length p)" "length (src_slice cs (off + n) l) = nat l"
  shows "filled cs off (copy_at p (nat n) (src_slice cs (off + n) l)) (n + l) \<and>
    length (copy_at p (nat n) (src_slice cs (off + n) l)) = length p"
proof -
  have "nat n + length (src_slice cs (off + n) l) \<le> length p"
    using assms by (simp add: filled_def nat_add_distrib [symmetric] nat_le_iff)
  from take_copy_at [OF this] have "take (nat n + nat l) (copy_at p (nat n) (src_slice cs (off + n) l)) = src_slice cs off n @ src_slice cs (off + n) l"
    "length (copy_at p (nat n) (src_slice cs (off + n) l)) = length p"
    using assms by (simp_all add: filled_def)
  then show ?thesis using assms slice_append [of off n l cs] by (simp add: filled_def nat_add_distrib)
qed

lemma div_block: "0 < (b :: int) \<Longrightarrow> x div b * b \<le> x \<and> x < (x div b + 1) * b"
proof -
  assume b: "0 < b"
  have "x = x div b * b + x mod b" "0 \<le> x mod b" "x mod b < b" using b by simp_all
  then show ?thesis unfolding distrib_right mult_1 by linarith
qed

lemma block_add:
  assumes "is_block cs i" "0 < bs_blockSize cs" "src_size (bs_src cs) + bs_blockSize cs < 2 ^ 63"
  shows "add_i64 (i * bs_blockSize cs) (bs_blockSize cs) = i * bs_blockSize cs + bs_blockSize cs"
proof (rule add_i64_id)
  have "0 \<le> i * bs_blockSize cs" "i * bs_blockSize cs < src_size (bs_src cs)" using assms by (simp_all add: is_block_def)
  moreover have "- (2 ^ 63) \<le> (0 :: int)" by simp
  ultimately show "- (2 ^ 63) \<le> i * bs_blockSize cs + bs_blockSize cs" "i * bs_blockSize cs + bs_blockSize cs < 2 ^ 63"
    using assms(2,3) by linarith+
qed

lemma block_end:
  assumes "is_block cs i" "0 < bs_blockSize cs" "src_size (bs_src cs) + bs_blockSize cs < 2 ^ 63"
  shows "(if add_i64 (i * bs_blockSize cs) (bs_blockSize cs) > src_size (bs_src cs) then src_size (bs_src cs)
     else add_i64 (i * bs_blockSize cs) (bs_blockSize cs)) = i * bs_blockSize cs + block_len cs i"
  unfolding block_add [OF assms] by (simp add: block_len_def)

lemma read_blocks_err:
  assumes "is_block cs i" "0 < bs_blockSize cs" "src_size (bs_src cs) + bs_blockSize cs < 2 ^ 63"
    and "getBlock sha256 (bs_sourceID cs) (bs_blockSize cs) i (block_len cs i)
      (readBlockFromSource (bs_src cs) (i * bs_blockSize cs) (block_len cs i)) st = (Inl er, st1)"
  shows "read_blocks sha256 cs off endOff (i # is) p n st = ((p, n, Some er), st1)"
  unfolding read_blocks.simps(2) Let_def block_end [OF assms(1-3)] add_diff_cancel_left' assms(4) by simp

text \<open>One round: the piece copied from a block of the source.\<close>

lemma read_blocks_step:
  assumes ok: "source_ok (bs_src cs)" "0 < bs_blockSize cs" "src_size (bs_src cs) + bs_blockSize cs < 2 ^ 63"
    and "is_block cs i" "i * bs_blockSize cs < endOff" "endOff \<le> src_size (bs_src cs)"
    and "0 \<le> off" "off < endOff" "off < (i + 1) * bs_blockSize cs"
    and "n = max off (i * bs_blockSize cs) - off"
    and "getBlock sha256 (bs_sourceID cs) (bs_blockSize cs) i (block_len cs i)
      (readBlockFromSource (bs_src cs) (i * bs_blockSize cs) (block_len cs i)) st = (r, st1)" "r = Inr (block_data cs i)"
  defines "n1 \<equiv> min endOff (max off ((i + 1) * bs_blockSize cs)) - off"
  shows "read_blocks sha256 cs off endOff (i # is) p n st =
      read_blocks sha256 cs off endOff is (copy_at p (nat n) (src_slice cs (off + n) (n1 - n))) n1 st1 \<and> n < n1"
proof -
  let ?B = "bs_blockSize cs" and ?size = "src_size (bs_src cs)"
  have i: "0 \<le> i" "0 \<le> i * ?B" "i * ?B < ?size" using assms(2,4) by (auto simp: is_block_def)
  let ?a = "max off (i * ?B)" and ?b = "min endOff (i * ?B + block_len cs i)"
  have b: "?b = min endOff (max off ((i + 1) * ?B))"
    using assms(6,9) i by (auto simp: block_len_def distrib_right min_def max_def)
  have lt: "?a < ?b" using assms(5,8,9) block_len_pos [OF assms(4,2)] assms(2) b
    by (simp add: max_def distrib_right)
  have "take (nat (?b - ?a)) (drop (nat (?a - i * ?B)) (block_data cs i)) = src_slice cs (i * ?B + (?a - i * ?B)) (?b - ?a)"
    using lt i by (intro block_slice) auto
  then have piece: "take (nat (?b - ?a)) (drop (nat (?a - i * ?B)) (block_data cs i)) = src_slice cs (off + n) (n1 - n)"
    using b by (simp add: n1_def assms(10))
  have len: "int (length (block_data cs i)) = block_len cs i" using block_data_length [OF ok(1) assms(4) ok(2)] .
  have "?a - off + (?b - ?a) = n1" "?a - off = n" using b by (simp_all add: n1_def assms(10))
  then have "read_blocks sha256 cs off endOff (i # is) p n st =
      read_blocks sha256 cs off endOff is (copy_at p (nat n) (src_slice cs (off + n) (n1 - n))) n1 st1"
    unfolding read_blocks.simps(2) Let_def block_end [OF assms(4,2,3)] add_diff_cancel_left' assms(11,12)
    using lt len piece by (simp del: take_drop)
  moreover have "n < n1" using lt b by (simp add: n1_def assms(10))
  ultimately show ?thesis by blast
qed

lemma read_blocks_ok:
  assumes "source_ok (bs_src cs)" "0 < bs_blockSize cs" "src_size (bs_src cs) + bs_blockSize cs < 2 ^ 63" "keys_differ sha256 cs"
    and "0 \<le> off" "off < endOff" "endOff \<le> src_size (bs_src cs)"
    and "e = (endOff - 1) div bs_blockSize cs" "off div bs_blockSize cs \<le> i" "i \<le> e + 1" "endOff - off \<le> int (length p)"
    and "coherent sha256 cs st" "n = min endOff (max off (i * bs_blockSize cs)) - off" "filled cs off p n"
    and "read_blocks sha256 cs off endOff [i..e] p n st = ((p', n', x), st')"
  shows "coherent sha256 cs st' \<and> filled cs off p' n' \<and> n' \<le> endOff - off \<and> (x = None \<longrightarrow> n' = endOff - off) \<and>
    (calm (snd st) \<longrightarrow> x = None)"
  using assms(9-)
proof (induction "nat (e + 1 - i)" arbitrary: i p n st)
  case 0
  then have "i = e + 1" by simp
  then have "endOff \<le> i * bs_blockSize cs" using div_block [OF assms(2), of "endOff - 1"] assms(8) by simp
  then show ?case using 0 \<open>i = e + 1\<close> assms(6) by auto
next
  case (Suc k)
  let ?B = "bs_blockSize cs"
  from Suc.hyps(2) have ie: "i \<le> e" by simp
  have "i * ?B \<le> e * ?B" by (intro mult_right_mono ie) (use assms(2) in simp)
  then have lo: "i * ?B < endOff" using div_block [OF assms(2), of "endOff - 1"] unfolding assms(8) by linarith
  have "(off div ?B + 1) * ?B \<le> (i + 1) * ?B" by (intro mult_right_mono) (use assms(2) Suc.prems(1) in simp_all)
  then have hi: "off < (i + 1) * ?B" using div_block [OF assms(2), of off] by linarith
  have "0 \<le> i" using Suc.prems(1) assms(2,5) pos_imp_zdiv_nonneg_iff order_trans by blast
  then have blk: "is_block cs i" using lo assms(7) by (simp add: is_block_def)
  have n: "n = max off (i * ?B) - off" using Suc.prems(5) lo assms(6) by simp
  obtain r st1 where g: "getBlock sha256 (bs_sourceID cs) ?B i (block_len cs i)
      (readBlockFromSource (bs_src cs) (i * ?B) (block_len cs i)) st = (r, st1)" by (metis prod.exhaust)
  obtain c s where st: "st = (c, s)" by fastforce
  note gc = getBlock_coherent [OF g [unfolded st] Suc.prems(4) [unfolded st] assms(4,1) blk assms(2)]
  have up: "[i..e] = i # [i + 1..e]" using ie by (simp add: upto_rec1)
  show ?case
  proof (cases "r = Inr (block_data cs i)")
    case True
    define n1 where "n1 = min endOff (max off ((i + 1) * ?B)) - off"
    note step = read_blocks_step [OF assms(1-3) blk lo assms(7,5,6) hi n g True, folded n1_def]
    have n1: "0 \<le> n" "n1 \<le> endOff - off" using n by (auto simp: n1_def)
    then have "length (src_slice cs (off + n) (n1 - n)) = nat (n1 - n)"
      using slice_length [OF assms(1), of "off + n" "n1 - n"] conjunct2 [OF step] assms(5,7) by simp
    from copy_filled [OF Suc.prems(6) assms(5) _ _ this] conjunct2 [OF step] n1 Suc.prems(3)
    have f: "filled cs off (copy_at p (nat n) (src_slice cs (off + n) (n1 - n))) n1"
      "length (copy_at p (nat n) (src_slice cs (off + n) (n1 - n))) = length p" by auto
    have c1: "calm (snd st) \<longrightarrow> calm (snd st1)" using getBlock_calm g st by (cases st1) auto
    have ih: "read_blocks sha256 cs off endOff [i + 1..e] (copy_at p (nat n) (src_slice cs (off + n) (n1 - n))) n1 st1 = ((p', n', x), st')"
      using Suc.prems(7) step unfolding up by simp
    have k: "k = nat (e + 1 - (i + 1))" "off div ?B \<le> i + 1" "i + 1 \<le> e + 1" using Suc.hyps(2) Suc.prems(1) ie by auto
    from Suc.hyps(1) [OF k _ conjunct1 [OF gc] n1_def f(1) ih] f(2) Suc.prems(3) c1 show ?thesis by auto
  next
    case False
    with gc obtain er where er: "r = Inl er" "fs_faults s \<noteq> []" by blast
    have "((p', n', x), st') = ((p, n, Some er), st1)"
      using Suc.prems(7) [unfolded up] read_blocks_err [OF blk assms(2,3) g [unfolded er(1)]] by simp
    then show ?thesis using gc Suc.prems(6) n lo assms(6) er st by (auto simp: calm_def)
  qed
qed


text \<open>
  \<^verbatim>\<open>ReadAt\<close> through the cache returns what the source returns (for a source that reports the end only
  when it runs short); a fault of the file system can only cut the answer short.
\<close>

lemma sdiv_nonneg: "0 \<le> a \<Longrightarrow> 0 < b \<Longrightarrow> a sdiv b = a div (b :: int)"
  by (cases "a = 0") (auto simp: signed_divide_int_def)

lemma cachedSource_ReadAt_ok:
  assumes ok: "source_ok (bs_src cs)" "0 < bs_blockSize cs" "src_size (bs_src cs) + bs_blockSize cs < 2 ^ 63" "keys_differ sha256 cs"
    and e: "\<not> ra_eager (src_at (bs_src cs))" and st: "coherent sha256 cs st" and p: "0 \<le> off" "p \<noteq> []" "off + int (length p) < 2 ^ 63"
    and r: "cachedSource_ReadAt sha256 cs p off st = ((d, x), st')"
  shows "coherent sha256 cs st' \<and> prefix d (src_slice cs off (int (length p))) \<and>
    (x = None \<or> calm (snd st) \<longrightarrow> (d, x) = ra_ReadAt (src_at (bs_src cs)) (length p) off)"
proof -
  let ?src = "src_at (bs_src cs)" and ?size = "src_size (bs_src cs)" and ?L = "int (length p)" and ?B = "bs_blockSize cs"
  have h: "ra_fault ?src = (\<lambda>_ _. None)" "?size = int (length (ra_content ?src))" "?size < 2 ^ 63" using ok(1) by (simp_all add: source_ok_def)
  have ra: "ra_ReadAt ?src (length p) off = (src_slice cs off ?L, if length (src_slice cs off ?L) < length p then Some EOF else None)"
    using e h p by (simp add: ra_ReadAt_def src_slice_def Let_def)
  show ?thesis
  proof (cases "off < ?size")
    case False
    then have "src_slice cs off ?L = []" using h(2) by (simp add: src_slice_def)
    then show ?thesis using False r p st ra by (auto simp: cachedSource_ReadAt_def)
  next
    case True
    define ex where "ex = (if off + ?L > ?size then ?size - off else ?L)"
    have ex: "0 < ex" "ex \<le> ?L" "off + ex \<le> ?size" using True p by (auto simp: ex_def)
    have add: "add_i64 off ?L = off + ?L" "add_i64 off ex = off + ex" using p ex by (auto intro!: add_i64_id)
    have sl: "src_slice cs off ?L = src_slice cs off ex"
      using h(2) p by (auto simp: ex_def src_slice_def)
    have sx: "int (length (src_slice cs off ex)) = ex" using slice_length [OF ok(1), of off ex] ex p by simp
    have dv: "off sdiv ?B = off div ?B" "(off + ex - 1) sdiv ?B = (off + ex - 1) div ?B"
      using p ex ok(2) by (auto intro!: sdiv_nonneg)
    let ?e = "(off + ex - 1) div ?B"
    show ?thesis
    proof (cases "bs_maxBlocksPerRead cs > 0 \<and> ?e - off div ?B + 1 > bs_maxBlocksPerRead cs")
      case bypass: True
      then have "(d, x) = ra_ReadAt ?src (length p) off" "st' = st"
        using r True p by (auto simp: cachedSource_ReadAt_def Let_def ex_def [symmetric] add dv)
      then show ?thesis using st ra by auto
    next
      case False
      obtain p' n' x' where rb: "read_blocks sha256 cs off (off + ex) [off div ?B..?e] p 0 st = ((p', n', x'), st')"
        and d: "d = take (nat n') p'" and x: "x = (case x' of Some e \<Rightarrow> Some e | None \<Rightarrow> if ex < ?L then Some EOF else None)"
        using r True False p
        by (auto simp: cachedSource_ReadAt_def Let_def ex_def [symmetric] add dv split: prod.splits option.splits)
      have "off div ?B * ?B \<le> off" "off div ?B \<le> ?e + 1"
        using div_block [OF ok(2), of off] zdiv_mono1 [of off "off + ex - 1" ?B] ok(2) ex(1) by auto
      moreover from this have "0 = min (off + ex) (max off (off div ?B * ?B)) - off" using ex by simp
      moreover have "filled cs off p 0" by (simp add: filled_def src_slice_def)
      ultimately have f: "coherent sha256 cs st'" "filled cs off p' n'" "n' \<le> ex" "x' = None \<longrightarrow> n' = ex" "calm (snd st) \<longrightarrow> x' = None"
        using read_blocks_ok [OF ok p(1) _ ex(3) refl order_refl _ _ st _ _ rb] ex by auto
      have "d = src_slice cs off n'" using f(2) d by (simp add: filled_def)
      moreover have "prefix (src_slice cs off n') (src_slice cs off ex)"
        using take_is_prefix [of "nat n'" "src_slice cs off ex"] f(3) by (simp add: src_slice_def min_def nat_mono)
      ultimately show ?thesis using f x ra sl sx by (auto split: option.splits)
    qed
  qed
qed

end
