(* ===== verification/BlobFS.thy ===== *)
theory BlobFS
  imports ContentCache ArchiveIndex
begin

text \<open>
  \<^verbatim>\<open>core/blob.go\<close>, \<^verbatim>\<open>core/blob_opts.go\<close> and \<^verbatim>\<open>ensureCached\<close> of \<^verbatim>\<open>core/cache_support.go\<close>: the archive as
  a read-only file system. \<^verbatim>\<open>iter.Pull\<close> of an index iterator is the list of the views still to come.
  A cache is a record of operations over a state that the calls thread. \<^verbatim>\<open>singleflight\<close> runs the
  function of one caller; what other goroutines do to the cache between the first lookup and that
  function is the argument \<open>race\<close>.
\<close>

section \<open>Definitions\<close>

record 'c Blob =
  b_idx :: Index
  b_indexData :: bytes
  b_reader :: Reader
  b_maxFileSize :: u64
  b_maxDecoderMemory :: u64
  b_decoderConcurrencySet :: bool
  b_decoderConcurrency :: int
  b_decoderLowmemSet :: bool
  b_decoderLowmem :: bool
  b_verifyOnClose :: bool
  b_cache :: "'c Cache option"

definition Blob_WithMaxFileSize :: "u64 \<Rightarrow> 'c Blob \<Rightarrow> 'c Blob" where
  "Blob_WithMaxFileSize limit b = b\<lparr>b_maxFileSize := limit\<rparr>"

definition Blob_WithMaxDecoderMemory :: "u64 \<Rightarrow> 'c Blob \<Rightarrow> 'c Blob" where
  "Blob_WithMaxDecoderMemory limit b = b\<lparr>b_maxDecoderMemory := limit\<rparr>"

definition Blob_WithDecoderConcurrency :: "int \<Rightarrow> 'c Blob \<Rightarrow> 'c Blob" where
  "Blob_WithDecoderConcurrency n b =
     b\<lparr>b_decoderConcurrency := (if n < 0 then 0 else n), b_decoderConcurrencySet := True\<rparr>"

definition Blob_WithDecoderLowmem :: "bool \<Rightarrow> 'c Blob \<Rightarrow> 'c Blob" where
  "Blob_WithDecoderLowmem enabled b = b\<lparr>b_decoderLowmem := enabled, b_decoderLowmemSet := True\<rparr>"

definition WithVerifyOnClose :: "bool \<Rightarrow> 'c Blob \<Rightarrow> 'c Blob" where
  "WithVerifyOnClose enabled b = b\<lparr>b_verifyOnClose := enabled\<rparr>"

definition WithCache :: "'c Cache \<Rightarrow> 'c Blob \<Rightarrow> 'c Blob" where
  "WithCache c b = b\<lparr>b_cache := Some c\<rparr>"

definition Blob_New ::
  "(bytes \<Rightarrow> string + fb_index option) \<Rightarrow> bytes \<Rightarrow> source \<Rightarrow> ('c Blob \<Rightarrow> 'c Blob) list \<Rightarrow> 'c Blob res" where
  "Blob_New get_root indexData source opts =
     bindE (Load get_root indexData) (\<lambda>idx.
       let b = fold (\<lambda>opt b. opt b) opts
             \<lparr>b_idx = idx, b_indexData = indexData, b_reader = NewReader source [],
              b_maxFileSize = DefaultMaxFileSize, b_maxDecoderMemory = DefaultMaxDecoderMemory,
              b_decoderConcurrencySet = False, b_decoderConcurrency = 0, b_decoderLowmemSet = False,
              b_decoderLowmem = False, b_verifyOnClose = True, b_cache = None\<rparr>;
           readerOpts = [WithMaxFileSize (b_maxFileSize b), WithMaxDecoderMemory (b_maxDecoderMemory b)]
             @ (if b_decoderConcurrencySet b then [WithDecoderConcurrency (b_decoderConcurrency b)] else [])
             @ (if b_decoderLowmemSet b then [WithDecoderLowmem (b_decoderLowmem b)] else [])
       in Inr (b\<lparr>b_reader := NewReader source readerOpts\<rparr>))"

subsection \<open>Directories\<close>

definition isDir :: "'c Blob \<Rightarrow> string \<Rightarrow> bool" where
  "isDir b name =
     (if name = ''.'' then Len (b_idx b) > 0
      else EntriesWithPrefixView (b_idx b) (name @ ''/'') \<noteq> [])"

record dirIter =
  di_next :: "fb_entry list"
  di_prefix :: string
  di_lastName :: string
  di_done :: bool

definition newDirIter :: "Index \<Rightarrow> string \<Rightarrow> dirIter" where
  "newDirIter idx pre =
     \<lparr>di_next = EntriesWithPrefixView idx pre, di_prefix = pre, di_lastName = [], di_done = False\<rparr>"

definition dirIter_Close :: "dirIter \<Rightarrow> dirIter" where
  "dirIter_Close it = (if di_done it then it else it\<lparr>di_done := True, di_next := []\<rparr>)"

text \<open>The zero \<^verbatim>\<open>file.Info{}\<close>.\<close>

definition zero_info :: Info where
  "zero_info =
     \<lparr>i_entry = \<lparr>Path = [], DataOffset = 0, DataSize = 0, OriginalSize = 0, Hash = [], Mode = 0, UID = 0, GID = 0,
                 ModTime = 0, Compression = CompressionNone\<rparr>, i_name = [], i_size = 0\<rparr>"

definition child_entry :: "fb_entry \<Rightarrow> string \<Rightarrow> bool \<Rightarrow> DirEntry" where
  "child_entry view childName isSubDir =
     (if isSubDir then NewDirEntry (NewDirInfo childName) None
      else case NewInfo (EntryFromViewWithPath view (fb_path view)) childName of
        Inl err \<Rightarrow> NewDirEntry (FileI zero_info) (Some err)
      | Inr info \<Rightarrow> NewDirEntry (FileI info) None)"

text \<open>The loop of \<^verbatim>\<open>Next\<close> over the views: it skips views of the child returned last.\<close>

fun next_child :: "string \<Rightarrow> string \<Rightarrow> fb_entry list \<Rightarrow> (DirEntry \<times> string \<times> fb_entry list) option" where
  "next_child pre lastName [] = None"
| "next_child pre lastName (view # views) =
     (let (childName, isSubDir) = Child (fb_path view) pre
      in if childName = lastName then next_child pre lastName views
         else Some (child_entry view childName isSubDir, childName, views))"

definition dirIter_Next :: "dirIter \<Rightarrow> DirEntry option \<times> dirIter" where
  "dirIter_Next it =
     (if di_done it then (None, it)
      else case next_child (di_prefix it) (di_lastName it) (di_next it) of
        None \<Rightarrow> (None, dirIter_Close it)
      | Some (e, childName, views) \<Rightarrow> (Some e, it\<lparr>di_next := views, di_lastName := childName\<rparr>))"

lemma next_child_shorter: "next_child pre l vs = Some (e, c, vs') \<Longrightarrow> length vs' < length vs"
  by (induction vs) (auto simp: Let_def split: prod.splits if_splits)

lemma dirIter_Next_decreases: "dirIter_Next it = (Some e, it') \<Longrightarrow> length (di_next it') < length (di_next it)"
  by (auto simp: dirIter_Next_def dest: next_child_shorter split: if_splits option.splits)

text \<open>\<^verbatim>\<open>readAll\<close>, which is also the loop of \<^verbatim>\<open>Blob.ReadDir\<close>.\<close>

function dir_readAll :: "dirIter \<Rightarrow> DirEntry list \<times> dirIter" where
  "dir_readAll it =
     (case dirIter_Next it of
        (None, it') \<Rightarrow> ([], it')
      | (Some e, it') \<Rightarrow> (case dir_readAll it' of (es, it'') \<Rightarrow> (e # es, it'')))"
  by pat_completeness auto
termination
  by (relation "measure (\<lambda>it. length (di_next it))") (auto dest: dirIter_Next_decreases [OF sym])

declare dir_readAll.simps [simp del]

definition Blob_ReadDir :: "'c Blob \<Rightarrow> string \<Rightarrow> DirEntry list res" where
  "Blob_ReadDir b name =
     (if \<not> valid_path name then Inl (PathError ''readdir'' name ErrInvalid)
      else
        let entries = fst (dir_readAll (newDirIter (b_idx b) (DirPrefix name)))
        in if length entries = 0 \<and> name \<noteq> ''.'' then Inl (PathError ''readdir'' name ErrNotExist)
           else Inr entries)"

record openDir =
  od_idx :: Index
  od_name :: string
  od_iter :: "dirIter option"

definition openDir_Read :: "openDir \<Rightarrow> nat \<Rightarrow> bytes \<times> err option" where
  "openDir_Read d n = ([], Some (PathError ''read'' (od_name d) ErrInvalid))"

definition openDir_Stat :: "openDir \<Rightarrow> FileInfo" where
  "openDir_Stat d = NewDirInfo (if od_name d = ''.'' then ''.'' else Base (od_name d))"

definition openDir_Close :: "openDir \<Rightarrow> err option \<times> openDir" where
  "openDir_Close d = (None, d\<lparr>od_iter := None\<rparr>)"

text \<open>The loop of \<^verbatim>\<open>ReadDir(n)\<close> for positive \<open>n\<close>: up to \<open>n\<close> more entries.\<close>

fun dir_take :: "nat \<Rightarrow> dirIter \<Rightarrow> DirEntry list \<times> bool \<times> dirIter" where
  "dir_take 0 it = ([], False, it)"
| "dir_take (Suc n) it =
     (case dirIter_Next it of
        (None, it') \<Rightarrow> ([], True, it')
      | (Some e, it') \<Rightarrow> (case dir_take n it' of (es, ended, it'') \<Rightarrow> (e # es, ended, it'')))"

definition openDir_ReadDir :: "openDir \<Rightarrow> int \<Rightarrow> (DirEntry list \<times> err option) \<times> openDir" where
  "openDir_ReadDir d n =
     (let it = (case od_iter d of Some it \<Rightarrow> it | None \<Rightarrow> newDirIter (od_idx d) (DirPrefix (od_name d)))
      in if n \<le> 0 then (case dir_readAll it of (es, it') \<Rightarrow> ((es, None), d\<lparr>od_iter := Some it'\<rparr>))
         else case dir_take (nat n) it of
           (es, ended, it') \<Rightarrow> ((es, if ended \<and> es = [] then Some EOF else None), d\<lparr>od_iter := Some it'\<rparr>))"

subsection \<open>Files\<close>

definition Blob_Stat :: "'c Blob \<Rightarrow> string \<Rightarrow> FileInfo res" where
  "Blob_Stat b name =
     (if \<not> valid_path name then Inl (PathError ''stat'' name ErrInvalid)
      else case LookupView (b_idx b) name of
        Some view \<Rightarrow>
          (case NewInfo (EntryFromViewWithPath view name) (Base name) of
             Inl err \<Rightarrow> Inl (PathError ''stat'' name err)
           | Inr info \<Rightarrow> Inr (FileI info))
      | None \<Rightarrow>
          if isDir b name then Inr (NewDirInfo (if name = ''.'' then ''.'' else Base name))
          else Inl (PathError ''stat'' name ErrNotExist))"

definition IsDir :: "'c Blob \<Rightarrow> string \<Rightarrow> bool" where
  "IsDir b path = (let path = NormalizePath path in valid_path path \<and> isDir b path)"

definition IsFile :: "'c Blob \<Rightarrow> string \<Rightarrow> bool" where
  "IsFile b path =
     (let path = NormalizePath path
      in valid_path path \<and>
         (case LookupView (b_idx b) path of None \<Rightarrow> False | Some view \<Rightarrow> mode_is_regular (fb_mode view)))"

definition Exists :: "'c Blob \<Rightarrow> string \<Rightarrow> bool" where
  "Exists b path =
     (let path = NormalizePath path in valid_path path \<and> (IsFile b path \<or> IsDir b path))"

text \<open>A \<^verbatim>\<open>ValidationError\<close> is its path and its reason.\<close>

record ValidationError =
  ve_Path :: string
  ve_Reason :: string

definition ValidationError_Error :: "ValidationError \<Rightarrow> string" where
  "ValidationError_Error e = ve_Reason e @ '': '' @ ve_Path e"

fun ValidateFiles :: "'c Blob \<Rightarrow> string list \<Rightarrow> ValidationError + string list" where
  "ValidateFiles b [] = Inr []"
| "ValidateFiles b (path # paths) =
     (let p = NormalizePath path
      in if \<not> valid_path p then Inl \<lparr>ve_Path = path, ve_Reason = ''invalid path''\<rparr>
         else case LookupView (b_idx b) p of
           None \<Rightarrow>
             if isDir b p then Inl \<lparr>ve_Path = path, ve_Reason = ''is a directory''\<rparr>
             else Inl \<lparr>ve_Path = path, ve_Reason = ''not found''\<rparr>
         | Some view \<Rightarrow>
             if \<not> mode_is_regular (fb_mode view) then Inl \<lparr>ve_Path = path, ve_Reason = ''not a regular file''\<rparr>
             else bindE (ValidateFiles b paths) (\<lambda>ps. Inr (p # ps)))"

text \<open>
  \<^verbatim>\<open>ensureCached\<close>; the stream of the opened file is what \<^verbatim>\<open>Put\<close> reads from it.
\<close>

definition ensureCached ::
  "(bytes \<Rightarrow> bytes) \<Rightarrow> zstd_lib \<Rightarrow> ('c \<Rightarrow> 'c) \<Rightarrow> 'c Blob \<Rightarrow> 'c Cache \<Rightarrow> Entry \<Rightarrow> 'c \<Rightarrow> err option \<times> 'c" where
  "ensureCached sha256 Z race b ca entry c =
     (let c = race c
      in case ca_Get ca c (Hash entry) of
           Some f \<Rightarrow> (None, c)
         | None \<Rightarrow> ca_Put ca (Hash entry) (fst (file_stream sha256 Z (OpenFile (b_reader b) entry True))) c)"

datatype opened = OFile File | OCached cachedFile | ODir openDir

definition Blob_Open ::
  "(bytes \<Rightarrow> bytes) \<Rightarrow> zstd_lib \<Rightarrow> ('c \<Rightarrow> 'c) \<Rightarrow> 'c Blob \<Rightarrow> string \<Rightarrow> 'c \<Rightarrow> opened res \<times> 'c" where
  "Blob_Open sha256 Z race b name c =
     (if \<not> valid_path name then (Inl (PathError ''open'' name ErrInvalid), c)
      else case LookupView (b_idx b) name of
        Some view \<Rightarrow>
          (let entry = EntryFromViewWithPath view name
           in case b_cache b of
                None \<Rightarrow> (Inr (OFile (OpenFile (b_reader b) entry (b_verifyOnClose b))), c)
              | Some ca \<Rightarrow>
                  (case ca_Get ca c (Hash entry) of
                     Some f \<Rightarrow> (Inr (OCached (newCachedFile f entry (b_verifyOnClose b))), c)
                   | None \<Rightarrow>
                       (case ensureCached sha256 Z race b ca entry c of
                          (Some err, c) \<Rightarrow> (Inl (PathError ''open'' name err), c)
                        | (None, c) \<Rightarrow>
                            (case ca_Get ca c (Hash entry) of
                               Some f \<Rightarrow> (Inr (OCached (newCachedFile f entry (b_verifyOnClose b))), c)
                             | None \<Rightarrow> (Inr (OFile (OpenFile (b_reader b) entry (b_verifyOnClose b))), c)))))
      | None \<Rightarrow>
          if isDir b name then (Inr (ODir \<lparr>od_idx = b_idx b, od_name = name, od_iter = None\<rparr>), c)
          else (Inl (PathError ''open'' name ErrNotExist), c))"

text \<open>\<^verbatim>\<open>io.ReadAll\<close>.\<close>

definition io_ReadAll :: "reader \<Rightarrow> bytes res" where
  "io_ReadAll f = (let st = rd_stream f in if s_end st = EOF then Inr (s_data st) else Inl (s_end st))"

definition Blob_ReadFile ::
  "(bytes \<Rightarrow> bytes) \<Rightarrow> zstd_lib \<Rightarrow> ('c \<Rightarrow> 'c) \<Rightarrow> 'c Blob \<Rightarrow> string \<Rightarrow> 'c \<Rightarrow> bytes res \<times> 'c" where
  "Blob_ReadFile sha256 Z race b name c =
     (if \<not> valid_path name then (Inl (PathError ''readfile'' name ErrInvalid), c)
      else case LookupView (b_idx b) name of
        None \<Rightarrow> (Inl (PathError ''readfile'' name ErrNotExist), c)
      | Some view \<Rightarrow>
          (let entry = EntryFromViewWithPath view name
           in case b_cache b of
                None \<Rightarrow> (ReadAll sha256 Z (b_reader b) entry, c)
              | Some ca \<Rightarrow>
                  (case ca_Get ca c (Hash entry) of
                     Some f \<Rightarrow>
                       (case io_ReadAll f of
                          Inl err \<Rightarrow> (Inl err, c)
                        | Inr content \<Rightarrow>
                            if sha256 content \<noteq> Hash entry then (Inl ErrHashMismatch, snd (ca_Delete ca (Hash entry) c))
                            else (Inr content, c))
                   | None \<Rightarrow>
                       (let c = race c
                        in case ca_Get ca c (Hash entry) of
                             Some f \<Rightarrow> (io_ReadAll f, c)
                           | None \<Rightarrow>
                               (case ReadAll sha256 Z (b_reader b) entry of
                                  Inl err \<Rightarrow> (Inl err, c)
                                | Inr content \<Rightarrow> (Inr content, snd (ca_Put ca (Hash entry) (bytesFile content) c)))))))"

subsection \<open>Accessors and statistics\<close>

definition Blob_Entry :: "'c Blob \<Rightarrow> string \<Rightarrow> fb_entry option" where
  "Blob_Entry b path = LookupView (b_idx b) path"

definition Blob_Entries :: "'c Blob \<Rightarrow> fb_entry list" where
  "Blob_Entries b = EntriesView (b_idx b)"

definition Blob_EntriesWithPrefix :: "'c Blob \<Rightarrow> string \<Rightarrow> fb_entry list" where
  "Blob_EntriesWithPrefix b pre = EntriesWithPrefixView (b_idx b) pre"

definition Blob_Stream :: "'c Blob \<Rightarrow> reader" where
  "Blob_Stream b = NewSectionReader (src_at (r_source (b_reader b))) 0 (src_size (r_source (b_reader b)))"

definition Blob_Reader :: "'c Blob \<Rightarrow> Reader" where
  "Blob_Reader b = b_reader b"

definition Blob_IndexData :: "'c Blob \<Rightarrow> bytes" where
  "Blob_IndexData b = b_indexData b"

definition Blob_DataHash :: "'c Blob \<Rightarrow> bytes option" where
  "Blob_DataHash b = DataHash (b_idx b)"

definition Blob_DataSize :: "'c Blob \<Rightarrow> u64 option" where
  "Blob_DataSize b = Index_DataSize (b_idx b)"

definition Blob_Size :: "'c Blob \<Rightarrow> i64" where
  "Blob_Size b = src_size (r_source (b_reader b))"

definition Blob_Len :: "'c Blob \<Rightarrow> nat" where
  "Blob_Len b = Len (b_idx b)"

record DirStats =
  ds_FileCount :: int
  ds_TotalBytes :: u64
  ds_CompressedBytes :: u64

definition dir_stats_loop :: "fb_entry list \<Rightarrow> DirStats" where
  "dir_stats_loop views =
     fold (\<lambda>view st. if mode_is_regular (fb_mode view)
                    then st\<lparr>ds_FileCount := ds_FileCount st + 1,
                            ds_TotalBytes := ds_TotalBytes st + fb_original_size view,
                            ds_CompressedBytes := ds_CompressedBytes st + fb_data_size view\<rparr>
                    else st) views \<lparr>ds_FileCount = 0, ds_TotalBytes = 0, ds_CompressedBytes = 0\<rparr>"

definition Blob_DirStats :: "'c Blob \<Rightarrow> string \<Rightarrow> DirStats" where
  "Blob_DirStats b pre =
     (let pre = NormalizePath pre
      in if \<not> valid_path pre then \<lparr>ds_FileCount = 0, ds_TotalBytes = 0, ds_CompressedBytes = 0\<rparr>
         else case (if pre \<noteq> ''.'' then LookupView (b_idx b) pre else None) of
           Some view \<Rightarrow>
             if mode_is_regular (fb_mode view)
             then \<lparr>ds_FileCount = 1, ds_TotalBytes = fb_original_size view, ds_CompressedBytes = fb_data_size view\<rparr>
             else dir_stats_loop (EntriesWithPrefixView (b_idx b) (DirPrefix pre))
         | None \<Rightarrow> dir_stats_loop (EntriesWithPrefixView (b_idx b) (DirPrefix pre)))"

subsection \<open>Selecting entries to copy\<close>

definition collectPathEntries :: "'c Blob \<Rightarrow> string list \<Rightarrow> Entry list" where
  "collectPathEntries b paths =
     List.map_filter (\<lambda>path.
       if \<not> valid_path path then None
       else map_option (\<lambda>view. EntryFromViewWithPath view path) (LookupView (b_idx b) path)) paths"

definition collectPrefixEntries :: "'c Blob \<Rightarrow> string \<Rightarrow> Entry list" where
  "collectPrefixEntries b pre =
     (if pre \<noteq> [] \<and> pre \<noteq> ''.'' \<and> \<not> valid_path pre then []
      else let dirPrefix = (if pre = [] \<or> pre = ''.'' then [] else DirPrefix pre)
           in map (\<lambda>view. EntryFromViewWithPath view (fb_path view)) (EntriesWithPrefixView (b_idx b) dirPrefix))"

section \<open>Directory listings\<close>

text \<open>The children in one pass over the views.\<close>

fun children :: "string \<Rightarrow> string \<Rightarrow> fb_entry list \<Rightarrow> DirEntry list" where
  "children pre lastName [] = []"
| "children pre lastName (view # views) =
     (let (childName, isSubDir) = Child (fb_path view) pre
      in if childName = lastName then children pre lastName views
         else child_entry view childName isSubDir # children pre childName views)"

lemma next_child_children:
  "children pre l vs = (case next_child pre l vs of None \<Rightarrow> [] | Some (e, c, vs') \<Rightarrow> e # children pre c vs')"
  by (induction vs) (auto simp: Let_def split: prod.splits)

lemma dir_readAll_children:
  "\<not> di_done it \<Longrightarrow> fst (dir_readAll it) = children (di_prefix it) (di_lastName it) (di_next it)"
proof (induction it rule: dir_readAll.induct)
  case (1 it)
  show ?case
  proof (cases "next_child (di_prefix it) (di_lastName it) (di_next it)")
    case None
    with 1 show ?thesis
      by (subst dir_readAll.simps) (auto simp: dirIter_Next_def next_child_children [of _ _ "di_next it"])
  next
    case (Some x)
    then obtain e c vs where x: "next_child (di_prefix it) (di_lastName it) (di_next it) = Some (e, c, vs)" by (cases x) auto
    then have n: "dirIter_Next it = (Some e, it\<lparr>di_next := vs, di_lastName := c\<rparr>)" using 1 by (simp add: dirIter_Next_def)
    have "fst (dir_readAll (it\<lparr>di_next := vs, di_lastName := c\<rparr>)) = children (di_prefix it) c vs"
      using "1.IH" [OF n [symmetric] refl] "1.prems" by simp
    then show ?thesis using n x
      by (subst dir_readAll.simps) (auto simp: next_child_children [of _ _ "di_next it"] split: prod.splits)
  qed
qed

text \<open>Reading a directory in pages gives the same entries.\<close>

lemma dir_take_readAll:
  "dir_take n it = (es, ended, it') \<Longrightarrow> es @ fst (dir_readAll it') = fst (dir_readAll it) \<and> length es \<le> n \<and>
   (ended \<longrightarrow> fst (dir_readAll it') = []) \<and> (\<not> ended \<longrightarrow> length es = n)"
proof (induction n arbitrary: it es ended it')
  case (Suc n)
  obtain x it1 where nx: "dirIter_Next it = (x, it1)" by fastforce
  show ?case
  proof (cases x)
    case None
    then have "di_done it1" using nx by (auto simp: dirIter_Next_def dirIter_Close_def split: if_splits option.splits)
    then have "dir_readAll it1 = ([], it1)" by (subst dir_readAll.simps) (simp add: dirIter_Next_def)
    with None nx Suc.prems show ?thesis by (subst (2) dir_readAll.simps) auto
  next
    case (Some e)
    obtain es' en it2 where t: "dir_take n it1 = (es', en, it2)" by (metis prod.exhaust)
    from Suc.IH [OF t] Some nx t Suc.prems show ?thesis
      by (subst (2) dir_readAll.simps) (auto split: prod.splits)
  qed
qed auto

text \<open>The first element of a relative path, with a slash when more follows: the key of a child.\<close>

fun child_key :: "string \<Rightarrow> string" where
  "child_key [] = []"
| "child_key (x # r) = x # (if x = slash then [] else child_key r)"

lemma child_key_mono: "a \<le> b \<Longrightarrow> child_key a \<le> child_key b"
proof (induction a arbitrary: b rule: child_key.induct)
  case (2 x r)
  then obtain y s where b: "b = y # s" by (cases b) auto
  with 2 show ?case by auto
qed simp

lemma child_key_eq: "child_key r = takeWhile (\<lambda>c. c \<noteq> slash) r @ (if slash \<in> set r then ''/'' else [])"
  by (induction r rule: child_key.induct) auto

definition view_key :: "string \<Rightarrow> fb_entry \<Rightarrow> string" where
  "view_key pre v = child_key (drop (length pre) (fb_path v))"

definition entry_key :: "DirEntry \<Rightarrow> string" where
  "entry_key e = de_Name e @ (if de_IsDir e then ''/'' else [])"

lemma Child_key:
  assumes "prefix pre (fb_path v)" "Child (fb_path v) pre = (n, d)"
  shows "view_key pre v = n @ (if d then ''/'' else [])" "slash \<notin> set n"
proof -
  obtain r where r: "fb_path v = pre @ r" using assms(1) by (auto simp: prefix_def)
  with assms(2) show "view_key pre v = n @ (if d then ''/'' else [])" "slash \<notin> set n"
    by (auto simp: Child_append view_key_def child_key_eq dest: set_takeWhileD)
qed

text \<open>
  The entries of a directory of a well-formed archive: the paths have no empty elements, no path is a
  file and a directory, and the sizes fit.
\<close>

definition dir_ok :: "string \<Rightarrow> fb_entry list \<Rightarrow> bool" where
  "dir_ok pre vs \<longleftrightarrow>
     (\<forall>v\<in>set vs. prefix pre (fb_path v) \<and> fst (Child (fb_path v) pre) \<noteq> [] \<and> uint (fb_original_size v) \<le> MaxInt64) \<and>
     (\<forall>v\<in>set vs. \<forall>w\<in>set vs. fst (Child (fb_path v) pre) = fst (Child (fb_path w) pre) \<longrightarrow> view_key pre v = view_key pre w)"

lemma child_entry_key:
  assumes "uint (fb_original_size v) \<le> MaxInt64"
  shows "entry_key (child_entry v n d) = n @ (if d then ''/'' else [])"
proof -
  have "ToInt64 (fb_original_size v) ErrSizeOverflow = Inr (uint (fb_original_size v))" using assms by (simp add: ToInt64_Inr_iff)
  then show ?thesis
    by (simp add: entry_key_def child_entry_def NewInfo_def NewDirEntry_def NewDirInfo_def de_Name_def de_IsDir_def)
qed

lemma dir_ok_subset: "dir_ok pre vs \<Longrightarrow> set ws \<subseteq> set vs \<Longrightarrow> dir_ok pre ws"
  unfolding dir_ok_def by blast

lemma children_keys:
  "dir_ok pre (u # vs) \<Longrightarrow> view_key pre u # map entry_key (children pre (fst (Child (fb_path u) pre)) vs) =
   remdups_adj (map (view_key pre) (u # vs))"
proof (induction vs arbitrary: u)
  case (Cons v vs)
  have ok: "dir_ok pre (u # vs)" "dir_ok pre (v # vs)"
    by (rule dir_ok_subset [OF Cons.prems], auto)+
  obtain n d where c: "Child (fb_path v) pre = (n, d)" by fastforce
  have v: "prefix pre (fb_path v)" "uint (fb_original_size v) \<le> MaxInt64" using Cons.prems by (auto simp: dir_ok_def)
  have k: "n = fst (Child (fb_path u) pre) \<longleftrightarrow> view_key pre v = view_key pre u"
  proof
    show "n = fst (Child (fb_path u) pre) \<Longrightarrow> view_key pre v = view_key pre u"
      using Cons.prems c unfolding dir_ok_def by (metis fst_conv list.set_intros)
    assume e: "view_key pre v = view_key pre u"
    obtain m b where cu: "Child (fb_path u) pre = (m, b)" by fastforce
    have "prefix pre (fb_path u)" using Cons.prems by (auto simp: dir_ok_def)
    from Child_key [OF v(1) c] Child_key [OF this cu] e show "n = fst (Child (fb_path u) pre)"
      by (cases d; cases b) (auto simp: cu)
  qed
  show ?case
  proof (cases "n = fst (Child (fb_path u) pre)")
    case True
    then show ?thesis using Cons.IH [OF ok(1)] c k by (simp add: Let_def)
  next
    case False
    then show ?thesis
      using Cons.IH [OF ok(2)] c k child_entry_key [OF v(2), of n d] Child_key(1) [OF v(1) c] by (simp add: Let_def)
  qed
qed simp

lemma children_all: "dir_ok pre vs \<Longrightarrow> map entry_key (children pre [] vs) = remdups_adj (map (view_key pre) vs)"
proof (cases vs)
  case (Cons u us)
  assume ok: "dir_ok pre vs"
  obtain n d where c: "Child (fb_path u) pre = (n, d)" by fastforce
  have u: "prefix pre (fb_path u)" "n \<noteq> []" "uint (fb_original_size u) \<le> MaxInt64" using ok c by (auto simp: dir_ok_def Cons)
  show ?thesis
    using children_keys [of pre u us] ok u(2) c child_entry_key [OF u(3), of n d] Child_key(1) [OF u(1) c]
    by (simp add: Cons)
qed simp

lemma view_key_sorted:
  assumes "sorted (map fb_path vs)" "\<forall>v\<in>set vs. prefix pre (fb_path v)"
  shows "sorted (map (view_key pre) vs)"
proof -
  have "view_key pre v \<le> view_key pre w" if vw: "v \<in> set vs" "w \<in> set vs" "fb_path v \<le> fb_path w" for v w
  proof -
    obtain a b where "fb_path v = pre @ a" "fb_path w = pre @ b" using vw assms(2) by (metis prefix_def)
    then show ?thesis using vw(3) child_key_mono by (simp add: view_key_def)
  qed
  then show ?thesis using assms(1) unfolding sorted_map by (auto intro: sorted_wrt_mono_rel [rotated])
qed

lemma distinct_remdups_adj: "sorted xs \<Longrightarrow> distinct (remdups_adj (xs :: 'a :: linorder list))"
  by (induction xs rule: remdups_adj.induct) auto


text \<open>A listing on a sorted index: the keys of the children, each once, in the order of the keys.\<close>

definition under :: "'c Blob \<Rightarrow> string \<Rightarrow> fb_entry list" where
  "under b name = filter (\<lambda>e. prefix (DirPrefix name) (fb_path e)) (EntriesView (b_idx b))"

lemma ReadDir_eq:
  assumes "index_sorted (b_idx b)" "valid_path name" "dir_ok (DirPrefix name) (under b name)"
  shows "Blob_ReadDir b name =
    (if under b name = [] \<and> name \<noteq> ''.'' then Inl (PathError ''readdir'' name ErrNotExist)
     else Inr (children (DirPrefix name) [] (under b name)))"
proof -
  have "children (DirPrefix name) [] (under b name) = [] \<longleftrightarrow> under b name = []"
    using children_all [OF assms(3)] by (metis list.map_disc_iff remdups_adj_Nil_iff)
  moreover have "fst (dir_readAll (newDirIter (b_idx b) (DirPrefix name))) = children (DirPrefix name) [] (under b name)"
    by (simp add: dir_readAll_children newDirIter_def EntriesWithPrefixView_eq [OF assms(1)] under_def)
  ultimately show ?thesis using assms(2) by (simp add: Blob_ReadDir_def Let_def)
qed

lemma listing_keys:
  assumes "index_sorted (b_idx b)" "dir_ok (DirPrefix name) (under b name)"
  shows "sorted_wrt (<) (map entry_key (children (DirPrefix name) [] (under b name))) \<and>
    set (map entry_key (children (DirPrefix name) [] (under b name))) = view_key (DirPrefix name) ` set (under b name)"
proof -
  have "sorted (map fb_path (under b name))"
    using idx.prefix_sorted [OF assms(1)] idx.prefix_complete [OF assms(1)] by (simp add: under_def)
  then have "sorted (map (view_key (DirPrefix name)) (under b name))" by (rule view_key_sorted) (simp add: under_def)
  then show ?thesis unfolding children_all [OF assms(2)] strict_sorted_iff
    using distinct_remdups_adj sorted_remdups_adj by (metis list.set_map remdups_adj_set)
qed

lemma isDir_iff:
  assumes "index_sorted (b_idx b)" "valid_path name"
  shows "isDir b name \<longleftrightarrow> under b name \<noteq> []"
proof (cases "name = ''.''")
  case True
  then show ?thesis by (simp add: isDir_def under_def DirPrefix_def Len_EntriesView)
next
  case False
  then show ?thesis using assms(1) by (simp add: isDir_def under_def DirPrefix_def EntriesWithPrefixView_eq)
qed

section \<open>Reads through a cache\<close>

context content_cache
begin

lemma ensureCached_sound:
  assumes "sound sha256 c" "\<And>c. sound sha256 c \<Longrightarrow> sound sha256 (race c)" "ensureCached sha256 Z race b ca e c = (x, c')"
  shows "sound sha256 c'"
proof (cases "ca_Get ca (race c) (Hash e)")
  case None
  obtain st f where st: "file_stream sha256 Z (OpenFile (b_reader b) e True) = (st, f)" by fastforce
  have "s_end st = EOF \<longrightarrow> sha256 (s_data st) = Hash e" using file_stream_inv [OF OpenFile_inv st] by simp
  with None assms st show ?thesis using Put_sound [of sha256 "race c" st "Hash e" x c'] by (simp add: ensureCached_def Let_def)
qed (use assms in \<open>auto simp: ensureCached_def Let_def\<close>)

lemma Open_sound:
  assumes "sound sha256 c" "\<And>c. sound sha256 c \<Longrightarrow> sound sha256 (race c)" "b_cache b = Some ca"
    "Blob_Open sha256 Z race b name c = (x, c')"
  shows "sound sha256 c'"
proof (cases "valid_path name \<and> (\<exists>v. LookupView (b_idx b) name = Some v \<and> ca_Get ca c (fb_hash v) = None)")
  case True
  then obtain v where v: "valid_path name" "LookupView (b_idx b) name = Some v" "ca_Get ca c (fb_hash v) = None" by blast
  obtain y c1 where e: "ensureCached sha256 Z race b ca (EntryFromViewWithPath v name) c = (y, c1)" by fastforce
  have "c' = c1" using assms(3,4) v e by (cases y) (auto simp: Blob_Open_def Let_def split: option.splits)
  then show ?thesis using ensureCached_sound [OF assms(1,2) e] by simp
next
  case False
  then have "c' = c" using assms(3,4) by (auto simp: Blob_Open_def Let_def split: if_splits option.splits)
  then show ?thesis using assms(1) by simp
qed

lemma io_ReadAll_delivers: "delivers r d \<Longrightarrow> io_ReadAll r = Inr d"
  by (simp add: io_ReadAll_def delivers_def rd_stream_ok)

lemma Get_content:
  "sound sha256 c \<Longrightarrow> ca_Get ca c h = Some r \<Longrightarrow> io_ReadAll r = Inr d \<Longrightarrow> sha256 d = h"
  using io_ReadAll_delivers by (fastforce simp: sound_def)

lemma ReadFile_sound:
  assumes "sound sha256 c" "\<And>c. sound sha256 c \<Longrightarrow> sound sha256 (race c)" "b_cache b = Some ca"
    "src_size (r_source (b_reader b)) < 2 ^ 63" "Blob_ReadFile sha256 Z race b name c = (x, c')"
  shows "sound sha256 c' \<and> (\<forall>d. x = Inr d \<longrightarrow> (\<exists>v. LookupView (b_idx b) name = Some v \<and> sha256 d = fb_hash v))"
proof (cases "valid_path name \<and> (\<exists>v. LookupView (b_idx b) name = Some v)")
  case False
  then show ?thesis using assms(1,5) by (auto simp: Blob_ReadFile_def split: if_splits option.splits)
next
  case True
  then obtain v where v: "valid_path name" "LookupView (b_idx b) name = Some v" by blast
  let ?e = "EntryFromViewWithPath v name"
  show ?thesis
  proof (cases "ca_Get ca c (fb_hash v)")
    case (Some f)
    obtain y c1 where d: "ca_Delete ca (fb_hash v) c = (y, c1)" by fastforce
    have "sound sha256 c1" using Delete_sound [OF assms(1) d] .
    then show ?thesis using assms(1,3,5) v Some d Get_content [OF assms(1) Some]
      by (auto simp: Blob_ReadFile_def Let_def split: sum.splits if_splits)
  next
    case miss: None
    have r: "sound sha256 (race c)" using assms(1,2) by blast
    show ?thesis
    proof (cases "ca_Get ca (race c) (fb_hash v)")
      case (Some f)
      then show ?thesis using assms(3,5) v miss r Get_content [OF r Some] by (auto simp: Blob_ReadFile_def Let_def)
    next
      case None
      have p: "sound sha256 (snd (ca_Put ca (fb_hash v) (bytesFile d) (race c)))" if "sha256 d = fb_hash v" for d
        using Put_sound [OF r, of "bytesFile d" "fb_hash v"] that by (metis bytesFile_def prod.collapse stream.select_convs(1))
      show ?thesis using assms(3,5) v miss None r p ReadAll_verified_aux [OF _ assms(4), of sha256 Z ?e]
        by (auto simp: Blob_ReadFile_def Let_def split: sum.splits)
    qed
  qed
qed

end

end
