(* ===== verification/BlobCopy.thy ===== *)
theory BlobCopy
  imports BlobFS Pipeline DiskCache
begin

text \<open>
  Extraction and saving of \<^verbatim>\<open>core/blob.go\<close>, \<^verbatim>\<open>core/save.go\<close> and \<^verbatim>\<open>core/file.go\<close>: \<^verbatim>\<open>CopyTo\<close>, \<^verbatim>\<open>CopyDir\<close> and
  \<^verbatim>\<open>CopyFile\<close> on top of the batch processor and of \<^verbatim>\<open>Open\<close>, \<^verbatim>\<open>Save\<close> with its atomic writes, and opening
  an archive from its files. A copy through the batch processor is a relation, like \<open>Process\<close>.
  Permissions of created directories and progress reports are left out. \<^verbatim>\<open>filepath.Clean\<close> of a joined
  path with clean arguments is the path.
\<close>

section \<open>Definitions\<close>

subsection \<open>Options\<close>

record copyConfig =
  cc_overwrite :: bool
  cc_preserveMode :: bool
  cc_preserveTimes :: bool
  cc_workers :: int
  cc_readConcurrency :: int
  cc_readConcurrencySet :: bool
  cc_readAheadBytes :: u64
  cc_readAheadBytesSet :: bool
  cc_cleanDest :: bool

definition zero_config :: copyConfig where
  "zero_config = \<lparr>cc_overwrite = False, cc_preserveMode = False, cc_preserveTimes = False, cc_workers = 0,
     cc_readConcurrency = 0, cc_readConcurrencySet = False, cc_readAheadBytes = 0, cc_readAheadBytesSet = False,
     cc_cleanDest = False\<rparr>"

definition defaultCopyReadConcurrency :: int where
  "defaultCopyReadConcurrency = 4"

definition CopyWithOverwrite :: "bool \<Rightarrow> copyConfig \<Rightarrow> copyConfig" where
  "CopyWithOverwrite v c = c\<lparr>cc_overwrite := v\<rparr>"

definition CopyWithPreserveMode :: "bool \<Rightarrow> copyConfig \<Rightarrow> copyConfig" where
  "CopyWithPreserveMode v c = c\<lparr>cc_preserveMode := v\<rparr>"

definition CopyWithPreserveTimes :: "bool \<Rightarrow> copyConfig \<Rightarrow> copyConfig" where
  "CopyWithPreserveTimes v c = c\<lparr>cc_preserveTimes := v\<rparr>"

definition CopyWithCleanDest :: "bool \<Rightarrow> copyConfig \<Rightarrow> copyConfig" where
  "CopyWithCleanDest v c = c\<lparr>cc_cleanDest := v\<rparr>"

definition CopyWithWorkers :: "int \<Rightarrow> copyConfig \<Rightarrow> copyConfig" where
  "CopyWithWorkers n c = c\<lparr>cc_workers := n\<rparr>"

definition CopyWithReadConcurrency :: "int \<Rightarrow> copyConfig \<Rightarrow> copyConfig" where
  "CopyWithReadConcurrency n c =
     c\<lparr>cc_readConcurrency := (if n \<le> 0 then defaultCopyReadConcurrency else n), cc_readConcurrencySet := True\<rparr>"

definition CopyWithReadAheadBytes :: "u64 \<Rightarrow> copyConfig \<Rightarrow> copyConfig" where
  "CopyWithReadAheadBytes limit c = c\<lparr>cc_readAheadBytes := limit, cc_readAheadBytesSet := True\<rparr>"

record CopyStats =
  cs_FileCount :: int
  cs_TotalBytes :: u64
  cs_Skipped :: int

definition no_copy :: CopyStats where
  "no_copy = \<lparr>cs_FileCount = 0, cs_TotalBytes = 0, cs_Skipped = 0\<rparr>"

subsection \<open>Copies through the batch processor\<close>

definition copy_sink :: "string \<Rightarrow> copyConfig \<Rightarrow> FileSink" where
  "copy_sink dest cfg =
     NewFileSink dest
       ([WithOverwrite (cc_overwrite cfg), WithPreserveMode (cc_preserveMode cfg), WithPreserveTimes (cc_preserveTimes cfg)]
        @ (if cc_cleanDest cfg then [WithDirectWrites True] else []))"

definition copy_processor :: "'c Blob \<Rightarrow> copyConfig \<Rightarrow> Processor" where
  "copy_processor b cfg =
     (let readConcurrency = (if \<not> cc_readConcurrencySet cfg then defaultCopyReadConcurrency else cc_readConcurrency cfg)
      in NewProcessor (r_source (b_reader b)) (r_pool (b_reader b)) (b_maxFileSize b)
           ((if cc_workers cfg \<noteq> 0 then [WithWorkers (cc_workers cfg)] else [])
            @ (if readConcurrency \<noteq> 0 then [WithReadConcurrency readConcurrency] else [])
            @ (if cc_readAheadBytesSet cfg then [WithReadAheadBytes (cc_readAheadBytes cfg)] else [])))"

text \<open>The parameters of \<open>Process\<close>: hash, decoder, number of processors, schedule, sorting.\<close>

inductive copyEntries ::
  "(bytes \<Rightarrow> bytes) \<Rightarrow> zstd_lib \<Rightarrow> int \<Rightarrow> schedule \<Rightarrow> (Entry list \<Rightarrow> Entry list) \<Rightarrow> 'c Blob \<Rightarrow> string \<Rightarrow> Entry list \<Rightarrow>
   copyConfig \<Rightarrow> fsys \<Rightarrow> (CopyStats \<times> err option) \<times> fsys \<Rightarrow> bool"
  for sha256 Z mp sched SortFunc b dest entries cfg s where
  copy_none: "entries = [] \<Longrightarrow>
    copyEntries sha256 Z mp sched SortFunc b dest entries cfg s ((no_copy, None), s)"
| copy_invalid: "find (\<lambda>e. \<not> valid_path (Path e)) entries = Some e \<Longrightarrow>
    copyEntries sha256 Z mp sched SortFunc b dest entries cfg s
      ((no_copy, Some (PathError ''copy'' (Path e) ErrInvalid)), s)"
| copy_process: "entries \<noteq> [] \<Longrightarrow> find (\<lambda>e. \<not> valid_path (Path e)) entries = None \<Longrightarrow>
    Process sha256 Z mp sched SortFunc (copy_processor b cfg) (file_sink (copy_sink dest cfg)) entries s ((st, x), s') \<Longrightarrow>
    copyEntries sha256 Z mp sched SortFunc b dest entries cfg s
      ((\<lparr>cs_FileCount = Processed st, cs_TotalBytes = TotalBytes st, cs_Skipped = Skipped st\<rparr>, x), s')"

inductive_cases copyEntriesE: "copyEntries sha256 Z mp sched SortFunc b dest entries cfg s r"

definition CopyTo ::
  "(bytes \<Rightarrow> bytes) \<Rightarrow> zstd_lib \<Rightarrow> int \<Rightarrow> schedule \<Rightarrow> (Entry list \<Rightarrow> Entry list) \<Rightarrow> 'c Blob \<Rightarrow> string \<Rightarrow> string list \<Rightarrow>
   fsys \<Rightarrow> (CopyStats \<times> err option) \<times> fsys \<Rightarrow> bool" where
  "CopyTo sha256 Z mp sched SortFunc b dest paths s r =
     (if length paths = 0 then r = ((no_copy, None), s)
      else copyEntries sha256 Z mp sched SortFunc b dest (collectPathEntries b paths) zero_config s r)"

abbreviation not_clean :: err where
  "not_clean \<equiv> ErrNew ''CopyWithCleanDest is only supported by CopyDir''"

definition CopyToWithOptions ::
  "(bytes \<Rightarrow> bytes) \<Rightarrow> zstd_lib \<Rightarrow> int \<Rightarrow> schedule \<Rightarrow> (Entry list \<Rightarrow> Entry list) \<Rightarrow> 'c Blob \<Rightarrow> string \<Rightarrow> string list \<Rightarrow>
   (copyConfig \<Rightarrow> copyConfig) list \<Rightarrow> fsys \<Rightarrow> (CopyStats \<times> err option) \<times> fsys \<Rightarrow> bool" where
  "CopyToWithOptions sha256 Z mp sched SortFunc b dest paths opts s r =
     (if length paths = 0 then r = ((no_copy, None), s)
      else let cfg = fold (\<lambda>opt c. opt c) opts zero_config
           in if cc_cleanDest cfg then r = ((no_copy, Some not_clean), s)
              else copyEntries sha256 Z mp sched SortFunc b dest (collectPathEntries b paths) cfg s r)"

definition cleanCopyDest :: "string \<Rightarrow> string \<Rightarrow> string res" where
  "cleanCopyDest dest pre =
     (if dest = [] then Inl (ErrNew ''clean destination: destDir is empty'')
      else if pre \<noteq> [] \<and> pre \<noteq> ''.'' \<and> \<not> valid_path pre
      then Inl (Errorf ''clean destination: invalid prefix %q'' [pre] [])
      else let target = (if pre \<noteq> [] \<and> pre \<noteq> ''.'' then join_path dest pre else dest)
           in if target = [] \<or> target = ''.'' \<or> target = ''/''
              then Inl (Errorf ''clean destination: refusing to remove %q'' [target] [])
              else Inr target)"

definition CopyDir ::
  "(bytes \<Rightarrow> bytes) \<Rightarrow> zstd_lib \<Rightarrow> int \<Rightarrow> schedule \<Rightarrow> (Entry list \<Rightarrow> Entry list) \<Rightarrow> 'c Blob \<Rightarrow> string \<Rightarrow> string \<Rightarrow>
   (copyConfig \<Rightarrow> copyConfig) list \<Rightarrow> fsys \<Rightarrow> (CopyStats \<times> err option) \<times> fsys \<Rightarrow> bool" where
  "CopyDir sha256 Z mp sched SortFunc b dest pre opts s r =
     (let cfg = fold (\<lambda>opt c. opt c) opts zero_config
      in if cc_cleanDest cfg then
           (case cleanCopyDest dest pre of
              Inl err \<Rightarrow> r = ((no_copy, Some err), s)
            | Inr target \<Rightarrow>
                (case os_RemoveAll target s of
                   (Some err, s) \<Rightarrow> r = ((no_copy, Some (Wrap (''clean destination '' @ target) err)), s)
                 | (None, s) \<Rightarrow>
                     copyEntries sha256 Z mp sched SortFunc b dest (collectPrefixEntries b pre)
                       (cfg\<lparr>cc_overwrite := True\<rparr>) s r))
         else copyEntries sha256 Z mp sched SortFunc b dest (collectPrefixEntries b pre) cfg s r)"

subsection \<open>Copying one file\<close>

definition applyCopyMetadata :: "string \<Rightarrow> Entry \<Rightarrow> copyConfig \<Rightarrow> fsys \<Rightarrow> err option \<times> fsys" where
  "applyCopyMetadata path entry cfg s =
     (case (if cc_preserveMode cfg then os_Chmod path (mode_perm (Mode entry)) s else (None, s)) of
        (Some err, s) \<Rightarrow> (Some (Wrap ''setting mode'' err), s)
      | (None, s) \<Rightarrow>
          (case (if cc_preserveTimes cfg then os_Chtimes path (ModTime entry) s else (None, s)) of
             (Some err, s) \<Rightarrow> (Some (Wrap ''setting times'' err), s)
           | (None, s) \<Rightarrow> (None, s)))"

text \<open>\<^verbatim>\<open>copyFileAtomic\<close> from the temporary file on; a failure closes (if still open) and removes it.\<close>

definition copy_temp :: "stream \<Rightarrow> string \<Rightarrow> string \<Rightarrow> Entry \<Rightarrow> copyConfig \<Rightarrow> fsys \<Rightarrow> err option \<times> fsys" where
  "copy_temp src destPath tmpPath entry cfg s =
     (case copy_stream tmpPath src s of
        ((n, Some err), s) \<Rightarrow> (Some (Wrap ''copying content'' err), snd (os_Remove tmpPath (snd (os_Close s))))
      | ((n, None), s) \<Rightarrow>
          (case os_Close s of
             (Some err, s) \<Rightarrow> (Some (Wrap ''closing temp file'' err), snd (os_Remove tmpPath s))
           | (None, s) \<Rightarrow>
               (case applyCopyMetadata tmpPath entry cfg s of
                  (Some err, s) \<Rightarrow> (Some err, snd (os_Remove tmpPath s))
                | (None, s) \<Rightarrow>
                    if cc_overwrite cfg \<and> is_dir s destPath
                    then (Some (PathError ''copyfile'' destPath (ErrNew ''is a directory'')), snd (os_Remove tmpPath s))
                    else
                      let s = (if cc_overwrite cfg then snd (os_Remove destPath s) else s)
                      in case os_Rename tmpPath destPath s of
                           (Some err, s) \<Rightarrow> (Some (Wrap ''renaming to destination'' err), snd (os_Remove tmpPath s))
                         | (None, s) \<Rightarrow> (None, s))))"

definition copyFileAtomic :: "stream \<Rightarrow> string \<Rightarrow> Entry \<Rightarrow> copyConfig \<Rightarrow> fsys \<Rightarrow> err option \<times> fsys" where
  "copyFileAtomic src destPath entry cfg s =
     (case os_CreateTemp (dir_of destPath) ''.blob-'' s of
        (Inl err, s) \<Rightarrow> (Some (Wrap ''creating temp file'' err), s)
      | (Inr tmpPath, s) \<Rightarrow> copy_temp src destPath tmpPath entry cfg s)"

text \<open>Everything an opened file delivers; a directory delivers an error.\<close>

definition opened_stream ::
  "(bytes \<Rightarrow> bytes) \<Rightarrow> zstd_lib \<Rightarrow> 'c Cache option \<Rightarrow> opened \<Rightarrow> 'c \<Rightarrow> stream \<times> opened \<times> 'c" where
  "opened_stream sha256 Z ca src c =
     (case src of
        OFile f \<Rightarrow> (case file_stream sha256 Z f of (st, f) \<Rightarrow> (st, OFile f, c))
      | OCached f \<Rightarrow>
          (case ca of
             Some ca \<Rightarrow> (case cached_stream sha256 ca f c of (st, f, c) \<Rightarrow> (st, OCached f, c))
           | None \<Rightarrow> (\<lparr>s_data = [], s_end = EOF\<rparr>, OCached f, c))
      | ODir d \<Rightarrow> (\<lparr>s_data = [], s_end = the (snd (openDir_Read d 1))\<rparr>, ODir d, c))"

text \<open>The deferred \<^verbatim>\<open>Close\<close>, whose error is ignored.\<close>

definition opened_Close ::
  "(bytes \<Rightarrow> bytes) \<Rightarrow> 'c Cache option \<Rightarrow> opened \<Rightarrow> 'c \<Rightarrow> 'c" where
  "opened_Close sha256 ca src c =
     (case (src, ca) of (OCached f, Some ca) \<Rightarrow> snd (snd (cachedFile_Close sha256 ca f c)) | _ \<Rightarrow> c)"

definition CopyFile ::
  "(bytes \<Rightarrow> bytes) \<Rightarrow> zstd_lib \<Rightarrow> ('c \<Rightarrow> 'c) \<Rightarrow> 'c Blob \<Rightarrow> string \<Rightarrow> string \<Rightarrow> (copyConfig \<Rightarrow> copyConfig) list \<Rightarrow>
   'c \<times> fsys \<Rightarrow> (CopyStats \<times> err option) \<times> ('c \<times> fsys)" where
  "CopyFile sha256 Z race b srcPath destPath opts cs =
     (let (c, s) = cs; cfg = fold (\<lambda>opt c. opt c) opts zero_config; srcPath = NormalizePath srcPath
      in if cc_cleanDest cfg then ((no_copy, Some not_clean), cs)
         else if \<not> valid_path srcPath then ((no_copy, Some (PathError ''copyfile'' srcPath ErrInvalid)), cs)
         else case LookupView (b_idx b) srcPath of
           None \<Rightarrow> ((no_copy, Some (PathError ''copyfile'' srcPath ErrNotExist)), cs)
         | Some view \<Rightarrow>
             (let entry = EntryFromViewWithPath view srcPath
              in if mode_is_dir (Mode entry)
                 then ((no_copy, Some (PathError ''copyfile'' srcPath (ErrNew ''cannot copy directory''))), cs)
                 else if \<not> cc_overwrite cfg \<and> fs_exists s destPath
                 then ((no_copy, Some (PathError ''copyfile'' destPath ErrExist)), cs)
                 else (case Blob_Open sha256 Z race b srcPath c of
                   (Inl err, c) \<Rightarrow> ((no_copy, Some err), (c, s))
                 | (Inr src, c) \<Rightarrow>
                     (case opened_stream sha256 Z (b_cache b) src c of
                        (st, src, c) \<Rightarrow>
                          (case copyFileAtomic st destPath entry cfg s of
                             (Some err, s) \<Rightarrow> ((no_copy, Some err), (opened_Close sha256 (b_cache b) src c, s))
                           | (None, s) \<Rightarrow>
                               ((\<lparr>cs_FileCount = 1, cs_TotalBytes = OriginalSize entry, cs_Skipped = 0\<rparr>, None),
                                (opened_Close sha256 (b_cache b) src c, s)))))))"

subsection \<open>Saving and opening an archive\<close>

text \<open>\<^verbatim>\<open>writeFileAtomic\<close> and \<^verbatim>\<open>streamFileAtomic\<close> differ in how the temporary file is filled.\<close>

definition finish_atomic :: "string \<Rightarrow> string \<Rightarrow> fsys \<Rightarrow> err option \<times> fsys" where
  "finish_atomic tmpPath target s =
     (case os_Close s of
        (Some err, s) \<Rightarrow> (Some err, snd (os_Remove tmpPath s))
      | (None, s) \<Rightarrow>
          (case os_Rename tmpPath target s of
             (Some err, s) \<Rightarrow> (Some err, snd (os_Remove tmpPath s))
           | (None, s) \<Rightarrow> (None, s)))"

definition writeFileAtomic :: "string \<Rightarrow> bytes \<Rightarrow> fsys \<Rightarrow> err option \<times> fsys" where
  "writeFileAtomic target data s =
     (case os_CreateTemp (dir_of target) ''.blob-'' s of
        (Inl err, s) \<Rightarrow> (Some err, s)
      | (Inr tmpPath, s) \<Rightarrow>
          (case os_Write tmpPath data s of
             ((n, Some err), s) \<Rightarrow> (Some err, snd (os_Remove tmpPath (snd (os_Close s))))
           | ((n, None), s) \<Rightarrow> finish_atomic tmpPath target s))"

definition streamFileAtomic :: "string \<Rightarrow> stream \<Rightarrow> fsys \<Rightarrow> err option \<times> fsys" where
  "streamFileAtomic target r s =
     (case os_CreateTemp (dir_of target) ''.blob-'' s of
        (Inl err, s) \<Rightarrow> (Some err, s)
      | (Inr tmpPath, s) \<Rightarrow>
          (case copy_stream tmpPath r s of
             ((n, Some err), s) \<Rightarrow> (Some err, snd (os_Remove tmpPath (snd (os_Close s))))
           | ((n, None), s) \<Rightarrow> finish_atomic tmpPath target s))"

definition Save :: "'c Blob \<Rightarrow> string \<Rightarrow> string \<Rightarrow> fsys \<Rightarrow> err option \<times> fsys" where
  "Save b indexPath dataPath s =
     (case os_MkdirAll (dir_of indexPath) s of
        (Some err, s) \<Rightarrow> (Some (Wrap ''create index directory'' err), s)
      | (None, s) \<Rightarrow>
          (case os_MkdirAll (dir_of dataPath) s of
             (Some err, s) \<Rightarrow> (Some (Wrap ''create data directory'' err), s)
           | (None, s) \<Rightarrow>
               (case writeFileAtomic indexPath (b_indexData b) s of
                  (Some err, s) \<Rightarrow> (Some (Wrap ''write index file'' err), s)
                | (None, s) \<Rightarrow>
                    (case streamFileAtomic dataPath (rd_stream (Blob_Stream b)) s of
                       (Some err, s) \<Rightarrow> (Some (Wrap ''write data file'' err), snd (os_Remove indexPath s))
                     | (None, s) \<Rightarrow> (None, s)))))"

text \<open>\<^verbatim>\<open>filepath.Abs\<close> depends on the working directory of the process: an argument.\<close>

definition fallbackFileSourceID :: "(string \<Rightarrow> string res) \<Rightarrow> string \<Rightarrow> fnode \<Rightarrow> string" where
  "fallbackFileSourceID abs_path path info =
     (let absPath = (case abs_path path of Inl err \<Rightarrow> path | Inr p \<Rightarrow> p)
      in ''file:'' @ absPath @ '':'' @ show_int (file_size info) @ '':'' @ show_int (n_mtime info))"

text \<open>A local file as a source; reads of an open file do not fail in the model.\<close>

definition newFileSource :: "(string \<Rightarrow> string res) \<Rightarrow> string \<Rightarrow> fnode \<Rightarrow> string \<Rightarrow> source" where
  "newFileSource abs_path path n sourceID =
     \<lparr>src_at = \<lparr>ra_content = n_content n, ra_fault = (\<lambda>_ _. None), ra_eager = False\<rparr>,
      src_size = file_size n,
      src_id = (if sourceID = [] then fallbackFileSourceID abs_path path n else sourceID),
      src_range = None\<rparr>"

text \<open>\<^verbatim>\<open>OpenFile\<close> of \<^verbatim>\<open>core/file.go\<close>.\<close>

definition Blob_OpenFile ::
  "(string \<Rightarrow> string res) \<Rightarrow> (bytes \<Rightarrow> string + fb_index option) \<Rightarrow> string \<Rightarrow> string \<Rightarrow> ('c Blob \<Rightarrow> 'c Blob) list \<Rightarrow> fsys \<Rightarrow>
   'c Blob res \<times> fsys" where
  "Blob_OpenFile abs_path get_root indexPath dataPath opts s =
     (case os_ReadFile indexPath s of
        (Inl err, s) \<Rightarrow> (Inl (Wrap ''read index file'' err), s)
      | (Inr indexData, s) \<Rightarrow>
          (case fs_files s dataPath of
             None \<Rightarrow> (Inl (Wrap ''open data file'' ErrNotExist), s)
           | Some n \<Rightarrow>
               let sourceID = (case Load get_root indexData of
                                 Inl err \<Rightarrow> []
                               | Inr idx \<Rightarrow> (case DataHash idx of None \<Rightarrow> [] | Some hash \<Rightarrow> ''sha256:'' @ hex_encode hash));
                   source = newFileSource abs_path dataPath n sourceID
               in (mapErr (Wrap ''create blob'') (Blob_New get_root indexData source opts), s)))"

section \<open>Files written through a temporary file\<close>

lemma tmp_fresh:
  assumes "os_CreateTemp d pre s = (Inr t, s1)"
  shows "fs_content s t = None \<and> fs_content s1 = (fs_content s)(t \<mapsto> [])"
  using create_temp_content [of 10000 d pre s] assms unfolding os_CreateTemp_def by blast

lemma tmp_failed: "os_CreateTemp d pre s = (Inl e, s1) \<Longrightarrow> fs_content s1 = fs_content s"
  using create_temp_content [of 10000 d pre s] unfolding os_CreateTemp_def by blast

lemma os_Write_all: "os_Write p d s = ((n, None), s') \<Longrightarrow> n = length d"
  by (auto simp: os_Write_def Let_def split: prod.splits option.splits)

text \<open>The files that were there are still there.\<close>

definition kept :: "fsys \<Rightarrow> fsys \<Rightarrow> string set \<Rightarrow> bool" where
  "kept s s' X \<longleftrightarrow> (\<forall>q c. q \<notin> X \<longrightarrow> fs_content s q = Some c \<longrightarrow> fs_content s' q = Some c)"

lemma kept_tmp:
  assumes "fs_content s t = None" "\<And>q. q \<noteq> t \<Longrightarrow> q \<notin> X \<Longrightarrow> fs_content s' q = fs_content s q"
  shows "kept s s' X"
  unfolding kept_def using assms by (metis option.distinct(1))

lemma Remove_other: "q \<noteq> p \<Longrightarrow> fs_content (snd (os_Remove p s)) q = fs_content s q"
  using os_Remove_content [of p s] by (metis prod.collapse)

lemma Remove_some: "fs_content (snd (os_Remove p s)) q = Some d \<Longrightarrow> fs_content s q = Some d"
  using os_Remove_shrinks [of p s] by (metis domI map_le_def prod.collapse)

lemma Close_content: "fs_content (snd (os_Close s)) = fs_content s"
  using os_same_content(2) [of s] by (metis prod.collapse)

lemma finish_atomic_spec:
  assumes "finish_atomic t p s = (x, s')" "fs_content s t = Some d"
  shows "(x = None \<longrightarrow> fs_content s' = (fs_content s)(t := None, p \<mapsto> d)) \<and>
    (x \<noteq> None \<longrightarrow> (\<forall>q. q \<noteq> t \<longrightarrow> fs_content s' q = fs_content s q))"
proof -
  obtain e1 s1 where c: "os_Close s = (e1, s1)" by fastforce
  obtain e2 s2 where r: "os_Rename t p s1 = (e2, s2)" by fastforce
  have c': "fs_content s1 = fs_content s" using os_same_content(2) [OF c] .
  have r': "e2 = None \<Longrightarrow> fs_content s2 = (fs_content s)(t := None, p \<mapsto> d)" "e2 \<noteq> None \<Longrightarrow> fs_content s2 = fs_content s"
    using os_Rename_content [of t p s1] r c' assms(2) by auto
  show ?thesis
    using assms(1) c r c' r' by (cases e1; cases e2) (auto simp: finish_atomic_def Remove_other)
qed

lemma streamFileAtomic_spec:
  assumes "streamFileAtomic p st s = (x, s')"
  shows "(x = None \<longrightarrow> s_end st = EOF \<and> fs_content s' = (fs_content s)(p \<mapsto> s_data st)) \<and> (x \<noteq> None \<longrightarrow> kept s s' {})"
proof -
  obtain e1 s1 where t: "os_CreateTemp (dir_of p) ''.blob-'' s = (e1, s1)" by fastforce
  show ?thesis
  proof (cases e1)
    case (Inl e)
    then show ?thesis using assms t tmp_failed by (fastforce simp: streamFileAtomic_def kept_def)
  next
    case (Inr tmp)
    note f = tmp_fresh [OF t [unfolded Inr]]
    obtain n e2 s2 where c: "copy_stream tmp st s1 = ((n, e2), s2)" by (metis prod.exhaust)
    then obtain d where d: "fs_content s2 = (fs_content s)(tmp \<mapsto> d)" "e2 = None \<longrightarrow> s_end st = EOF \<and> d = s_data st"
      using copy_stream_content [OF c, of "[]"] f by auto
    show ?thesis
    proof (cases e2)
      case None
      then have "finish_atomic tmp p s2 = (x, s')" using assms t Inr c by (simp add: streamFileAtomic_def)
      from finish_atomic_spec [OF this, of d] d f None show ?thesis by (auto intro!: kept_tmp [of s tmp])
    next
      case (Some e)
      then have "x \<noteq> None" "s' = snd (os_Remove tmp (snd (os_Close s2)))" using assms t Inr c by (auto simp: streamFileAtomic_def)
      then show ?thesis using d f by (auto simp: Remove_other Close_content intro!: kept_tmp [of s tmp])
    qed
  qed
qed

lemma writeFileAtomic_stream: "writeFileAtomic p d s = streamFileAtomic p \<lparr>s_data = d, s_end = EOF\<rparr> s"
  by (auto simp: writeFileAtomic_def streamFileAtomic_def copy_stream_def split: prod.splits sum.splits option.splits)

lemma metadata_content: "applyCopyMetadata t e cfg s = (x, s') \<Longrightarrow> fs_content s' = fs_content s"
  using os_same_content(3,4) [of t] by (auto simp: applyCopyMetadata_def split: if_splits prod.splits option.splits)

lemma copy_temp_spec:
  assumes "copy_temp st p tmp e cfg s = (x, s')" "fs_content s tmp = Some []"
  shows "(x = None \<longrightarrow> s_end st = EOF \<and> fs_content s' = (fs_content s)(tmp := None, p \<mapsto> s_data st)) \<and>
    (x \<noteq> None \<longrightarrow> (\<forall>q. q \<noteq> tmp \<longrightarrow> \<not> (cc_overwrite cfg \<and> q = p) \<longrightarrow> fs_content s' q = fs_content s q))"
proof -
  obtain n e2 s2 where c: "copy_stream tmp st s = ((n, e2), s2)" by (metis prod.exhaust)
  obtain d where d: "fs_content s2 = (fs_content s)(tmp \<mapsto> d)" "e2 = None \<longrightarrow> s_end st = EOF \<and> d = s_data st"
    using copy_stream_content [OF c assms(2)] by auto
  obtain e3 s3 where cl: "os_Close s2 = (e3, s3)" by fastforce
  obtain e4 s4 where m: "applyCopyMetadata tmp e cfg s3 = (e4, s4)" by fastforce
  have s4: "fs_content s3 = fs_content s2" "fs_content s4 = fs_content s2"
    using os_same_content(2) [OF cl] metadata_content [OF m] by simp_all
  define s5 where "s5 = (if cc_overwrite cfg then snd (os_Remove p s4) else s4)"
  have s5: "q \<noteq> p \<Longrightarrow> fs_content s5 q = fs_content s4 q" "\<not> cc_overwrite cfg \<Longrightarrow> fs_content s5 q = fs_content s4 q" for q
    by (auto simp: s5_def Remove_other)
  obtain e6 s6 where r: "os_Rename tmp p s5 = (e6, s6)" by fastforce
  have ok: "fs_content s6 = (fs_content s)(tmp := None, p \<mapsto> d)" if e6: "e6 = None"
  proof -
    obtain d' where d': "fs_content s5 tmp = Some d'" using os_Rename_Some r e6 by fastforce
    then have "fs_content s4 tmp = Some d'" unfolding s5_def by (auto dest: Remove_some split: if_splits)
    then have "d' = d" using d(1) s4(2) by simp
    then show ?thesis using os_Rename_content(1) [OF r [unfolded e6] d'] d(1) s4(2) s5(1) by (auto simp: fun_eq_iff)
  qed
  have bad: "\<forall>q. q \<noteq> tmp \<longrightarrow> \<not> (cc_overwrite cfg \<and> q = p) \<longrightarrow> fs_content s6 q = fs_content s q" if "e6 \<noteq> None"
    using os_Rename_content(2) [of tmp p s5] r that d(1) s4(2) s5 by auto
  show ?thesis
    using assms c cl m r d s4 ok bad unfolding copy_temp_def s5_def [symmetric]
    by (cases e2; cases e3; cases e4; cases e6) (auto simp: Let_def Remove_other Close_content s5_def [symmetric] split: if_splits)
qed


lemma copyFileAtomic_spec:
  assumes "copyFileAtomic st p e cfg s = (x, s')"
  shows "(x = None \<longrightarrow> s_end st = EOF \<and> fs_content s' = (fs_content s)(p \<mapsto> s_data st)) \<and>
    (x \<noteq> None \<longrightarrow> kept s s' (if cc_overwrite cfg then {p} else {}))"
proof -
  obtain e1 s1 where t: "os_CreateTemp (dir_of p) ''.blob-'' s = (e1, s1)" by fastforce
  show ?thesis
  proof (cases e1)
    case (Inl e)
    then show ?thesis using assms t tmp_failed by (fastforce simp: copyFileAtomic_def kept_def)
  next
    case (Inr tmp)
    note f = tmp_fresh [OF t [unfolded Inr]]
    have "copy_temp st p tmp e cfg s1 = (x, s')" using assms t Inr by (simp add: copyFileAtomic_def)
    from copy_temp_spec [OF this] f show ?thesis by (auto intro!: kept_tmp [of s tmp])
  qed
qed

section \<open>Copying one file\<close>

text \<open>What is read from an opened file of the archive is verified.\<close>

lemma opened_stream_verified:
  assumes "Blob_Open sha256 Z race b name c = (Inr src, c1)" "LookupView (b_idx b) name = Some v"
    and "opened_stream sha256 Z (b_cache b) src c1 = (st, src', c2)" "s_end st = EOF"
  shows "sha256 (s_data st) = fb_hash v"
proof -
  let ?e = "EntryFromViewWithPath v name"
  have "src = OFile (OpenFile (b_reader b) ?e (b_verifyOnClose b)) \<or>
      (\<exists>ca f. b_cache b = Some ca \<and> src = OCached (newCachedFile f ?e (b_verifyOnClose b)))"
    using assms(1,2) by (auto simp: Blob_Open_def Let_def split: if_splits option.splits prod.splits)
  then show ?thesis
  proof (elim disjE exE conjE)
    assume "src = OFile (OpenFile (b_reader b) ?e (b_verifyOnClose b))"
    then obtain f where "file_stream sha256 Z (OpenFile (b_reader b) ?e (b_verifyOnClose b)) = (st, f)"
      using assms(3) by (auto simp: opened_stream_def split: prod.splits)
    from file_stream_inv [OF OpenFile_inv this] assms(4) show ?thesis by simp
  next
    fix ca f assume ca: "b_cache b = Some ca" "src = OCached (newCachedFile f ?e (b_verifyOnClose b))"
    then obtain g c3 where "cached_stream sha256 ca (newCachedFile f ?e (b_verifyOnClose b)) c1 = (st, g, c3)"
      using assms(3) by (auto simp: opened_stream_def split: prod.splits)
    from cached_stream_inv [OF newCachedFile_inv this assms(4)] show ?thesis by simp
  qed
qed

lemma CopyFile_cases:
  assumes "CopyFile sha256 Z race b srcPath p opts (c, s) = ((st, x), (c', s'))"
  defines "cfg \<equiv> fold (\<lambda>opt c. opt c) opts zero_config"
  obtains "x \<noteq> None" "s' = s"
  | v src c1 str src' c2 where "LookupView (b_idx b) (NormalizePath srcPath) = Some v"
    "cc_overwrite cfg \<or> \<not> fs_exists s p" "Blob_Open sha256 Z race b (NormalizePath srcPath) c = (Inr src, c1)"
    "opened_stream sha256 Z (b_cache b) src c1 = (str, src', c2)"
    "copyFileAtomic str p (EntryFromViewWithPath v (NormalizePath srcPath)) cfg s = (x, s')"
proof -
  obtain r1 c1 where o: "Blob_Open sha256 Z race b (NormalizePath srcPath) c = (r1, c1)" by fastforce
  show thesis
  proof (cases r1)
    case (Inl err)
    then have "x \<noteq> None" "s' = s"
      using assms(1) o unfolding CopyFile_def cfg_def [symmetric] by (auto simp: Let_def split: if_splits option.splits)
    then show thesis by (rule that(1))
  next
    case (Inr src)
    obtain str src' c2 where st: "opened_stream sha256 Z (b_cache b) src c1 = (str, src', c2)" by (metis prod.exhaust)
    show thesis
    proof (cases "x \<noteq> None \<and> s' = s")
      case True
      then show thesis using that(1) by blast
    next
      case False
      with assms(1) o Inr st obtain v where "LookupView (b_idx b) (NormalizePath srcPath) = Some v"
        "cc_overwrite cfg \<or> \<not> fs_exists s p"
        "copyFileAtomic str p (EntryFromViewWithPath v (NormalizePath srcPath)) cfg s = (x, s')"
        unfolding CopyFile_def cfg_def [symmetric] by (auto simp: Let_def split: if_splits option.splits prod.splits)
      with o Inr st show thesis using that(2) by blast
    qed
  qed
qed

section \<open>Saving and opening\<close>

lemma Blob_Stream_ok:
  assumes "source_ok (r_source (b_reader b))"
  shows "rd_stream (Blob_Stream b) = \<lparr>s_data = ra_content (src_at (r_source (b_reader b))), s_end = EOF\<rparr>"
proof -
  have h: "ra_fault (src_at (r_source (b_reader b))) = (\<lambda>_ _. None)"
    "src_size (r_source (b_reader b)) = int (length (ra_content (src_at (r_source (b_reader b)))))"
    "src_size (r_source (b_reader b)) < 2 ^ 63" using assms by (simp_all add: source_ok_def)
  then have "rd_ok (Blob_Stream b)" "rd_data (Blob_Stream b) = ra_content (src_at (r_source (b_reader b)))" "rd_end (Blob_Stream b) = EOF"
    by (auto simp: Blob_Stream_def NewSectionReader_def Let_def MaxInt64_def)
  then show ?thesis by (simp add: rd_stream_ok)
qed

lemma Save_spec:
  assumes "source_ok (r_source (b_reader b))" "Save b ip dp s = (None, s')"
  shows "fs_content s' = (fs_content s)(ip \<mapsto> b_indexData b, dp \<mapsto> ra_content (src_at (r_source (b_reader b))))"
proof -
  obtain e1 s1 where m1: "os_MkdirAll (dir_of ip) s = (e1, s1)" by fastforce
  obtain e2 s2 where m2: "os_MkdirAll (dir_of dp) s1 = (e2, s2)" by fastforce
  obtain e3 s3 where w: "writeFileAtomic ip (b_indexData b) s2 = (e3, s3)" by fastforce
  obtain e4 s4 where d: "streamFileAtomic dp (rd_stream (Blob_Stream b)) s3 = (e4, s4)" by fastforce
  have "e3 = None" "e4 = None" "s' = s4"
    using assms(2) m1 m2 w d by (auto simp: Save_def split: option.splits)
  moreover have "fs_content s2 = fs_content s" using os_same_content(1) m1 m2 by metis
  ultimately show ?thesis
    using streamFileAtomic_spec [OF d] streamFileAtomic_spec [OF w [unfolded writeFileAtomic_stream]] Blob_Stream_ok [OF assms(1)] by simp
qed

lemma OpenFile_spec:
  assumes "fs_content s ip = Some i" "fs_content s dp = Some d" "fs_faults s = []" "Load get_root i = Inr idx" "int (length d) < 2 ^ 63"
  shows "\<exists>b. Blob_OpenFile abs_path get_root ip dp [] s = (Inr b, s) \<and> b_idx b = idx \<and> b_indexData b = i \<and>
    ra_content (src_at (r_source (b_reader b))) = d \<and> source_ok (r_source (b_reader b))"
proof -
  obtain n m where n: "fs_files s dp = Some n" "n_content n = d" "fs_files s ip = Some m" "n_content m = i"
    using assms(1,2) by (auto simp: fs_content_def)
  have "os_ReadFile ip s = (Inr i, s)" using n assms(3) by (simp add: os_ReadFile_def pop_fault_def)
  then show ?thesis using n assms(4,5)
    by (auto simp: Blob_OpenFile_def Blob_New_def Let_def newFileSource_def source_ok_def NewReader_def WithMaxFileSize_def
        WithMaxDecoderMemory_def file_size_def)
qed

section \<open>Copying a directory\<close>

lemma copy_sink_atomic: "\<not> cc_cleanDest cfg \<Longrightarrow> copy_sink dest cfg = atomic (copy_sink dest cfg)"
  by (simp add: copy_sink_def NewFileSink_def WithOverwrite_def WithPreserveMode_def WithPreserveTimes_def)

lemma copy_sink_simps: "destDir (copy_sink dest cfg) = dest" "overwrite (copy_sink dest cfg) = cc_overwrite cfg"
  by (simp_all add: copy_sink_def NewFileSink_def WithOverwrite_def WithPreserveMode_def WithPreserveTimes_def WithDirectWrites_def)

lemma join_path_inj:
  assumes "join_path d p = join_path d q" "p \<noteq> ''.''" "q \<noteq> ''.''"
  shows "p = q"
  using assms by (auto simp: join_path_def split: if_splits)

lemma copyEntries_ok:
  assumes "copyEntries sha256 Z mp sched SortFunc b dest entries cfg s ((st, None), s')" "\<not> cc_cleanDest cfg" "sorts_by_offset SortFunc"
    and "e \<in> set entries" "ShouldProcess (copy_sink dest cfg) s e" "\<forall>e\<in>set entries. join_path dest (Path e) \<notin> temp_names s"
  shows "\<exists>e'\<in>set entries. join_path dest (Path e') = join_path dest (Path e) \<and>
    (\<exists>c. fs_content s' (join_path dest (Path e)) = Some c \<and> sha256 c = Hash e' \<and> int (length c) = uint (OriginalSize e'))"
  using assms(1)
proof cases
  case (copy_process ps)
  let ?fsk = "copy_sink dest cfg"
  have "e \<in> set (filter (sk_ShouldProcess (file_sink ?fsk) s) entries)"
    using assms(4,5) by (simp add: file_sink_def)
  moreover have "Process sha256 Z mp sched SortFunc (copy_processor b cfg) (file_sink (atomic ?fsk)) entries s ((ps, None), s')"
    using copy_process(4) copy_sink_atomic [OF assms(2)] by metis
  moreover have "pr_workers (copy_processor b cfg) < 0 \<or> temp_names s \<inter> sink_dest (atomic ?fsk) ` set entries = {}"
    using assms(6) by (auto simp: sink_dest_def copy_sink_simps)
  ultimately have "written sha256 (sink_dest (atomic ?fsk)) (fs_content s')
      (set (filter (sk_ShouldProcess (file_sink (atomic ?fsk)) s) entries)) (sink_dest (atomic ?fsk) e)"
    using fsink.Process_ok [OF _ assms(3), of sha256 Z mp sched "copy_processor b cfg" ?fsk entries s ps s'] copy_sink_atomic [OF assms(2)]
    by metis
  then show ?thesis by (auto simp: written_def verified_def sink_dest_def copy_sink_simps)
qed (use assms(4) in auto)

end
