(* ===== verification/Create.thy ===== *)
theory Create
  imports BlobCopy
begin

text \<open>
  \<^verbatim>\<open>core/create.go\<close>, \<^verbatim>\<open>core/create_opts.go\<close>, \<^verbatim>\<open>core/create_file.go\<close>, \<^verbatim>\<open>core/file_opts.go\<close> and
  \<^verbatim>\<open>core/internal/write\<close>: building an archive from a directory.

  A directory is a tree. A leaf carries what each system call on it answers (the type of the
  directory entry, \<^verbatim>\<open>Lstat\<close>, opening without following links, \<^verbatim>\<open>Stat\<close> before and after, the bytes of
  the file as a reader), so that a file that changes during the walk is a value of the model.
  \<^verbatim>\<open>fs.WalkDir\<close> visits the children of a directory in the order of their names. \<open>ctx p i\<close> is what
  the \<open>i\<close>-th check of the context while processing \<open>p\<close> returns.

  The zstd encoder and the FlatBuffers builder are arguments: \<open>z_Encode\<close> writes the frame of some
  content to a writer and returns the errors of \<^verbatim>\<open>Write\<close> and of \<^verbatim>\<open>Close\<close>; \<open>encode\<close> serialises the index
  table. \<^verbatim>\<open>io.MultiWriter\<close> feeds the bytes the data writer accepts to the hash of the data blob.
\<close>

section \<open>Definitions\<close>

subsection \<open>Files and trees\<close>

record finfo =
  st_mode :: u32
  st_size :: i64
  st_mtime :: int
  st_uid :: u32
  st_gid :: u32
  st_file :: nat

text \<open>An open file: \<^verbatim>\<open>Stat\<close>, the content, and \<^verbatim>\<open>Stat\<close> after the content was read.\<close>

record ofile =
  of_stat :: "finfo res"
  of_reader :: reader
  of_after :: "finfo res"

record leaf =
  lf_type :: u32
  lf_lstat :: "finfo res"
  lf_info :: "finfo res"
  lf_open :: "ofile res"

datatype tree = Leaf leaf | Dir "(string \<times> tree) list" | Unreadable err

text \<open>The calls of the walk function: the path, the leaf or \<open>None\<close> for a directory, the error.\<close>

type_synonym visit = "string \<times> leaf option \<times> err option"

definition path_join :: "string \<Rightarrow> string \<Rightarrow> string" where
  "path_join p name = (if p = ''.'' then name else p @ slash # name)"

fun walk :: "string \<Rightarrow> tree \<Rightarrow> visit list" where
  "walk p (Leaf l) = [(p, Some l, None)]"
| "walk p (Unreadable e) = [(p, None, None), (p, None, Some e)]"
| "walk p (Dir cs) =
     (p, None, None) # concat (map snd (sort_key fst (map (\<lambda>(name, t). (name, walk (path_join p name) t)) cs)))"

subsection \<open>Options\<close>

type_synonym SkipCompressionFunc = "string \<Rightarrow> finfo \<Rightarrow> bool"

record createConfig =
  cr_compression :: compression
  cr_strict :: bool
  cr_skipCompression :: "SkipCompressionFunc option list"
  cr_maxFiles :: int

definition DefaultMaxFiles :: int where
  "DefaultMaxFiles = 200000"

definition CreateWithCompression :: "compression \<Rightarrow> createConfig \<Rightarrow> createConfig" where
  "CreateWithCompression c cfg = cfg\<lparr>cr_compression := c\<rparr>"

definition CreateWithChangeDetection :: "bool \<Rightarrow> createConfig \<Rightarrow> createConfig" where
  "CreateWithChangeDetection strict cfg = cfg\<lparr>cr_strict := strict\<rparr>"

definition CreateWithSkipCompression :: "SkipCompressionFunc option list \<Rightarrow> createConfig \<Rightarrow> createConfig" where
  "CreateWithSkipCompression fns cfg = cfg\<lparr>cr_skipCompression := cr_skipCompression cfg @ fns\<rparr>"

definition CreateWithMaxFiles :: "int \<Rightarrow> createConfig \<Rightarrow> createConfig" where
  "CreateWithMaxFiles n cfg = cfg\<lparr>cr_maxFiles := n\<rparr>"

definition zero_create :: createConfig where
  "zero_create = \<lparr>cr_compression = CompressionNone, cr_strict = False, cr_skipCompression = [], cr_maxFiles = 0\<rparr>"

subsection \<open>Compression decisions\<close>

text \<open>\<^verbatim>\<open>filepath.Ext\<close>, and \<^verbatim>\<open>strings.ToLower\<close> as far as the result can be ASCII.\<close>

definition file_ext :: "string \<Rightarrow> string" where
  "file_ext p =
     (let w = takeWhile (\<lambda>c. c \<noteq> slash) (rev p)
      in if CHR ''.'' \<in> set w then CHR ''.'' # rev (takeWhile (\<lambda>c. c \<noteq> CHR ''.'') w) else [])"

definition lower_char :: "char \<Rightarrow> char" where
  "lower_char c = (if 65 \<le> (of_char c :: nat) \<and> (of_char c :: nat) \<le> 90 then char_of ((of_char c :: nat) + 32) else c)"

fun to_lower :: "string \<Rightarrow> string" where
  "to_lower [] = []"
| "to_lower (a # s) =
     (case s of
        b # s1 \<Rightarrow>
          if of_char a = (196 :: nat) \<and> of_char b = (176 :: nat) then CHR ''i'' # to_lower s1
          else (case s1 of
            c # s2 \<Rightarrow>
              if of_char a = (226 :: nat) \<and> of_char b = (132 :: nat) \<and> of_char c = (170 :: nat) then CHR ''k'' # to_lower s2
              else lower_char a # to_lower s
          | [] \<Rightarrow> lower_char a # to_lower s)
      | [] \<Rightarrow> [lower_char a])"

definition defaultSkipCompressionExts :: "string list" where
  "defaultSkipCompressionExts =
     [''.7z'', ''.aac'', ''.avif'', ''.br'', ''.bz2'', ''.flac'', ''.gif'', ''.gz'', ''.heic'', ''.ico'', ''.jpeg'',
      ''.jpg'', ''.m4v'', ''.mkv'', ''.mov'', ''.mp3'', ''.mp4'', ''.ogg'', ''.opus'', ''.pdf'', ''.png'', ''.rar'',
      ''.tgz'', ''.wav'', ''.webm'', ''.webp'', ''.woff'', ''.woff2'', ''.xz'', ''.zip'', ''.zst'']"

definition DefaultSkipCompression :: "i64 \<Rightarrow> SkipCompressionFunc" where
  "DefaultSkipCompression minSize path info =
     (if minSize > 0 \<and> st_size info < minSize then True
      else to_lower (file_ext path) \<in> set defaultSkipCompressionExts)"

definition ShouldSkip :: "string \<Rightarrow> finfo \<Rightarrow> SkipCompressionFunc option list \<Rightarrow> bool" where
  "ShouldSkip path info predicates = list_ex (\<lambda>fn. case fn of None \<Rightarrow> False | Some f \<Rightarrow> f path info) predicates"

subsection \<open>Checks\<close>

definition ResolveEntryInfo :: "leaf \<Rightarrow> bool \<Rightarrow> (finfo option \<times> bool) res" where
  "ResolveEntryInfo d strict =
     (let dtype = lf_type d
      in if dtype AND ModeSymlink \<noteq> 0 then Inr (None, False)
         else if dtype = 0 then
           bindE (lf_lstat d) (\<lambda>linfo.
             if st_mode linfo AND ModeSymlink \<noteq> 0 then Inr (None, False)
             else if \<not> mode_is_regular (st_mode linfo) then Inr (None, False)
             else Inr (Some linfo, True))
         else if \<not> mode_is_regular dtype then Inr (None, False)
         else if \<not> strict then Inr (None, True)
         else bindE (lf_info d) (\<lambda>info.
           if \<not> mode_is_regular (st_mode info) then Inr (None, False) else Inr (Some info, True)))"

definition ValidateFileInfo :: "string \<Rightarrow> finfo option \<Rightarrow> finfo \<Rightarrow> bool \<Rightarrow> err option" where
  "ValidateFileInfo path info finfo strict =
     (if \<not> strict then None
      else case info of
        None \<Rightarrow> Some (Errorf ''missing file info: %s'' [path] [])
      | Some info \<Rightarrow>
          if st_file info \<noteq> st_file finfo then Some (Errorf ''file changed during archive creation: %s'' [path] []) else None)"

definition CheckFileUnchanged :: "ofile \<Rightarrow> string \<Rightarrow> finfo \<Rightarrow> bool \<Rightarrow> err option" where
  "CheckFileUnchanged f path before strict =
     (if \<not> strict then None
      else case of_after f of
        Inl err \<Rightarrow> Some err
      | Inr after \<Rightarrow>
          if st_size after \<noteq> st_size before \<or> st_mtime after \<noteq> st_mtime before \<or>
             mode_perm (st_mode after) \<noteq> mode_perm (st_mode before)
          then Some (Errorf ''file changed during archive creation: %s'' [path] []) else None)"

subsection \<open>Writing one file\<close>

definition wrapOverflowErr :: "err \<Rightarrow> err" where
  "wrapOverflowErr err = (if errors_is err ErrOverflow then ErrSizeOverflow else err)"

type_synonym z_encoder = "bytes \<Rightarrow> writer \<Rightarrow> err option \<times> err option \<times> writer"

abbreviation buf_size :: nat where
  "buf_size \<equiv> 32768"

text \<open>
  The end of \<^verbatim>\<open>write.File\<close>: the number of bytes read is checked. The count of the counting writer is the
  number of bytes added to the data writer, the count of the counting reader the number of bytes read.
\<close>

definition file_result :: "(bytes \<Rightarrow> bytes) \<Rightarrow> i64 \<Rightarrow> bytes \<Rightarrow> writer \<Rightarrow> writer \<Rightarrow> (u64 \<times> u64 \<times> bytes) res" where
  "file_result sha256 expectedSize content w w' =
     (if of_nat (length content) \<noteq> (word_of_int expectedSize :: u64)
      then Inl (Errorf ''file size changed during archive creation: expected %d, got %d'' []
                 [expectedSize, int (length content)])
      else Inr (of_nat (length (w_out w') - length (w_out w)), of_nat (length content), sha256 content))"

definition write_File ::
  "(bytes \<Rightarrow> bytes) \<Rightarrow> z_encoder \<Rightarrow> (nat \<Rightarrow> err option) \<Rightarrow> reader \<Rightarrow> writer \<Rightarrow> compression \<Rightarrow> i64 \<Rightarrow>
   (u64 \<times> u64 \<times> bytes) res \<times> writer" where
  "write_File sha256 z_Encode ctx f w compression expectedSize =
     (if expectedSize < 0 then (Inl (ErrNew ''negative file size''), w)
      else
        let src = limit_reader f (nat expectedSize)
        in if compression = CompressionNone then
             (case CopyWithContext ctx 1 w src buf_size 0 of
                Some (n, Some err, w') \<Rightarrow> (Inl (wrapOverflowErr err), w')
              | Some (n, None, w') \<Rightarrow> (file_result sha256 expectedSize (drop (length (w_out w)) (w_out w')) w w', w')
              | None \<Rightarrow> (Inl ErrInvalid, w))
           else
             (case CopyWithContext ctx 1 \<lparr>w_out = [], w_cap = None, w_err = None\<rparr> src buf_size 0 of
                Some (n, rerr, enc) \<Rightarrow>
                  (case z_Encode (w_out enc) w of
                     (Some werr, cerr, w') \<Rightarrow> (Inl (wrapOverflowErr werr), w')
                   | (None, cerr, w') \<Rightarrow>
                       (case rerr of
                          Some err \<Rightarrow> (Inl (wrapOverflowErr err), w')
                        | None \<Rightarrow>
                            (case cerr of
                               Some err \<Rightarrow> (Inl (Wrap ''close zstd encoder'' err), w')
                             | None \<Rightarrow> (file_result sha256 expectedSize (w_out enc) w w', w'))))
              | None \<Rightarrow> (Inl ErrInvalid, w)))"

definition writeEntry ::
  "(bytes \<Rightarrow> bytes) \<Rightarrow> z_encoder \<Rightarrow> createConfig \<Rightarrow> (nat \<Rightarrow> err option) \<Rightarrow> string \<Rightarrow> leaf \<Rightarrow> finfo option \<Rightarrow> writer \<Rightarrow>
   Entry res \<times> writer" where
  "writeEntry sha256 z_Encode cfg ctx path d info w =
     (case bindE (lf_open d) (\<lambda>f. bindE (of_stat f) (\<lambda>fi. Inr (f, fi))) of
        Inl err \<Rightarrow> (Inl err, w)
      | Inr (f, fi) \<Rightarrow>
          if \<not> mode_is_regular (st_mode fi) then (Inl (Errorf ''not a regular file: %s'' [path] []), w)
          else case ValidateFileInfo path info fi (cr_strict cfg) of
            Some err \<Rightarrow> (Inl err, w)
          | None \<Rightarrow>
              let compression = (if cr_compression cfg \<noteq> CompressionNone \<and> ShouldSkip path fi (cr_skipCompression cfg)
                                 then CompressionNone else cr_compression cfg)
              in if st_size fi < 0 then (Inl (Errorf ''negative file size: %s'' [path] []), w)
                 else case write_File sha256 z_Encode ctx (of_reader f) w compression (st_size fi) of
                   (Inl err, w) \<Rightarrow> (Inl (Wrap (''write '' @ path) err), w)
                 | (Inr (dataSize, originalSize, hash), w) \<Rightarrow>
                     (case CheckFileUnchanged f path fi (cr_strict cfg) of
                        Some err \<Rightarrow> (Inl err, w)
                      | None \<Rightarrow>
                          (Inr \<lparr>Path = path, DataOffset = 0, DataSize = dataSize, OriginalSize = originalSize, Hash = hash,
                                Mode = mode_perm (st_mode fi), UID = st_uid fi, GID = st_gid fi, ModTime = st_mtime fi,
                                Compression = compression\<rparr>, w)))"

text \<open>\<^verbatim>\<open>processEntry\<close> of the archive writer: an entry, a skip (\<open>Inr None\<close>) or an error.\<close>

definition create_processEntry ::
  "(bytes \<Rightarrow> bytes) \<Rightarrow> z_encoder \<Rightarrow> createConfig \<Rightarrow> (string \<Rightarrow> nat \<Rightarrow> err option) \<Rightarrow> int \<Rightarrow> nat \<Rightarrow> visit \<Rightarrow> writer \<Rightarrow>
   Entry option res \<times> writer" where
  "create_processEntry sha256 z_Encode cfg ctx maxFiles cnt v w =
     (let (path, d, walkErr) = v
      in case walkErr of
           Some err \<Rightarrow> (Inl err, w)
         | None \<Rightarrow>
             (case ctx path 0 of
                Some err \<Rightarrow> (Inl err, w)
              | None \<Rightarrow>
                  (case d of
                     None \<Rightarrow> (Inr None, w)
                   | Some d \<Rightarrow>
                       (case ResolveEntryInfo d (cr_strict cfg) of
                          Inl err \<Rightarrow> (Inl err, w)
                        | Inr (info, ok) \<Rightarrow>
                            if \<not> ok then (Inr None, w)
                            else if maxFiles > 0 \<and> int cnt \<ge> maxFiles then (Inl ErrTooManyFiles, w)
                            else case writeEntry sha256 z_Encode cfg (ctx path) path d info w of
                              (Inl err, w) \<Rightarrow> if errors_is err ErrSymlink then (Inr None, w) else (Inl err, w)
                            | (Inr entry, w) \<Rightarrow> (Inr (Some entry), w)))))"

text \<open>\<^verbatim>\<open>writeData\<close>: the walk, with the entries so far and the total size.\<close>

fun write_visits ::
  "(bytes \<Rightarrow> bytes) \<Rightarrow> z_encoder \<Rightarrow> createConfig \<Rightarrow> (string \<Rightarrow> nat \<Rightarrow> err option) \<Rightarrow> int \<Rightarrow> visit list \<Rightarrow>
   Entry list \<Rightarrow> u64 \<Rightarrow> writer \<Rightarrow> (Entry list \<times> u64) res \<times> writer" where
  "write_visits sha256 z_Encode cfg ctx maxFiles [] entries totalBytes w = (Inr (entries, totalBytes), w)"
| "write_visits sha256 z_Encode cfg ctx maxFiles (v # vs) entries totalBytes w =
     (case create_processEntry sha256 z_Encode cfg ctx maxFiles (length entries) v w of
        (Inl err, w) \<Rightarrow> (Inl err, w)
      | (Inr None, w) \<Rightarrow> write_visits sha256 z_Encode cfg ctx maxFiles vs entries totalBytes w
      | (Inr (Some entry), w) \<Rightarrow>
          if DataSize entry > NOT 0 - totalBytes then (Inl ErrSizeOverflow, w)
          else write_visits sha256 z_Encode cfg ctx maxFiles vs (entries @ [entry\<lparr>DataOffset := totalBytes\<rparr>])
                 (totalBytes + DataSize entry) w)"

definition writeData ::
  "(bytes \<Rightarrow> bytes) \<Rightarrow> z_encoder \<Rightarrow> createConfig \<Rightarrow> (string \<Rightarrow> nat \<Rightarrow> err option) \<Rightarrow> tree \<Rightarrow> writer \<Rightarrow>
   (Entry list \<times> u64) res \<times> writer" where
  "writeData sha256 z_Encode cfg ctx root w =
     (let maxFiles = (if cr_maxFiles cfg = 0 then DefaultMaxFiles else cr_maxFiles cfg)
      in write_visits sha256 z_Encode cfg ctx maxFiles (walk ''.'' root) [] 0 w)"

definition buildIndex :: "Entry list \<Rightarrow> u64 \<Rightarrow> bytes \<Rightarrow> fb_index" where
  "buildIndex entries dataSize dataHash =
     \<lparr>fb_version = 1, fb_entries = Some (map fb_of_Entry entries), fb_index_data_size = dataSize,
      fb_data_hash = (if length dataHash > 0 then Some dataHash else None)\<rparr>"

text \<open>\<^verbatim>\<open>Create\<close>: the index writer and the data writer afterwards.\<close>

definition Create_archive ::
  "(bytes \<Rightarrow> bytes) \<Rightarrow> z_encoder \<Rightarrow> (fb_index \<Rightarrow> bytes) \<Rightarrow> (string \<Rightarrow> nat \<Rightarrow> err option) \<Rightarrow> tree res \<Rightarrow>
   (createConfig \<Rightarrow> createConfig) list \<Rightarrow> writer \<Rightarrow> writer \<Rightarrow> err option \<times> writer \<times> writer" where
  "Create_archive sha256 z_Encode encode ctx root opts indexW dataW =
     (let cfg = fold (\<lambda>opt c. opt c) opts zero_create
      in case root of
           Inl err \<Rightarrow> (Some err, indexW, dataW)
         | Inr root \<Rightarrow>
             (case writeData sha256 z_Encode cfg ctx root dataW of
                (Inl err, dataW') \<Rightarrow> (Some err, indexW, dataW')
              | (Inr (entries, dataSize), dataW') \<Rightarrow>
                  let indexData = encode (buildIndex entries dataSize (sha256 (drop (length (w_out dataW)) (w_out dataW'))))
                  in case w_Write indexW indexData of
                       ((n, err), indexW') \<Rightarrow> (err, indexW', dataW')))"

subsection \<open>Creating an archive in files\<close>

record createBlobConfig =
  cb_indexName :: string
  cb_dataName :: string
  cb_createOpts :: "(createConfig \<Rightarrow> createConfig) list"

definition getIndexName :: "createBlobConfig \<Rightarrow> string" where
  "getIndexName c = (if cb_indexName c = [] then ''index.blob'' else cb_indexName c)"

definition getDataName :: "createBlobConfig \<Rightarrow> string" where
  "getDataName c = (if cb_dataName c = [] then ''data.blob'' else cb_dataName c)"

definition CreateBlobWithIndexName :: "string \<Rightarrow> createBlobConfig \<Rightarrow> createBlobConfig" where
  "CreateBlobWithIndexName name c = c\<lparr>cb_indexName := name\<rparr>"

definition CreateBlobWithDataName :: "string \<Rightarrow> createBlobConfig \<Rightarrow> createBlobConfig" where
  "CreateBlobWithDataName name c = c\<lparr>cb_dataName := name\<rparr>"

definition CreateBlobWithCompression :: "compression \<Rightarrow> createBlobConfig \<Rightarrow> createBlobConfig" where
  "CreateBlobWithCompression x c = c\<lparr>cb_createOpts := cb_createOpts c @ [CreateWithCompression x]\<rparr>"

definition CreateBlobWithChangeDetection :: "bool \<Rightarrow> createBlobConfig \<Rightarrow> createBlobConfig" where
  "CreateBlobWithChangeDetection x c = c\<lparr>cb_createOpts := cb_createOpts c @ [CreateWithChangeDetection x]\<rparr>"

definition CreateBlobWithSkipCompression :: "SkipCompressionFunc option list \<Rightarrow> createBlobConfig \<Rightarrow> createBlobConfig" where
  "CreateBlobWithSkipCompression fns c = c\<lparr>cb_createOpts := cb_createOpts c @ [CreateWithSkipCompression fns]\<rparr>"

definition CreateBlobWithMaxFiles :: "int \<Rightarrow> createBlobConfig \<Rightarrow> createBlobConfig" where
  "CreateBlobWithMaxFiles n c = c\<lparr>cb_createOpts := cb_createOpts c @ [CreateWithMaxFiles n]\<rparr>"

text \<open>
  \<^verbatim>\<open>CreateBlob\<close>. The created files are writers with the given capacities and errors; what they
  accept is the content of the files.
\<close>

definition CreateBlob ::
  "(bytes \<Rightarrow> bytes) \<Rightarrow> z_encoder \<Rightarrow> (fb_index \<Rightarrow> bytes) \<Rightarrow> (string \<Rightarrow> string res) \<Rightarrow> (bytes \<Rightarrow> string + fb_index option) \<Rightarrow>
   (string \<Rightarrow> nat \<Rightarrow> err option) \<Rightarrow> writer \<Rightarrow> writer \<Rightarrow> tree res \<Rightarrow> string \<Rightarrow> (createBlobConfig \<Rightarrow> createBlobConfig) list \<Rightarrow>
   fsys \<Rightarrow> 'c Blob res \<times> fsys" where
  "CreateBlob sha256 z_Encode encode abs_path get_root ctx iw dw root dest opts s =
     (let cfg = fold (\<lambda>opt c. opt c) opts \<lparr>cb_indexName = [], cb_dataName = [], cb_createOpts = []\<rparr>;
          indexPath = join_path dest (getIndexName cfg);
          dataPath = join_path dest (getDataName cfg);
          remove_both = (\<lambda>s. snd (os_Remove dataPath (snd (os_Remove indexPath s))))
      in case os_MkdirAll dest s of
           (Some err, s) \<Rightarrow> (Inl (Wrap ''create destination directory'' err), s)
         | (None, s) \<Rightarrow>
             (case os_CreateTrunc indexPath s of
                (Some err, s) \<Rightarrow> (Inl (Wrap ''create index file'' err), s)
              | (None, s) \<Rightarrow>
                  (case os_CreateTrunc dataPath s of
                     (Some err, s) \<Rightarrow> (Inl (Wrap ''create data file'' err), snd (os_Remove indexPath (snd (os_Close s))))
                   | (None, s) \<Rightarrow>
                       (case Create_archive sha256 z_Encode encode ctx root (cb_createOpts cfg)
                               (iw\<lparr>w_out := []\<rparr>) (dw\<lparr>w_out := []\<rparr>) of
                          (x, iw', dw') \<Rightarrow>
                            let s = os_append dataPath (w_out dw') (os_append indexPath (w_out iw') s)
                            in case x of
                                 Some err \<Rightarrow> (Inl (Wrap ''create archive'' err), remove_both (snd (os_Close (snd (os_Close s)))))
                               | None \<Rightarrow>
                                   (case os_Close s of
                                      (Some err, s) \<Rightarrow> (Inl (Wrap ''close index file'' err), remove_both (snd (os_Close s)))
                                    | (None, s) \<Rightarrow>
                                        (case os_Close s of
                                           (Some err, s) \<Rightarrow> (Inl (Wrap ''close data file'' err), remove_both s)
                                         | (None, s) \<Rightarrow> Blob_OpenFile abs_path get_root indexPath dataPath [] s))))))"

end
