(* ===== verification/Archives.thy ===== *)
theory Archives
  imports Create
begin

text \<open>
  What \<^verbatim>\<open>Create\<close> writes. A run that reports success has laid the files of the tree out one after the
  other in the data blob and recorded them in the index (\<open>laid_out\<close>); a blob opened on such an index
  and such data reads them back (\<open>created_ReadFile\<close>), provided the paths are sorted; the order of the
  walk is the order of the paths under a condition on the names (\<open>tree_sorted\<close>).
\<close>

section \<open>Reading a file while it is written\<close>

text \<open>What \<^verbatim>\<open>write.File\<close> has done when it reports success.\<close>

definition appended :: "writer \<Rightarrow> writer \<Rightarrow> bytes \<Rightarrow> bool" where
  "appended w w' d \<longleftrightarrow> w_out w' = w_out w @ d"

definition zstd_encodes :: "zstd_lib \<Rightarrow> dopt list \<Rightarrow> nat \<Rightarrow> z_encoder \<Rightarrow> bool" where
  "zstd_encodes Z opts limit z_Encode \<longleftrightarrow>
     (\<forall>content w w'. length content \<le> limit \<longrightarrow> z_Encode content w = (None, None, w') \<longrightarrow>
        (\<exists>frame. appended w w' frame \<and> zstd_decodes Z opts frame content))"

definition stored :: "zstd_lib \<Rightarrow> dopt list \<Rightarrow> compression \<Rightarrow> bytes \<Rightarrow> bytes \<Rightarrow> bool" where
  "stored Z opts compression frame content \<longleftrightarrow>
     compression = CompressionNone \<and> frame = content \<or>
     compression = CompressionZstd \<and> zstd_decodes Z opts frame content"

lemma file_result_Inr:
  assumes "file_result sha256 n d w w' = Inr (dataSize, originalSize, hash)" "0 \<le> n" "n < 2 ^ 63" "length d \<le> nat n"
  shows "length d = nat n \<and> dataSize = of_nat (length (w_out w') - length (w_out w)) \<and>
    originalSize = of_nat (length d) \<and> hash = sha256 d"
proof -
  have r: "of_nat (length d) = (word_of_int n :: u64)" "dataSize = of_nat (length (w_out w') - length (w_out w))"
    "originalSize = of_nat (length d)" "hash = sha256 d"
    using assms(1) by (auto simp only: file_result_def split: if_splits)
  have "uint (of_nat (length d) :: u64) = n" using assms(2,3) r(1) uint_word_of_i64 by metis
  moreover have "int (length d) < 2 ^ 63" using assms(2-4) by linarith
  then have "uint (of_nat (length d) :: u64) = int (length d)" using uint_word_of_i64 [of "int (length d)"] by simp
  ultimately show ?thesis using r(2-4) by linarith
qed

lemma write_File_Inr:
  assumes "rd_ok f" "n < 2 ^ 63" "nat n \<le> limit" "zstd_encodes Z opts limit z_Encode"
    and known: "compression \<in> {CompressionNone, CompressionZstd}"
    and w: "write_File sha256 z_Encode ctx f w compression n = (Inr (dataSize, originalSize, hash), w')"
  shows "\<exists>frame content. appended w w' frame \<and> stored Z opts compression frame content \<and>
    content = take (nat n) (rd_data f) \<and> length content = nat n \<and> 0 \<le> n \<and>
    dataSize = of_nat (length frame) \<and> originalSize = of_nat (length content) \<and> hash = sha256 content"
proof -
  let ?src = "limit_reader f (nat n)" and ?c = "take (nat n) (rd_data f)"
  have n: "0 \<le> n" using w by (auto simp: write_File_def split: if_splits)
  note src = limit_reader_ok [OF assms(1), of "nat n"]
  have len: "length ?c \<le> nat n" by simp
  show ?thesis
  proof (cases "compression = CompressionNone")
    case True
    obtain m e w1 where c: "CopyWithContext ctx 1 w ?src buf_size 0 = Some (m, e, w1)"
      by (metis CopyWithContext_returns zero_less_numeral)
    have *: "e = None" "w1 = w'"
      "file_result sha256 n (drop (length (w_out w)) (w_out w')) w w' = Inr (dataSize, originalSize, hash)"
      using w n True c by (cases e; auto simp: write_File_def Let_def)+
    have o: "w_out w' = w_out w @ ?c" using CopyWithContext_exact [OF _ _ _ c [unfolded *(1)]] src *(2) by simp
    then have d: "drop (length (w_out w)) (w_out w') = ?c" by simp
    from file_result_Inr [OF *(3) [unfolded d] n assms(2) len] o n True show ?thesis
      by (intro exI [of _ ?c]) (simp add: appended_def stored_def)
  next
    case False
    obtain m e enc where c: "CopyWithContext ctx 1 \<lparr>w_out = [], w_cap = None, w_err = None\<rparr> ?src buf_size 0 = Some (m, e, enc)"
      by (metis CopyWithContext_returns zero_less_numeral)
    obtain a b w1 where z: "z_Encode (w_out enc) w = (a, b, w1)" by (metis prod.exhaust)
    have *: "a = None" "e = None" "b = None" "w1 = w'" "file_result sha256 n (w_out enc) w w' = Inr (dataSize, originalSize, hash)"
      using w n False c z by (cases a; cases e; cases b; auto simp: write_File_def Let_def)+
    have o: "w_out enc = ?c" using CopyWithContext_exact [OF _ _ _ c [unfolded *(2)]] src by simp
    obtain frame where f: "appended w w' frame" "zstd_decodes Z opts frame ?c"
      using assms(3,4) z len unfolding zstd_encodes_def o * by (meson order_trans)
    from file_result_Inr [OF *(5) [unfolded o] n assms(2) len] f n False known show ?thesis
      by (intro exI [of _ frame] exI [of _ ?c]) (simp add: appended_def stored_def)
  qed
qed

section \<open>Skipped files\<close>

text \<open>
  \<^verbatim>\<open>processEntry\<close> skips a file when opening it reports a symbolic link. No other call reports one:
  then a skipped file has written nothing.
\<close>

definition quiet :: "err option \<Rightarrow> bool" where
  "quiet x \<longleftrightarrow> (case x of None \<Rightarrow> True | Some e \<Rightarrow> \<not> errors_is e ErrSymlink)"

lemma quiet_simps [simp]: "quiet None" "quiet (Some e) \<longleftrightarrow> \<not> errors_is e ErrSymlink"
  by (simp_all add: quiet_def)

lemma copy_write_quiet:
  assumes "quiet (w_err dst)"
  shows "copy_write dst d n = Inl (m, x, dst') \<Longrightarrow> quiet x \<and> w_err dst' = w_err dst"
    and "copy_write dst d n = Inr (m, dst') \<Longrightarrow> w_err dst' = w_err dst"
  using assms by (auto simp: copy_write_def w_Write_def Let_def simp del: not_None_eq split: if_splits option.splits)

lemma CopyWithContext_quiet:
  assumes "rd_ok src" "0 < buf" "quiet (Some (rd_end src))" "\<And>i. quiet (ctx i)" "quiet (w_err dst)"
    and "CopyWithContext ctx i dst src buf n = Some (m, x, dst')"
  shows "quiet x \<and> w_err dst' = w_err dst"
  using assms
proof (induction ctx i dst src buf n rule: CopyWithContext.induct)
  case (1 ctx i dst src buf n)
  obtain d er src1 where r: "rd_Read src buf = ((d, er), src1)" by (metis prod.exhaust)
  show ?case
  proof (cases "ctx i")
    case (Some e)
    then show ?thesis using "1.prems"(2,6) "1.prems"(4) [of i] by (subst (asm) CopyWithContext.simps) auto
  next
    case None
    note step = CopyWithContext_unfold [where ctx = ctx, OF "1.prems"(2) None r]
    note data = rd_Read_data [OF "1.prems"(1,2) r]
    show ?thesis
    proof (cases "copy_write dst d n")
      case (Inl ret)
      then have "copy_write dst d n = Inl (m, x, dst')" using step(1) [OF Inl] "1.prems"(6) by simp
      then show ?thesis by (rule copy_write_quiet(1) [OF "1.prems"(5)])
    next
      case (Inr p)
      then obtain k d1 where p: "copy_write dst d n = Inr (k, d1)" by (cases p) auto
      note w = copy_write_quiet(2) [OF "1.prems"(5) p]
      show ?thesis
      proof (cases er)
        case None': None
        then have "CopyWithContext ctx (i + 1) d1 src1 buf k = Some (m, x, dst')" using step(2) [OF p] "1.prems"(6) by simp
        from "1.IH" [OF _ None r [symmetric] refl p refl None' _ _ _ _ _ this] w data "1.prems" show ?thesis by simp
      next
        case (Some e)
        then show ?thesis using step(3) [OF p Some] data "1.prems" w by (auto split: if_splits)
      qed
    qed
  qed
qed

definition encoder_quiet :: "z_encoder \<Rightarrow> bool" where
  "encoder_quiet z_Encode \<longleftrightarrow>
     (\<forall>c w werr cerr w'. z_Encode c w = (werr, cerr, w') \<longrightarrow> quiet (w_err w) \<longrightarrow>
        quiet werr \<and> quiet cerr \<and> quiet (w_err w'))"

lemma wrapOverflowErr_quiet: "quiet (Some e) \<Longrightarrow> quiet (Some (wrapOverflowErr e))"
  by (simp add: wrapOverflowErr_def)

lemma file_result_quiet: "quiet (case file_result sha256 n d w w' of Inl e \<Rightarrow> Some e | Inr _ \<Rightarrow> None)"
  by (simp add: file_result_def)

lemma write_File_quiet:
  assumes "rd_ok f" "quiet (Some (rd_end f))" "\<And>i. quiet (ctx i)" "quiet (w_err w)" "encoder_quiet z_Encode"
    and w: "write_File sha256 z_Encode ctx f w compression n = (x, w')"
  shows "quiet (case x of Inl e \<Rightarrow> Some e | Inr _ \<Rightarrow> None) \<and> quiet (w_err w')"
proof -
  let ?src = "limit_reader f (nat n)" and ?enc = "\<lparr>w_out = [], w_cap = None, w_err = None\<rparr> :: writer"
  note src = limit_reader_ok [OF assms(1), of "nat n"]
  have q: "rd_ok ?src" "quiet (Some (rd_end ?src))" using src assms(2) by auto
  consider "n < 0" | "0 \<le> n" "compression = CompressionNone" | "0 \<le> n" "compression \<noteq> CompressionNone" by linarith
  then show ?thesis
  proof cases
    case 1
    then show ?thesis using w assms(4) by (auto simp: write_File_def)
  next
    case 2
    obtain m e w1 where c: "CopyWithContext ctx 1 w ?src buf_size 0 = Some (m, e, w1)"
      by (metis CopyWithContext_returns zero_less_numeral)
    from CopyWithContext_quiet [OF q(1) _ q(2) assms(3,4) c] have "quiet e" "w_err w1 = w_err w" by auto
    then show ?thesis using w 2 c assms(4) wrapOverflowErr_quiet file_result_quiet
      by (cases e) (auto simp: write_File_def Let_def)
  next
    case 3
    obtain m e enc where c: "CopyWithContext ctx 1 ?enc ?src buf_size 0 = Some (m, e, enc)"
      by (metis CopyWithContext_returns zero_less_numeral)
    have "quiet e" using CopyWithContext_quiet [OF q(1) _ q(2) assms(3) _ c] by auto
    moreover obtain a b w1 where z: "z_Encode (w_out enc) w = (a, b, w1)" by (metis prod.exhaust)
    then have "quiet a" "quiet b" "quiet (w_err w1)" using assms(4,5) unfolding encoder_quiet_def by blast+
    ultimately show ?thesis using w 3 c z wrapOverflowErr_quiet file_result_quiet
      by (cases a; cases b; cases e) (auto simp: write_File_def Let_def)
  qed
qed

section \<open>The layout of the data\<close>

text \<open>What the archive has to hold for a file: its path, the information of the open file, its content.\<close>

definition archived :: "bool \<Rightarrow> visit \<Rightarrow> (string \<times> finfo \<times> bytes) option" where
  "archived strict v =
     (case v of
        (p, Some l, _) \<Rightarrow>
          (case (ResolveEntryInfo l strict, lf_open l) of
             (Inr (_, True), Inr f) \<Rightarrow>
               (case of_stat f of Inr fi \<Rightarrow> Some (p, fi, take (nat (st_size fi)) (rd_data (of_reader f))) | Inl _ \<Rightarrow> None)
           | _ \<Rightarrow> None)
      | _ \<Rightarrow> None)"

definition err_of :: "'a res \<Rightarrow> err option" where
  "err_of x = (case x of Inl e \<Rightarrow> Some e | Inr _ \<Rightarrow> None)"

lemma err_of_simps [simp]: "err_of (Inl e) = Some e" "err_of (Inr x) = None"
  by (simp_all add: err_of_def)

definition leaf_ok :: "nat \<Rightarrow> leaf \<Rightarrow> bool" where
  "leaf_ok limit l \<longleftrightarrow>
     (\<forall>f. lf_open l = Inr f \<longrightarrow>
        rd_ok (of_reader f) \<and> quiet (Some (rd_end (of_reader f))) \<and> quiet (err_of (of_stat f)) \<and> quiet (err_of (of_after f)) \<and>
        (\<forall>fi. of_stat f = Inr fi \<longrightarrow> st_size fi < 2 ^ 63 \<and> nat (st_size fi) \<le> limit))"

definition entry_for ::
  "(bytes \<Rightarrow> bytes) \<Rightarrow> zstd_lib \<Rightarrow> dopt list \<Rightarrow> Entry \<Rightarrow> string \<times> finfo \<times> bytes \<Rightarrow> bytes \<Rightarrow> bool" where
  "entry_for sha256 Z opts e file frame \<longleftrightarrow>
     (case file of (p, fi, content) \<Rightarrow>
        stored Z opts (Compression e) frame content \<and> Path e = p \<and> DataSize e = of_nat (length frame) \<and>
        OriginalSize e = of_nat (length content) \<and> int (length content) = st_size fi \<and> Hash e = sha256 content \<and>
        Mode e = mode_perm (st_mode fi) \<and> UID e = st_uid fi \<and> GID e = st_gid fi \<and> ModTime e = st_mtime fi)"

lemma writeEntry_spec:
  assumes l: "leaf_ok limit d" and z: "zstd_encodes Z opts limit z_Encode" "encoder_quiet z_Encode"
    and q: "\<And>i. quiet (ctx i)" "quiet (w_err w)" and k: "cr_compression cfg \<in> {CompressionNone, CompressionZstd}"
    and w: "writeEntry sha256 z_Encode cfg ctx path d info w = (x, w')"
  shows "(case x of
      Inl err \<Rightarrow> errors_is err ErrSymlink \<longrightarrow> w' = w \<and> lf_open d = Inl err
    | Inr e \<Rightarrow> \<exists>f fi frame. lf_open d = Inr f \<and> of_stat f = Inr fi \<and> appended w w' frame \<and>
        entry_for sha256 Z opts e (path, fi, take (nat (st_size fi)) (rd_data (of_reader f))) frame) \<and> quiet (w_err w')"
proof (cases "lf_open d")
  case (Inl err)
  then show ?thesis using w q(2) by (auto simp: writeEntry_def)
next
  case f: (Inr f)
  show ?thesis
  proof (cases "of_stat f")
    case (Inl err)
    then show ?thesis using w q(2) l f by (auto simp: writeEntry_def leaf_ok_def)
  next
    case fi: (Inr fi)
    have ok: "rd_ok (of_reader f)" "quiet (Some (rd_end (of_reader f)))" "quiet (err_of (of_after f))"
      "st_size fi < 2 ^ 63" "nat (st_size fi) \<le> limit" using l f fi by (auto simp: leaf_ok_def)
    define comp where "comp = (if cr_compression cfg \<noteq> CompressionNone \<and> ShouldSkip path fi (cr_skipCompression cfg)
      then CompressionNone else cr_compression cfg)"
    have comp: "comp \<in> {CompressionNone, CompressionZstd}" using k by (auto simp: comp_def)
    obtain y w1 where y: "write_File sha256 z_Encode ctx (of_reader f) w comp (st_size fi) = (y, w1)" by fastforce
    note wf = write_File_quiet [OF ok(1,2) q z(2) y]
    have unf: "writeEntry sha256 z_Encode cfg ctx path d info w =
       (if \<not> mode_is_regular (st_mode fi) then (Inl (Errorf ''not a regular file: %s'' [path] []), w)
        else case ValidateFileInfo path info fi (cr_strict cfg) of
            Some err \<Rightarrow> (Inl err, w)
          | None \<Rightarrow>
              if st_size fi < 0 then (Inl (Errorf ''negative file size: %s'' [path] []), w)
              else case y of
                Inl err \<Rightarrow> (Inl (Wrap (''write '' @ path) err), w1)
              | Inr (dataSize, originalSize, hash) \<Rightarrow>
                  (case CheckFileUnchanged f path fi (cr_strict cfg) of
                     Some err \<Rightarrow> (Inl err, w1)
                   | None \<Rightarrow>
                       (Inr \<lparr>Path = path, DataOffset = 0, DataSize = dataSize, OriginalSize = originalSize, Hash = hash,
                             Mode = mode_perm (st_mode fi), UID = st_uid fi, GID = st_gid fi, ModTime = st_mtime fi,
                             Compression = comp\<rparr>, w1)))"
      unfolding writeEntry_def f fi bindE_def sum.case prod.case Let_def comp_def [symmetric] y
      by (cases y) (auto split: option.splits)
    have v: "quiet (ValidateFileInfo path info fi (cr_strict cfg))" by (auto simp: ValidateFileInfo_def split: option.splits)
    have u: "quiet (CheckFileUnchanged f path fi (cr_strict cfg))"
      using ok(3) by (auto simp: CheckFileUnchanged_def split: sum.splits)
    show ?thesis
    proof (cases x)
      case (Inl err)
      then have "quiet (Some err) \<and> quiet (w_err w')" using w wf u v q(2) unfolding unf
        by (auto split: if_splits option.splits sum.splits)
      then show ?thesis using Inl by simp
    next
      case (Inr e)
      then obtain ds os h where yy: "y = Inr (ds, os, h)" "w1 = w'" and e: "e = \<lparr>Path = path, DataOffset = 0, DataSize = ds,
          OriginalSize = os, Hash = h, Mode = mode_perm (st_mode fi), UID = st_uid fi, GID = st_gid fi,
          ModTime = st_mtime fi, Compression = comp\<rparr>"
        using w unfolding unf by (auto split: if_splits option.splits sum.splits)
      from write_File_Inr [OF ok(1,4,5) z(1) comp y [unfolded yy]] f fi e wf yy(2) Inr show ?thesis
        by (auto simp: entry_for_def)
    qed
  qed
qed

lemma processEntry_spec:
  assumes l: "\<And>l. fst (snd v) = Some l \<Longrightarrow> leaf_ok limit l"
    and z: "zstd_encodes Z opts limit z_Encode" "encoder_quiet z_Encode"
    and q: "\<And>p i. quiet (ctx p i)" "quiet (w_err w)" and k: "cr_compression cfg \<in> {CompressionNone, CompressionZstd}"
    and w: "create_processEntry sha256 z_Encode cfg ctx maxFiles cnt v w = (Inr x, w')"
  shows "(case x of
      None \<Rightarrow> w' = w \<and> archived (cr_strict cfg) v = None
    | Some e \<Rightarrow> \<exists>fl frame. archived (cr_strict cfg) v = Some fl \<and> appended w w' frame \<and>
        entry_for sha256 Z opts e fl frame) \<and> quiet (w_err w')"
proof -
  obtain p d werr where v: "v = (p, d, werr)" by (metis prod.exhaust)
  have ok: "werr = None" "ctx p 0 = None" using w v by (auto simp: create_processEntry_def split: option.splits)
  show ?thesis
  proof (cases d)
    case None
    then show ?thesis using w v ok q(2) by (auto simp: create_processEntry_def archived_def)
  next
    case (Some d')
    obtain info b where r: "ResolveEntryInfo d' (cr_strict cfg) = Inr (info, b)"
      using w v ok Some by (cases "ResolveEntryInfo d' (cr_strict cfg)") (auto simp: create_processEntry_def)
    show ?thesis
    proof (cases b)
      case False
      then show ?thesis using w v ok Some r q(2) by (auto simp: create_processEntry_def archived_def split: sum.splits)
    next
      case True
      obtain y w1 where y: "writeEntry sha256 z_Encode cfg (ctx p) p d' info w = (y, w1)" by fastforce
      note spec = writeEntry_spec [OF l z q k y]
      have "w1 = w'" "case y of Inl err \<Rightarrow> x = None \<and> errors_is err ErrSymlink | Inr e \<Rightarrow> x = Some e"
        using w v ok Some r True y by (cases y; auto simp: create_processEntry_def Let_def split: if_splits)+
      with spec v Some r True show ?thesis by (cases y) (auto simp: archived_def)
    qed
  qed
qed

text \<open>The data blob is the concatenation of what is stored for the files, in the order of the entries.\<close>

fun laid_out ::
  "(bytes \<Rightarrow> bytes) \<Rightarrow> zstd_lib \<Rightarrow> dopt list \<Rightarrow> nat \<Rightarrow> Entry list \<Rightarrow> (string \<times> finfo \<times> bytes) list \<Rightarrow> bytes \<Rightarrow> bool" where
  "laid_out sha256 Z opts off [] [] d = (d = [])"
| "laid_out sha256 Z opts off (e # es) (f # fs) d =
     (\<exists>frame rest. d = frame @ rest \<and> unat (DataOffset e) = off \<and> entry_for sha256 Z opts e f frame \<and>
        laid_out sha256 Z opts (off + length frame) es fs rest)"
| "laid_out sha256 Z opts off es fs d = False"

lemma map_filter_Cons: "List.map_filter f (x # xs) = (case f x of None \<Rightarrow> [] | Some y \<Rightarrow> [y]) @ List.map_filter f xs"
  by (simp add: List.map_filter_simps split: option.splits)

lemma unat_add_of_nat:
  assumes "unat t + n < 2 ^ 64"
  shows "unat (t + of_nat n :: u64) = unat t + n"
proof -
  have "int (unat t + n) < 2 ^ 64" using assms by (metis of_nat_less_numeral_power_cancel_iff)
  then have "uint t + int n < 2 ^ 64" by (simp only: of_nat_add uint_nat)
  from uint_add_of_nat [OF this] show ?thesis by (simp only: uint_nat of_nat_add [symmetric] of_nat_eq_iff)
qed

lemma write_visits_layout:
  assumes "\<forall>p l x. (p, Some l, x) \<in> set vs \<longrightarrow> leaf_ok limit l"
    and z: "zstd_encodes Z opts limit z_Encode" "encoder_quiet z_Encode"
    and q: "\<And>p i. quiet (ctx p i)" "quiet (w_err w)" and k: "cr_compression cfg \<in> {CompressionNone, CompressionZstd}"
    and "write_visits sha256 z_Encode cfg ctx maxFiles vs entries totalBytes w = (Inr (entries', totalBytes'), w')"
  shows "\<exists>new d. entries' = entries @ new \<and> w_out w' = w_out w @ d \<and>
    (unat totalBytes + length d < 2 ^ 64 \<longrightarrow>
       laid_out sha256 Z opts (unat totalBytes) new (List.map_filter (archived (cr_strict cfg)) vs) d \<and>
       unat totalBytes' = unat totalBytes + length d)"
  using assms(1,5,7)
proof (induction vs arbitrary: entries totalBytes w)
  case Nil
  then show ?case by (auto simp: List.map_filter_simps)
next
  case (Cons v vs)
  obtain x w1 where x: "create_processEntry sha256 z_Encode cfg ctx maxFiles (length entries) v w = (Inr x, w1)"
    using Cons.prems(3)
    by (cases "create_processEntry sha256 z_Encode cfg ctx maxFiles (length entries) v w"; cases "fst (create_processEntry sha256 z_Encode cfg ctx maxFiles (length entries) v w)") auto
  have l: "leaf_ok limit l" if "fst (snd v) = Some l" for l
    using Cons.prems(1) that by (metis list.set_intros(1) prod.collapse)
  have ls: "\<forall>p l x. (p, Some l, x) \<in> set vs \<longrightarrow> leaf_ok limit l" using Cons.prems(1) by (meson list.set_intros(2))
  note spec = processEntry_spec [OF l z q(1) Cons.prems(2) k x]
  show ?case
  proof (cases x)
    case None
    then have "write_visits sha256 z_Encode cfg ctx maxFiles vs entries totalBytes w = (Inr (entries', totalBytes'), w')"
      using Cons.prems(3) x spec by simp
    from Cons.IH [OF ls Cons.prems(2) this] show ?thesis using spec None by (simp add: map_filter_Cons)
  next
    case (Some e)
    then obtain fl frame where f: "archived (cr_strict cfg) v = Some fl" "w_out w1 = w_out w @ frame"
      "entry_for sha256 Z opts e fl frame" "quiet (w_err w1)" using spec by (auto simp: appended_def)
    have run: "write_visits sha256 z_Encode cfg ctx maxFiles vs (entries @ [e\<lparr>DataOffset := totalBytes\<rparr>])
        (totalBytes + DataSize e) w1 = (Inr (entries', totalBytes'), w')"
      using Cons.prems(3) x Some by (auto split: if_splits)
    from Cons.IH [OF ls f(4) run] obtain new d where ih: "entries' = entries @ e\<lparr>DataOffset := totalBytes\<rparr> # new"
      "w_out w' = w_out w @ frame @ d"
      "unat (totalBytes + DataSize e) + length d < 2 ^ 64 \<longrightarrow>
         laid_out sha256 Z opts (unat (totalBytes + DataSize e)) new (List.map_filter (archived (cr_strict cfg)) vs) d \<and>
         unat totalBytes' = unat (totalBytes + DataSize e) + length d" using f(2) by auto
    have sz: "DataSize e = of_nat (length frame)" using f(3) by (auto simp: entry_for_def split: prod.splits)
    have "unat (totalBytes + DataSize e) = unat totalBytes + length frame" if "unat totalBytes + length (frame @ d) < 2 ^ 64"
      using unat_add_of_nat [of totalBytes "length frame"] that sz by simp
    moreover have "entry_for sha256 Z opts (e\<lparr>DataOffset := totalBytes\<rparr>) fl frame" using f(3) by (simp add: entry_for_def)
    ultimately have "laid_out sha256 Z opts (unat totalBytes) (e\<lparr>DataOffset := totalBytes\<rparr> # new)
        (List.map_filter (archived (cr_strict cfg)) (v # vs)) (frame @ d) \<and>
        unat totalBytes' = unat totalBytes + length (frame @ d)" if "unat totalBytes + length (frame @ d) < 2 ^ 64"
      using ih(3) f(1) that by (simp add: map_filter_Cons add.assoc) blast
    then show ?thesis using ih(1,2) by blast
  qed
qed

lemma laid_out_paths: "laid_out sha256 Z opts off es fs d \<Longrightarrow> map Path es = map fst fs"
  by (induction sha256 Z opts off es fs d rule: laid_out.induct) (auto simp: entry_for_def)

lemma laid_out_entry:
  assumes "laid_out sha256 Z opts (length pre) es fs d" "length (pre @ d) < 2 ^ 64" "fl \<in> set fs"
  shows "\<exists>e\<in>set es. entry_for sha256 Z opts e fl (entry_data (pre @ d) e) \<and>
    unat (DataOffset e) + unat (DataSize e) \<le> length (pre @ d)"
  using assms
proof (induction sha256 Z opts "length pre" es fs d arbitrary: pre rule: laid_out.induct)
  case (2 sha256 Z opts e es f fs d)
  then obtain frame rest where d: "d = frame @ rest" "unat (DataOffset e) = length pre" "entry_for sha256 Z opts e f frame"
    "laid_out sha256 Z opts (length (pre @ frame)) es fs rest" by auto
  have "DataSize e = of_nat (length frame)" using d(3) by (auto simp: entry_for_def split: prod.splits)
  moreover have "length frame < 2 ^ 64" using "2.prems"(2) d(1) by simp
  ultimately have s: "unat (DataSize e) = length frame" by (simp add: unsigned_of_nat take_bit_nat_eq_self)
  have e: "entry_data (pre @ d) e = frame" using d(1,2) s by (simp add: entry_data_def)
  show ?case
  proof (cases "fl = f")
    case True
    then show ?thesis using d s e by auto
  next
    case False
    then have "fl \<in> set fs" using "2.prems"(3) by simp
    then have "\<exists>e\<in>set es. entry_for sha256 Z opts e fl (entry_data ((pre @ frame) @ rest) e) \<and>
        unat (DataOffset e) + unat (DataSize e) \<le> length ((pre @ frame) @ rest)"
      using "2.hyps" [of frame "pre @ frame" rest] d(1,4) "2.prems"(2) by simp
    then show ?thesis using d(1) by auto
  qed
qed auto

lemma word_of_unat: "of_nat (unat w) = (w :: u64)"
  by simp

text \<open>A writer that stops early reports an error.\<close>

definition honest :: "writer \<Rightarrow> bool" where
  "honest w \<longleftrightarrow> (w_cap w \<noteq> None \<longrightarrow> w_err w \<noteq> None)"

lemma w_Write_None: "honest w \<Longrightarrow> w_Write w d = ((n, None), w') \<Longrightarrow> w_out w' = w_out w @ d"
  by (auto simp: honest_def w_Write_def split: option.splits if_splits)

text \<open>The files of a tree, in the order of the walk, and the archive \<^verbatim>\<open>Create\<close> writes for them.\<close>

definition tree_files :: "bool \<Rightarrow> tree \<Rightarrow> (string \<times> finfo \<times> bytes) list" where
  "tree_files strict t = List.map_filter (archived strict) (walk ''.'' t)"

definition tree_ok :: "nat \<Rightarrow> tree \<Rightarrow> bool" where
  "tree_ok limit t \<longleftrightarrow> (\<forall>p l x. (p, Some l, x) \<in> set (walk ''.'' t) \<longrightarrow> leaf_ok limit l)"

definition create_config :: "(createConfig \<Rightarrow> createConfig) list \<Rightarrow> createConfig" where
  "create_config opts = fold (\<lambda>opt c. opt c) opts zero_create"

text \<open>
  What the files, the encoder and the writers have to be like: readable files below the size limit of
  the decoder, an encoder whose frames the decoder reads, only \<^verbatim>\<open>open\<close> reporting symbolic links, a known
  compression, empty writers.
\<close>

definition create_env ::
  "zstd_lib \<Rightarrow> dopt list \<Rightarrow> nat \<Rightarrow> z_encoder \<Rightarrow> (string \<Rightarrow> nat \<Rightarrow> err option) \<Rightarrow> tree \<Rightarrow>
   (createConfig \<Rightarrow> createConfig) list \<Rightarrow> writer \<Rightarrow> writer \<Rightarrow> bool" where
  "create_env Z opts limit z_Encode ctx root copts iw dw \<longleftrightarrow>
     tree_ok limit root \<and> zstd_encodes Z opts limit z_Encode \<and> encoder_quiet z_Encode \<and> (\<forall>p i. quiet (ctx p i)) \<and>
     quiet (w_err dw) \<and> cr_compression (create_config copts) \<in> {CompressionNone, CompressionZstd} \<and>
     w_out iw = [] \<and> w_out dw = [] \<and> honest iw"

lemma create_layout:
  assumes c: "Create_archive sha256 z_Encode encode ctx (Inr root) copts iw dw = (None, iw', dw')"
    and env: "create_env Z opts limit z_Encode ctx root copts iw dw" and o: "length (w_out dw') < 2 ^ 64"
  obtains entries where
    "writeData sha256 z_Encode (create_config copts) ctx root dw = (Inr (entries, of_nat (length (w_out dw'))), dw')"
    "laid_out sha256 Z opts 0 entries (tree_files (cr_strict (create_config copts)) root) (w_out dw')"
    "w_out iw' = encode (buildIndex entries (of_nat (length (w_out dw'))) (sha256 (w_out dw')))"
proof -
  let ?cfg = "create_config copts"
  have z: "zstd_encodes Z opts limit z_Encode" "encoder_quiet z_Encode" and q: "\<And>p i. quiet (ctx p i)" "quiet (w_err dw)"
    and k: "cr_compression ?cfg \<in> {CompressionNone, CompressionZstd}"
    and t: "\<forall>p l x. (p, Some l, x) \<in> set (walk ''.'' root) \<longrightarrow> leaf_ok limit l"
    and w: "w_out iw = []" "w_out dw = []" "honest iw"
    using env by (auto simp only: create_env_def tree_ok_def)
  obtain r d1 where r: "writeData sha256 z_Encode ?cfg ctx root dw = (r, d1)" by fastforce
  then obtain entries n where e: "r = Inr (entries, n)" "d1 = dw'"
    using c by (cases r) (auto simp: Create_archive_def create_config_def Let_def split: prod.splits)
  let ?index = "encode (buildIndex entries n (sha256 (w_out dw')))"
  obtain m x i1 where i: "w_Write iw ?index = ((m, x), i1)" by (metis prod.exhaust)
  have "x = None" "i1 = iw'" using c r e i w(2) by (auto simp: Create_archive_def create_config_def Let_def)
  then have ix: "w_out iw' = ?index" using w_Write_None [OF w(3)] i w(1) by fastforce
  have "\<exists>new d. entries = [] @ new \<and> w_out dw' = w_out dw @ d \<and>
    (unat (0 :: u64) + length d < 2 ^ 64 \<longrightarrow>
       laid_out sha256 Z opts (unat (0 :: u64)) new (List.map_filter (archived (cr_strict ?cfg)) (walk ''.'' root)) d \<and>
       unat n = unat (0 :: u64) + length d)"
    using r e unfolding writeData_def Let_def
    by (intro write_visits_layout [where ctx = ctx, OF t z q k]) simp_all
  then have l: "laid_out sha256 Z opts 0 entries (tree_files (cr_strict ?cfg) root) (w_out dw')" "unat n = length (w_out dw')"
    using w(2) o by (auto simp: tree_files_def)
  then have "n = of_nat (length (w_out dw'))" by (metis word_of_unat)
  then show ?thesis using that r e ix l(1) by blast
qed

section \<open>Reading an archive back\<close>

lemma ReadAll_stored:
  assumes "source_ok (r_source r)" "ValidateAll e (src_size (r_source r)) (r_maxFileSize r) = None" "r_pool r = Some q"
    and "stored Z (decoder_opts q) (Compression e) (entry_data (ra_content (src_at (r_source r))) e) d"
    and "int (length d) = uint (OriginalSize e)" "int (length d) \<le> MaxInt64"
  shows "ReadAll sha256 Z r e = (if sha256 d = Hash e then Inr d else Inl ErrHashMismatch)"
proof -
  have v: "ValidateForRead e (src_size (r_source r)) (r_maxFileSize r) = None" using assms(2) by (simp add: ValidateAll_None)
  obtain s where s: "sectionReader r e = Inr s" "delivers s (entry_data (ra_content (src_at (r_source r))) e)"
    using source_ok_section [OF assms(1) v] by blast
  obtain rd where "entryReader Z r e s = Inr rd" "delivers rd d"
  proof (cases "Compression e = CompressionNone")
    case True
    then show thesis using that [of s] assms(4) s(2) entryReader_raw [OF True] CompressionZstd_def CompressionNone_def
      unfolding stored_def by (metis zero_neq_one)
  next
    case False
    then have "Compression e = CompressionZstd" "zstd_decodes Z (decoder_opts q) (entry_data (ra_content (src_at (r_source r))) e) d"
      using assms(4) by (auto simp: stored_def)
    with entryReader_zstd [OF assms(1) v _ s(1), of Z d] that assms(3) show thesis by auto
  qed
  from ReadAll_delivers [OF assms(2) s(1) this assms(5)] assms(5,6) show ?thesis by simp
qed

lemma created_view:
  assumes "Compression e \<in> {CompressionNone, CompressionZstd}"
  shows "Compression (EntryFromViewWithPath (fb_of_Entry e) p) = Compression e"
  using assms Entry_roundtrip [of "e\<lparr>ModTime := 0\<rparr>"]
  by (auto simp: EntryFromViewWithPath_def fb_of_Entry_def CompressionFromFB_id)

lemma created_ReadFile:
  assumes layout: "laid_out sha256 Z (decoder_opts q) 0 entries fs d" and paths: "sorted_wrt (<) (map fst fs)"
    and idx: "idx_root (b_idx b) = buildIndex entries n h" and src: "source_ok (r_source (b_reader b))"
      "ra_content (src_at (r_source (b_reader b))) = d" and pool: "r_pool (b_reader b) = Some q"
    and hash: "\<And>c. length (sha256 c) = 32" and "b_cache b = None" "valid_path p" "(p, fi, content) \<in> set fs"
      "st_size fi < 2 ^ 63"
    and lim: "r_maxFileSize (b_reader b) = 0 \<or>
      length d \<le> unat (r_maxFileSize (b_reader b)) \<and> length content \<le> unat (r_maxFileSize (b_reader b))"
  shows "Blob_ReadFile sha256 Z race b p c = (Inr content, c)"
proof -
  let ?m = "r_maxFileSize (b_reader b)"
  have len: "int (length d) < 2 ^ 63" "src_size (r_source (b_reader b)) = int (length d)" using src by (auto simp: source_ok_def)
  obtain e where e: "e \<in> set entries" "entry_for sha256 Z (decoder_opts q) e (p, fi, content) (entry_data d e)"
    "unat (DataOffset e) + unat (DataSize e) \<le> length d"
    using laid_out_entry [of sha256 Z _ "[]", simplified, OF layout _ assms(10)] len by fastforce
  have lc: "int (length content) < 2 ^ 63" using e(2) assms(11) by (simp add: entry_for_def)
  moreover have "OriginalSize e = of_nat (length content)" using e(2) by (simp add: entry_for_def)
  ultimately have os: "uint (OriginalSize e) = int (length content)"
    using uint_word_of_i64 [of "int (length content)"] by simp
  have view: "EntriesView (b_idx b) = map fb_of_Entry entries" by (simp add: EntriesView_def idx buildIndex_def)
  have so: "sorted_wrt (<) (map fb_path (EntriesView (b_idx b)))"
    using paths laid_out_paths [OF layout] by (simp add: view comp_def)
  then have "index_sorted (b_idx b)" "distinct (map fb_path (EntriesView (b_idx b)))"
    by (auto simp: index_sorted_def strict_sorted_iff)
  from idx.lookup_unique [OF this, of "fb_of_Entry e"] have look: "LookupView (b_idx b) p = Some (fb_of_Entry e)"
    using e by (simp add: view entry_for_def)
  let ?e = "EntryFromViewWithPath (fb_of_Entry e) p"
  have cs: "Compression ?e = Compression e" using e(2) by (intro created_view) (auto simp: entry_for_def stored_def)
  have same: "DataOffset ?e = DataOffset e" "DataSize ?e = DataSize e" "OriginalSize ?e = OriginalSize e" "Hash ?e = Hash e"
    by simp_all
  have ds: "entry_data d ?e = entry_data d e" by (simp add: entry_data_def)
  have "DataSize e \<le> ?m \<and> OriginalSize e \<le> ?m" if "?m \<noteq> 0"
  proof -
    have "unat (OriginalSize e) = length content" using os by (metis nat_int unat_eq_nat_uint)
    then show ?thesis using that lim e(3) by (auto simp: word_le_nat_alt)
  qed
  moreover have "uint (DataOffset e) + uint (DataSize e) \<le> int (length d)"
    using e(3) by (metis of_nat_add of_nat_le_iff uint_nat)
  ultimately have "ValidateForRead ?e (int (length d)) ?m = None"
    unfolding ValidateForRead_None [OF len(1)] same using of_nat_0_le_iff by blast
  moreover have "Compression e = CompressionNone \<Longrightarrow> DataSize e = OriginalSize e"
    using e(2) by (auto simp: entry_for_def stored_def CompressionNone_def CompressionZstd_def)
  ultimately have "ValidateAll ?e (src_size (r_source (b_reader b))) ?m = None"
    using e(2) hash by (simp add: ValidateAll_None len(2) same cs entry_for_def)
  from ReadAll_stored [OF src(1) this pool, of Z content sha256] have "ReadAll sha256 Z (b_reader b) ?e = Inr content"
    using e(2) os lc by (simp add: src(2) cs same ds entry_for_def MaxInt64_eq)
  then show ?thesis using assms(8,9) look by (simp add: Blob_ReadFile_def)
qed

text \<open>Every entry of an archive passes the checks of a reader without a size limit.\<close>

lemma laid_out_valid:
  assumes "laid_out sha256 Z opts off es fs d" "off + length d < 2 ^ 63" "\<And>c. length (sha256 c) = 32"
  shows "\<forall>e\<in>set es. ValidateAll e (int (off + length d)) 0 = None \<and> mode_is_regular (Mode e) \<and>
    Compression e \<in> {CompressionNone, CompressionZstd}"
  using assms
proof (induction sha256 Z opts off es fs d rule: laid_out.induct)
  case (2 sha256 Z opts off e es f fs d)
  then obtain frame rest where d: "d = frame @ rest" "unat (DataOffset e) = off" "entry_for sha256 Z opts e f frame"
    "laid_out sha256 Z opts (off + length frame) es fs rest" by auto
  obtain p fi c where f: "f = (p, fi, c)" by (cases f) auto
  note ef = d(3) [unfolded f entry_for_def prod.case]
  have "length frame < 2 ^ 64" using "2.prems"(2) d(1) by simp
  then have s: "unat (DataSize e) = length frame" using ef by (simp add: unsigned_of_nat take_bit_nat_eq_self)
  have "unat (DataOffset e) + unat (DataSize e) \<le> off + length d" using d(1,2) s by simp
  then have "uint (DataOffset e) + uint (DataSize e) \<le> int (off + length d)" by (metis of_nat_add of_nat_le_iff uint_nat)
  moreover have n: "int (off + length d) < 2 ^ 63" using "2.prems"(2) by (metis of_nat_less_numeral_power_cancel_iff)
  ultimately have "ValidateForRead e (int (off + length d)) 0 = None" unfolding ValidateForRead_None [OF n] by simp
  moreover have "Compression e = CompressionNone \<Longrightarrow> DataSize e = OriginalSize e"
    using ef by (auto simp: stored_def CompressionNone_def CompressionZstd_def)
  ultimately have "ValidateAll e (int (off + length d)) 0 = None" using ef "2.prems"(3) by (simp add: ValidateAll_None)
  moreover have "mode_is_regular (Mode e)" "Compression e \<in> {CompressionNone, CompressionZstd}"
    using ef mode_perm_regular by (auto simp: stored_def)
  moreover have "\<forall>e\<in>set es. ValidateAll e (int (off + length frame + length rest)) 0 = None \<and> mode_is_regular (Mode e) \<and>
      Compression e \<in> {CompressionNone, CompressionZstd}"
    using "2.IH" [OF d(4)] "2.prems" d(1) by simp
  ultimately show ?case using d(1) by (simp add: add.assoc)
qed auto

section \<open>The order of the walk\<close>

text \<open>
  The walk visits siblings by name, and everything below a directory before the next sibling. This is
  the order of the paths when no sibling of a directory extends its name by a character below the
  slash. Names are what a directory can hold.
\<close>

fun is_tree_dir :: "tree \<Rightarrow> bool" where
  "is_tree_dir (Leaf l) = False"
| "is_tree_dir t = True"

fun tree_sorted :: "tree \<Rightarrow> bool" where
  "tree_sorted (Leaf l) = True"
| "tree_sorted (Unreadable e) = True"
| "tree_sorted (Dir cs) =
     (distinct (map fst cs) \<and>
      (\<forall>c\<in>set cs. fst c \<notin> {[], ''.''} \<and> slash \<notin> set (fst c) \<and> tree_sorted (snd c) \<and>
         (\<forall>d\<in>set cs. is_tree_dir (snd c) \<longrightarrow> strict_prefix (fst c) (fst d) \<longrightarrow> slash < fst d ! length (fst c))))"

definition leaf_paths :: "visit list \<Rightarrow> string list" where
  "leaf_paths vs = map fst (filter (\<lambda>v. fst (snd v) \<noteq> None) vs)"

lemma leaf_paths_simps [simp]:
  "leaf_paths [] = []" "leaf_paths (v # vs) = (if fst (snd v) = None then [] else [fst v]) @ leaf_paths vs"
  "leaf_paths (concat vss) = concat (map leaf_paths vss)"
  by (induction vss) (auto simp: leaf_paths_def)

lemma sorted_wrt_concat:
  "sorted_wrt R (concat xss) \<longleftrightarrow>
   (\<forall>xs\<in>set xss. sorted_wrt R xs) \<and> sorted_wrt (\<lambda>xs ys. \<forall>x\<in>set xs. \<forall>y\<in>set ys. R x y) xss"
  by (induction xss) (auto simp: sorted_wrt_append)

lemma path_join_dot: "name \<notin> {[], ''.''} \<Longrightarrow> path_join p name \<noteq> ''.''"
  by (auto simp: path_join_def append_eq_Cons_conv)

lemma walk_paths:
  "q \<in> set (leaf_paths (walk p t)) \<Longrightarrow> tree_sorted t \<Longrightarrow> p \<noteq> ''.'' \<Longrightarrow> q = p \<and> \<not> is_tree_dir t \<or> is_tree_dir t \<and> (\<exists>x. q = p @ slash # x)"
proof (induction p t rule: walk.induct)
  case (3 p cs)
  then obtain name t where c: "(name, t) \<in> set cs" "q \<in> set (leaf_paths (walk (path_join p name) t))" by auto
  with "3.prems" have "tree_sorted t" "name \<notin> {[], ''.''}" by force+
  then have "q = path_join p name \<or> (\<exists>x. q = path_join p name @ slash # x)"
    using "3.IH" [OF c(1) refl c(2)] path_join_dot by blast
  then show ?case using "3.prems"(3) by (auto simp: path_join_def)
qed auto

lemma less_extend: "a < b \<Longrightarrow> \<not> prefix a b \<Longrightarrow> a @ x < b @ (y :: string)"
proof (induction a arbitrary: b)
  case (Cons c a)
  then obtain d b' where "b = d # b'" by (cases b) auto
  with Cons show ?case by auto
qed simp

lemma less_append: "x \<noteq> [] \<Longrightarrow> a < a @ (x :: string)"
  by (induction a) (auto simp: neq_Nil_conv)

lemma sibling_order:
  assumes "n < m" "slash \<notin> set m" "d \<Longrightarrow> strict_prefix n m \<Longrightarrow> slash < m ! length n"
    and "x = n \<and> \<not> d \<or> d \<and> (\<exists>r. x = n @ slash # r)" "y = m \<or> (\<exists>r. y = m @ slash # r)"
  shows "x < (y :: string)"
proof (cases "prefix n m")
  case False
  obtain a b where "x = n @ a" "y = m @ b" using assms(4,5) by (metis append_Nil2)
  then show ?thesis using less_extend [OF assms(1) False] by simp
next
  case True
  then obtain c r where m: "m = n @ c # r" using assms(1) by (metis list.exhaust append_Nil2 order_less_irrefl prefixE)
  have "d \<Longrightarrow> slash < c" using assms(3) m by (simp add: strict_prefix_def)
  then show ?thesis using assms(4,5) m by (auto intro: less_append)
qed

lemma path_join_pre: "path_join p n = (if p = ''.'' then [] else p @ ''/'') @ n"
  by (simp add: path_join_def)

lemma siblings_sorted:
  assumes "tree_sorted (Dir cs)" "(n, t) \<in> set cs" "(m, u) \<in> set cs" "n < m"
    and "x \<in> set (leaf_paths (walk (path_join p n) t))" "y \<in> set (leaf_paths (walk (path_join p m) u))"
  shows "x < y"
proof -
  let ?pre = "if p = ''.'' then [] else p @ ''/''"
  have ok: "n \<notin> {[], ''.''}" "m \<notin> {[], ''.''}" "tree_sorted t" "tree_sorted u" "slash \<notin> set m"
    "is_tree_dir t \<Longrightarrow> strict_prefix n m \<Longrightarrow> slash < m ! length n"
    using assms(1-3) by force+
  obtain x' where x: "x = ?pre @ x'" "x' = n \<and> \<not> is_tree_dir t \<or> is_tree_dir t \<and> (\<exists>r. x' = n @ slash # r)"
    using walk_paths [OF assms(5) ok(3) path_join_dot [OF ok(1)]] unfolding path_join_pre by (metis append.assoc)
  obtain y' where y: "y = ?pre @ y'" "y' = m \<or> (\<exists>r. y' = m @ slash # r)"
    using walk_paths [OF assms(6) ok(4) path_join_dot [OF ok(2)]] unfolding path_join_pre by (metis append.assoc)
  show ?thesis using sibling_order [OF assms(4) ok(5,6) x(2) y(2)] x(1) y(1) by simp
qed

lemma walk_sorted: "tree_sorted t \<Longrightarrow> sorted_wrt (<) (leaf_paths (walk p t))"
proof (induction p t rule: walk.induct)
  case (3 p cs)
  define f where "f = (\<lambda>(name, t). (name, walk (path_join p name) t))"
  define ws where "ws = sort_key fst (map f cs)"
  have names: "map fst (map f cs) = map fst cs" by (simp add: f_def comp_def case_prod_unfold)
  have "distinct (map fst (map f cs))" unfolding names using "3.prems" by simp
  then have "distinct (map fst ws)" unfolding ws_def by (auto simp: distinct_map inj_on_def)
  then have "sorted_wrt (<) (map fst ws)" by (simp add: strict_sorted_iff ws_def)
  then have "sorted_wrt (\<lambda>a b. \<forall>x\<in>set (leaf_paths (snd a)). \<forall>y\<in>set (leaf_paths (snd b)). x < y) ws"
    unfolding sorted_wrt_map
  proof (rule sorted_wrt_mono_rel [rotated])
    fix a b assume ab: "a \<in> set ws" "b \<in> set ws" "fst a < fst b"
    then obtain n t m u where "(n, t) \<in> set cs" "(m, u) \<in> set cs" "a = (n, walk (path_join p n) t)"
      "b = (m, walk (path_join p m) u)" by (auto simp: ws_def f_def)
    then show "\<forall>x\<in>set (leaf_paths (snd a)). \<forall>y\<in>set (leaf_paths (snd b)). x < y"
      using siblings_sorted [OF "3.prems", of n t m u _ p] ab(3) by (metis fst_conv snd_conv)
  qed
  moreover have "\<forall>w\<in>set ws. sorted_wrt (<) (leaf_paths (snd w))" using "3.IH" "3.prems" by (auto simp: ws_def f_def)
  ultimately show ?case
    by (simp add: sorted_wrt_concat sorted_wrt_map f_def [symmetric] ws_def [symmetric])
qed auto

lemma tree_files_sorted:
  assumes "tree_sorted t"
  shows "sorted_wrt (<) (map fst (tree_files strict t))"
proof -
  have a: "archived strict v = Some fl \<Longrightarrow> fst fl = fst v \<and> fst (snd v) \<noteq> None" for v fl
    by (auto simp: archived_def split: prod.splits option.splits sum.splits bool.splits)
  have "map fst (List.map_filter (archived strict) vs) = map fst (filter (\<lambda>v. archived strict v \<noteq> None) vs)" for vs
  proof (induction vs)
    case (Cons v vs)
    then show ?case using a [of v] by (cases "archived strict v") (auto simp: map_filter_Cons)
  qed (simp add: List.map_filter_simps)
  moreover have "filter (\<lambda>v. archived strict v \<noteq> None) vs =
      filter (\<lambda>v. archived strict v \<noteq> None) (filter (\<lambda>v. fst (snd v) \<noteq> None) vs)" for vs
    unfolding filter_filter by (rule filter_cong) (use a in blast)+
  moreover have "sorted_wrt (<) (map fst (filter (\<lambda>v. archived strict v \<noteq> None) (filter (\<lambda>v. fst (snd v) \<noteq> None) (walk ''.'' t))))"
    using walk_sorted [OF assms, of "''.''"] unfolding leaf_paths_def sorted_wrt_map by (rule sorted_wrt_filter)
  ultimately show ?thesis unfolding tree_files_def by presburger
qed

end
