(* ===== verification/HttpSource.thy ===== *)
theory HttpSource
  imports FileReader Paths Texts "HOL-Library.AList"
begin

text \<open>
  \<^verbatim>\<open>core/http/source.go\<close>: a byte source over HTTP range requests. The HTTP client and the server behind
  it are the argument \<open>Do\<close>, a function of the request and of a state that the calls thread, so that a
  server may answer differently each time. A response is its status code, status line, headers, content
  length and body. Closing and draining a body has no effect of its own. Logging is left out.
\<close>

section \<open>Definitions\<close>

subsection \<open>Requests and responses\<close>

text \<open>\<^verbatim>\<open>http.Header\<close>: the values of each key, in the order they were added; keys are canonical.\<close>

type_synonym header = "(string \<times> string list) list"

record request =
  rq_method :: string
  rq_url :: string
  rq_header :: header

record response =
  rs_code :: int
  rs_status :: string
  rs_header :: header
  rs_length :: i64
  rs_body :: reader

type_synonym 'n http_client = "request \<Rightarrow> 'n \<Rightarrow> response res \<times> 'n"

text \<open>\<^verbatim>\<open>textproto.CanonicalMIMEHeaderKey\<close>: a key with a byte that is no token character is left alone.\<close>

definition token_char :: "char \<Rightarrow> bool" where
  "token_char c \<longleftrightarrow>
     (let n = (of_char c :: nat)
      in 48 \<le> n \<and> n \<le> 57 \<or> 65 \<le> n \<and> n \<le> 90 \<or> 97 \<le> n \<and> n \<le> 122 \<or> c \<in> set ''!#$%&*+-.^_`|~'' \<or> n = 39)"

definition upper_char :: "char \<Rightarrow> char" where
  "upper_char c = (if 97 \<le> (of_char c :: nat) \<and> (of_char c :: nat) \<le> 122 then char_of ((of_char c :: nat) - 32) else c)"

definition lower_ascii :: "char \<Rightarrow> char" where
  "lower_ascii c = (if 65 \<le> (of_char c :: nat) \<and> (of_char c :: nat) \<le> 90 then char_of ((of_char c :: nat) + 32) else c)"

fun canonical_from :: "bool \<Rightarrow> string \<Rightarrow> string" where
  "canonical_from upper [] = []"
| "canonical_from upper (c # cs) =
     (if upper then upper_char c else lower_ascii c) # canonical_from (c = CHR ''-'') cs"

definition canonical_key :: "string \<Rightarrow> string" where
  "canonical_key k = (if list_all token_char k then canonical_from True k else k)"

definition header_values :: "header \<Rightarrow> string \<Rightarrow> string list" where
  "header_values h k = (case map_of h (canonical_key k) of None \<Rightarrow> [] | Some vs \<Rightarrow> vs)"

definition header_Get :: "header \<Rightarrow> string \<Rightarrow> string" where
  "header_Get h k = (case header_values h k of [] \<Rightarrow> [] | v # vs \<Rightarrow> v)"

definition header_Set :: "string \<Rightarrow> string \<Rightarrow> header \<Rightarrow> header" where
  "header_Set k v h = AList.update (canonical_key k) [v] h"

definition header_Add :: "string \<Rightarrow> string \<Rightarrow> header \<Rightarrow> header" where
  "header_Add k v h = AList.update (canonical_key k) (header_values h k @ [v]) h"

subsection \<open>The source\<close>

record http_source =
  hs_url :: string
  hs_headers :: "header option"
  hs_size :: i64
  hs_etag :: string
  hs_lastModified :: string
  hs_sourceID :: string
  hs_useConditionalHeaders :: bool

definition WithHeaders :: "header option \<Rightarrow> http_source \<Rightarrow> http_source" where
  "WithHeaders headers s = (if headers = None then s else s\<lparr>hs_headers := headers\<rparr>)"

definition WithHeader :: "string \<Rightarrow> string \<Rightarrow> http_source \<Rightarrow> http_source" where
  "WithHeader key val s =
     s\<lparr>hs_headers := Some (header_Set key val (case hs_headers s of None \<Rightarrow> [] | Some h \<Rightarrow> h))\<rparr>"

definition WithSourceID :: "string \<Rightarrow> http_source \<Rightarrow> http_source" where
  "WithSourceID i s = s\<lparr>hs_sourceID := i\<rparr>"

definition WithConditionalHeaders :: "http_source \<Rightarrow> http_source" where
  "WithConditionalHeaders s = s\<lparr>hs_useConditionalHeaders := True\<rparr>"

text \<open>
  \<^verbatim>\<open>newRequest\<close>. \<^verbatim>\<open>http.NewRequestWithContext\<close> fails for a URL it cannot parse: \<open>bad_url\<close> is its error. The
  configured headers are added in the order of the map's iteration.
\<close>

definition add_headers :: "header \<Rightarrow> header \<Rightarrow> header" where
  "add_headers hs h = fold (\<lambda>(key, vals) h. fold (\<lambda>v h. header_Add key v h) vals h) hs h"

definition newRequest :: "(string \<Rightarrow> err option) \<Rightarrow> http_source \<Rightarrow> string \<Rightarrow> bool \<Rightarrow> request res" where
  "newRequest bad_url s method withConditions =
     (case bad_url (hs_url s) of
        Some err \<Rightarrow> Inl err
      | None \<Rightarrow>
          (let h = add_headers (case hs_headers s of None \<Rightarrow> [] | Some h \<Rightarrow> h) [];
               h = (if header_Get h ''Accept-Encoding'' = [] then header_Set ''Accept-Encoding'' ''identity'' h else h);
               cond = method = ''GET'' \<and> withConditions \<and> hs_useConditionalHeaders s;
               h = (if cond \<and> hs_etag s \<noteq> [] \<and> header_Get h ''If-Match'' = [] then header_Set ''If-Match'' (hs_etag s) h else h);
               h = (if cond \<and> hs_lastModified s \<noteq> [] \<and> header_Get h ''If-Unmodified-Since'' = []
                    then header_Set ''If-Unmodified-Since'' (hs_lastModified s) h else h)
           in Inr \<lparr>rq_method = method, rq_url = hs_url s, rq_header = h\<rparr>))"

definition range_value :: "i64 \<Rightarrow> i64 \<Rightarrow> string" where
  "range_value off end' = ''bytes='' @ show_int off @ ''-'' @ show_int end'"

definition rangeRequest ::
  "(string \<Rightarrow> err option) \<Rightarrow> 'n http_client \<Rightarrow> http_source \<Rightarrow> i64 \<Rightarrow> i64 \<Rightarrow> bool \<Rightarrow> 'n \<Rightarrow> response res \<times> 'n" where
  "rangeRequest bad_url Do s off end' withConditions n =
     (case newRequest bad_url s ''GET'' withConditions of
        Inl err \<Rightarrow> (Inl err, n)
      | Inr req \<Rightarrow> Do (req\<lparr>rq_header := header_Set ''Range'' (range_value off end') (rq_header req)\<rparr>) n)"

definition hasConditionalHeaders :: "http_source \<Rightarrow> bool" where
  "hasConditionalHeaders s =
     (if \<not> hs_useConditionalHeaders s then False else hs_etag s \<noteq> [] \<or> hs_lastModified s \<noteq> [])"

text \<open>The range request with its repetition when a condition failed.\<close>

definition range_retry ::
  "(string \<Rightarrow> err option) \<Rightarrow> 'n http_client \<Rightarrow> http_source \<Rightarrow> i64 \<Rightarrow> i64 \<Rightarrow> 'n \<Rightarrow> response res \<times> 'n" where
  "range_retry bad_url Do s off end' n =
     (case rangeRequest bad_url Do s off end' True n of
        (Inl err, n) \<Rightarrow> (Inl err, n)
      | (Inr resp, n) \<Rightarrow>
          if rs_code resp = 412 \<and> hasConditionalHeaders s then rangeRequest bad_url Do s off end' False n
          else (Inr resp, n))"

definition range_failed :: "response \<Rightarrow> err" where
  "range_failed resp = Errorf ''range request failed: %s'' [rs_status resp] []"

definition http_ReadRange ::
  "(string \<Rightarrow> err option) \<Rightarrow> 'n http_client \<Rightarrow> http_source \<Rightarrow> i64 \<Rightarrow> i64 \<Rightarrow> 'n \<Rightarrow> reader res \<times> 'n" where
  "http_ReadRange bad_url Do s off len n =
     (if len < 0 then (Inl (Errorf ''read range length %d: negative length'' [] [len]), n)
      else if len = 0 then (Inr (Chunks [] EOF False), n)
      else if off < 0 then (Inl (Errorf ''read range %d: negative offset'' [] [off]), n)
      else if off \<ge> hs_size s then (Inl EOF, n)
      else
        let len = (if len > hs_size s - off then hs_size s - off else len);
            end' = off + len - 1
        in case range_retry bad_url Do s off end' n of
             (Inl err, n) \<Rightarrow> (Inl err, n)
           | (Inr resp, n) \<Rightarrow>
               if rs_code resp = 206 then (Inr (limit_reader (rs_body resp) (nat len)), n)
               else if rs_code resp = 416 then (Inl EOF, n)
               else if rs_code resp = 200 then (Inl (ErrNew ''range requests not supported''), n)
               else (Inl (range_failed resp), n))"

text \<open>\<^verbatim>\<open>ReadAt\<close> with \<open>len(p) = k\<close>; the end of the range is computed in 64 bits.\<close>

definition http_ReadAt ::
  "(string \<Rightarrow> err option) \<Rightarrow> 'n http_client \<Rightarrow> http_source \<Rightarrow> nat \<Rightarrow> i64 \<Rightarrow> 'n \<Rightarrow> (bytes \<times> err option) \<times> 'n" where
  "http_ReadAt bad_url Do s k off n =
     (if k = 0 then (([], None), n)
      else if off < 0 then (([], Some (Errorf ''read at %d: negative offset'' [] [off])), n)
      else if off \<ge> hs_size s then (([], Some EOF), n)
      else
        let end' = sub_i64 (add_i64 off (int k)) 1;
            (end', expected) = (if end' \<ge> hs_size s then (hs_size s - 1, nat (hs_size s - off)) else (end', k))
        in case range_retry bad_url Do s off end' n of
             (Inl err, n) \<Rightarrow> (([], Some err), n)
           | (Inr resp, n) \<Rightarrow>
               if rs_code resp = 206 then
                 (case ReadFull (rs_body resp) expected [] of
                    ((d, Some err), r) \<Rightarrow> ((d, Some err), n)
                  | ((d, None), r) \<Rightarrow> ((d, if expected < k then Some EOF else None), n))
               else if rs_code resp = 416 then (([], Some EOF), n)
               else if rs_code resp = 200 then (([], Some (ErrNew ''range requests not supported'')), n)
               else (([], Some (range_failed resp)), n))"

subsection \<open>Probing the size\<close>

definition parseContentRange :: "string \<Rightarrow> i64 res" where
  "parseContentRange val =
     (let val = TrimSpace val; invalid = Inl (Errorf ''invalid Content-Range %q'' [val] [])
      in if \<not> has_prefix val ''bytes '' then invalid
         else case SplitN2 slash (trim_prefix val ''bytes '') of
           [a, b] \<Rightarrow>
             if b = ''*'' then invalid
             else (case ParseInt b of
                     None \<Rightarrow> invalid
                   | Some sz \<Rightarrow> if sz < 0 then invalid else Inr sz)
         | _ \<Rightarrow> invalid)"

definition doHead :: "(string \<Rightarrow> err option) \<Rightarrow> 'n http_client \<Rightarrow> http_source \<Rightarrow> 'n \<Rightarrow> response res \<times> 'n" where
  "doHead bad_url Do s n =
     (case newRequest bad_url s ''HEAD'' False of Inl err \<Rightarrow> (Inl err, n) | Inr req \<Rightarrow> Do req n)"

definition rangeProbe ::
  "(string \<Rightarrow> err option) \<Rightarrow> 'n http_client \<Rightarrow> http_source \<Rightarrow> 'n \<Rightarrow> (i64 \<times> string \<times> string) res \<times> 'n" where
  "rangeProbe bad_url Do s n =
     (case newRequest bad_url s ''GET'' False of
        Inl err \<Rightarrow> (Inl err, n)
      | Inr req \<Rightarrow>
          (case Do (req\<lparr>rq_header := header_Set ''Range'' ''bytes=0-0'' (rq_header req)\<rparr>) n of
             (Inl err, n) \<Rightarrow> (Inl err, n)
           | (Inr resp, n) \<Rightarrow>
               (if rs_code resp \<noteq> 206 then
                  if rs_code resp = 200 then Inl (ErrNew ''range requests not supported'')
                  else Inl (Errorf ''range probe failed: %s'' [rs_status resp] [])
                else
                  let crange = header_Get (rs_header resp) ''Content-Range''
                  in if crange = [] then Inl (ErrNew ''range probe missing Content-Range'')
                     else bindE (parseContentRange crange) (\<lambda>sz.
                       Inr (sz, header_Get (rs_header resp) ''ETag'', header_Get (rs_header resp) ''Last-Modified'')),
                n)))"

definition fetchMetadata ::
  "(string \<Rightarrow> err option) \<Rightarrow> 'n http_client \<Rightarrow> http_source \<Rightarrow> 'n \<Rightarrow> (i64 \<times> string \<times> string) res \<times> 'n" where
  "fetchMetadata bad_url Do s n =
     (case doHead bad_url Do s n of
        (hd', n) \<Rightarrow>
          let (sz, etag, lastModified) = (case hd' of
                Inl err \<Rightarrow> (-1, [], [])
              | Inr resp \<Rightarrow> (rs_length resp, header_Get (rs_header resp) ''ETag'', header_Get (rs_header resp) ''Last-Modified''))
          in case rangeProbe bad_url Do s n of
               (Inl err, n) \<Rightarrow> (Inl err, n)
             | (Inr (rangeSize, rangeETag, rangeLastModified), n) \<Rightarrow>
                 (if sz > 0 \<and> sz \<noteq> rangeSize
                  then Inl (Errorf ''content size mismatch: head=%d range=%d'' [] [sz, rangeSize])
                  else Inr (rangeSize, if etag = [] then rangeETag else etag,
                            if lastModified = [] then rangeLastModified else lastModified),
                  n))"

definition defaultSourceID :: "http_source \<Rightarrow> string" where
  "defaultSourceID s =
     (if hs_etag s \<noteq> [] then ''url:'' @ hs_url s @ ''|etag:'' @ hs_etag s
      else if hs_lastModified s \<noteq> [] then ''url:'' @ hs_url s @ ''|mod:'' @ hs_lastModified s @ ''|size:'' @ show_int (hs_size s)
      else ''url:'' @ hs_url s @ ''|size:'' @ show_int (hs_size s))"

definition http_NewSource ::
  "(string \<Rightarrow> err option) \<Rightarrow> 'n http_client \<Rightarrow> string \<Rightarrow> (http_source \<Rightarrow> http_source) list \<Rightarrow> 'n \<Rightarrow> http_source res \<times> 'n" where
  "http_NewSource bad_url Do url opts n =
     (let s = fold (\<lambda>opt s. opt s) opts
            \<lparr>hs_url = url, hs_headers = None, hs_size = 0, hs_etag = [], hs_lastModified = [], hs_sourceID = [],
             hs_useConditionalHeaders = False\<rparr>
      in case fetchMetadata bad_url Do s n of
           (Inl err, n) \<Rightarrow> (Inl err, n)
         | (Inr (sz, etag, lastModified), n) \<Rightarrow>
             let s = s\<lparr>hs_size := sz, hs_etag := etag, hs_lastModified := lastModified\<rparr>
             in (Inr (if hs_sourceID s = [] then s\<lparr>hs_sourceID := defaultSourceID s\<rparr> else s), n))"

section \<open>The size in a response\<close>

lemma white_heads:
  "list_all (\<lambda>w. w \<noteq> [] \<and> hd w \<noteq> CHR ''b'') white_space"
  "list_all (\<lambda>w. w \<noteq> [] \<and> digit_value (hd w) = None) (map rev white_space)"
  by code_simp+

lemma TrimSpace_id:
  assumes "s \<noteq> []" "hd s = CHR ''b''" "digit_value (last s) \<noteq> None"
  shows "TrimSpace s = s"
proof -
  have "trim_left white_space s = s"
  proof (rule trim_left_id, intro ballI impI notI)
    fix w assume w: "w \<in> set white_space" "w \<noteq> []" "prefix w s"
    then have "hd w = hd s" by (auto simp: prefix_def)
    then show False using white_heads(1) w(1) assms(2) by (auto simp: list_all_iff)
  qed
  moreover have "trim_left (map rev white_space) (rev s) = rev s"
  proof (rule trim_left_id, intro ballI impI notI)
    fix w assume w: "w \<in> set (map rev white_space)" "w \<noteq> []" "prefix w (rev s)"
    then have "hd w = hd (rev s)" by (metis append_is_Nil_conv hd_append2 prefix_def)
    then show False using white_heads(2) w(1) assms(1,3) by (auto simp: list_all_iff hd_rev)
  qed
  ultimately show ?thesis by (simp add: TrimSpace_def)
qed

lemma show_int_digits: "0 \<le> x \<Longrightarrow> c \<in> set (show_int x) \<Longrightarrow> digit_value c \<noteq> None"
  using show_nat_digits by (simp add: show_int_def)

definition content_range :: "i64 \<Rightarrow> i64 \<Rightarrow> i64 \<Rightarrow> string" where
  "content_range a b sz = ''bytes '' @ show_int a @ ''-'' @ show_int b @ ''/'' @ show_int sz"

lemma parseContentRange_show:
  assumes "0 \<le> a" "0 \<le> b" "0 \<le> sz" "sz < 2 ^ 63"
  shows "parseContentRange (content_range a b sz) = Inr sz"
proof -
  let ?rest = "show_int a @ ''-'' @ show_int b"
  have d: "digit_value slash = None" "digit_value CHR ''*'' = None" "CHR ''-'' \<noteq> slash" by code_simp+
  have ne: "show_int sz \<noteq> []" using show_nat_ne by (simp add: show_int_def)
  have "last (content_range a b sz) = last (show_int sz)" using ne by (simp add: content_range_def)
  then have "digit_value (last (content_range a b sz)) \<noteq> None"
    using show_int_digits [OF assms(3)] last_in_set [OF ne] by metis
  then have t: "TrimSpace (content_range a b sz) = content_range a b sz"
    by (intro TrimSpace_id) (simp_all add: content_range_def)
  have "slash \<notin> set ?rest" using show_int_digits [OF assms(1)] show_int_digits [OF assms(2)] d(1,3) by fastforce
  then have "SplitN2 slash (?rest @ slash # show_int sz) = [?rest, show_int sz]"
    by (rule SplitN2_append)
  moreover have "show_int sz \<noteq> ''*''" using show_int_digits [OF assms(3), of "CHR ''*''"] d(2) by auto
  moreover have cr: "content_range a b sz = ''bytes '' @ (?rest @ slash # show_int sz)" by (simp add: content_range_def)
  then have "has_prefix (content_range a b sz) ''bytes ''"
    "trim_prefix (content_range a b sz) ''bytes '' = ?rest @ slash # show_int sz" by (simp, simp only: trim_prefix_append)
  ultimately show ?thesis
    using ParseInt_show [of sz] assms(3,4) unfolding parseContentRange_def Let_def t by simp
qed

section \<open>A server that serves the data blob\<close>

text \<open>
  What HTTP promises of a server whose resource at \<open>url\<close> is \<open>content\<close> as long as \<open>I\<close> holds of the server, which requests to it do not change: a \<^verbatim>\<open>HEAD\<close> request is
  answered with its length or fails to give one, a \<^verbatim>\<open>GET\<close> request for a range within it with the bytes of
  the range, its position and the length.
\<close>

definition serves :: "('n \<Rightarrow> bool) \<Rightarrow> string \<Rightarrow> bytes \<Rightarrow> 'n http_client \<Rightarrow> bool" where
  "serves I url content Do \<longleftrightarrow>
     (\<forall>req n. rq_url req = url \<longrightarrow> I n \<longrightarrow> (\<exists>resp n'. Do req n = (Inr resp, n') \<and> I n' \<and>
        (rq_method req = ''HEAD'' \<longrightarrow> rs_length resp = int (length content) \<or> rs_length resp \<le> 0) \<and>
        (\<forall>a b. rq_method req = ''GET'' \<longrightarrow> header_Get (rq_header req) ''Range'' = range_value a b \<longrightarrow>
           0 \<le> a \<longrightarrow> a \<le> b \<longrightarrow> b < int (length content) \<longrightarrow>
           rs_code resp = 206 \<and> delivers (rs_body resp) (take (nat (b - a + 1)) (drop (nat a) content)) \<and>
           header_Get (rs_header resp) ''Content-Range'' = content_range a b (int (length content)))))"

lemma header_Get_Set [simp]: "header_Get (header_Set k v h) k = v"
  by (simp add: header_Get_def header_values_def header_Set_def update_conv)

lemma newRequest_ok:
  assumes "bad_url (hs_url s) = None"
  shows "\<exists>h. newRequest bad_url s m c = Inr \<lparr>rq_method = m, rq_url = hs_url s, rq_header = h\<rparr>"
  using assms by (simp add: newRequest_def Let_def)

lemma range_retry_ok:
  assumes "serves I (hs_url s) content Do" "bad_url (hs_url s) = None" "0 \<le> a" "a \<le> b" "b < int (length content)" "I n"
  shows "\<exists>resp n'. range_retry bad_url Do s a b n = (Inr resp, n') \<and> rs_code resp = 206 \<and>
    delivers (rs_body resp) (take (nat (b - a + 1)) (drop (nat a) content))"
proof -
  obtain h where "newRequest bad_url s ''GET'' True = Inr \<lparr>rq_method = ''GET'', rq_url = hs_url s, rq_header = h\<rparr>"
    using newRequest_ok [where bad_url = bad_url and s = s, OF assms(2)] by blast
  moreover obtain resp n' where
    "Do \<lparr>rq_method = ''GET'', rq_url = hs_url s, rq_header = header_Set ''Range'' (range_value a b) h\<rparr> n = (Inr resp, n')"
    "rs_code resp = 206" "delivers (rs_body resp) (take (nat (b - a + 1)) (drop (nat a) content))"
    using assms(1,3-6) unfolding serves_def
    by (metis header_Get_Set request.select_convs(1-3))
  ultimately show ?thesis by (simp add: range_retry_def rangeRequest_def)
qed

text \<open>\<^verbatim>\<open>ReadAt\<close> over HTTP is \<^verbatim>\<open>ReadAt\<close> of the content.\<close>

lemma http_ReadAt_ok:
  assumes "serves I (hs_url s) content Do" "bad_url (hs_url s) = None" "hs_size s = int (length content)"
    and "off < int (length content) \<longrightarrow> off + int k < 2 ^ 63" "0 \<le> off" "I n"
  shows "fst (http_ReadAt bad_url Do s k off n) =
    ra_ReadAt \<lparr>ra_content = content, ra_fault = (\<lambda>_ _. None), ra_eager = False\<rparr> k off"
proof (cases "k = 0 \<or> off \<ge> int (length content)")
  case True
  then show ?thesis using assms(3,5) by (auto simp: http_ReadAt_def ra_ReadAt_def Let_def)
next
  case False
  define e where "e = (if off + int k - 1 \<ge> int (length content) then int (length content) - 1 else off + int k - 1)"
  define m where "m = (if off + int k - 1 \<ge> int (length content) then nat (int (length content) - off) else k)"
  have m: "m = min k (length content - nat off)" "nat (e - off + 1) = m" "m > 0" using False assms(5) by (auto simp: m_def e_def)
  have wrap: "sub_i64 (add_i64 off (int k)) 1 = off + int k - 1" using False assms(4,5) by (simp add: add_i64_id sub_i64_id)
  have pair: "(if hs_size s \<le> off + int k - 1 then (hs_size s - 1, nat (hs_size s - off)) else (off + int k - 1, k)) = (e, m)"
    by (simp add: e_def m_def assms(3))
  have e: "off \<le> e" "e < int (length content)" using False by (auto simp: e_def)
  obtain resp n' where r: "range_retry bad_url Do s off e n = (Inr resp, n')" "rs_code resp = 206"
    "delivers (rs_body resp) (take (nat (e - off + 1)) (drop (nat off) content))"
    using range_retry_ok [where bad_url = bad_url and s = s, OF assms(1,2,5) e assms(6)] by blast
  have d: "take (nat (e - off + 1)) (drop (nat off) content) = take k (drop (nat off) content)"
    using m by (metis length_drop min.commute take_all_iff take_take min.cobounded2 nle_le)
  have len: "length (take k (drop (nat off) content)) = m" using m(1) by (simp add: min.commute)
  obtain r' where "ReadFull (rs_body resp) m [] = ((take k (drop (nat off) content), None), r')"
    using ReadFull_data [of "rs_body resp" m "[]"] r(3) len unfolding d delivers_def by (metis append_Nil order_refl take_all)
  then have "fst (http_ReadAt bad_url Do s k off n) = (take k (drop (nat off) content), if m < k then Some EOF else None)"
    using False assms(3,5) r(1,2) unfolding http_ReadAt_def Let_def wrap pair by simp
  then show ?thesis using assms(5) len False by (simp add: ra_ReadAt_def Let_def)
qed

lemma http_ReadRange_ok:
  assumes "serves I (hs_url s) content Do" "bad_url (hs_url s) = None" "hs_size s = int (length content)"
    and "0 \<le> off" "0 < len" "off + len \<le> int (length content)" "I n"
  shows "\<exists>r. fst (http_ReadRange bad_url Do s off len n) = Inr r \<and> delivers r (take (nat len) (drop (nat off) content))"
proof -
  have e: "off \<le> off + len - 1" "off + len - 1 < int (length content)" using assms(5,6) by auto
  obtain resp n' where r: "range_retry bad_url Do s off (off + len - 1) n = (Inr resp, n')" "rs_code resp = 206"
    "delivers (rs_body resp) (take (nat (off + len - 1 - off + 1)) (drop (nat off) content))"
    using range_retry_ok [where bad_url = bad_url and s = s, OF assms(1,2,4) e assms(7)] by blast
  then have "fst (http_ReadRange bad_url Do s off len n) = Inr (limit_reader (rs_body resp) (nat len))"
    using assms(3-6) by (simp add: http_ReadRange_def Let_def)
  moreover have "delivers (limit_reader (rs_body resp) (nat len)) (take (nat len) (drop (nat off) content))"
    using limit_reader_ok [of "rs_body resp" "nat len"] r(3) by (auto simp: delivers_def)
  ultimately show ?thesis by blast
qed

text \<open>Probing.\<close>

lemma rangeProbe_ok:
  assumes "serves I (hs_url s) content Do" "bad_url (hs_url s) = None" "content \<noteq> []" "int (length content) < 2 ^ 63" "I n"
  shows "\<exists>etag mod' n'. rangeProbe bad_url Do s n = (Inr (int (length content), etag, mod'), n') \<and> I n'"
proof -
  obtain h where h: "newRequest bad_url s ''GET'' False = Inr \<lparr>rq_method = ''GET'', rq_url = hs_url s, rq_header = h\<rparr>"
    using newRequest_ok [where bad_url = bad_url and s = s, OF assms(2)] by blast
  have z: "range_value 0 0 = ''bytes=0-0''" by code_simp
  let ?req = "\<lparr>rq_method = ''GET'', rq_url = hs_url s, rq_header = header_Set ''Range'' ''bytes=0-0'' h\<rparr>"
  obtain resp n' where r: "Do ?req n = (Inr resp, n')" "I n'" "rs_code resp = 206"
    "header_Get (rs_header resp) ''Content-Range'' = content_range 0 0 (int (length content))"
    using assms(1,3,5) z unfolding serves_def
    by (metis header_Get_Set request.select_convs(1-3) order_refl of_nat_0_less_iff length_greater_0_conv)
  have "content_range 0 0 (int (length content)) \<noteq> []" by (simp add: content_range_def)
  then show ?thesis
    using h r parseContentRange_show [of 0 0 "int (length content)"] assms(4) by (simp add: rangeProbe_def Let_def)
qed

lemma fetchMetadata_ok:
  assumes "serves I (hs_url s) content Do" "bad_url (hs_url s) = None" "content \<noteq> []" "int (length content) < 2 ^ 63" "I n"
  shows "\<exists>etag mod' n'. fetchMetadata bad_url Do s n = (Inr (int (length content), etag, mod'), n') \<and> I n'"
proof -
  obtain h where h: "newRequest bad_url s ''HEAD'' False = Inr \<lparr>rq_method = ''HEAD'', rq_url = hs_url s, rq_header = h\<rparr>"
    using newRequest_ok [where bad_url = bad_url and s = s, OF assms(2)] by blast
  obtain resp n1 where r: "Do \<lparr>rq_method = ''HEAD'', rq_url = hs_url s, rq_header = h\<rparr> n = (Inr resp, n1)"
    "I n1" "rs_length resp = int (length content) \<or> rs_length resp \<le> 0"
    using assms(1,5) unfolding serves_def by (metis request.select_convs(1,2))
  obtain etag mod' n2 where "rangeProbe bad_url Do s n1 = (Inr (int (length content), etag, mod'), n2)" "I n2"
    using rangeProbe_ok [where bad_url = bad_url and s = s, OF assms(1-4) r(2)] by blast
  with h r show ?thesis by (auto simp: fetchMetadata_def doHead_def Let_def)
qed

lemma http_NewSource_ok:
  assumes "serves I url content Do" "bad_url url = None" "content \<noteq> []" "int (length content) < 2 ^ 63"
    and "\<forall>opt\<in>set opts. \<forall>s. hs_url (opt s) = hs_url s" "I n"
  shows "\<exists>s n'. http_NewSource bad_url Do url opts n = (Inr s, n') \<and> hs_url s = url \<and> hs_size s = int (length content) \<and> I n'"
proof -
  define s0 where "s0 = \<lparr>hs_url = url, hs_headers = None, hs_size = 0, hs_etag = [], hs_lastModified = [], hs_sourceID = [],
    hs_useConditionalHeaders = False\<rparr>"
  define s1 where "s1 = fold (\<lambda>opt s. opt s) opts s0"
  have "hs_url (fold (\<lambda>opt s. opt s) opts s) = hs_url s" for s using assms(5) by (induction opts arbitrary: s) auto
  then have url: "hs_url s1 = url" by (simp add: s1_def s0_def)
  then have "bad_url (hs_url s1) = None" using assms(2) by simp
  from fetchMetadata_ok [where bad_url = bad_url and s = s1, OF assms(1) [folded url] this assms(3,4,6)] obtain etag mod' n'
    where "fetchMetadata bad_url Do s1 n = (Inr (int (length content), etag, mod'), n')" "I n'" by blast
  then show ?thesis using url unfolding http_NewSource_def Let_def s0_def [symmetric] s1_def [symmetric] by simp
qed

text \<open>
  The source as the rest of the program sees it, over the requests answered in the state \<open>n\<close>. A \<open>reader_at\<close> has one content: it is what
  \<^verbatim>\<open>ReadAt\<close> of the whole size returns. A read of a part of it fails where \<^verbatim>\<open>ReadAt\<close> of that part does; where that returns other
  bytes than the content has there, the source counts as failing too. So the bytes of every read that succeeds are
  those of \<^verbatim>\<open>ReadAt\<close> for its range (\<open>http_at_reads\<close>). \<^verbatim>\<open>ReadRange\<close> is the range request.
\<close>

definition http_at :: "(string \<Rightarrow> err option) \<Rightarrow> 'n http_client \<Rightarrow> 'n \<Rightarrow> http_source \<Rightarrow> reader_at" where
  "http_at bad_url Do n s =
     (let content = fst (fst (http_ReadAt bad_url Do s (nat (hs_size s)) 0 n))
      in \<lparr>ra_content = content,
          ra_fault = (\<lambda>off k. case fst (http_ReadAt bad_url Do s (min k (nat (hs_size s) - off)) (int off) n) of
              (d, Some err) \<Rightarrow> Some (length d, err)
            | (d, None) \<Rightarrow> if d = take k (drop off content) then None else Some (0, ErrNew ''inconsistent content'')),
          ra_eager = False\<rparr>)"

lemma http_at_reads:
  assumes "ra_fault (http_at bad_url Do n s) off k = None"
  shows "fst (ra_ReadAt (http_at bad_url Do n s) k (int off)) =
    fst (fst (http_ReadAt bad_url Do s (min k (nat (hs_size s) - off)) (int off) n))"
  using assms by (auto simp: http_at_def ra_ReadAt_def Let_def split: prod.splits option.splits if_splits)

definition http_as_source :: "(string \<Rightarrow> err option) \<Rightarrow> 'n http_client \<Rightarrow> 'n \<Rightarrow> http_source \<Rightarrow> source" where
  "http_as_source bad_url Do n s =
     \<lparr>src_at = http_at bad_url Do n s, src_size = hs_size s, src_id = hs_sourceID s,
      src_range = Some (\<lambda>off len. fst (http_ReadRange bad_url Do s off len n))\<rparr>"

text \<open>Over a server of the blob it reads like the blob in memory.\<close>

lemma http_at_ok:
  assumes "serves I (hs_url s) content Do" "bad_url (hs_url s) = None" "hs_size s = int (length content)" "int (length content) < 2 ^ 63"
    and "I n"
  shows "http_at bad_url Do n s = \<lparr>ra_content = content, ra_fault = (\<lambda>_ _. None), ra_eager = False\<rparr>"
proof -
  let ?ra = "\<lparr>ra_content = content, ra_fault = (\<lambda>_ _. None), ra_eager = False\<rparr>"
  have at: "fst (http_ReadAt bad_url Do s k off n) = ra_ReadAt ?ra k off"
    if "0 \<le> off" "k \<le> length content - nat off" for k off
    by (rule http_ReadAt_ok [OF assms(1) _ assms(3)]) (use assms that in auto)
  have "fst (http_ReadAt bad_url Do s (length content) 0 n) = (content, None)"
    using at [of 0 "length content"] by (simp add: ra_ReadAt_def)
  moreover have "fst (http_ReadAt bad_url Do s (min k (length content - off)) (int off) n) = (take k (drop off content), None)" for k off
    using at [of "int off" "min k (length content - off)"] by (simp add: ra_ReadAt_def min_def)
  ultimately show ?thesis by (simp add: http_at_def assms(3) Let_def)
qed

lemma http_source_ok:
  assumes "serves I (hs_url s) content Do" "bad_url (hs_url s) = None" "hs_size s = int (length content)" "int (length content) < 2 ^ 63"
    and "I n"
  shows "source_ok (http_as_source bad_url Do n s) \<and> ra_content (src_at (http_as_source bad_url Do n s)) = content"
  using assms http_ReadRange_ok [where bad_url = bad_url and s = s, OF assms(1-3) _ _ _ assms(5)]
    http_at_ok [where bad_url = bad_url and s = s, OF assms]
  by (auto simp: source_ok_def http_as_source_def)

end
