(* ===== verification/RegistryCache.thy ===== *)
theory RegistryCache
  imports DiskLimits
begin

text \<open>
  \<^verbatim>\<open>registry/cache/disk\<close>: the caches of the registry client in directories, for references, manifests and index
  blobs. The fields that the three structs share are those of \<open>DiskCache\<close>, with the same pruning and size accounting
  (the package repeats that code); \<^verbatim>\<open>RefCache\<close> adds a time-to-live. An \<^verbatim>\<open>os.Root\<close> is its directory: the paths
  below it have hexadecimal names, which cannot leave it. The digest library is the argument \<open>D\<close>, the decoder of manifests
  the argument \<open>unmarshal\<close>. Logging is left out.
\<close>

section \<open>Definitions\<close>

subsection \<open>Operating system\<close>

text \<open>\<^verbatim>\<open>Stat\<close>: the information of a file, or of a directory.\<close>

definition dir_node :: fnode where
  "dir_node = \<lparr>n_content = [], n_mode = 0, n_mtime = 0\<rparr>"

definition os_Stat :: "string \<Rightarrow> fsys \<Rightarrow> fnode res \<times> fsys" where
  "os_Stat p s =
     (case pop_fault s of
        (Some (k, e), s) \<Rightarrow> (Inl e, s)
      | (None, s) \<Rightarrow>
          (case fs_files s p of
             Some n \<Rightarrow> (Inr n, s)
           | None \<Rightarrow> if is_dir s p then (Inr dir_node, s) else (Inl ErrNotExist, s)))"

definition os_OpenRoot :: "string \<Rightarrow> fsys \<Rightarrow> err option \<times> fsys" where
  "os_OpenRoot dir = guarded (\<lambda>s. if is_dir s dir then (None, s) else (Some ErrNotExist, s))"

text \<open>Conversions between strings and bytes.\<close>

definition to_bytes :: "string \<Rightarrow> bytes" where
  "to_bytes = map (\<lambda>c. of_nat (of_char c))"

definition of_bytes :: "bytes \<Rightarrow> string" where
  "of_bytes = map (\<lambda>b. char_of (unat b))"

subsection \<open>Digests\<close>

text \<open>
  The package \<^verbatim>\<open>go-digest\<close>: a digest is a string; \<^verbatim>\<open>Parse\<close> is \<^verbatim>\<open>Validate\<close>. \<open>dl_FromBytes\<close> takes the algorithm first.
\<close>

record digest_lib =
  dl_Validate :: "string \<Rightarrow> err option"
  dl_Algorithm :: "string \<Rightarrow> string"
  dl_Available :: "string \<Rightarrow> bool"
  dl_FromBytes :: "string \<Rightarrow> bytes \<Rightarrow> string"

definition digestMatches :: "digest_lib \<Rightarrow> string \<Rightarrow> bytes \<Rightarrow> bool res" where
  "digestMatches D dgst data =
     (case dl_Validate D dgst of
        Some err \<Rightarrow> Inl (Wrap (''parse digest '' @ dgst) err)
      | None \<Rightarrow>
          let algo = dl_Algorithm D dgst
          in if \<not> dl_Available D algo then Inl (Errorf ''digest algorithm %q unavailable'' [algo] [])
             else Inr (dl_FromBytes D algo data = dgst))"

definition isHexChar :: "char \<Rightarrow> bool" where
  "isHexChar ch \<longleftrightarrow> CHR ''0'' \<le> ch \<and> ch \<le> CHR ''9'' \<or> CHR ''a'' \<le> ch \<and> ch \<le> CHR ''f'' \<or> CHR ''A'' \<le> ch \<and> ch \<le> CHR ''F''"

definition isValidAlgoChar :: "char \<Rightarrow> bool" where
  "isValidAlgoChar ch \<longleftrightarrow>
     CHR ''a'' \<le> ch \<and> ch \<le> CHR ''z'' \<or> CHR ''A'' \<le> ch \<and> ch \<le> CHR ''Z'' \<or> CHR ''0'' \<le> ch \<and> ch \<le> CHR ''9'' \<or>
     ch = CHR ''+'' \<or> ch = CHR ''-'' \<or> ch = CHR ''.'' \<or> ch = CHR ''_''"

definition isValidDigestFormat :: "string \<Rightarrow> bool" where
  "isValidDigestFormat s =
     (case index_byte s CHR '':'' of
        None \<Rightarrow> False
      | Some idx \<Rightarrow>
          if idx < 1 \<or> idx = length s - 1 then False
          else
            let algo = take idx s; hexPart = drop (idx + 1) s
            in if \<not> list_all isValidAlgoChar algo then False
               else if \<not> list_all isHexChar hexPart then False
               else hexPart \<noteq> [])"

definition sanitizeHexDigest :: "string \<Rightarrow> string res" where
  "sanitizeHexDigest dgst =
     (let hexHash = (case index_byte dgst CHR '':'' of None \<Rightarrow> dgst | Some idx \<Rightarrow> drop (idx + 1) dgst)
      in if hexHash = [] then Inl (Errorf ''invalid digest %q'' [dgst] [])
         else if \<not> list_all isHexChar hexHash then Inl (Errorf ''invalid digest %q'' [dgst] [])
         else Inr hexHash)"

subsection \<open>Configuration\<close>

record reg_config =
  rg_shardPrefixLen :: int
  rg_dirPerm :: u32
  rg_maxBytes :: i64
  rg_refTTL :: i64

definition Reg_WithShardPrefixLen :: "int \<Rightarrow> reg_config \<Rightarrow> reg_config" where
  "Reg_WithShardPrefixLen n c = c\<lparr>rg_shardPrefixLen := n\<rparr>"

definition Reg_WithDirPerm :: "u32 \<Rightarrow> reg_config \<Rightarrow> reg_config" where
  "Reg_WithDirPerm m c = c\<lparr>rg_dirPerm := m\<rparr>"

definition Reg_WithMaxBytes :: "i64 \<Rightarrow> reg_config \<Rightarrow> reg_config" where
  "Reg_WithMaxBytes n c = c\<lparr>rg_maxBytes := n\<rparr>"

definition WithRefCacheTTL :: "i64 \<Rightarrow> reg_config \<Rightarrow> reg_config" where
  "WithRefCacheTTL ttl c = c\<lparr>rg_refTTL := ttl\<rparr>"

definition defaultConfig :: reg_config where
  "defaultConfig = \<lparr>rg_shardPrefixLen = 2, rg_dirPerm = 448, rg_maxBytes = 0, rg_refTTL = 0\<rparr>"

type_synonym ManifestCache = DiskCache
type_synonym IndexCache = DiskCache

record RefCache =
  rf_disk :: DiskCache
  rf_ttl :: i64

text \<open>The size of a directory and its pruning: \<^verbatim>\<open>registry/cache/disk/size.go\<close> repeats \<^verbatim>\<open>core/cache/disk/size.go\<close>.\<close>

definition Reg_dirSize :: "string \<Rightarrow> fsys \<Rightarrow> i64" where
  "Reg_dirSize = dirSize"

definition Reg_pruneDir :: "string \<Rightarrow> i64 \<Rightarrow> fsys \<Rightarrow> (i64 \<times> i64 \<times> err option) \<times> fsys" where
  "Reg_pruneDir = pruneDir"

text \<open>The common part of the constructors, after the options.\<close>

definition reg_open_dir :: "string \<Rightarrow> reg_config \<Rightarrow> fsys \<Rightarrow> DiskCache res \<times> fsys" where
  "reg_open_dir dir cfg s =
     (case os_MkdirAll dir s of
        (Some err, s) \<Rightarrow> (Inl err, s)
      | (None, s) \<Rightarrow>
          (Inr \<lparr>dc_dir = dir, dc_shardPrefixLen = rg_shardPrefixLen cfg, dc_dirPerm = rg_dirPerm cfg,
                dc_maxBytes = rg_maxBytes cfg, dc_bytes = Reg_dirSize dir s\<rparr>, s))"

definition NewRefCache :: "string \<Rightarrow> (reg_config \<Rightarrow> reg_config) list \<Rightarrow> fsys \<Rightarrow> RefCache res \<times> fsys" where
  "NewRefCache dir opts s =
     (if dir = [] then (Inl (ErrNew ''cache dir is empty''), s)
      else
        let cfg = fold (\<lambda>opt cfg. opt cfg) opts defaultConfig
        in if rg_shardPrefixLen cfg < 0 then (Inl (ErrNew ''shard prefix length must be >= 0''), s)
           else if rg_maxBytes cfg < 0 then (Inl (ErrNew ''max bytes must be >= 0''), s)
           else if rg_refTTL cfg < 0 then (Inl (ErrNew ''ref cache ttl must be >= 0''), s)
           else case reg_open_dir dir cfg s of
             (Inl err, s) \<Rightarrow> (Inl err, s)
           | (Inr c, s) \<Rightarrow> (Inr \<lparr>rf_disk = c, rf_ttl = rg_refTTL cfg\<rparr>, s))"

definition NewManifestCache :: "string \<Rightarrow> (reg_config \<Rightarrow> reg_config) list \<Rightarrow> fsys \<Rightarrow> ManifestCache res \<times> fsys" where
  "NewManifestCache dir opts s =
     (if dir = [] then (Inl (ErrNew ''cache dir is empty''), s)
      else
        let cfg = fold (\<lambda>opt cfg. opt cfg) opts defaultConfig
        in if rg_shardPrefixLen cfg < 0 then (Inl (ErrNew ''shard prefix length must be >= 0''), s)
           else if rg_maxBytes cfg < 0 then (Inl (ErrNew ''max bytes must be >= 0''), s)
           else reg_open_dir dir cfg s)"

definition NewIndexCache :: "string \<Rightarrow> (reg_config \<Rightarrow> reg_config) list \<Rightarrow> fsys \<Rightarrow> IndexCache res \<times> fsys" where
  "NewIndexCache dir opts s =
     (if dir = [] then (Inl (ErrNew ''cache dir is empty''), s)
      else
        let cfg = fold (\<lambda>opt cfg. opt cfg) opts defaultConfig
        in if rg_shardPrefixLen cfg < 0 then (Inl (ErrNew ''shard prefix length must be >= 0''), s)
           else if rg_maxBytes cfg < 0 then (Inl (ErrNew ''max bytes must be >= 0''), s)
           else reg_open_dir dir cfg s)"

subsection \<open>Paths\<close>

text \<open>The path of an entry below the directory of the cache.\<close>

definition shard_rel :: "int \<Rightarrow> string \<Rightarrow> string" where
  "shard_rel n hexHash =
     (if n \<le> 0 then hexHash else join_path (take (nat (min n (int (length hexHash)))) hexHash) hexHash)"

definition RefCache_path :: "(bytes \<Rightarrow> bytes) \<Rightarrow> RefCache \<Rightarrow> string \<Rightarrow> string" where
  "RefCache_path sha256 c ref = shard_rel (dc_shardPrefixLen (rf_disk c)) (hex_encode (sha256 (to_bytes ref)))"

definition ManifestCache_path :: "ManifestCache \<Rightarrow> string \<Rightarrow> string res" where
  "ManifestCache_path c dgst =
     bindE (sanitizeHexDigest dgst) (\<lambda>hexHash. Inr (shard_rel (dc_shardPrefixLen c) hexHash))"

definition IndexCache_path :: "IndexCache \<Rightarrow> string \<Rightarrow> string res" where
  "IndexCache_path c dgst =
     bindE (sanitizeHexDigest dgst) (\<lambda>hexHash. Inr (shard_rel (dc_shardPrefixLen c) hexHash))"

subsection \<open>Pruning and deleting\<close>

definition ManifestCache_Prune :: "i64 \<Rightarrow> ManifestCache \<times> fsys \<Rightarrow> i64 res \<times> (ManifestCache \<times> fsys)" where
  "ManifestCache_Prune targetBytes cs =
     (let target = (if targetBytes < 0 then 0 else targetBytes)
      in case Reg_pruneDir (dc_dir (fst cs)) target (snd cs) of
           ((freed, remaining, Some err), s) \<Rightarrow> (Inl err, (fst cs, s))
         | ((freed, remaining, None), s) \<Rightarrow> (Inr freed, ((fst cs)\<lparr>dc_bytes := remaining\<rparr>, s)))"

definition IndexCache_Prune :: "i64 \<Rightarrow> IndexCache \<times> fsys \<Rightarrow> i64 res \<times> (IndexCache \<times> fsys)" where
  "IndexCache_Prune = ManifestCache_Prune"

text \<open>An operation of the shared part, on a \<^verbatim>\<open>RefCache\<close>.\<close>

definition on_disk :: "(DiskCache \<times> fsys \<Rightarrow> 'x \<times> (DiskCache \<times> fsys)) \<Rightarrow> RefCache \<times> fsys \<Rightarrow> 'x \<times> (RefCache \<times> fsys)" where
  "on_disk op cs = (case op (rf_disk (fst cs), snd cs) of (x, (c, s)) \<Rightarrow> (x, ((fst cs)\<lparr>rf_disk := c\<rparr>, s)))"

definition RefCache_Prune :: "i64 \<Rightarrow> RefCache \<times> fsys \<Rightarrow> i64 res \<times> (RefCache \<times> fsys)" where
  "RefCache_Prune targetBytes = on_disk (ManifestCache_Prune targetBytes)"

definition ManifestCache_ensureCapacity :: "i64 \<Rightarrow> ManifestCache \<times> fsys \<Rightarrow> bool res \<times> (ManifestCache \<times> fsys)" where
  "ManifestCache_ensureCapacity need cs =
     (let c = fst cs
      in if dc_maxBytes c \<le> 0 then (Inr True, cs)
         else if need > dc_maxBytes c then (Inr False, cs)
         else if add_i64 (dc_bytes c) need \<le> dc_maxBytes c then (Inr True, cs)
         else case ManifestCache_Prune (dc_maxBytes c - need) cs of
           (Inl err, cs) \<Rightarrow> (Inl err, cs)
         | (Inr freed, cs) \<Rightarrow> (Inr (add_i64 (dc_bytes (fst cs)) need \<le> dc_maxBytes (fst cs)), cs))"

definition IndexCache_ensureCapacity :: "i64 \<Rightarrow> IndexCache \<times> fsys \<Rightarrow> bool res \<times> (IndexCache \<times> fsys)" where
  "IndexCache_ensureCapacity = ManifestCache_ensureCapacity"

definition RefCache_ensureCapacity :: "i64 \<Rightarrow> RefCache \<times> fsys \<Rightarrow> bool res \<times> (RefCache \<times> fsys)" where
  "RefCache_ensureCapacity need = on_disk (ManifestCache_ensureCapacity need)"

definition ManifestCache_deleteByPath :: "string \<Rightarrow> ManifestCache \<times> fsys \<Rightarrow> err option \<times> (ManifestCache \<times> fsys)" where
  "ManifestCache_deleteByPath path cs =
     (let (c, s) = cs; full = join_path (dc_dir c) path
      in case os_Stat full s of
           (Inl err, s) \<Rightarrow> (if errors_is err ErrNotExist then None else Some err, (c, s))
         | (Inr info, s) \<Rightarrow>
             (case os_Remove full s of
                (Some err, s) \<Rightarrow> (if errors_is err ErrNotExist then None else Some err, (c, s))
              | (None, s) \<Rightarrow> (None, (c\<lparr>dc_bytes := sub_i64 (dc_bytes c) (file_size info)\<rparr>, s))))"

definition IndexCache_deleteByPath :: "string \<Rightarrow> IndexCache \<times> fsys \<Rightarrow> err option \<times> (IndexCache \<times> fsys)" where
  "IndexCache_deleteByPath = ManifestCache_deleteByPath"

definition RefCache_deleteByPath :: "string \<Rightarrow> RefCache \<times> fsys \<Rightarrow> err option \<times> (RefCache \<times> fsys)" where
  "RefCache_deleteByPath path = on_disk (ManifestCache_deleteByPath path)"

text \<open>\<^verbatim>\<open>Delete\<close> does what \<^verbatim>\<open>deleteByPath\<close> does, on the full path.\<close>

definition RefCache_Delete :: "(bytes \<Rightarrow> bytes) \<Rightarrow> string \<Rightarrow> RefCache \<times> fsys \<Rightarrow> err option \<times> (RefCache \<times> fsys)" where
  "RefCache_Delete sha256 ref cs = RefCache_deleteByPath (RefCache_path sha256 (fst cs) ref) cs"

definition ManifestCache_Delete :: "string \<Rightarrow> ManifestCache \<times> fsys \<Rightarrow> err option \<times> (ManifestCache \<times> fsys)" where
  "ManifestCache_Delete dgst cs =
     (case ManifestCache_path (fst cs) dgst of
        Inl err \<Rightarrow> (Some err, cs)
      | Inr path \<Rightarrow> ManifestCache_deleteByPath path cs)"

definition IndexCache_Delete :: "string \<Rightarrow> IndexCache \<times> fsys \<Rightarrow> err option \<times> (IndexCache \<times> fsys)" where
  "IndexCache_Delete dgst cs =
     (case IndexCache_path (fst cs) dgst of
        Inl err \<Rightarrow> (Some err, cs)
      | Inr path \<Rightarrow> IndexCache_deleteByPath path cs)"

subsection \<open>Storing\<close>

text \<open>\<^verbatim>\<open>createTemp\<close>: the star of the pattern is replaced by random characters; 10000 attempts.\<close>

definition replace_star :: "string \<Rightarrow> string \<Rightarrow> string" where
  "replace_star pattern r =
     (case index_byte pattern CHR ''*'' of None \<Rightarrow> pattern | Some i \<Rightarrow> take i pattern @ r @ drop (i + 1) pattern)"

fun temp_loop :: "nat \<Rightarrow> string \<Rightarrow> string \<Rightarrow> string \<Rightarrow> fsys \<Rightarrow> string res \<times> fsys" where
  "temp_loop 0 root dir pattern s = (Inl (ErrNew ''failed to create temp file''), s)"
| "temp_loop (Suc attempts) root dir pattern s =
     (case fs_rand s of
        [] \<Rightarrow> (Inl (ErrNew ''random source''), s)
      | r # rs \<Rightarrow>
          let path = join_path dir (replace_star pattern r)
          in case os_CreateExcl (join_path root path) (s\<lparr>fs_rand := rs\<rparr>) of
               (None, s) \<Rightarrow> (Inr path, s)
             | (Some err, s) \<Rightarrow>
                 if errors_is err ErrExist then temp_loop attempts root dir pattern s else (Inl err, s))"

definition Reg_createTemp :: "string \<Rightarrow> string \<Rightarrow> string \<Rightarrow> fsys \<Rightarrow> string res \<times> fsys" where
  "Reg_createTemp root dir pattern s =
     (let pattern = (if pattern = [] then ''tmp'' else pattern);
          pattern = (if CHR ''*'' \<in> set pattern then pattern else pattern @ ''*'');
          dir = (if dir = [] then ''.'' else dir)
      in temp_loop 10000 root dir pattern s)"

text \<open>The part the three \<^verbatim>\<open>Put\<close> methods share: from the creation of the temporary file, and from the capacity check.\<close>

definition reg_fill :: "string \<Rightarrow> string \<Rightarrow> bytes \<Rightarrow> DiskCache \<times> fsys \<Rightarrow> err option \<times> (DiskCache \<times> fsys)" where
  "reg_fill tmpPath path data cs =
     (let (c, s) = cs; tmp = join_path (dc_dir c) tmpPath; full = join_path (dc_dir c) path
      in case os_Write tmp data s of
           ((n, Some err), s) \<Rightarrow> (Some (Wrap ''write cache file'' err), (c, snd (os_Remove tmp (snd (os_Close s)))))
         | ((n, None), s) \<Rightarrow>
             (case os_Close s of
                (Some err, s) \<Rightarrow> (Some (Wrap ''close cache file'' err), (c, snd (os_Remove tmp s)))
              | (None, s) \<Rightarrow>
                  (case os_Rename tmp full s of
                     (Some err, s) \<Rightarrow>
                       (case os_Stat full s of
                          (Inr info, s) \<Rightarrow> (None, (c, snd (os_Remove tmp s)))
                        | (Inl statErr, s) \<Rightarrow> (Some (Wrap ''rename cache file'' err), (c, snd (os_Remove tmp s))))
                   | (None, s) \<Rightarrow> (None, (c\<lparr>dc_bytes := add_i64 (dc_bytes c) (int (length data))\<rparr>, s)))))"

definition reg_store :: "string \<Rightarrow> string \<Rightarrow> bytes \<Rightarrow> DiskCache \<times> fsys \<Rightarrow> err option \<times> (DiskCache \<times> fsys)" where
  "reg_store pattern path data cs =
     (case ManifestCache_ensureCapacity (int (length data)) cs of
        (Inl err, cs) \<Rightarrow> (Some err, cs)
      | (Inr hasCapacity, (c, s)) \<Rightarrow>
          if \<not> hasCapacity then (None, (c, s))
          else
            let dir = dir_of path
            in case (if dir \<noteq> ''.'' then os_MkdirAll (join_path (dc_dir c) dir) s else (None, s)) of
                 (Some err, s) \<Rightarrow> (Some (Wrap ''create cache dir'' err), (c, s))
               | (None, s) \<Rightarrow>
                   (case Reg_createTemp (dc_dir c) dir pattern s of
                      (Inl err, s) \<Rightarrow> (Some (Wrap ''create temp cache file'' err), (c, s))
                    | (Inr tmpPath, s) \<Rightarrow> reg_fill tmpPath path data (c, s)))"

text \<open>The entry is looked for first: an existing one is left alone.\<close>

definition if_absent ::
  "string \<Rightarrow> (DiskCache \<times> fsys \<Rightarrow> err option \<times> (DiskCache \<times> fsys)) \<Rightarrow> DiskCache \<times> fsys \<Rightarrow> err option \<times> (DiskCache \<times> fsys)" where
  "if_absent path store cs =
     (let (c, s) = cs
      in case os_OpenRoot (dc_dir c) s of
           (Some err, s) \<Rightarrow> (Some (Wrap ''open cache root'' err), (c, s))
         | (None, s) \<Rightarrow>
             (case os_Stat (join_path (dc_dir c) path) s of
                (Inr info, s) \<Rightarrow> (None, (c, s))
              | (Inl statErr, s) \<Rightarrow>
                  if \<not> errors_is statErr ErrNotExist then (Some (Wrap ''stat cache entry'' statErr), (c, s))
                  else store (c, s)))"

definition PutDigest :: "(bytes \<Rightarrow> bytes) \<Rightarrow> string \<Rightarrow> string \<Rightarrow> RefCache \<times> fsys \<Rightarrow> err option \<times> (RefCache \<times> fsys)" where
  "PutDigest sha256 ref dgst cs =
     (let path = RefCache_path sha256 (fst cs) ref
      in on_disk (if_absent path (reg_store ''ref-*'' path (to_bytes dgst))) cs)"

definition PutManifest :: "digest_lib \<Rightarrow> string \<Rightarrow> bytes \<Rightarrow> ManifestCache \<times> fsys \<Rightarrow> err option \<times> (ManifestCache \<times> fsys)" where
  "PutManifest D dgst raw cs =
     (case ManifestCache_path (fst cs) dgst of
        Inl err \<Rightarrow> (Some err, cs)
      | Inr path \<Rightarrow>
          if_absent path (\<lambda>cs.
            case digestMatches D dgst raw of
              Inl err \<Rightarrow> (Some err, cs)
            | Inr match \<Rightarrow>
                if \<not> match then (Some (Errorf ''manifest digest mismatch for %q'' [dgst] []), cs)
                else reg_store ''manifest-*'' path raw cs) cs)"

definition PutIndex :: "digest_lib \<Rightarrow> string \<Rightarrow> bytes \<Rightarrow> IndexCache \<times> fsys \<Rightarrow> err option \<times> (IndexCache \<times> fsys)" where
  "PutIndex D dgst raw cs =
     (case IndexCache_path (fst cs) dgst of
        Inl err \<Rightarrow> (Some err, cs)
      | Inr path \<Rightarrow>
          if_absent path (\<lambda>cs.
            case digestMatches D dgst raw of
              Inl err \<Rightarrow> (Some err, cs)
            | Inr match \<Rightarrow>
                if \<not> match then (Some (Errorf ''index digest mismatch for %q'' [dgst] []), cs)
                else reg_store ''index-*'' path raw cs) cs)"

subsection \<open>Lookups\<close>

definition read_digest :: "string \<Rightarrow> string \<Rightarrow> RefCache \<times> fsys \<Rightarrow> string option \<times> (RefCache \<times> fsys)" where
  "read_digest full path cs =
     (case os_ReadFile full (snd cs) of
        (Inl err, s) \<Rightarrow> (None, (fst cs, s))
      | (Inr data, s) \<Rightarrow>
          let dgst = of_bytes data
          in if \<not> isValidDigestFormat dgst then (None, snd (RefCache_deleteByPath path (fst cs, s)))
             else (Some dgst, (fst cs, s)))"

definition GetDigest :: "(bytes \<Rightarrow> bytes) \<Rightarrow> string \<Rightarrow> RefCache \<times> fsys \<Rightarrow> string option \<times> (RefCache \<times> fsys)" where
  "GetDigest sha256 ref cs =
     (let (c, s) = cs; path = RefCache_path sha256 c ref; full = join_path (dc_dir (rf_disk c)) path
      in case os_OpenRoot (dc_dir (rf_disk c)) s of
           (Some err, s) \<Rightarrow> (None, (c, s))
         | (None, s) \<Rightarrow>
             if rf_ttl c > 0 then
               (case os_Stat full s of
                  (Inl statErr, s) \<Rightarrow> (None, (c, s))
                | (Inr info, s) \<Rightarrow>
                    if fs_clock s - n_mtime info > rf_ttl c then (None, snd (RefCache_deleteByPath path (c, s)))
                    else read_digest full path (c, s))
             else read_digest full path (c, s))"

definition GetIndex :: "digest_lib \<Rightarrow> string \<Rightarrow> IndexCache \<times> fsys \<Rightarrow> bytes option \<times> (IndexCache \<times> fsys)" where
  "GetIndex D dgst cs =
     (let (c, s) = cs
      in case IndexCache_path c dgst of
           Inl err \<Rightarrow> (None, cs)
         | Inr path \<Rightarrow>
             (case os_OpenRoot (dc_dir c) s of
                (Some err, s) \<Rightarrow> (None, (c, s))
              | (None, s) \<Rightarrow>
                  (case os_ReadFile (join_path (dc_dir c) path) s of
                     (Inl err, s) \<Rightarrow> (None, (c, s))
                   | (Inr data, s) \<Rightarrow>
                       if digestMatches D dgst data \<noteq> Inr True then (None, snd (IndexCache_deleteByPath path (c, s)))
                       else (Some data, (c, s)))))"

definition GetManifest ::
  "digest_lib \<Rightarrow> (bytes \<Rightarrow> 'm option) \<Rightarrow> string \<Rightarrow> ManifestCache \<times> fsys \<Rightarrow> ('m \<times> bytes) option \<times> (ManifestCache \<times> fsys)" where
  "GetManifest D unmarshal dgst cs =
     (let (c, s) = cs
      in case ManifestCache_path c dgst of
           Inl err \<Rightarrow> (None, cs)
         | Inr path \<Rightarrow>
             (case os_OpenRoot (dc_dir c) s of
                (Some err, s) \<Rightarrow> (None, (c, s))
              | (None, s) \<Rightarrow>
                  (case os_ReadFile (join_path (dc_dir c) path) s of
                     (Inl err, s) \<Rightarrow> (None, (c, s))
                   | (Inr data, s) \<Rightarrow>
                       if digestMatches D dgst data \<noteq> Inr True then (None, snd (ManifestCache_deleteByPath path (c, s)))
                       else case unmarshal data of
                         None \<Rightarrow> (None, snd (ManifestCache_deleteByPath path (c, s)))
                       | Some m \<Rightarrow> (Some (m, data), (c, s)))))"

section \<open>Shared code\<close>

lemma ManifestCache_Prune_eq: "ManifestCache_Prune = DiskCache_Prune"
  by (intro ext) (simp add: ManifestCache_Prune_def DiskCache_Prune_def Reg_pruneDir_def)

lemma ManifestCache_ensureCapacity_eq: "ManifestCache_ensureCapacity = ensureCapacity"
  by (intro ext) (simp add: ManifestCache_ensureCapacity_def ensureCapacity_def ManifestCache_Prune_eq Let_def)

lemma of_to_bytes [simp]: "of_bytes (to_bytes s) = s"
proof -
  have "unat (of_nat (of_char c) :: u8) = of_char c" for c :: char
    by (simp add: unat_of_nat take_bit_eq_mod)
  then show ?thesis by (simp add: of_bytes_def to_bytes_def comp_def map_idI)
qed

section \<open>Lookups are verified\<close>

lemma GetIndex_Some:
  "GetIndex D dgst cs = (Some data, cs') \<Longrightarrow> digestMatches D dgst data = Inr True"
  by (auto simp: GetIndex_def Let_def split: prod.splits sum.splits option.splits if_splits)

lemma GetManifest_Some:
  "GetManifest D unmarshal dgst cs = (Some (m, data), cs') \<Longrightarrow> digestMatches D dgst data = Inr True \<and> unmarshal data = Some m"
  by (auto simp: GetManifest_def Let_def split: prod.splits sum.splits option.splits if_splits)

lemma digestMatches_True:
  "digestMatches D dgst data = Inr True \<longleftrightarrow>
   dl_Validate D dgst = None \<and> dl_Available D (dl_Algorithm D dgst) \<and> dl_FromBytes D (dl_Algorithm D dgst) data = dgst"
  by (auto simp: digestMatches_def Let_def split: option.splits)

lemma read_digest_Some: "read_digest full path cs = (Some d, cs') \<Longrightarrow> isValidDigestFormat d"
  by (auto simp: read_digest_def Let_def split: prod.splits sum.splits if_splits)

lemma GetDigest_Some: "GetDigest sha256 ref cs = (Some d, cs') \<Longrightarrow> isValidDigestFormat d"
  by (auto simp: GetDigest_def Let_def split: prod.splits sum.splits option.splits if_splits dest: read_digest_Some)

section \<open>What is stored is found again\<close>

text \<open>File systems without faults.\<close>

lemma quiet_pop [simp]: "fs_faults s = [] \<Longrightarrow> pop_fault s = (None, s)"
  by (simp add: pop_fault_def)

lemma quiet_MkdirAll:
  "fs_faults s = [] \<Longrightarrow> os_MkdirAll p s = (None, s') \<Longrightarrow>
   fs_faults s' = [] \<and> fs_list s' = fs_list s \<and> fs_clock s' = fs_clock s \<and>
   (\<forall>q. fs_dirs s' q \<longleftrightarrow> fs_dirs s q \<or> q \<in> set (parents p))"
  by (auto simp: os_MkdirAll_def guarded_def split: if_splits)

lemma temp_loop_ok:
  assumes "temp_loop n root dir pattern s = (Inr t, s')" "fs_faults s = []"
  shows "fs_faults s' = [] \<and> fs_dirs s' = fs_dirs s \<and> fs_clock s' = fs_clock s \<and>
    fs_content s' = (fs_content s)(join_path root t \<mapsto> [])"
  using assms
proof (induction n arbitrary: s)
  case (Suc n)
  then obtain r rs where r: "fs_rand s = r # rs" by (cases "fs_rand s") auto
  let ?p = "join_path root (join_path dir (replace_star pattern r))"
  obtain e s1 where c: "os_CreateExcl ?p (s\<lparr>fs_rand := rs\<rparr>) = (e, s1)" by (metis prod.exhaust)
  then have s1: "fs_faults s1 = [] \<and> fs_dirs s1 = fs_dirs s \<and> fs_clock s1 = fs_clock s"
    using Suc.prems(2) by (auto simp: os_CreateExcl_def guarded_def split: if_splits)
  show ?case
  proof (cases e)
    case None
    with Suc.prems r c have "s' = s1" "t = join_path dir (replace_star pattern r)" by auto
    with s1 os_CreateExcl_content(1) [of ?p "s\<lparr>fs_rand := rs\<rparr>" s1] c None show ?thesis by simp
  next
    case (Some x)
    then have "fs_content s1 = fs_content s"
      using os_CreateExcl_content(2) [of ?p "s\<lparr>fs_rand := rs\<rparr>" x s1] c by simp
    moreover have "temp_loop n root dir pattern s1 = (Inr t, s')"
      using Suc.prems(1) r c Some by (auto simp: Let_def split: if_splits)
    ultimately show ?thesis using Suc.IH [of s1] s1 by simp
  qed
qed simp

lemma reg_fill_ok:
  assumes "reg_fill tmpPath path data (c, s) = (None, (c', s'))" "fs_faults s = []"
    and "fs_content s (join_path (dc_dir c) tmpPath) = Some []" "\<not> is_dir s (join_path (dc_dir c) path)"
  shows "fs_faults s' = [] \<and> fs_dirs s' = fs_dirs s \<and> same_place c c' \<and> fs_clock s' = fs_clock s + 1 \<and>
    (\<exists>n. fs_files s' (join_path (dc_dir c) path) = Some n \<and> n_content n = data \<and> n_mtime n = fs_clock s)"
proof -
  let ?t = "join_path (dc_dir c) tmpPath" and ?p = "join_path (dc_dir c) path"
  obtain n where n: "fs_files s ?t = Some n" "n_content n = []" using assms(3) by (auto simp: fs_content_def)
  define s1 where "s1 = os_append ?t data s"
  have w: "os_Write ?t data s = ((length data, None), s1)" using assms(2) by (simp add: os_Write_def s1_def)
  have s1: "fs_faults s1 = []" "fs_dirs s1 = fs_dirs s" "fs_clock s1 = fs_clock s + 1"
    "fs_files s1 ?t = Some (n\<lparr>n_content := data, n_mtime := fs_clock s\<rparr>)"
    using assms(2) n by (simp_all add: s1_def os_append_def update_conv')
  have "os_Close s1 = (None, s1)" using s1(1) by (simp add: os_Close_def guarded_def)
  moreover have "os_Rename ?t ?p s1 =
      (None, s1\<lparr>fs_list := AList.update ?p (n\<lparr>n_content := data, n_mtime := fs_clock s\<rparr>) (AList.delete ?t (fs_list s1))\<rparr>)"
    using s1 assms(4) by (simp add: os_Rename_def guarded_def is_dir_def)
  ultimately show ?thesis using assms(1) w s1 by (auto simp: reg_fill_def update_conv' same_place_def)
qed

text \<open>Names: the entry lies in the shard directory and is no parent of it.\<close>

definition hex_name :: "string \<Rightarrow> bool" where
  "hex_name h \<longleftrightarrow> h \<noteq> [] \<and> list_all isHexChar h"

lemma hex_name_slash: "list_all isHexChar h \<Longrightarrow> slash \<notin> set h \<and> CHR ''.'' \<notin> set h"
proof -
  have "\<not> isHexChar slash" "\<not> isHexChar CHR ''.''" by code_simp+
  then show "list_all isHexChar h \<Longrightarrow> slash \<notin> set h \<and> CHR ''.'' \<notin> set h" by (auto simp: list_all_iff)
qed

lemma sanitize_hex: "sanitizeHexDigest d = Inr h \<Longrightarrow> hex_name h"
  by (auto simp: sanitizeHexDigest_def hex_name_def Let_def split: if_splits)

lemma hex_encode_name:
  assumes "h \<noteq> []"
  shows "hex_name (hex_encode h)"
proof -
  have "list_all isHexChar ''0123456789abcdef''" by code_simp
  with hex_encode_set [of h] have "list_all isHexChar (hex_encode h)" unfolding list_all_iff by blast
  moreover have "hex_encode h \<noteq> []" using assms by (cases h) (simp_all add: hex_encode_def)
  ultimately show ?thesis by (simp add: hex_name_def)
qed

lemma join_with_take: "length (join_with c (take k ws)) \<le> length (join_with c ws)"
proof (induction c ws arbitrary: k rule: join_with.induct)
  case (3 c w v ws)
  show ?case
  proof (cases k)
    case (Suc m)
    then show ?thesis using "3.IH" [of m] by (cases m) auto
  qed simp
qed (auto simp: take_Cons')

lemma parents_length: "q \<in> set (parents p) \<Longrightarrow> length q \<le> length p"
  using join_with_take [of slash _ "split_on slash p"] by (auto simp: parents_def Let_def)

lemma shard_rel_cases:
  assumes "hex_name h"
  obtains (flat) "shard_rel n h = h" "dir_of (shard_rel n h) = ''.''"
    | (sharded) d where "shard_rel n h = d @ slash # h" "dir_of (shard_rel n h) = d" "d \<noteq> []" "d \<noteq> ''.''"
proof (cases "n \<le> 0")
  case True
  with hex_name_slash [of h] assms have "shard_rel n h = h" "dir_of h = ''.''"
    by (simp_all add: shard_rel_def dir_of_def last_index_def hex_name_def)
  with flat show ?thesis by simp
next
  case False
  define d where "d = take (nat (min n (int (length h)))) h"
  have h: "slash \<notin> set h" "CHR ''.'' \<notin> set h" "h \<noteq> []" using hex_name_slash [of h] assms by (simp_all add: hex_name_def)
  then have d: "d \<noteq> []" "slash \<notin> set d" "CHR ''.'' \<notin> set d"
    using False by (auto simp: d_def min_le_iff_disj dest: in_set_takeD)
  then have "shard_rel n h = d @ slash # h" using h False by (auto simp: shard_rel_def join_path_def d_def [symmetric])
  moreover have "dir_of (d @ slash # h) = d" using d(1) h(1) by (simp add: dir_of_def last_index_append)
  moreover have "d \<noteq> ''.''" using d(3) by auto
  ultimately show ?thesis using sharded d(1) by simp
qed

lemma shard_not_parent:
  assumes "hex_name h" "dir_of (shard_rel n h) \<noteq> ''.''"
  shows "join_path root (shard_rel n h) \<notin> set (parents (join_path root (dir_of (shard_rel n h))))"
proof
  assume a: "join_path root (shard_rel n h) \<in> set (parents (join_path root (dir_of (shard_rel n h))))"
  obtain d where d: "shard_rel n h = d @ slash # h" "dir_of (shard_rel n h) = d" "d \<noteq> []" "d \<noteq> ''.''"
    using shard_rel_cases [OF assms(1), of n] assms(2) by metis
  then have "length (join_path root d) < length (join_path root (d @ slash # h))"
    by (auto simp: join_path_def Cons_eq_append_conv append_eq_Cons_conv)
  with parents_length [OF a] d show False by simp
qed

text \<open>An entry that fits without pruning.\<close>

definition fits :: "DiskCache \<Rightarrow> int \<Rightarrow> bool" where
  "fits c n \<longleftrightarrow> dc_maxBytes c \<le> 0 \<or> 0 \<le> dc_bytes c \<and> dc_bytes c + n \<le> dc_maxBytes c \<and> dc_maxBytes c < 2 ^ 63"

lemma fits_capacity: "fits c n \<Longrightarrow> 0 \<le> n \<Longrightarrow> ManifestCache_ensureCapacity n (c, s) = (Inr True, (c, s))"
  using add_i64_id [of "dc_bytes c" n] by (auto simp: ManifestCache_ensureCapacity_def fits_def)

definition reg_stored :: "DiskCache \<Rightarrow> string \<Rightarrow> bytes \<Rightarrow> DiskCache \<times> fsys \<Rightarrow> bool" where
  "reg_stored c path data cs \<longleftrightarrow>
     same_place c (fst cs) \<and> fs_faults (snd cs) = [] \<and> is_dir (snd cs) (dc_dir c) \<and>
     (\<exists>n. fs_files (snd cs) (join_path (dc_dir c) path) = Some n \<and> n_content n = data \<and> n_mtime n + 1 = fs_clock (snd cs))"

lemma reg_store_ok:
  assumes "reg_store pattern path data (c, s) = (None, cs')" "fs_faults s = []" "fits c (int (length data))"
    and "path = shard_rel n h" "hex_name h" "is_dir s (dc_dir c)" "\<not> is_dir s (join_path (dc_dir c) path)"
  shows "reg_stored c path data cs'"
proof -
  let ?full = "join_path (dc_dir c) path"
  obtain e s1 where m: "(if dir_of path \<noteq> ''.'' then os_MkdirAll (join_path (dc_dir c) (dir_of path)) s else (None, s)) = (e, s1)"
    by (metis prod.exhaust)
  have e: "e = None" using assms(1) fits_capacity [OF assms(3)] m by (auto simp: reg_store_def Let_def split: option.splits)
  then have s1: "fs_faults s1 = []" "is_dir s1 (dc_dir c)" "\<not> is_dir s1 ?full"
    using m assms(2,4,6,7) shard_not_parent [OF assms(5), of n "dc_dir c"]
      quiet_MkdirAll [OF assms(2), of "join_path (dc_dir c) (dir_of path)" s1]
    by (auto simp: is_dir_def split: if_splits)
  obtain t s2 where t: "Reg_createTemp (dc_dir c) (dir_of path) pattern s1 = (Inr t, s2)"
    using assms(1) fits_capacity [OF assms(3)] m e by (auto simp: reg_store_def Let_def split: prod.splits sum.splits)
  then have s2: "fs_faults s2 = []" "fs_dirs s2 = fs_dirs s1" "fs_content s2 (join_path (dc_dir c) t) = Some []"
    using temp_loop_ok s1(1) by (fastforce simp: Reg_createTemp_def Let_def)+
  obtain c' s' where cs': "cs' = (c', s')" by fastforce
  have "reg_fill t path data (c, s2) = (None, (c', s'))"
    using assms(1) fits_capacity [OF assms(3)] m e t cs' by (simp add: reg_store_def Let_def)
  from reg_fill_ok [OF this s2(1,3)] s1 s2 cs' show ?thesis
    by (auto simp: reg_stored_def same_place_def is_dir_def)
qed

lemma if_absent_store:
  assumes "if_absent path store (c, s) = (x, cs')" "fs_faults s = []" "is_dir s (dc_dir c)" "\<not> fs_exists s (join_path (dc_dir c) path)"
  shows "store (c, s) = (x, cs')"
  using assms by (auto simp: if_absent_def os_OpenRoot_def os_Stat_def guarded_def fs_exists_def)

lemma if_absent_present:
  assumes "fs_faults s = []" "is_dir s (dc_dir c)" "fs_exists s (join_path (dc_dir c) path)"
  shows "if_absent path store (c, s) = (None, (c, s))"
  using assms by (auto simp: if_absent_def os_OpenRoot_def os_Stat_def guarded_def fs_exists_def split: option.splits)

text \<open>The three round trips.\<close>

lemma IndexCache_path_shard: "IndexCache_path c d = Inr p \<Longrightarrow> \<exists>n h. p = shard_rel n h \<and> hex_name h"
  using sanitize_hex by (auto simp: IndexCache_path_def res_simps)

lemma path_same_place:
  "same_place c c' \<Longrightarrow> IndexCache_path c' d = IndexCache_path c d"
  "same_place c c' \<Longrightarrow> ManifestCache_path c' d = ManifestCache_path c d"
  by (simp_all add: same_place_def IndexCache_path_def ManifestCache_path_def)

definition room_for :: "string res \<Rightarrow> DiskCache \<times> fsys \<Rightarrow> nat \<Rightarrow> bool" where
  "room_for path cs n \<longleftrightarrow> fs_faults (snd cs) = [] \<and> is_dir (snd cs) (dc_dir (fst cs)) \<and> fits (fst cs) (int n) \<and>
     (\<exists>p. path = Inr p \<and> \<not> fs_exists (snd cs) (join_path (dc_dir (fst cs)) p))"

lemma PutIndex_GetIndex:
  assumes "room_for (IndexCache_path c dgst) (c, s) (length raw)" "PutIndex D dgst raw (c, s) = (None, cs')"
  shows "fst (GetIndex D dgst cs') = Some raw \<and> digestMatches D dgst raw = Inr True"
proof -
  from assms(1) obtain p where r: "fs_faults s = []" "is_dir s (dc_dir c)" "fits c (int (length raw))"
    "IndexCache_path c dgst = Inr p" "\<not> fs_exists s (join_path (dc_dir c) p)" by (auto simp: room_for_def)
  obtain n h where p: "p = shard_rel n h" "hex_name h" using IndexCache_path_shard [OF r(4)] by blast
  have "(case digestMatches D dgst raw of Inl err \<Rightarrow> (Some err, (c, s))
      | Inr match \<Rightarrow> if \<not> match then (Some (Errorf ''index digest mismatch for %q'' [dgst] []), (c, s))
          else reg_store ''index-*'' p raw (c, s)) = (None, cs')"
    using if_absent_store [OF _ r(1,2,5)] assms(2) r(4) by (simp add: PutIndex_def)
  then have m: "digestMatches D dgst raw = Inr True" and st: "reg_store ''index-*'' p raw (c, s) = (None, cs')"
    by (auto split: sum.splits if_splits)
  obtain c' s' where cs': "cs' = (c', s')" by fastforce
  have "reg_stored c p raw (c', s')" using reg_store_ok [OF st r(1,3) p r(2)] r(5) cs' by (simp add: fs_exists_def)
  then show ?thesis using m r(4) path_same_place(1) [of c c'] cs'
    by (auto simp: reg_stored_def GetIndex_def os_OpenRoot_def os_ReadFile_def guarded_def same_place_def)
qed

lemma PutManifest_GetManifest:
  assumes "room_for (ManifestCache_path c dgst) (c, s) (length raw)" "PutManifest D dgst raw (c, s) = (None, cs')"
    and "unmarshal raw = Some m"
  shows "fst (GetManifest D unmarshal dgst cs') = Some (m, raw) \<and> digestMatches D dgst raw = Inr True"
proof -
  from assms(1) obtain p where r: "fs_faults s = []" "is_dir s (dc_dir c)" "fits c (int (length raw))"
    "ManifestCache_path c dgst = Inr p" "\<not> fs_exists s (join_path (dc_dir c) p)" by (auto simp: room_for_def)
  obtain n h where p: "p = shard_rel n h" "hex_name h"
    using sanitize_hex r(4) by (auto simp: ManifestCache_path_def res_simps)
  have "(case digestMatches D dgst raw of Inl err \<Rightarrow> (Some err, (c, s))
      | Inr match \<Rightarrow> if \<not> match then (Some (Errorf ''manifest digest mismatch for %q'' [dgst] []), (c, s))
          else reg_store ''manifest-*'' p raw (c, s)) = (None, cs')"
    using if_absent_store [OF _ r(1,2,5)] assms(2) r(4) by (simp add: PutManifest_def)
  then have m: "digestMatches D dgst raw = Inr True" and st: "reg_store ''manifest-*'' p raw (c, s) = (None, cs')"
    by (auto split: sum.splits if_splits)
  obtain c' s' where cs': "cs' = (c', s')" by fastforce
  have "reg_stored c p raw (c', s')" using reg_store_ok [OF st r(1,3) p r(2)] r(5) cs' by (simp add: fs_exists_def)
  then show ?thesis using m r(4) path_same_place(2) [of c c'] cs' assms(3)
    by (auto simp: reg_stored_def GetManifest_def os_OpenRoot_def os_ReadFile_def guarded_def same_place_def)
qed

lemma PutDigest_GetDigest:
  assumes "room_for (Inr (RefCache_path sha256 c ref)) (rf_disk c, s) (length dgst)" "PutDigest sha256 ref dgst (c, s) = (None, cs')"
    and "sha256 (to_bytes ref) \<noteq> []" "isValidDigestFormat dgst"
  shows "fst (GetDigest sha256 ref cs') = Some dgst"
proof -
  let ?p = "RefCache_path sha256 c ref" and ?d = "rf_disk c"
  from assms(1) have r: "fs_faults s = []" "is_dir s (dc_dir ?d)" "fits ?d (int (length (to_bytes dgst)))"
    "\<not> fs_exists s (join_path (dc_dir ?d) ?p)" by (auto simp: room_for_def to_bytes_def)
  obtain c' s' where cs': "cs' = (c\<lparr>rf_disk := c'\<rparr>, s')" "if_absent ?p (reg_store ''ref-*'' ?p (to_bytes dgst)) (?d, s) = (None, (c', s'))"
    using assms(2) by (auto simp: PutDigest_def on_disk_def Let_def split: prod.splits)
  have "reg_store ''ref-*'' ?p (to_bytes dgst) (?d, s) = (None, (c', s'))" using if_absent_store [OF cs'(2) r(1,2,4)] .
  from reg_store_ok [OF this r(1,3) _ hex_encode_name [OF assms(3)] r(2)] r(4) have st: "reg_stored ?d ?p (to_bytes dgst) (c', s')"
    by (auto simp: fs_exists_def RefCache_path_def)
  then have "RefCache_path sha256 (c\<lparr>rf_disk := c'\<rparr>) ref = ?p" by (simp add: RefCache_path_def reg_stored_def same_place_def)
  with st assms(4) show ?thesis unfolding cs'(1)
    by (auto simp: reg_stored_def GetDigest_def read_digest_def Let_def os_OpenRoot_def os_Stat_def os_ReadFile_def guarded_def same_place_def)
qed

text \<open>An entry that is there is never replaced.\<close>

lemma PutDigest_present:
  assumes "fs_faults s = []" "is_dir s (dc_dir (rf_disk c))"
    and "fs_exists s (join_path (dc_dir (rf_disk c)) (RefCache_path sha256 c ref))"
  shows "PutDigest sha256 ref dgst (c, s) = (None, (c, s))"
  using if_absent_present [OF assms] by (simp add: PutDigest_def on_disk_def)

end
