(* ===== verification/OciTypes.thy ===== *)
theory OciTypes
  imports RegistryCache HttpSource
begin

text \<open>
  What the registry client, its OCI backend and the policies share: descriptors and manifests of the image specification
  (the fields the program reads or writes), the sentinel errors of \<^verbatim>\<open>registry/errors.go\<close> and \<^verbatim>\<open>registry/oras/errors.go\<close>, the
  interfaces \<^verbatim>\<open>OCIClient\<close>, \<^verbatim>\<open>RefCache\<close>, \<^verbatim>\<open>ManifestCache\<close>, \<^verbatim>\<open>IndexCache\<close> and \<^verbatim>\<open>Policy\<close> as records of operations on a
  state \<open>'w\<close> that holds the registry, the caches and whatever else the calls change. Annotations and headers are association lists.
\<close>

section \<open>Data\<close>

record Descriptor =
  d_MediaType :: string
  d_Digest :: string
  d_Size :: i64

record Manifest =
  m_SchemaVersion :: int
  m_MediaType :: string
  m_ArtifactType :: string
  m_Config :: Descriptor
  m_Layers :: "Descriptor list"
  m_Subject :: "Descriptor option"
  m_Annotations :: "(string \<times> string) list"

definition MediaTypeImageManifest :: string where
  "MediaTypeImageManifest = ''application/vnd.oci.image.manifest.v1+json''"

definition MediaTypeEmptyJSON :: string where
  "MediaTypeEmptyJSON = ''application/vnd.oci.empty.v1+json''"

definition AnnotationCreated :: string where
  "AnnotationCreated = ''org.opencontainers.image.created''"

definition ArtifactType :: string where
  "ArtifactType = ''application/vnd.meigma.blob.v1''"

definition MediaTypeIndex :: string where
  "MediaTypeIndex = ''application/vnd.meigma.blob.index.v1+flatbuffers''"

definition MediaTypeData :: string where
  "MediaTypeData = ''application/vnd.meigma.blob.data.v1''"

lemmas media_types = MediaTypeImageManifest_def MediaTypeEmptyJSON_def AnnotationCreated_def ArtifactType_def
  MediaTypeIndex_def MediaTypeData_def

lemma media_types_differ [simp]: "MediaTypeIndex \<noteq> MediaTypeData" "MediaTypeData \<noteq> MediaTypeIndex"
  by (simp_all add: media_types)

record BlobManifest =
  bm_raw :: Manifest
  bm_digest :: string
  bm_indexDesc :: Descriptor
  bm_dataDesc :: Descriptor
  bm_created :: "int option"

section \<open>Errors\<close>

text \<open>\<^verbatim>\<open>fmt.Errorf("%w: ...", err, ...)\<close>: the error stays the wrapped one; the text of an error printed with \<^verbatim>\<open>%v\<close> is left out.\<close>

definition errWith :: "err \<Rightarrow> string \<Rightarrow> string list \<Rightarrow> err" where
  "errWith e text args = Wrap (text @ concat args) e"

definition ErrNotFound :: err where
  "ErrNotFound = ErrNew ''client: not found''"

definition ErrInvalidReference :: err where
  "ErrInvalidReference = ErrNew ''client: invalid reference''"

definition ErrInvalidManifest :: err where
  "ErrInvalidManifest = ErrNew ''client: invalid blob manifest''"

definition ErrMissingIndex :: err where
  "ErrMissingIndex = ErrNew ''client: missing index blob''"

definition ErrMissingData :: err where
  "ErrMissingData = ErrNew ''client: missing data blob''"

definition ErrDigestMismatch :: err where
  "ErrDigestMismatch = ErrNew ''client: digest mismatch''"

definition ErrPolicyViolation :: err where
  "ErrPolicyViolation = ErrNew ''client: policy violation''"

definition ErrReferrersUnsupported :: err where
  "ErrReferrersUnsupported = ErrNew ''client: referrers unsupported''"

lemmas client_errors = ErrNotFound_def ErrInvalidReference_def ErrInvalidManifest_def ErrMissingIndex_def ErrMissingData_def
  ErrDigestMismatch_def ErrPolicyViolation_def ErrReferrersUnsupported_def

definition Oras_ErrNotFound :: err where
  "Oras_ErrNotFound = ErrNew ''oci: not found''"

definition Oras_ErrReferrersUnsupported :: err where
  "Oras_ErrReferrersUnsupported = ErrNew ''oci: referrers unsupported''"

section \<open>Interfaces\<close>

record 'w oci_client =
  oci_PushBlob :: "string \<Rightarrow> Descriptor \<Rightarrow> reader \<Rightarrow> 'w \<Rightarrow> err option \<times> 'w"
  oci_FetchBlob :: "string \<Rightarrow> Descriptor \<Rightarrow> 'w \<Rightarrow> reader res \<times> 'w"
  oci_PushManifest :: "string \<Rightarrow> string \<Rightarrow> Manifest \<Rightarrow> 'w \<Rightarrow> Descriptor res \<times> 'w"
  oci_FetchManifest :: "string \<Rightarrow> Descriptor \<Rightarrow> 'w \<Rightarrow> (Manifest \<times> bytes) res \<times> 'w"
  oci_Resolve :: "string \<Rightarrow> string \<Rightarrow> 'w \<Rightarrow> Descriptor res \<times> 'w"
  oci_Tag :: "string \<Rightarrow> Descriptor \<Rightarrow> string \<Rightarrow> 'w \<Rightarrow> err option \<times> 'w"
  oci_PushManifestByDigest :: "string \<Rightarrow> Manifest \<Rightarrow> 'w \<Rightarrow> Descriptor res \<times> 'w"
  oci_BlobURL :: "string \<Rightarrow> string \<Rightarrow> string res"
  oci_AuthHeaders :: "string \<Rightarrow> 'w \<Rightarrow> header res \<times> 'w"
  oci_InvalidateAuthHeaders :: "string \<Rightarrow> 'w \<Rightarrow> err option \<times> 'w"
  oci_AuthClient :: "(string \<Rightarrow> 'w http_client res) option"
  oci_Referrers :: "(string \<Rightarrow> Descriptor \<Rightarrow> string \<Rightarrow> 'w \<Rightarrow> Descriptor list res \<times> 'w) option"

text \<open>\<open>oci_AuthClient\<close> and \<open>oci_Referrers\<close> are the optional interfaces \<^verbatim>\<open>authClientProvider\<close> and \<^verbatim>\<open>referrersProvider\<close>.\<close>

record 'w ref_cache =
  rc_GetDigest :: "string \<Rightarrow> 'w \<Rightarrow> string option \<times> 'w"
  rc_PutDigest :: "string \<Rightarrow> string \<Rightarrow> 'w \<Rightarrow> err option \<times> 'w"

record 'w manifest_cache =
  mc_GetManifest :: "string \<Rightarrow> 'w \<Rightarrow> (Manifest \<times> bytes) option \<times> 'w"
  mc_PutManifest :: "string \<Rightarrow> bytes \<Rightarrow> 'w \<Rightarrow> err option \<times> 'w"
  mc_Delete :: "string \<Rightarrow> 'w \<Rightarrow> err option \<times> 'w"

record 'w index_cache =
  ic_GetIndex :: "string \<Rightarrow> 'w \<Rightarrow> bytes option \<times> 'w"
  ic_PutIndex :: "string \<Rightarrow> bytes \<Rightarrow> 'w \<Rightarrow> err option \<times> 'w"
  ic_Delete :: "string \<Rightarrow> 'w \<Rightarrow> err option \<times> 'w"

record 'w PolicyClient =
  pc_Referrers :: "string \<Rightarrow> Descriptor \<Rightarrow> string \<Rightarrow> 'w \<Rightarrow> Descriptor list res \<times> 'w"
  pc_FetchDescriptor :: "string \<Rightarrow> Descriptor \<Rightarrow> 'w \<Rightarrow> bytes res \<times> 'w"

record 'w PolicyRequest =
  pr_Ref :: string
  pr_Digest :: string
  pr_Manifest :: BlobManifest
  pr_Subject :: Descriptor
  pr_Client :: "'w PolicyClient"

type_synonym 'w Policy = "'w PolicyRequest \<Rightarrow> 'w \<Rightarrow> err option \<times> 'w"

end
