(* ===== verification/RegistryClient.thy ===== *)
theory RegistryClient
  imports OciTypes BlobFS
begin

text \<open>
  \<^verbatim>\<open>registry\<close>: the client that pushes, fetches, inspects, pulls, tags and signs archives in an OCI registry. The argument
  \<open>E\<close> collects what the client calls outside the repository: the reference parser, the digest library, \<^verbatim>\<open>time.Parse\<close> and \<^verbatim>\<open>time.Now\<close>,
  the FlatBuffers reader, the URL parser and the default HTTP client. Logging and progress reports are left out.
\<close>

section \<open>Definitions\<close>

record 'w reg_env =
  re_ParseReference :: "string \<Rightarrow> (string \<times> string \<times> string) option"
  re_digest :: digest_lib
  re_parseTime :: "string \<Rightarrow> int option"
  re_now :: string
  re_get_root :: "bytes \<Rightarrow> string + fb_index option"
  re_bad_url :: "string \<Rightarrow> err option"
  re_DefaultClient :: "'w http_client"

record 'w Client =
  cl_oci :: "'w oci_client"
  cl_refCache :: "'w ref_cache option"
  cl_manifestCache :: "'w manifest_cache option"
  cl_indexCache :: "'w index_cache option"
  cl_policies :: "'w Policy list"

subsection \<open>References\<close>

record clientRef =
  cr_registry :: string
  cr_repository :: string
  cr_reference :: string

definition parseClientRef :: "'w reg_env \<Rightarrow> string \<Rightarrow> clientRef res" where
  "parseClientRef E ref =
     (case re_ParseReference E ref of
        None \<Rightarrow> Inl ErrInvalidReference
      | Some (reg, repo, r) \<Rightarrow> Inr \<lparr>cr_registry = reg, cr_repository = repo, cr_reference = r\<rparr>)"

definition isDigest :: "string \<Rightarrow> bool" where
  "isDigest ref \<longleftrightarrow> CHR '':'' \<in> set ref"

definition descriptorFromDigest :: "'w reg_env \<Rightarrow> string \<Rightarrow> Descriptor res" where
  "descriptorFromDigest E dgst =
     (case dl_Validate (re_digest E) dgst of
        Some err \<Rightarrow> Inl (errWith ErrInvalidReference '': invalid digest '' [dgst])
      | None \<Rightarrow> Inr \<lparr>d_MediaType = [], d_Digest = dgst, d_Size = 0\<rparr>)"

definition mapOCIError :: "err \<Rightarrow> err" where
  "mapOCIError err =
     (if errors_is err ErrNotFound then err
      else if errors_is err Oras_ErrNotFound then errWith ErrNotFound '': '' []
      else if errors_is err Oras_ErrReferrersUnsupported then errWith ErrReferrersUnsupported '': '' []
      else err)"

subsection \<open>Manifests\<close>

fun scan_layers :: "Descriptor list \<Rightarrow> Descriptor option \<Rightarrow> Descriptor option \<Rightarrow> (Descriptor option \<times> Descriptor option) res" where
  "scan_layers [] indexDesc dataDesc = Inr (indexDesc, dataDesc)"
| "scan_layers (layer # layers) indexDesc dataDesc =
     (if d_MediaType layer = MediaTypeIndex then
        if indexDesc \<noteq> None then Inl (errWith ErrInvalidManifest '': multiple index layers'' [])
        else scan_layers layers (Some layer) dataDesc
      else if d_MediaType layer = MediaTypeData then
        if dataDesc \<noteq> None then Inl (errWith ErrInvalidManifest '': multiple data layers'' [])
        else scan_layers layers indexDesc (Some layer)
      else scan_layers layers indexDesc dataDesc)"

definition parseBlobManifest :: "'w reg_env \<Rightarrow> Manifest \<Rightarrow> string \<Rightarrow> BlobManifest res" where
  "parseBlobManifest E manifest dgst =
     (if m_MediaType manifest \<noteq> MediaTypeImageManifest
      then Inl (errWith ErrInvalidManifest '': unexpected manifest media type '' [m_MediaType manifest])
      else if m_ArtifactType manifest \<noteq> ArtifactType
      then Inl (errWith ErrInvalidManifest '': unexpected artifact type '' [m_ArtifactType manifest])
      else bindE (scan_layers (m_Layers manifest) None None) (\<lambda>found.
        case found of
          (None, dataDesc) \<Rightarrow> Inl ErrMissingIndex
        | (Some indexDesc, None) \<Rightarrow> Inl ErrMissingData
        | (Some indexDesc, Some dataDesc) \<Rightarrow>
            if length (m_Layers manifest) \<noteq> 2
            then Inl (errWith ErrInvalidManifest '': expected 2 layers, got '' [show_nat (length (m_Layers manifest))])
            else
              let created = (case map_of (m_Annotations manifest) AnnotationCreated of
                    None \<Rightarrow> None | Some ts \<Rightarrow> re_parseTime E ts)
              in Inr \<lparr>bm_raw = manifest, bm_digest = dgst, bm_indexDesc = indexDesc, bm_dataDesc = dataDesc, bm_created = created\<rparr>))"

subsection \<open>Referrers\<close>

definition Client_Referrers ::
  "'w Client \<Rightarrow> string \<Rightarrow> Descriptor \<Rightarrow> string \<Rightarrow> 'w \<Rightarrow> Descriptor list res \<times> 'w" where
  "Client_Referrers c ref subject artifactType w =
     (case oci_Referrers (cl_oci c) of
        None \<Rightarrow> (Inl ErrReferrersUnsupported, w)
      | Some referrers \<Rightarrow>
          (case referrers ref subject artifactType w of
             (Inl err, w) \<Rightarrow> (Inl (mapOCIError err), w)
           | (Inr rs, w) \<Rightarrow> (Inr rs, w)))"

definition FetchDescriptor :: "'w Client \<Rightarrow> string \<Rightarrow> Descriptor \<Rightarrow> 'w \<Rightarrow> bytes res \<times> 'w" where
  "FetchDescriptor c ref desc w =
     (case oci_FetchBlob (cl_oci c) ref desc w of
        (Inl err, w) \<Rightarrow> (Inl (mapOCIError err), w)
      | (Inr reader, w) \<Rightarrow>
          (case io_ReadAll reader of
             Inl err \<Rightarrow> (Inl (Wrap ''read descriptor'' err), w)
           | Inr data \<Rightarrow> (Inr data, w)))"

definition policy_client :: "'w Client \<Rightarrow> 'w PolicyClient" where
  "policy_client c = \<lparr>pc_Referrers = Client_Referrers c, pc_FetchDescriptor = FetchDescriptor c\<rparr>"

subsection \<open>Policies\<close>

fun run_policies :: "'w Policy list \<Rightarrow> 'w PolicyRequest \<Rightarrow> 'w \<Rightarrow> err option \<times> 'w" where
  "run_policies [] req w = (None, w)"
| "run_policies (policy # policies) req w =
     (case policy req w of
        (Some err, w) \<Rightarrow> (Some (errWith ErrPolicyViolation '': '' []), w)
      | (None, w) \<Rightarrow> run_policies policies req w)"

definition policy_request :: "'w Client \<Rightarrow> string \<Rightarrow> string \<Rightarrow> BlobManifest \<Rightarrow> bytes \<Rightarrow> 'w PolicyRequest" where
  "policy_request c ref digestStr manifest raw =
     \<lparr>pr_Ref = ref, pr_Digest = digestStr, pr_Manifest = manifest,
      pr_Subject = \<lparr>d_MediaType = m_MediaType (bm_raw manifest), d_Digest = digestStr, d_Size = int (length raw)\<rparr>,
      pr_Client = policy_client c\<rparr>"

definition evaluatePolicies ::
  "'w reg_env \<Rightarrow> 'w Client \<Rightarrow> string \<Rightarrow> string \<Rightarrow> BlobManifest \<Rightarrow> bytes \<Rightarrow> 'w \<Rightarrow> err option \<times> 'w" where
  "evaluatePolicies E c ref digestStr manifest raw w =
     (if cl_policies c = [] then (None, w)
      else case dl_Validate (re_digest E) digestStr of
        Some err \<Rightarrow> (Some (errWith ErrInvalidReference '': invalid digest '' [digestStr]), w)
      | None \<Rightarrow> run_policies (cl_policies c) (policy_request c ref digestStr manifest raw) w)"

subsection \<open>Fetch\<close>

definition resolveDigest :: "'w Client \<Rightarrow> string \<Rightarrow> string \<Rightarrow> bool \<Rightarrow> 'w \<Rightarrow> string res \<times> 'w" where
  "resolveDigest c ref reference skipCache w =
     (if isDigest reference then (Inr reference, w)
      else
        case (case cl_refCache c of
                Some rc \<Rightarrow> if skipCache then (None, w) else rc_GetDigest rc ref w
              | None \<Rightarrow> (None, w)) of
          (Some dgst, w) \<Rightarrow> (Inr dgst, w)
        | (None, w) \<Rightarrow>
            (case oci_Resolve (cl_oci c) ref reference w of
               (Inl err, w) \<Rightarrow> (Inl (mapOCIError err), w)
             | (Inr desc, w) \<Rightarrow>
                 (case cl_refCache c of
                    None \<Rightarrow> (Inr (d_Digest desc), w)
                  | Some rc \<Rightarrow>
                      (case rc_PutDigest rc ref (d_Digest desc) w of
                         (Some err, w) \<Rightarrow> (Inl (Wrap ''cache ref digest'' err), w)
                       | (None, w) \<Rightarrow> (Inr (d_Digest desc), w)))))"

definition fetch_network ::
  "'w reg_env \<Rightarrow> 'w Client \<Rightarrow> string \<Rightarrow> string \<Rightarrow> 'w \<Rightarrow> (BlobManifest \<times> bytes \<times> bool) res \<times> 'w" where
  "fetch_network E c ref dgst w =
     (case descriptorFromDigest E dgst of
        Inl err \<Rightarrow> (Inl err, w)
      | Inr desc \<Rightarrow>
          (case oci_FetchManifest (cl_oci c) ref desc w of
             (Inl err, w) \<Rightarrow> (Inl (mapOCIError err), w)
           | (Inr (rawManifest, raw), w) \<Rightarrow>
               (bindE (parseBlobManifest E rawManifest dgst) (\<lambda>manifest. Inr (manifest, raw, False)), w)))"

definition fetchManifestByDigest ::
  "'w reg_env \<Rightarrow> 'w Client \<Rightarrow> string \<Rightarrow> string \<Rightarrow> bool \<Rightarrow> 'w \<Rightarrow> (BlobManifest \<times> bytes \<times> bool) res \<times> 'w" where
  "fetchManifestByDigest E c ref dgst skipCache w =
     (case (case cl_manifestCache c of
              Some mc \<Rightarrow> if skipCache then (None, w) else mc_GetManifest mc dgst w
            | None \<Rightarrow> (None, w)) of
        (Some (cached, cachedRaw), w) \<Rightarrow>
          (bindE (parseBlobManifest E cached dgst) (\<lambda>manifest. Inr (manifest, cachedRaw, True)), w)
      | (None, w) \<Rightarrow> fetch_network E c ref dgst w)"

definition no_reference :: err where
  "no_reference = errWith ErrInvalidReference '': reference must include a tag or digest'' []"

text \<open>\<^verbatim>\<open>Fetch\<close> after its options.\<close>

definition fetch_with :: "'w reg_env \<Rightarrow> 'w Client \<Rightarrow> string \<Rightarrow> bool \<Rightarrow> 'w \<Rightarrow> BlobManifest res \<times> 'w" where
  "fetch_with E c ref skipCache w =
     (case parseClientRef E ref of
        Inl err \<Rightarrow> (Inl err, w)
      | Inr parsedRef \<Rightarrow>
          if cr_reference parsedRef = [] then (Inl no_reference, w)
          else case resolveDigest c ref (cr_reference parsedRef) skipCache w of
            (Inl err, w) \<Rightarrow> (Inl err, w)
          | (Inr digestStr, w) \<Rightarrow>
              (case fetchManifestByDigest E c ref digestStr skipCache w of
                 (Inl err, w) \<Rightarrow> (Inl err, w)
               | (Inr (manifest, raw, fromCache), w) \<Rightarrow>
                   (case evaluatePolicies E c ref digestStr manifest raw w of
                      (Some err, w) \<Rightarrow>
                        (Inl err, case cl_manifestCache c of
                                    Some mc \<Rightarrow> if fromCache then snd (mc_Delete mc digestStr w) else w
                                  | None \<Rightarrow> w)
                    | (None, w) \<Rightarrow>
                        (case cl_manifestCache c of
                           None \<Rightarrow> (Inr manifest, w)
                         | Some mc \<Rightarrow>
                             if \<not> fromCache \<and> \<not> skipCache then
                               (case mc_PutManifest mc digestStr raw w of
                                  (Some err, w) \<Rightarrow> (Inl (Wrap ''cache manifest'' err), w)
                                | (None, w) \<Rightarrow> (Inr manifest, w))
                             else (Inr manifest, w)))))"

record fetchConfig =
  fe_skipCache :: bool

definition WithSkipCache :: "fetchConfig \<Rightarrow> fetchConfig" where
  "WithSkipCache cfg = cfg\<lparr>fe_skipCache := True\<rparr>"

definition Fetch ::
  "'w reg_env \<Rightarrow> 'w Client \<Rightarrow> string \<Rightarrow> (fetchConfig \<Rightarrow> fetchConfig) list \<Rightarrow> 'w \<Rightarrow> BlobManifest res \<times> 'w" where
  "Fetch E c ref opts w =
     (let cfg = fold (\<lambda>opt cfg. opt cfg) opts \<lparr>fe_skipCache = False\<rparr> in fetch_with E c ref (fe_skipCache cfg) w)"

definition fetch_opts :: "bool \<Rightarrow> (fetchConfig \<Rightarrow> fetchConfig) list" where
  "fetch_opts skipCache = (if skipCache then [WithSkipCache] else [])"

subsection \<open>The index blob\<close>

definition defaultMaxIndexSize :: i64 where
  "defaultMaxIndexSize = 8 * 2 ^ 20"

definition index_too_large :: "i64 \<Rightarrow> i64 \<Rightarrow> err" where
  "index_too_large n limit = Errorf ''index blob too large: %d > %d'' [] [n, limit]"

text \<open>\<^verbatim>\<open>readIndexData\<close>; the limit of the reader is computed in 64 bits, and a limit that is not positive is at the end at once.\<close>

definition readIndexData :: "reader \<Rightarrow> i64 \<Rightarrow> i64 \<Rightarrow> bytes res" where
  "readIndexData r expectedSize maxSize =
     (if maxSize > 0 \<and> expectedSize > maxSize then Inl (index_too_large expectedSize maxSize)
      else
        let lim = add_i64 maxSize 1;
            reader = (if maxSize > 0 then if lim > 0 then limit_reader r (nat lim) else Chunks [] EOF False else r)
        in bindE (io_ReadAll reader) (\<lambda>data.
             if maxSize > 0 \<and> int (length data) > maxSize then Inl (index_too_large (int (length data)) maxSize)
             else Inr data))"

definition validateCachedIndex :: "'w reg_env \<Rightarrow> bytes \<Rightarrow> Descriptor \<Rightarrow> bool" where
  "validateCachedIndex E cached indexDesc =
     (if d_Size indexDesc > 0 \<and> int (length cached) \<noteq> d_Size indexDesc then False
      else if dl_Validate (re_digest E) (d_Digest indexDesc) \<noteq> None then False
      else dl_FromBytes (re_digest E) (dl_Algorithm (re_digest E) (d_Digest indexDesc)) cached = d_Digest indexDesc)"

definition verifyIndexDigest :: "'w reg_env \<Rightarrow> bytes \<Rightarrow> Descriptor \<Rightarrow> err option" where
  "verifyIndexDigest E indexData indexDesc =
     (if dl_Validate (re_digest E) (d_Digest indexDesc) \<noteq> None
      then Some (Wrap ''read index blob'' (errWith ErrInvalidManifest '': invalid digest '' [d_Digest indexDesc]))
      else
        let computed = dl_FromBytes (re_digest E) (dl_Algorithm (re_digest E) (d_Digest indexDesc)) indexData
        in if computed \<noteq> d_Digest indexDesc
           then Some (Wrap ''read index blob'' (errWith ErrDigestMismatch '': expected '' [d_Digest indexDesc, '', got '', computed]))
           else None)"

definition tryIndexCache ::
  "'w reg_env \<Rightarrow> 'w Client \<Rightarrow> string \<Rightarrow> Descriptor \<Rightarrow> bool \<Rightarrow> i64 \<Rightarrow> 'w \<Rightarrow> bytes option \<times> 'w" where
  "tryIndexCache E c indexDigest indexDesc skipCache maxIndexSize w =
     (case cl_indexCache c of
        None \<Rightarrow> (None, w)
      | Some ic \<Rightarrow>
          if skipCache then (None, w)
          else case ic_GetIndex ic indexDigest w of
            (None, w) \<Rightarrow> (None, w)
          | (Some cached, w) \<Rightarrow>
              if maxIndexSize > 0 \<and> int (length cached) > maxIndexSize then (None, w)
              else if \<not> validateCachedIndex E cached indexDesc then (None, snd (ic_Delete ic indexDigest w))
              else (Some cached, w))"

definition fetchIndexBlob ::
  "'w reg_env \<Rightarrow> 'w Client \<Rightarrow> string \<Rightarrow> BlobManifest \<Rightarrow> bool \<Rightarrow> i64 \<Rightarrow> 'w \<Rightarrow> bytes res \<times> 'w" where
  "fetchIndexBlob E c ref manifest skipCache maxIndexSize w =
     (let indexDesc = bm_indexDesc manifest; indexDigest = d_Digest indexDesc
      in if maxIndexSize > 0 \<and> d_Size indexDesc > maxIndexSize
         then (Inl (Wrap ''read index blob'' (index_too_large (d_Size indexDesc) maxIndexSize)), w)
         else case tryIndexCache E c indexDigest indexDesc skipCache maxIndexSize w of
           (Some indexData, w) \<Rightarrow> (Inr indexData, w)
         | (None, w) \<Rightarrow>
             (case oci_FetchBlob (cl_oci c) ref indexDesc w of
                (Inl err, w) \<Rightarrow> (Inl (Wrap ''fetch index blob'' (mapOCIError err)), w)
              | (Inr indexReader, w) \<Rightarrow>
                  (case readIndexData indexReader (d_Size indexDesc) maxIndexSize of
                     Inl err \<Rightarrow> (Inl (Wrap ''read index blob'' err), w)
                   | Inr indexData \<Rightarrow>
                       (case verifyIndexDigest E indexData indexDesc of
                          Some err \<Rightarrow> (Inl err, w)
                        | None \<Rightarrow>
                            (case cl_indexCache c of
                               None \<Rightarrow> (Inr indexData, w)
                             | Some ic \<Rightarrow>
                                 (case ic_PutIndex ic indexDigest indexData w of
                                    (Some err, w) \<Rightarrow> (Inl (Wrap ''cache index'' err), w)
                                  | (None, w) \<Rightarrow> (Inr indexData, w)))))))"

subsection \<open>Inspect\<close>

record inspectConfig =
  in_skipCache :: bool
  in_maxIndexSize :: i64

definition WithInspectSkipCache :: "inspectConfig \<Rightarrow> inspectConfig" where
  "WithInspectSkipCache cfg = cfg\<lparr>in_skipCache := True\<rparr>"

definition WithInspectMaxIndexSize :: "i64 \<Rightarrow> inspectConfig \<Rightarrow> inspectConfig" where
  "WithInspectMaxIndexSize maxBytes cfg = cfg\<lparr>in_maxIndexSize := maxBytes\<rparr>"

record InspectResult =
  ir_Manifest :: BlobManifest
  ir_IndexData :: bytes

definition Client_Inspect ::
  "'w reg_env \<Rightarrow> 'w Client \<Rightarrow> string \<Rightarrow> (inspectConfig \<Rightarrow> inspectConfig) list \<Rightarrow> 'w \<Rightarrow> InspectResult res \<times> 'w" where
  "Client_Inspect E c ref opts w =
     (let cfg = fold (\<lambda>opt cfg. opt cfg) opts \<lparr>in_skipCache = False, in_maxIndexSize = defaultMaxIndexSize\<rparr>
      in case Fetch E c ref (fetch_opts (in_skipCache cfg)) w of
           (Inl err, w) \<Rightarrow> (Inl err, w)
         | (Inr manifest, w) \<Rightarrow>
             (case fetchIndexBlob E c ref manifest (in_skipCache cfg) (in_maxIndexSize cfg) w of
                (Inl err, w) \<Rightarrow> (Inl err, w)
              | (Inr indexData, w) \<Rightarrow> (Inr \<lparr>ir_Manifest = manifest, ir_IndexData = indexData\<rparr>, w)))"

subsection \<open>Pull\<close>

record 'c pullConfig =
  pl_skipCache :: bool
  pl_blobOpts :: "('c Blob \<Rightarrow> 'c Blob) list"
  pl_maxIndexSize :: i64
  pl_blockCache :: "(source \<Rightarrow> source res) option"

definition WithBlobOptions :: "('c Blob \<Rightarrow> 'c Blob) list \<Rightarrow> 'c pullConfig \<Rightarrow> 'c pullConfig" where
  "WithBlobOptions opts cfg = cfg\<lparr>pl_blobOpts := pl_blobOpts cfg @ opts\<rparr>"

definition WithMaxIndexSize :: "i64 \<Rightarrow> 'c pullConfig \<Rightarrow> 'c pullConfig" where
  "WithMaxIndexSize maxBytes cfg = cfg\<lparr>pl_maxIndexSize := maxBytes\<rparr>"

definition WithPullSkipCache :: "'c pullConfig \<Rightarrow> 'c pullConfig" where
  "WithPullSkipCache cfg = cfg\<lparr>pl_skipCache := True\<rparr>"

definition WithBlockCache :: "(source \<Rightarrow> source res) \<Rightarrow> 'c pullConfig \<Rightarrow> 'c pullConfig" where
  "WithBlockCache bc cfg = cfg\<lparr>pl_blockCache := Some bc\<rparr>"

definition createDataSource ::
  "'w reg_env \<Rightarrow> 'w Client \<Rightarrow> string \<Rightarrow> BlobManifest \<Rightarrow> 'w \<Rightarrow> (http_source \<times> 'w http_client) res \<times> 'w" where
  "createDataSource E c ref manifest w =
     (case oci_BlobURL (cl_oci c) ref (d_Digest (bm_dataDesc manifest)) of
        Inl err \<Rightarrow> (Inl (Wrap ''build data blob URL'' err), w)
      | Inr dataURL \<Rightarrow>
          (case (case oci_AuthClient (cl_oci c) of
                   Some provider \<Rightarrow>
                     (case provider ref of
                        Inl authErr \<Rightarrow> (Inl (Wrap ''get auth client'' authErr), w)
                      | Inr authClient \<Rightarrow> (Inr (authClient, []), w))
                 | None \<Rightarrow>
                     (case oci_AuthHeaders (cl_oci c) ref w of
                        (Inl headerErr, w) \<Rightarrow> (Inl (Wrap ''get auth headers'' (mapOCIError headerErr)), w)
                      | (Inr headers, w) \<Rightarrow> (Inr (re_DefaultClient E, [WithHeaders (Some headers)]), w))) of
             (Inl err, w) \<Rightarrow> (Inl err, w)
           | (Inr (client, sourceOpts), w) \<Rightarrow>
               (case http_NewSource (re_bad_url E) client dataURL sourceOpts w of
                  (Inl err, w) \<Rightarrow> (Inl (Wrap ''create data source'' err), w)
                | (Inr source, w) \<Rightarrow> (Inr (source, client), w))))"

text \<open>\<^verbatim>\<open>Pull\<close>; \<open>as_source\<close> gives what later reads through the HTTP source return.\<close>

definition Pull ::
  "'w reg_env \<Rightarrow> (http_source \<Rightarrow> 'w http_client \<Rightarrow> 'w \<Rightarrow> source) \<Rightarrow> 'w Client \<Rightarrow> string \<Rightarrow>
   ('c pullConfig \<Rightarrow> 'c pullConfig) list \<Rightarrow> 'w \<Rightarrow> 'c Blob res \<times> 'w" where
  "Pull E as_source c ref opts w =
     (let cfg = fold (\<lambda>opt cfg. opt cfg) opts
            \<lparr>pl_skipCache = False, pl_blobOpts = [], pl_maxIndexSize = defaultMaxIndexSize, pl_blockCache = None\<rparr>
      in case Fetch E c ref (fetch_opts (pl_skipCache cfg)) w of
           (Inl err, w) \<Rightarrow> (Inl err, w)
         | (Inr manifest, w) \<Rightarrow>
             (case fetchIndexBlob E c ref manifest (pl_skipCache cfg) (pl_maxIndexSize cfg) w of
                (Inl err, w) \<Rightarrow> (Inl err, w)
              | (Inr indexData, w) \<Rightarrow>
                  (case createDataSource E c ref manifest w of
                     (Inl err, w) \<Rightarrow> (Inl err, w)
                   | (Inr (source, client), w) \<Rightarrow>
                       (bindE (case pl_blockCache cfg of
                                 None \<Rightarrow> Inr (as_source source client w)
                               | Some wrap' \<Rightarrow> mapErr (Wrap ''wrap data source with block cache'') (wrap' (as_source source client w)))
                          (\<lambda>dataSource. Blob_New (re_get_root E) indexData dataSource (pl_blobOpts cfg)), w))))"

subsection \<open>Push\<close>

record pushConfig =
  pu_tags :: "string list"
  pu_annotations :: "(string \<times> string) list"

definition WithTags :: "string list \<Rightarrow> pushConfig \<Rightarrow> pushConfig" where
  "WithTags tags cfg = cfg\<lparr>pu_tags := pu_tags cfg @ tags\<rparr>"

definition WithAnnotations :: "(string \<times> string) list \<Rightarrow> pushConfig \<Rightarrow> pushConfig" where
  "WithAnnotations annotations cfg =
     cfg\<lparr>pu_annotations := fold (\<lambda>(k, v) m. AList.update k v m) annotations (pu_annotations cfg)\<rparr>"

text \<open>\<^verbatim>\<open>bytes.NewReader\<close>, and \<^verbatim>\<open>digest.FromBytes\<close>, which uses SHA-256.\<close>

definition bytes_NewReader :: "bytes \<Rightarrow> reader" where
  "bytes_NewReader d = Chunks (if d = [] then [] else [d]) EOF False"

definition from_bytes :: "'w reg_env \<Rightarrow> bytes \<Rightarrow> string" where
  "from_bytes E d = dl_FromBytes (re_digest E) ''sha256'' d"

definition pushEmptyConfig :: "'w reg_env \<Rightarrow> 'w Client \<Rightarrow> string \<Rightarrow> 'w \<Rightarrow> Descriptor res \<times> 'w" where
  "pushEmptyConfig E c ref w =
     (let config = to_bytes ''{}'';
          desc = \<lparr>d_MediaType = MediaTypeEmptyJSON, d_Digest = from_bytes E config, d_Size = int (length config)\<rparr>
      in case oci_PushBlob (cl_oci c) ref desc (bytes_NewReader config) w of
           (Some err, w) \<Rightarrow> (Inl (mapOCIError err), w)
         | (None, w) \<Rightarrow> (Inr desc, w))"

definition dataDescriptor :: "'w reg_env \<Rightarrow> 'c Blob \<Rightarrow> Descriptor res" where
  "dataDescriptor E b =
     (case Blob_DataHash b of
        None \<Rightarrow> Inl (ErrNew ''push: archive missing data hash in index'')
      | Some hashBytes \<Rightarrow>
          (case Blob_DataSize b of
             None \<Rightarrow> Inl (ErrNew ''push: archive missing data size in index'')
           | Some dataSize \<Rightarrow>
               if uint dataSize > MaxInt64 then Inl (ErrNew ''push: data size exceeds maximum int64'')
               else
                 let dataDigest = ''sha256:'' @ hex_encode hashBytes
                 in case dl_Validate (re_digest E) dataDigest of
                      Some err \<Rightarrow> Inl (Wrap ''push: invalid data hash'' err)
                    | None \<Rightarrow> Inr \<lparr>d_MediaType = MediaTypeData, d_Digest = dataDigest, d_Size = uint dataSize\<rparr>))"

definition buildManifest ::
  "'w reg_env \<Rightarrow> Descriptor \<Rightarrow> Descriptor \<Rightarrow> Descriptor \<Rightarrow> (string \<times> string) list \<Rightarrow> Manifest" where
  "buildManifest E configDesc indexDesc dataDesc customAnnotations =
     (let annotations = fold (\<lambda>(k, v) m. AList.update k v m) customAnnotations [];
          annotations = (if map_of annotations AnnotationCreated = None
                         then AList.update AnnotationCreated (re_now E) annotations else annotations)
      in \<lparr>m_SchemaVersion = 2, m_MediaType = MediaTypeImageManifest, m_ArtifactType = ArtifactType, m_Config = configDesc,
          m_Layers = [indexDesc, dataDesc], m_Subject = None, m_Annotations = annotations\<rparr>)"

fun push_tags :: "'w Client \<Rightarrow> string \<Rightarrow> Descriptor \<Rightarrow> string list \<Rightarrow> 'w \<Rightarrow> err option \<times> 'w" where
  "push_tags c ref manifestDesc [] w = (None, w)"
| "push_tags c ref manifestDesc (additionalTag # tags) w =
     (case oci_Tag (cl_oci c) ref manifestDesc additionalTag w of
        (Some tagErr, w) \<Rightarrow> (Some (Wrap (''tag '' @ additionalTag) (mapOCIError tagErr)), w)
      | (None, w) \<Rightarrow> push_tags c ref manifestDesc tags w)"

definition push_index :: "'w reg_env \<Rightarrow> 'c Blob \<Rightarrow> Descriptor" where
  "push_index E b =
     \<lparr>d_MediaType = MediaTypeIndex, d_Digest = from_bytes E (Blob_IndexData b), d_Size = int (length (Blob_IndexData b))\<rparr>"

definition no_tag :: err where
  "no_tag = errWith ErrInvalidReference '': reference must include a tag'' []"

definition Push ::
  "'w reg_env \<Rightarrow> 'w Client \<Rightarrow> string \<Rightarrow> 'c Blob \<Rightarrow> (pushConfig \<Rightarrow> pushConfig) list \<Rightarrow> 'w \<Rightarrow> err option \<times> 'w" where
  "Push E c ref b opts w =
     (let cfg = fold (\<lambda>opt cfg. opt cfg) opts \<lparr>pu_tags = [], pu_annotations = []\<rparr>
      in case parseClientRef E ref of
           Inl err \<Rightarrow> (Some err, w)
         | Inr parsedRef \<Rightarrow>
             (let tag = cr_reference parsedRef
              in if tag = [] \<or> isDigest tag then (Some no_tag, w)
                 else case dataDescriptor E b of
                   Inl err \<Rightarrow> (Some err, w)
                 | Inr dataDesc \<Rightarrow>
                     (case pushEmptyConfig E c ref w of
                        (Inl err, w) \<Rightarrow> (Some (Wrap ''push config'' err), w)
                      | (Inr configDesc, w) \<Rightarrow>
                          (let indexDesc = push_index E b
                           in case oci_PushBlob (cl_oci c) ref indexDesc (bytes_NewReader (Blob_IndexData b)) w of
                                (Some pushErr, w) \<Rightarrow> (Some (Wrap ''push index blob'' (mapOCIError pushErr)), w)
                              | (None, w) \<Rightarrow>
                                  (case oci_PushBlob (cl_oci c) ref dataDesc (Blob_Stream b) w of
                                     (Some pushErr, w) \<Rightarrow> (Some (Wrap ''push data blob'' (mapOCIError pushErr)), w)
                                   | (None, w) \<Rightarrow>
                                       (case oci_PushManifest (cl_oci c) ref tag
                                               (buildManifest E configDesc indexDesc dataDesc (pu_annotations cfg)) w of
                                          (Inl err, w) \<Rightarrow> (Some (Wrap ''push manifest'' (mapOCIError err)), w)
                                        | (Inr manifestDesc, w) \<Rightarrow> push_tags c ref manifestDesc (pu_tags cfg) w))))))"

definition Client_Tag :: "'w reg_env \<Rightarrow> 'w Client \<Rightarrow> string \<Rightarrow> string \<Rightarrow> 'w \<Rightarrow> err option \<times> 'w" where
  "Client_Tag E c ref dgst w =
     (case parseClientRef E ref of
        Inl err \<Rightarrow> (Some err, w)
      | Inr parsedRef \<Rightarrow>
          (let tag = cr_reference parsedRef
           in if tag = [] \<or> isDigest tag then (Some no_tag, w)
              else case oci_Resolve (cl_oci c) ref dgst w of
                (Inl err, w) \<Rightarrow> (Some (mapOCIError err), w)
              | (Inr desc, w) \<Rightarrow>
                  (case oci_Tag (cl_oci c) ref desc tag w of (x, w) \<Rightarrow> (map_option mapOCIError x, w))))"

subsection \<open>Sign\<close>

text \<open>\<^verbatim>\<open>Sign\<close> from the push of the signature on.\<close>

definition push_signature ::
  "'w reg_env \<Rightarrow> 'w Client \<Rightarrow> string \<Rightarrow> Descriptor \<Rightarrow> bytes \<Rightarrow> bytes \<Rightarrow> string \<Rightarrow> 'w \<Rightarrow> string res \<times> 'w" where
  "push_signature E c ref desc raw sigData sigMediaType w =
     (let sigDesc = \<lparr>d_MediaType = sigMediaType, d_Digest = from_bytes E sigData, d_Size = int (length sigData)\<rparr>
      in case oci_PushBlob (cl_oci c) ref sigDesc (bytes_NewReader sigData) w of
           (Some pushErr, w) \<Rightarrow> (Inl (Wrap ''push signature blob'' (mapOCIError pushErr)), w)
         | (None, w) \<Rightarrow>
             (case pushEmptyConfig E c ref w of
                (Inl err, w) \<Rightarrow> (Inl (Wrap ''push config'' err), w)
              | (Inr configDesc, w) \<Rightarrow>
                  (let subject = \<lparr>d_MediaType = MediaTypeImageManifest, d_Digest = d_Digest desc, d_Size = int (length raw)\<rparr>;
                       referrerManifest =
                         \<lparr>m_SchemaVersion = 2, m_MediaType = MediaTypeImageManifest, m_ArtifactType = sigMediaType,
                          m_Config = configDesc, m_Layers = [sigDesc], m_Subject = Some subject, m_Annotations = []\<rparr>
                   in case oci_PushManifestByDigest (cl_oci c) ref referrerManifest w of
                        (Inl err, w) \<Rightarrow> (Inl (Wrap ''push referrer manifest'' (mapOCIError err)), w)
                      | (Inr referrerDesc, w) \<Rightarrow> (Inr (d_Digest referrerDesc), w))))"

definition Sign ::
  "'w reg_env \<Rightarrow> 'w Client \<Rightarrow> string \<Rightarrow> (bytes \<Rightarrow> 'w \<Rightarrow> (bytes \<times> string) res \<times> 'w) \<Rightarrow> 'w \<Rightarrow> string res \<times> 'w" where
  "Sign E c ref SignManifest w =
     (case parseClientRef E ref of
        Inl err \<Rightarrow> (Inl err, w)
      | Inr parsedRef \<Rightarrow>
          if cr_reference parsedRef = [] then (Inl no_reference, w)
          else case resolveDigest c ref (cr_reference parsedRef) False w of
            (Inl err, w) \<Rightarrow> (Inl (Wrap ''resolve manifest'' err), w)
          | (Inr digestStr, w) \<Rightarrow>
              (case descriptorFromDigest E digestStr of
                 Inl err \<Rightarrow> (Inl err, w)
               | Inr desc \<Rightarrow>
                   (case oci_FetchManifest (cl_oci c) ref desc w of
                      (Inl err, w) \<Rightarrow> (Inl (Wrap ''fetch manifest'' (mapOCIError err)), w)
                    | (Inr (m, raw), w) \<Rightarrow>
                        (case SignManifest raw w of
                           (Inl err, w) \<Rightarrow> (Inl (Wrap ''sign manifest'' err), w)
                         | (Inr (sigData, sigMediaType), w) \<Rightarrow> push_signature E c ref desc raw sigData sigMediaType w))))"

section \<open>Manifests\<close>

lemma scan_layers_found:
  "scan_layers ls i d = Inr (i', d') \<Longrightarrow>
   filter (\<lambda>l. d_MediaType l = MediaTypeIndex) ls = (if i = None then (case i' of None \<Rightarrow> [] | Some x \<Rightarrow> [x]) else []) \<and>
   filter (\<lambda>l. d_MediaType l = MediaTypeData) ls = (if d = None then (case d' of None \<Rightarrow> [] | Some x \<Rightarrow> [x]) else []) \<and>
   (i \<noteq> None \<longrightarrow> i' = i) \<and> (d \<noteq> None \<longrightarrow> d' = d)"
proof (induction ls i d rule: scan_layers.induct)
  case (2 layer layers indexDesc dataDesc)
  then show ?case
    by (cases "d_MediaType layer = MediaTypeIndex"; cases "d_MediaType layer = MediaTypeData")
      (auto split: if_splits option.splits)
qed (auto split: option.splits)

text \<open>The two layers of a manifest that is accepted.\<close>

definition archive_layers :: "Descriptor list \<Rightarrow> Descriptor \<Rightarrow> Descriptor \<Rightarrow> bool" where
  "archive_layers ls i d \<longleftrightarrow>
     (ls = [i, d] \<or> ls = [d, i]) \<and> d_MediaType i = MediaTypeIndex \<and> d_MediaType d = MediaTypeData"

lemma two_layers:
  assumes "filter (\<lambda>l. d_MediaType l = MediaTypeIndex) ls = [i]" "filter (\<lambda>l. d_MediaType l = MediaTypeData) ls = [d]" "length ls = 2"
  shows "archive_layers ls i d"
proof -
  obtain x y where ls: "ls = [x, y]" using assms(3) by (metis One_nat_def Suc_1 length_0_conv length_Suc_conv)
  with assms(1,2) show ?thesis by (auto simp: archive_layers_def split: if_splits)
qed

lemma parseBlobManifest_Inr:
  "parseBlobManifest E m dgst = Inr bm \<longleftrightarrow>
   m_MediaType m = MediaTypeImageManifest \<and> m_ArtifactType m = ArtifactType \<and>
   (\<exists>i d. archive_layers (m_Layers m) i d \<and>
      bm = \<lparr>bm_raw = m, bm_digest = dgst, bm_indexDesc = i, bm_dataDesc = d,
            bm_created = (case map_of (m_Annotations m) AnnotationCreated of None \<Rightarrow> None | Some ts \<Rightarrow> re_parseTime E ts)\<rparr>)"
  (is "?l \<longleftrightarrow> ?r")
proof
  assume l: ?l
  then obtain x y where f: "scan_layers (m_Layers m) None None = Inr (x, y)"
    and rest: "m_MediaType m = MediaTypeImageManifest" "m_ArtifactType m = ArtifactType"
    by (auto simp: parseBlobManifest_def res_simps split: if_splits)
  from l f obtain i d where s: "scan_layers (m_Layers m) None None = Inr (Some i, Some d)" "length (m_Layers m) = 2"
    and bm: "bm = \<lparr>bm_raw = m, bm_digest = dgst, bm_indexDesc = i, bm_dataDesc = d,
            bm_created = (case map_of (m_Annotations m) AnnotationCreated of None \<Rightarrow> None | Some ts \<Rightarrow> re_parseTime E ts)\<rparr>"
    by (cases x; cases y) (simp_all add: parseBlobManifest_def rest Let_def split: if_splits)
  from scan_layers_found [OF s(1)] two_layers [OF _ _ s(2), of i d] rest bm show ?r by auto
next
  assume ?r
  then show ?l by (auto simp: parseBlobManifest_def archive_layers_def)
qed

lemma buildManifest_sel [simp]:
  "m_MediaType (buildManifest E cfg i d anns) = MediaTypeImageManifest"
  "m_ArtifactType (buildManifest E cfg i d anns) = ArtifactType"
  "m_Layers (buildManifest E cfg i d anns) = [i, d]"
  by (simp_all add: buildManifest_def Let_def)

lemma parse_buildManifest:
  assumes "d_MediaType i = MediaTypeIndex" "d_MediaType d = MediaTypeData"
  shows "\<exists>bm. parseBlobManifest E (buildManifest E cfg i d anns) dgst = Inr bm \<and> bm_indexDesc bm = i \<and> bm_dataDesc bm = d \<and>
    bm_digest bm = dgst \<and> bm_raw bm = buildManifest E cfg i d anns"
  using assms by (simp add: parseBlobManifest_def)

section \<open>Fetch\<close>

lemma run_policies_ok:
  "run_policies ps req w = (None, w') \<longleftrightarrow> (\<exists>ws. length ws = length ps + 1 \<and> ws ! 0 = w \<and> ws ! length ps = w' \<and>
     (\<forall>i<length ps. (ps ! i) req (ws ! i) = (None, ws ! (i + 1))))"
proof (induction ps arbitrary: w)
  case Nil
  show ?case by (auto intro: exI [of _ "[w]"])
next
  case (Cons p ps)
  show ?case
  proof
    assume a: "run_policies (p # ps) req w = (None, w')"
    then obtain w1 where p: "p req w = (None, w1)" "run_policies ps req w1 = (None, w')"
      by (auto split: prod.splits option.splits)
    with Cons.IH obtain ws where ws: "length ws = length ps + 1" "ws ! 0 = w1" "ws ! length ps = w'"
      "\<forall>i<length ps. (ps ! i) req (ws ! i) = (None, ws ! (i + 1))" by blast
    with p(1) have "\<forall>i<length (p # ps). ((p # ps) ! i) req ((w # ws) ! i) = (None, (w # ws) ! (i + 1))"
      by (auto simp: nth_Cons split: nat.splits)
    with ws show "\<exists>ws. length ws = length (p # ps) + 1 \<and> ws ! 0 = w \<and> ws ! length (p # ps) = w' \<and>
        (\<forall>i<length (p # ps). ((p # ps) ! i) req (ws ! i) = (None, ws ! (i + 1)))"
      by (intro exI [of _ "w # ws"]) simp
  next
    assume "\<exists>ws. length ws = length (p # ps) + 1 \<and> ws ! 0 = w \<and> ws ! length (p # ps) = w' \<and>
        (\<forall>i<length (p # ps). ((p # ps) ! i) req (ws ! i) = (None, ws ! (i + 1)))"
    then obtain ws where ws: "length ws = length (p # ps) + 1" "ws ! 0 = w" "ws ! length (p # ps) = w'"
      "\<forall>i<length (p # ps). ((p # ps) ! i) req (ws ! i) = (None, ws ! (i + 1))" by blast
    from ws(4) [rule_format, of 0] ws(2) have p: "p req w = (None, ws ! 1)" by simp
    have "run_policies ps req (ws ! 1) = (None, w')"
    proof (subst Cons.IH, intro exI [of _ "tl ws"] conjI allI impI)
      fix i assume "i < length ps"
      with ws(4) [rule_format, of "Suc i"] ws(1) show "(ps ! i) req (tl ws ! i) = (None, tl ws ! (i + 1))"
        by (simp add: nth_tl)
    qed (use ws in \<open>simp_all add: nth_tl\<close>)
    with p show "run_policies (p # ps) req w = (None, w')" by simp
  qed
qed

lemma evaluatePolicies_accepts:
  assumes "evaluatePolicies E c ref dgst bm raw w = (None, w')" "policy \<in> set (cl_policies c)"
  shows "\<exists>w1 w2. policy (policy_request c ref dgst bm raw) w1 = (None, w2)"
proof -
  have "run_policies (cl_policies c) (policy_request c ref dgst bm raw) w = (None, w')"
    using assms by (auto simp: evaluatePolicies_def split: if_splits option.splits)
  with assms(2) show ?thesis unfolding run_policies_ok in_set_conv_nth by metis
qed

lemma parseBlobManifest_indexed:
  "parseBlobManifest E m dgst = Inr bm \<Longrightarrow> m_MediaType m = MediaTypeImageManifest \<and> m_ArtifactType m = ArtifactType \<and>
   archive_layers (m_Layers m) (bm_indexDesc bm) (bm_dataDesc bm)"
  by (auto simp: parseBlobManifest_Inr)

lemma fetch_opts_skip [simp]: "Fetch E c ref (fetch_opts b) w = fetch_with E c ref b w"
  by (simp add: Fetch_def fetch_opts_def WithSkipCache_def)

lemma fetch_with_Inr:
  assumes "fetch_with E c ref skip w = (Inr bm, w')"
  obtains r w1 w2 raw fromCache w3 where "parseClientRef E ref = Inr r" "cr_reference r \<noteq> []"
    "resolveDigest c ref (cr_reference r) skip w = (Inr (bm_digest bm), w1)"
    "fetchManifestByDigest E c ref (bm_digest bm) skip w1 = (Inr (bm, raw, fromCache), w2)"
    "evaluatePolicies E c ref (bm_digest bm) bm raw w2 = (None, w3)"
proof -
  obtain r d w1 where r: "parseClientRef E ref = Inr r" "cr_reference r \<noteq> []"
    "resolveDigest c ref (cr_reference r) skip w = (Inr d, w1)"
    using assms by (auto simp: fetch_with_def split: sum.splits if_splits prod.splits)
  obtain raw fc w2 bm' where f: "fetchManifestByDigest E c ref d skip w1 = (Inr (bm', raw, fc), w2)"
    using assms r by (auto simp: fetch_with_def split: sum.splits prod.splits)
  have bm: "bm' = bm" "\<exists>w3. evaluatePolicies E c ref d bm raw w2 = (None, w3)"
    using assms r f by (auto simp: fetch_with_def split: prod.splits option.splits if_splits)
  have "bm_digest bm' = d"
    using f by (auto simp: fetchManifestByDigest_def fetch_network_def res_simps parseBlobManifest_Inr
        split: prod.splits option.splits sum.splits)
  with that r f bm show ?thesis by auto
qed

section \<open>Verified manifests\<close>

text \<open>
  What the client relies on: the manifests that the OCI client and the manifest cache hand out are decoded from bytes with
  the digest that was asked for.
\<close>

locale verified_manifests =
  fixes D :: digest_lib and decode :: "bytes \<Rightarrow> Manifest option" and oci :: "'w oci_client" and mcache :: "'w manifest_cache option"
  assumes fetch_verified: "oci_FetchManifest oci ref desc w = (Inr (m, raw), w') \<Longrightarrow>
      dl_FromBytes D (dl_Algorithm D (d_Digest desc)) raw = d_Digest desc \<and> decode raw = Some m"
    and cache_verified: "mcache = Some mc \<Longrightarrow> mc_GetManifest mc dgst w = (Some (m, raw), w') \<Longrightarrow>
      dl_FromBytes D (dl_Algorithm D dgst) raw = dgst \<and> decode raw = Some m"
begin

lemma byDigest_verified:
  assumes "fetchManifestByDigest E c ref dgst skip w = (Inr (bm, raw, fc), w')" "cl_oci c = oci" "cl_manifestCache c = mcache"
  shows "dl_FromBytes D (dl_Algorithm D dgst) raw = dgst \<and> decode raw = Some (bm_raw bm) \<and>
    parseBlobManifest E (bm_raw bm) dgst = Inr bm"
proof -
  obtain x w1 where x: "(case cl_manifestCache c of Some mc \<Rightarrow> if skip then (None, w) else mc_GetManifest mc dgst w
      | None \<Rightarrow> (None, w)) = (x, w1)" by (metis prod.exhaust)
  show ?thesis
  proof (cases x)
    case (Some y)
    obtain m r where y: "y = (m, r)" by fastforce
    have "raw = r" "parseBlobManifest E m dgst = Inr bm"
      using assms(1) x Some y by (auto simp: fetchManifestByDigest_def res_simps)
    then show ?thesis using x Some y assms(3) cache_verified [of _ dgst w m r w1]
      by (auto simp: parseBlobManifest_Inr split: option.splits if_splits)
  next
    case None
    then obtain desc m where "descriptorFromDigest E dgst = Inr desc" "oci_FetchManifest oci ref desc w1 = (Inr (m, raw), w')"
      "parseBlobManifest E m dgst = Inr bm"
      using assms(1,2) x by (auto simp: fetchManifestByDigest_def fetch_network_def res_simps split: sum.splits prod.splits)
    then show ?thesis using fetch_verified [of ref desc w1 m raw w']
      by (auto simp: descriptorFromDigest_def parseBlobManifest_Inr split: option.splits)
  qed
qed

lemma Fetch_verified:
  assumes "fetch_with E c ref skip w = (Inr bm, w')" "cl_oci c = oci" "cl_manifestCache c = mcache"
  shows "\<exists>raw w2 w3. dl_FromBytes D (dl_Algorithm D (bm_digest bm)) raw = bm_digest bm \<and> decode raw = Some (bm_raw bm) \<and>
    parseBlobManifest E (bm_raw bm) (bm_digest bm) = Inr bm \<and> evaluatePolicies E c ref (bm_digest bm) bm raw w2 = (None, w3)"
  using fetch_with_Inr [OF assms(1)] byDigest_verified [OF _ assms(2,3)] by metis

end

section \<open>The index blob\<close>

lemma verifyIndexDigest_None:
  "verifyIndexDigest E d desc = None \<longleftrightarrow> dl_Validate (re_digest E) (d_Digest desc) = None \<and>
   dl_FromBytes (re_digest E) (dl_Algorithm (re_digest E) (d_Digest desc)) d = d_Digest desc"
  by (auto simp: verifyIndexDigest_def Let_def)

lemma readIndexData_limit: "readIndexData r n m = Inr d \<Longrightarrow> 0 < m \<Longrightarrow> int (length d) \<le> m"
  by (auto simp: readIndexData_def Let_def res_simps split: if_splits)

lemma fetchIndexBlob_Inr:
  assumes "fetchIndexBlob E c ref bm skip m w = (Inr d, w')"
  shows "dl_FromBytes (re_digest E) (dl_Algorithm (re_digest E) (d_Digest (bm_indexDesc bm))) d = d_Digest (bm_indexDesc bm) \<and>
    (0 < m \<longrightarrow> int (length d) \<le> m)"
proof -
  let ?desc = "bm_indexDesc bm"
  obtain x w1 where t: "tryIndexCache E c (d_Digest ?desc) ?desc skip m w = (x, w1)" by (metis prod.exhaust)
  show ?thesis
  proof (cases x)
    case (Some y)
    then have "y = d" using assms t by (auto simp: fetchIndexBlob_def Let_def split: if_splits)
    with Some t show ?thesis
      by (auto simp: tryIndexCache_def validateCachedIndex_def split: option.splits if_splits prod.splits)
  next
    case None
    obtain r w2 where r: "readIndexData r (d_Size ?desc) m = Inr d" "verifyIndexDigest E d ?desc = None"
      using assms t None by (auto simp: fetchIndexBlob_def Let_def split: if_splits prod.splits sum.splits option.splits)
    then show ?thesis using readIndexData_limit by (auto simp: verifyIndexDigest_None)
  qed
qed

end
