(* ===== verification/AuthCache.thy ===== *)
theory AuthCache
  imports Prelude "HOL-Library.AList"
begin

text \<open>
  \<^verbatim>\<open>registry/oras/auth_cache.go\<close>: the cache of authorization headers, with least recently used eviction. The code keeps a map from
  hosts to elements of a doubly linked list; an element is an address of the model and \<open>ac_elems\<close> the values at the addresses, so
  that the sharing between the map and the list is visible. The abstract cache is the list of headers, most recently used first.
  The mutex makes each method one step; the time is an argument.
\<close>

section \<open>Definitions\<close>

record cachedAuthHeader =
  ah_host :: string
  ah_value :: string
  ah_expires :: int

record authHeaderCache =
  ac_ttl :: i64
  ac_maxSize :: int
  ac_entries :: "(string \<times> nat) list"
  ac_order :: "nat list"
  ac_elems :: "nat \<Rightarrow> cachedAuthHeader"
  ac_next :: nat

definition defaultAuthHeaderCacheMaxSize :: int where
  "defaultAuthHeaderCacheMaxSize = 100"

definition newAuthHeaderCacheWithSize :: "i64 \<Rightarrow> int \<Rightarrow> authHeaderCache option" where
  "newAuthHeaderCacheWithSize ttl maxSize =
     (if ttl \<le> 0 then None
      else Some \<lparr>ac_ttl = ttl, ac_maxSize = (if maxSize \<le> 0 then defaultAuthHeaderCacheMaxSize else maxSize),
                 ac_entries = [], ac_order = [], ac_elems = (\<lambda>_. \<lparr>ah_host = [], ah_value = [], ah_expires = 0\<rparr>), ac_next = 0\<rparr>)"

definition newAuthHeaderCache :: "i64 \<Rightarrow> authHeaderCache option" where
  "newAuthHeaderCache ttl = newAuthHeaderCacheWithSize ttl defaultAuthHeaderCacheMaxSize"

definition removeLocked :: "nat \<Rightarrow> string \<Rightarrow> authHeaderCache \<Rightarrow> authHeaderCache" where
  "removeLocked elem host c = c\<lparr>ac_order := remove1 elem (ac_order c), ac_entries := AList.delete host (ac_entries c)\<rparr>"

definition moveToFront :: "nat \<Rightarrow> authHeaderCache \<Rightarrow> authHeaderCache" where
  "moveToFront elem c = c\<lparr>ac_order := elem # remove1 elem (ac_order c)\<rparr>"

definition authCache_get :: "string \<Rightarrow> int \<Rightarrow> authHeaderCache \<Rightarrow> string option \<times> authHeaderCache" where
  "authCache_get host now c =
     (case map_of (ac_entries c) host of
        None \<Rightarrow> (None, c)
      | Some elem \<Rightarrow>
          let entry = ac_elems c elem
          in if now > ah_expires entry then (None, removeLocked elem host c)
             else (Some (ah_value entry), moveToFront elem c))"

text \<open>The loop that evicts the oldest entries.\<close>

function evict :: "authHeaderCache \<Rightarrow> authHeaderCache" where
  "evict c =
     (if int (length (ac_order c)) \<ge> ac_maxSize c then
        if ac_order c = [] then c
        else
          let oldest = last (ac_order c)
          in evict (removeLocked oldest (ah_host (ac_elems c oldest)) c)
      else c)"
  by pat_completeness auto
termination
proof (relation "measure (\<lambda>c. length (ac_order c))")
  show "wf (measure (\<lambda>c. length (ac_order c)))" by simp
  fix c :: authHeaderCache and x
  assume "ac_order c \<noteq> []" "x = last (ac_order c)"
  then have "0 < length (ac_order c)" "x \<in> set (ac_order c)" by simp_all
  then show "(removeLocked x (ah_host (ac_elems c x)) c, c) \<in> measure (\<lambda>c. length (ac_order c))"
    by (simp add: removeLocked_def length_remove1)
qed

declare evict.simps [simp del]

definition authCache_set :: "string \<Rightarrow> string \<Rightarrow> int \<Rightarrow> authHeaderCache \<Rightarrow> authHeaderCache" where
  "authCache_set host val now c =
     (case map_of (ac_entries c) host of
        Some elem \<Rightarrow>
          moveToFront elem (c\<lparr>ac_elems := (ac_elems c)(elem := (ac_elems c elem)\<lparr>ah_value := val, ah_expires := now + ac_ttl c\<rparr>)\<rparr>)
      | None \<Rightarrow>
          let c = evict c; elem = ac_next c
          in c\<lparr>ac_elems := (ac_elems c)(elem := \<lparr>ah_host = host, ah_value = val, ah_expires = now + ac_ttl c\<rparr>),
               ac_order := elem # ac_order c, ac_entries := AList.update host elem (ac_entries c), ac_next := elem + 1\<rparr>)"

definition authCache_invalidate :: "string \<Rightarrow> authHeaderCache \<Rightarrow> authHeaderCache" where
  "authCache_invalidate host c =
     (case map_of (ac_entries c) host of None \<Rightarrow> c | Some elem \<Rightarrow> removeLocked elem host c)"

section \<open>The abstract cache\<close>

definition headers :: "authHeaderCache \<Rightarrow> cachedAuthHeader list" where
  "headers c = map (ac_elems c) (ac_order c)"

definition lru_find :: "string \<Rightarrow> cachedAuthHeader list \<Rightarrow> cachedAuthHeader option" where
  "lru_find host l = find (\<lambda>e. ah_host e = host) l"

definition lru_without :: "string \<Rightarrow> cachedAuthHeader list \<Rightarrow> cachedAuthHeader list" where
  "lru_without host l = filter (\<lambda>e. ah_host e \<noteq> host) l"

definition lru_get :: "string \<Rightarrow> int \<Rightarrow> cachedAuthHeader list \<Rightarrow> string option \<times> cachedAuthHeader list" where
  "lru_get host now l =
     (case lru_find host l of
        None \<Rightarrow> (None, l)
      | Some e \<Rightarrow> if now > ah_expires e then (None, lru_without host l) else (Some (ah_value e), e # lru_without host l))"

definition lru_set :: "int \<Rightarrow> cachedAuthHeader \<Rightarrow> cachedAuthHeader list \<Rightarrow> cachedAuthHeader list" where
  "lru_set maxSize e l =
     e # (if lru_find (ah_host e) l = None then take (nat (maxSize - 1)) l else lru_without (ah_host e) l)"

section \<open>Invariant\<close>

text \<open>The map holds just the elements of the list, under the hosts of their values.\<close>

definition cache_inv :: "authHeaderCache \<Rightarrow> bool" where
  "cache_inv c \<longleftrightarrow>
     0 < ac_maxSize c \<and> int (length (ac_order c)) \<le> ac_maxSize c \<and> distinct (ac_order c) \<and> (\<forall>e\<in>set (ac_order c). e < ac_next c) \<and>
     (\<forall>host e. map_of (ac_entries c) host = Some e \<longleftrightarrow> e \<in> set (ac_order c) \<and> ah_host (ac_elems c e) = host)"

lemma inv_map: "cache_inv c \<Longrightarrow> map_of (ac_entries c) host = Some e \<longleftrightarrow> e \<in> set (ac_order c) \<and> ah_host (ac_elems c e) = host"
  by (simp add: cache_inv_def)

lemma inv_inj:
  assumes "cache_inv c" "a \<in> set (ac_order c)" "b \<in> set (ac_order c)" "ah_host (ac_elems c a) = ah_host (ac_elems c b)"
  shows "a = b"
  using assms inv_map [OF assms(1)] by (metis option.inject)

lemma inv_distinct:
  assumes "cache_inv c"
  shows "distinct (map ah_host (headers c))"
proof -
  have "inj_on (\<lambda>e. ah_host (ac_elems c e)) (set (ac_order c))" using inv_inj [OF assms] by (meson inj_onI)
  then show ?thesis using assms by (simp add: headers_def distinct_map cache_inv_def comp_def)
qed

lemma headers_find:
  assumes "cache_inv c"
  shows "lru_find host (headers c) = map_option (ac_elems c) (map_of (ac_entries c) host)"
proof (cases "lru_find host (headers c)")
  case None
  then have "\<forall>e\<in>set (ac_order c). ah_host (ac_elems c e) \<noteq> host" by (auto simp: lru_find_def headers_def find_None_iff)
  with inv_map [OF assms, of host] have "map_of (ac_entries c) host = None" by (metis not_None_eq)
  with None show ?thesis by simp
next
  case (Some x)
  then have "x \<in> set (headers c)" "ah_host x = host" unfolding lru_find_def by (auto simp: find_Some_iff)
  then obtain a where "a \<in> set (ac_order c)" "x = ac_elems c a" "ah_host (ac_elems c a) = host" by (auto simp: headers_def)
  with inv_map [OF assms, of host a] Some show ?thesis by simp
qed

lemma headers_without:
  assumes "cache_inv c" "e \<in> set (ac_order c)"
  shows "lru_without (ah_host (ac_elems c e)) (headers c) = map (ac_elems c) (remove1 e (ac_order c))"
proof -
  have "filter (\<lambda>a. ah_host (ac_elems c a) \<noteq> ah_host (ac_elems c e)) (ac_order c) = filter (\<lambda>a. a \<noteq> e) (ac_order c)"
    using inv_inj [OF assms(1) _ assms(2)] by (intro filter_cong) auto
  moreover have "remove1 e (ac_order c) = filter (\<lambda>a. a \<noteq> e) (ac_order c)"
    using assms(1) by (simp add: cache_inv_def distinct_remove1_removeAll removeAll_filter_not_eq eq_commute)
  ultimately show ?thesis by (simp add: lru_without_def headers_def filter_map comp_def)
qed

section \<open>The operations refine the abstract ones\<close>

lemma new_inv: "newAuthHeaderCacheWithSize ttl n = Some c \<Longrightarrow> cache_inv c \<and> headers c = []"
  by (auto simp: newAuthHeaderCacheWithSize_def cache_inv_def headers_def defaultAuthHeaderCacheMaxSize_def split: if_splits)

lemma removeLocked_refines:
  assumes "cache_inv c" "e \<in> set (ac_order c)"
  defines "h \<equiv> ah_host (ac_elems c e)"
  shows "cache_inv (removeLocked e h c) \<and> headers (removeLocked e h c) = lru_without h (headers c)"
proof
  have "map_of (AList.delete h (ac_entries c)) host = Some a \<longleftrightarrow>
      a \<in> set (remove1 e (ac_order c)) \<and> ah_host (ac_elems c a) = host" for host a
    using inv_map [OF assms(1)] inv_inj [OF assms(1) _ assms(2)] assms(1)
    by (auto simp: delete_conv' h_def cache_inv_def)
  then show "cache_inv (removeLocked e h c)"
    using assms(1) by (auto simp: cache_inv_def removeLocked_def length_remove1 dest: notin_set_remove1)
  show "headers (removeLocked e h c) = lru_without h (headers c)"
    using headers_without [OF assms(1,2)] by (simp add: headers_def removeLocked_def h_def)
qed

lemma moveToFront_refines:
  assumes "cache_inv c" "e \<in> set (ac_order c)"
  shows "cache_inv (moveToFront e c) \<and> headers (moveToFront e c) = ac_elems c e # lru_without (ah_host (ac_elems c e)) (headers c)"
proof
  have "set (e # remove1 e (ac_order c)) = set (ac_order c)" "length (e # remove1 e (ac_order c)) = length (ac_order c)"
    using assms by (auto simp: cache_inv_def length_remove1 dest: length_pos_if_in_set)
  moreover have "distinct (e # remove1 e (ac_order c))" using assms(1) by (simp add: cache_inv_def)
  ultimately show "cache_inv (moveToFront e c)" using assms(1) unfolding cache_inv_def moveToFront_def by simp
  show "headers (moveToFront e c) = ac_elems c e # lru_without (ah_host (ac_elems c e)) (headers c)"
    using headers_without [OF assms] by (simp add: headers_def moveToFront_def)
qed

lemma remove1_last: "distinct xs \<Longrightarrow> xs \<noteq> [] \<Longrightarrow> remove1 (last xs) xs = butlast xs"
  by (induction xs) auto

lemma evict_refines:
  assumes "cache_inv c"
  shows "cache_inv (evict c) \<and> headers (evict c) = take (nat (ac_maxSize c - 1)) (headers c) \<and>
    int (length (ac_order (evict c))) < ac_maxSize c \<and> ac_maxSize (evict c) = ac_maxSize c \<and> ac_ttl (evict c) = ac_ttl c \<and>
    ac_next (evict c) = ac_next c \<and> set (ac_order (evict c)) \<subseteq> set (ac_order c)"
proof (cases "int (length (ac_order c)) < ac_maxSize c")
  case True
  then show ?thesis using assms by (simp add: evict.simps [of c] headers_def)
next
  case False
  then have len: "int (length (ac_order c)) = ac_maxSize c" "ac_order c \<noteq> []" using assms by (auto simp: cache_inv_def)
  let ?e = "last (ac_order c)"
  let ?c = "removeLocked ?e (ah_host (ac_elems c ?e)) c"
  have e: "?e \<in> set (ac_order c)" using len(2) by simp
  have "length (ac_order ?c) < length (ac_order c)" using e len(2) by (simp add: removeLocked_def length_remove1)
  then have short: "int (length (ac_order ?c)) < ac_maxSize c" using len(1) by linarith
  have same: "ac_maxSize ?c = ac_maxSize c" by (simp add: removeLocked_def)
  from short same have ev: "evict c = ?c" using len by (simp add: evict.simps [of c] evict.simps [of ?c] Let_def)
  have "headers ?c = map (ac_elems c) (butlast (ac_order c))"
    using remove1_last [of "ac_order c"] assms len(2) by (auto simp: headers_def removeLocked_def cache_inv_def)
  also have "\<dots> = take (nat (ac_maxSize c - 1)) (headers c)"
  proof -
    have "nat (ac_maxSize c - 1) = length (ac_order c) - 1" using len(1) by linarith
    then show ?thesis by (simp add: headers_def butlast_conv_take take_map)
  qed
  finally show ?thesis using ev short removeLocked_refines [OF assms e]
    using set_remove1_subset [of ?e "ac_order c"] by (auto simp: removeLocked_def)
qed

lemma get_refines:
  assumes "cache_inv c" "authCache_get host now c = (x, c')"
  shows "cache_inv c' \<and> lru_get host now (headers c) = (x, headers c')"
proof (cases "map_of (ac_entries c) host")
  case None
  then show ?thesis using assms headers_find [OF assms(1), of host] by (auto simp: authCache_get_def lru_get_def)
next
  case (Some e)
  then have e: "e \<in> set (ac_order c)" "ah_host (ac_elems c e) = host" using inv_map [OF assms(1)] by auto
  from removeLocked_refines [OF assms(1) e(1)] moveToFront_refines [OF assms(1) e(1)] Some e assms(2)
    headers_find [OF assms(1), of host] show ?thesis
    by (auto simp: authCache_get_def lru_get_def Let_def split: if_splits)
qed

lemma invalidate_refines:
  assumes "cache_inv c"
  shows "cache_inv (authCache_invalidate host c) \<and> headers (authCache_invalidate host c) = lru_without host (headers c)"
proof (cases "map_of (ac_entries c) host")
  case None
  then have "\<forall>x\<in>set (headers c). ah_host x \<noteq> host"
    using headers_find [OF assms, of host] by (auto simp: lru_find_def find_None_iff)
  then have "lru_without host (headers c) = headers c" by (simp add: lru_without_def)
  with None assms show ?thesis by (simp add: authCache_invalidate_def)
next
  case (Some e)
  then have "e \<in> set (ac_order c)" "ah_host (ac_elems c e) = host" using inv_map [OF assms] by auto
  with removeLocked_refines [OF assms, of e] Some show ?thesis by (simp add: authCache_invalidate_def)
qed

lemma update_refines:
  assumes "cache_inv c" "e \<in> set (ac_order c)" "ah_host y = ah_host (ac_elems c e)"
  defines "c1 \<equiv> c\<lparr>ac_elems := (ac_elems c)(e := y)\<rparr>"
  shows "cache_inv (moveToFront e c1) \<and> headers (moveToFront e c1) = y # lru_without (ah_host y) (headers c)"
proof -
  have i: "cache_inv c1" using assms(1,3) unfolding cache_inv_def c1_def by simp
  have e: "e \<in> set (ac_order c1)" using assms(2) by (simp add: c1_def)
  have "e \<notin> set (remove1 e (ac_order c))" using assms(1) by (simp add: cache_inv_def)
  then have "map (ac_elems c1) (remove1 e (ac_order c1)) = map (ac_elems c) (remove1 e (ac_order c))" by (auto simp: c1_def)
  with headers_without [OF assms(1,2)] headers_without [OF i e] moveToFront_refines [OF i e] assms(3) show ?thesis
    by (simp add: c1_def)
qed

lemma insert_refines:
  assumes "cache_inv c" "int (length (ac_order c)) < ac_maxSize c" "map_of (ac_entries c) (ah_host y) = None"
  defines "c1 \<equiv> c\<lparr>ac_elems := (ac_elems c)(ac_next c := y), ac_order := ac_next c # ac_order c,
      ac_entries := AList.update (ah_host y) (ac_next c) (ac_entries c), ac_next := ac_next c + 1\<rparr>"
  shows "cache_inv c1 \<and> headers c1 = y # headers c"
proof
  have new: "ac_next c \<notin> set (ac_order c)" using assms(1) by (auto simp: cache_inv_def)
  then show "headers c1 = y # headers c" by (auto simp: headers_def c1_def)
  have "\<forall>e\<in>set (ac_order c). ah_host (ac_elems c e) \<noteq> ah_host y"
    using inv_map [OF assms(1)] assms(3) by (metis option.distinct(1))
  then have "map_of (ac_entries c1) host = Some a \<longleftrightarrow> a \<in> set (ac_order c1) \<and> ah_host (ac_elems c1 a) = host" for host a
    using inv_map [OF assms(1)] new by (auto simp: c1_def update_conv')
  moreover have "\<forall>e\<in>set (ac_order c1). e < ac_next c1" using assms(1) by (auto simp: cache_inv_def c1_def)
  ultimately show "cache_inv c1" using assms(1,2) new by (simp add: cache_inv_def c1_def)
qed

lemma set_refines:
  assumes "cache_inv c"
  shows "cache_inv (authCache_set host val now c) \<and>
    headers (authCache_set host val now c) =
      lru_set (ac_maxSize c) \<lparr>ah_host = host, ah_value = val, ah_expires = now + ac_ttl c\<rparr> (headers c)"
proof (cases "map_of (ac_entries c) host")
  case None
  note ev = evict_refines [OF assms]
  have "map_of (ac_entries (evict c)) host = None"
  proof (rule ccontr)
    assume "map_of (ac_entries (evict c)) host \<noteq> None"
    then obtain e where "lru_find host (headers (evict c)) = Some e" using headers_find ev by fastforce
    then have "e \<in> set (headers c)" "ah_host e = host"
      using ev by (auto simp: lru_find_def find_Some_iff dest!: nth_mem dest: in_set_takeD)
    with headers_find [OF assms, of host] None show False by (auto simp: lru_find_def find_None_iff)
  qed
  then show ?thesis
    using insert_refines [of "evict c" "\<lparr>ah_host = host, ah_value = val, ah_expires = now + ac_ttl c\<rparr>"] ev None
      headers_find [OF assms, of host]
    by (simp add: authCache_set_def lru_set_def Let_def)
next
  case (Some e)
  then have e: "e \<in> set (ac_order c)" "ah_host (ac_elems c e) = host" using inv_map [OF assms] by auto
  let ?y = "\<lparr>ah_host = host, ah_value = val, ah_expires = now + ac_ttl c\<rparr>"
  have "(ac_elems c e)\<lparr>ah_value := val, ah_expires := now + ac_ttl c\<rparr> = ?y" using e(2) by (cases "ac_elems c e") simp
  then have "authCache_set host val now c = moveToFront e (c\<lparr>ac_elems := (ac_elems c)(e := ?y)\<rparr>)"
    using Some by (simp add: authCache_set_def)
  with update_refines [OF assms e(1), of ?y] e Some headers_find [OF assms, of host] show ?thesis by (simp add: lru_set_def)
qed

end
