(* ===== verification/OrasClient.thy ===== *)
theory OrasClient
  imports RegistryClient AuthCache
begin

text \<open>
  \<^verbatim>\<open>registry/oras\<close>: the OCI client over the \<^verbatim>\<open>oras-go\<close> library, with its credentials and its cache of authorization headers. The
  library is the argument \<open>R\<close>: a repository with its operations on the state \<open>'n\<close> of the network, the JSON encoding of manifests, the
  errors it reports. The state of the client's calls is the network, the header cache and the time.
\<close>

section \<open>Definitions\<close>

subsection \<open>Credentials\<close>

record Credential =
  cd_Username :: string
  cd_Password :: string
  cd_RefreshToken :: string
  cd_AccessToken :: string

definition EmptyCredential :: Credential where
  "EmptyCredential = \<lparr>cd_Username = [], cd_Password = [], cd_RefreshToken = [], cd_AccessToken = []\<rparr>"

text \<open>A credential store, by its \<^verbatim>\<open>Get\<close>.\<close>

type_synonym cred_store = "string \<Rightarrow> Credential \<times> err option"

definition isEmptyCredential :: "Credential \<Rightarrow> bool" where
  "isEmptyCredential cred \<longleftrightarrow>
     cred = EmptyCredential \<or>
     cd_Username cred = [] \<and> cd_Password cred = [] \<and> cd_AccessToken cred = [] \<and> cd_RefreshToken cred = []"

definition normalizeServerAddress :: "string \<Rightarrow> string" where
  "normalizeServerAddress addr =
     (let addr = trim_prefix addr ''http://''; addr = trim_prefix addr ''https://'' in takeWhile (\<lambda>c. c \<noteq> slash) addr)"

definition extractHost :: "string \<Rightarrow> string" where
  "extractHost hostport =
     (if has_prefix hostport ''['' then
        (case last_index hostport CHR '']'' of Some idx \<Rightarrow> take (idx + 1) hostport | None \<Rightarrow> hostport)
      else
        (case last_index hostport CHR '':'' of Some idx \<Rightarrow> take idx hostport | None \<Rightarrow> hostport))"

definition isDockerHubHost :: "string \<Rightarrow> bool" where
  "isDockerHubHost hostport \<longleftrightarrow> extractHost hostport \<in> set [''docker.io'', ''registry-1.docker.io'', ''index.docker.io'']"

record staticStore =
  ss_registry :: string
  ss_cred :: Credential

definition StaticCredentials :: "string \<Rightarrow> string \<Rightarrow> string \<Rightarrow> staticStore" where
  "StaticCredentials registry username password =
     \<lparr>ss_registry = normalizeServerAddress registry, ss_cred = EmptyCredential\<lparr>cd_Username := username, cd_Password := password\<rparr>\<rparr>"

definition StaticToken :: "string \<Rightarrow> string \<Rightarrow> staticStore" where
  "StaticToken registry token =
     \<lparr>ss_registry = normalizeServerAddress registry, ss_cred = EmptyCredential\<lparr>cd_AccessToken := token\<rparr>\<rparr>"

definition staticStore_Get :: "staticStore \<Rightarrow> cred_store" where
  "staticStore_Get s serverAddress =
     (let server = normalizeServerAddress serverAddress
      in if server = ss_registry s then (ss_cred s, None)
         else if isDockerHubHost server \<and> isDockerHubHost (ss_registry s) then (ss_cred s, None)
         else (EmptyCredential, None))"

definition dockerHubFallbacks :: "string \<Rightarrow> string list" where
  "dockerHubFallbacks serverAddress =
     (if \<not> isDockerHubHost (normalizeServerAddress serverAddress) then []
      else [''https://index.docker.io/v1/'', ''index.docker.io'', ''registry-1.docker.io'', ''docker.io''])"

fun try_fallbacks :: "cred_store \<Rightarrow> string \<Rightarrow> string list \<Rightarrow> Credential option" where
  "try_fallbacks store serverAddress [] = None"
| "try_fallbacks store serverAddress (alt # alts) =
     (if alt = serverAddress then try_fallbacks store serverAddress alts
      else case store alt of
        (fallbackCred, None) \<Rightarrow>
          if \<not> isEmptyCredential fallbackCred then Some fallbackCred else try_fallbacks store serverAddress alts
      | (fallbackCred, Some fallbackErr) \<Rightarrow> try_fallbacks store serverAddress alts)"

definition dockerHubFallbackStore_Get :: "cred_store \<Rightarrow> cred_store" where
  "dockerHubFallbackStore_Get store serverAddress =
     (let (cred, err) = store serverAddress
      in if err = None \<and> \<not> isEmptyCredential cred then (cred, None)
         else case try_fallbacks store serverAddress (dockerHubFallbacks serverAddress) of
           Some fallbackCred \<Rightarrow> (fallbackCred, None)
         | None \<Rightarrow> (cred, err))"

subsection \<open>The client\<close>

record Oras =
  or_plainHTTP :: bool
  or_userAgent :: string
  or_anonymous :: bool
  or_credStore :: "cred_store option"

record repository =
  rp_ref :: string
  rp_PlainHTTP :: bool

record 'n remote_lib =
  rm_NewRepository :: "string \<Rightarrow> err option"
  rm_Push :: "repository \<Rightarrow> Descriptor \<Rightarrow> reader \<Rightarrow> 'n \<Rightarrow> err option \<times> 'n"
  rm_Fetch :: "repository \<Rightarrow> Descriptor \<Rightarrow> 'n \<Rightarrow> reader res \<times> 'n"
  rm_PushReference :: "repository \<Rightarrow> Descriptor \<Rightarrow> reader \<Rightarrow> string \<Rightarrow> 'n \<Rightarrow> err option \<times> 'n"
  rm_FetchReference :: "repository \<Rightarrow> string \<Rightarrow> 'n \<Rightarrow> (Descriptor \<times> reader) res \<times> 'n"
  rm_Resolve :: "repository \<Rightarrow> string \<Rightarrow> 'n \<Rightarrow> Descriptor res \<times> 'n"
  rm_Tag :: "repository \<Rightarrow> Descriptor \<Rightarrow> string \<Rightarrow> 'n \<Rightarrow> err option \<times> 'n"
  rm_Referrers :: "repository \<Rightarrow> Descriptor \<Rightarrow> string \<Rightarrow> 'n \<Rightarrow> Descriptor list res \<times> 'n"
  rm_ParseReference :: "string \<Rightarrow> (string \<times> string \<times> string) option"
  rm_Host :: "string \<Rightarrow> string"
  rm_marshal :: "Manifest \<Rightarrow> bytes res"
  rm_unmarshal :: "bytes \<Rightarrow> Manifest option"
  rm_base64 :: "string \<Rightarrow> string"
  rm_ErrNotFound :: err
  rm_ErrUnsupported :: err
  rm_StatusCode :: "err \<Rightarrow> int option"
  rm_auth_Do :: "string \<times> string \<times> string \<Rightarrow> 'n http_client"

record 'n oras_world =
  ow_cache :: "authHeaderCache option"
  ow_now :: int
  ow_net :: 'n

definition on_net :: "('n \<Rightarrow> 'x \<times> 'n) \<Rightarrow> 'n oras_world \<Rightarrow> 'x \<times> 'n oras_world" where
  "on_net f w = (case f (ow_net w) of (x, n) \<Rightarrow> (x, w\<lparr>ow_net := n\<rparr>))"

text \<open>The sentinel errors of the package that have no counterpart in the client.\<close>

definition Oras_ErrUnauthorized :: err where
  "Oras_ErrUnauthorized = ErrNew ''oci: unauthorized''"

definition Oras_ErrForbidden :: err where
  "Oras_ErrForbidden = ErrNew ''oci: forbidden''"

definition Oras_ErrInvalidReference :: err where
  "Oras_ErrInvalidReference = ErrNew ''oci: invalid reference''"

definition Oras_ErrInvalidDescriptor :: err where
  "Oras_ErrInvalidDescriptor = ErrNew ''oci: invalid descriptor''"

definition Oras_ErrManifestInvalid :: err where
  "Oras_ErrManifestInvalid = ErrNew ''oci: invalid manifest''"

definition Oras_ErrDigestMismatch :: err where
  "Oras_ErrDigestMismatch = ErrNew ''oci: digest mismatch''"

definition Oras_ErrSizeMismatch :: err where
  "Oras_ErrSizeMismatch = ErrNew ''oci: size mismatch''"

definition oras_repository :: "'n remote_lib \<Rightarrow> Oras \<Rightarrow> string \<Rightarrow> repository res" where
  "oras_repository R c ref =
     (case rm_NewRepository R ref of
        Some err \<Rightarrow> Inl (Wrap (''parse reference '' @ ref) err)
      | None \<Rightarrow> Inr \<lparr>rp_ref = ref, rp_PlainHTTP = or_plainHTTP c\<rparr>)"

definition oras_parseRef :: "'n remote_lib \<Rightarrow> string \<Rightarrow> (string \<times> string \<times> string) res" where
  "oras_parseRef R ref =
     (case rm_ParseReference R ref of None \<Rightarrow> Inl (errWith Oras_ErrInvalidReference '': '' []) | Some r \<Rightarrow> Inr r)"

definition validateDescriptor :: "digest_lib \<Rightarrow> Descriptor \<Rightarrow> err option" where
  "validateDescriptor D desc =
     (if d_Size desc < 0 then Some (errWith Oras_ErrInvalidDescriptor '': negative size '' [show_int (d_Size desc)])
      else if d_Digest desc = [] then Some (errWith Oras_ErrInvalidDescriptor '': empty digest'' [])
      else if dl_Validate D (d_Digest desc) \<noteq> None
      then Some (errWith Oras_ErrInvalidDescriptor '': invalid digest '' [d_Digest desc])
      else None)"

definition oras_mapError :: "'n remote_lib \<Rightarrow> err \<Rightarrow> err" where
  "oras_mapError R err =
     (if errors_is err (rm_ErrNotFound R) then errWith Oras_ErrNotFound '': '' []
      else case rm_StatusCode R err of
        Some code \<Rightarrow>
          if code = 404 then errWith Oras_ErrNotFound '': '' []
          else if code = 401 then errWith Oras_ErrUnauthorized '': '' []
          else if code = 403 then errWith Oras_ErrForbidden '': '' []
          else err
      | None \<Rightarrow> err)"

text \<open>A call on the repository of a reference.\<close>

definition with_repo ::
  "'n remote_lib \<Rightarrow> Oras \<Rightarrow> string \<Rightarrow> (repository \<Rightarrow> 'n oras_world \<Rightarrow> 'a res \<times> 'n oras_world) \<Rightarrow> 'n oras_world \<Rightarrow> 'a res \<times> 'n oras_world" where
  "with_repo R c repoRef k w = (case oras_repository R c repoRef of Inl err \<Rightarrow> (Inl err, w) | Inr repo \<Rightarrow> k repo w)"

definition of_err :: "err option \<times> 'w \<Rightarrow> unit res \<times> 'w" where
  "of_err x = (case x of (Some err, w) \<Rightarrow> (Inl err, w) | (None, w) \<Rightarrow> (Inr (), w))"

definition to_err :: "unit res \<times> 'w \<Rightarrow> err option \<times> 'w" where
  "to_err x = (case x of (Inl err, w) \<Rightarrow> (Some err, w) | (Inr u, w) \<Rightarrow> (None, w))"

definition mapped :: "'n remote_lib \<Rightarrow> 'a res \<times> 'w \<Rightarrow> 'a res \<times> 'w" where
  "mapped R x = (mapErr (oras_mapError R) (fst x), snd x)"

definition oras_PushBlob ::
  "'n remote_lib \<Rightarrow> digest_lib \<Rightarrow> Oras \<Rightarrow> string \<Rightarrow> Descriptor \<Rightarrow> reader \<Rightarrow> 'n oras_world \<Rightarrow> err option \<times> 'n oras_world" where
  "oras_PushBlob R D c repoRef desc r w =
     (case validateDescriptor D desc of
        Some err \<Rightarrow> (Some err, w)
      | None \<Rightarrow> to_err (with_repo R c repoRef (\<lambda>repo w. mapped R (of_err (on_net (rm_Push R repo desc r) w))) w))"

definition oras_FetchBlob ::
  "'n remote_lib \<Rightarrow> digest_lib \<Rightarrow> Oras \<Rightarrow> string \<Rightarrow> Descriptor \<Rightarrow> 'n oras_world \<Rightarrow> reader res \<times> 'n oras_world" where
  "oras_FetchBlob R D c repoRef desc w =
     (case validateDescriptor D desc of
        Some err \<Rightarrow> (Inl err, w)
      | None \<Rightarrow> with_repo R c repoRef (\<lambda>repo w. mapped R (on_net (rm_Fetch R repo desc) w)) w)"

definition manifest_descriptor :: "digest_lib \<Rightarrow> bytes \<Rightarrow> Descriptor" where
  "manifest_descriptor D manifestJSON =
     \<lparr>d_MediaType = MediaTypeImageManifest, d_Digest = dl_FromBytes D ''sha256'' manifestJSON, d_Size = int (length manifestJSON)\<rparr>"

definition oras_PushManifest ::
  "'n remote_lib \<Rightarrow> digest_lib \<Rightarrow> Oras \<Rightarrow> string \<Rightarrow> string \<Rightarrow> Manifest \<Rightarrow> 'n oras_world \<Rightarrow> Descriptor res \<times> 'n oras_world" where
  "oras_PushManifest R D c repoRef tag manifest =
     with_repo R c repoRef (\<lambda>repo w.
       case rm_marshal R manifest of
         Inl err \<Rightarrow> (Inl (Wrap ''marshal manifest'' err), w)
       | Inr manifestJSON \<Rightarrow>
           (let desc = manifest_descriptor D manifestJSON
            in case on_net (rm_PushReference R repo desc (bytes_NewReader manifestJSON) tag) w of
                 (Some err, w) \<Rightarrow> (Inl (oras_mapError R err), w)
               | (None, w) \<Rightarrow> (Inr desc, w)))"

definition oras_PushManifestByDigest ::
  "'n remote_lib \<Rightarrow> digest_lib \<Rightarrow> Oras \<Rightarrow> string \<Rightarrow> Manifest \<Rightarrow> 'n oras_world \<Rightarrow> Descriptor res \<times> 'n oras_world" where
  "oras_PushManifestByDigest R D c repoRef manifest =
     with_repo R c repoRef (\<lambda>repo w.
       case rm_marshal R manifest of
         Inl err \<Rightarrow> (Inl (Wrap ''marshal manifest'' err), w)
       | Inr manifestJSON \<Rightarrow>
           (let desc = manifest_descriptor D manifestJSON
            in case on_net (rm_Push R repo desc (bytes_NewReader manifestJSON)) w of
                 (Some err, w) \<Rightarrow> (Inl (oras_mapError R err), w)
               | (None, w) \<Rightarrow> (Inr desc, w)))"

text \<open>\<^verbatim>\<open>FetchManifest\<close> on the response of the registry.\<close>

definition check_manifest :: "'n remote_lib \<Rightarrow> digest_lib \<Rightarrow> Descriptor \<Rightarrow> Descriptor \<Rightarrow> reader \<Rightarrow> (Manifest \<times> bytes) res" where
  "check_manifest R D expected desc rc =
     (if d_MediaType expected = [] \<and> d_MediaType desc \<noteq> [] \<and> d_MediaType desc \<noteq> MediaTypeImageManifest
      then Inl (errWith Oras_ErrManifestInvalid '': unsupported media type '' [d_MediaType desc])
      else
        let sz = (if d_Size expected = 0 then d_Size desc else d_Size expected);
            reader = (if sz > 0 then limit_reader rc (nat sz) else rc)
        in case io_ReadAll reader of
             Inl err \<Rightarrow> Inl (errWith Oras_ErrManifestInvalid '': '' [])
           | Inr raw \<Rightarrow>
               if sz > 0 \<and> int (length raw) \<noteq> sz
               then Inl (errWith Oras_ErrSizeMismatch '': expected '' [show_int sz, '' bytes, got '', show_nat (length raw)])
               else
                 let computed = dl_FromBytes D (dl_Algorithm D (d_Digest expected)) raw
                 in if computed \<noteq> d_Digest expected
                    then Inl (errWith Oras_ErrDigestMismatch '': expected '' [d_Digest expected, '', got '', computed])
                    else case rm_unmarshal R raw of
                      None \<Rightarrow> Inl (errWith Oras_ErrManifestInvalid '': '' [])
                    | Some manifest \<Rightarrow> Inr (manifest, raw))"

definition oras_FetchManifest ::
  "'n remote_lib \<Rightarrow> digest_lib \<Rightarrow> Oras \<Rightarrow> string \<Rightarrow> Descriptor \<Rightarrow> 'n oras_world \<Rightarrow> (Manifest \<times> bytes) res \<times> 'n oras_world" where
  "oras_FetchManifest R D c repoRef expected w =
     (case validateDescriptor D expected of
        Some err \<Rightarrow> (Inl err, w)
      | None \<Rightarrow>
          with_repo R c repoRef (\<lambda>repo w.
            case on_net (rm_FetchReference R repo (d_Digest expected)) w of
              (Inl err, w) \<Rightarrow> (Inl (oras_mapError R err), w)
            | (Inr (desc, rc), w) \<Rightarrow> (check_manifest R D expected desc rc, w)) w)"

definition oras_Resolve ::
  "'n remote_lib \<Rightarrow> Oras \<Rightarrow> string \<Rightarrow> string \<Rightarrow> 'n oras_world \<Rightarrow> Descriptor res \<times> 'n oras_world" where
  "oras_Resolve R c repoRef ref = with_repo R c repoRef (\<lambda>repo w. mapped R (on_net (rm_Resolve R repo ref) w))"

definition oras_Tag ::
  "'n remote_lib \<Rightarrow> digest_lib \<Rightarrow> Oras \<Rightarrow> string \<Rightarrow> Descriptor \<Rightarrow> string \<Rightarrow> 'n oras_world \<Rightarrow> err option \<times> 'n oras_world" where
  "oras_Tag R D c repoRef desc tag w =
     (case validateDescriptor D desc of
        Some err \<Rightarrow> (Some err, w)
      | None \<Rightarrow> to_err (with_repo R c repoRef (\<lambda>repo w. mapped R (of_err (on_net (rm_Tag R repo desc tag) w))) w))"

definition oras_Referrers ::
  "'n remote_lib \<Rightarrow> digest_lib \<Rightarrow> Oras \<Rightarrow> string \<Rightarrow> Descriptor \<Rightarrow> string \<Rightarrow> 'n oras_world \<Rightarrow> Descriptor list res \<times> 'n oras_world" where
  "oras_Referrers R D c repoRef subject artifactType w =
     (if d_MediaType subject = [] then (Inl (errWith Oras_ErrInvalidDescriptor '': missing media type'' []), w)
      else case validateDescriptor D subject of
        Some err \<Rightarrow> (Inl err, w)
      | None \<Rightarrow>
          with_repo R c repoRef (\<lambda>repo w.
            case on_net (rm_Referrers R repo subject artifactType) w of
              (Inl err, w) \<Rightarrow>
                (Inl (if errors_is err (rm_ErrUnsupported R) then Oras_ErrReferrersUnsupported else oras_mapError R err), w)
            | (Inr referrers, w) \<Rightarrow> (Inr referrers, w)) w)"

definition oras_BlobURL :: "'n remote_lib \<Rightarrow> Oras \<Rightarrow> string \<Rightarrow> string \<Rightarrow> string res" where
  "oras_BlobURL R c repoRef dgst =
     bindE (oras_parseRef R repoRef) (\<lambda>(reg, repo, r).
       let scheme = (if or_plainHTTP c then ''http'' else ''https'')
       in Inr (scheme @ ''://'' @ rm_Host R reg @ ''/v2/'' @ repo @ ''/blobs/'' @ dgst))"

definition basicAuth :: "'n remote_lib \<Rightarrow> string \<Rightarrow> string \<Rightarrow> string" where
  "basicAuth R username password = ''Basic '' @ rm_base64 R (username @ '':'' @ password)"

definition auth_value :: "'n remote_lib \<Rightarrow> Credential \<Rightarrow> string" where
  "auth_value R cred =
     (let authValue = (if cd_AccessToken cred \<noteq> [] then ''Bearer '' @ cd_AccessToken cred else [])
      in if authValue = [] \<and> cd_Username cred \<noteq> [] then basicAuth R (cd_Username cred) (cd_Password cred) else authValue)"

definition cached_header :: "string \<Rightarrow> 'n oras_world \<Rightarrow> string option \<times> 'n oras_world" where
  "cached_header host w =
     (case ow_cache w of
        None \<Rightarrow> (None, w)
      | Some cache \<Rightarrow> (case authCache_get host (ow_now w) cache of (x, cache) \<Rightarrow> (x, w\<lparr>ow_cache := Some cache\<rparr>)))"

definition oras_AuthHeaders :: "'n remote_lib \<Rightarrow> Oras \<Rightarrow> string \<Rightarrow> 'n oras_world \<Rightarrow> header res \<times> 'n oras_world" where
  "oras_AuthHeaders R c repoRef w =
     (case oras_parseRef R repoRef of
        Inl err \<Rightarrow> (Inl err, w)
      | Inr (reg, repo, r) \<Rightarrow>
          (let host = rm_Host R reg; headers = header_Set ''User-Agent'' (or_userAgent c) []
           in case or_credStore c of
                None \<Rightarrow> (Inr headers, w)
              | Some store \<Rightarrow>
                  if or_anonymous c then (Inr headers, w)
                  else case cached_header host w of
                    (Some authValue, w) \<Rightarrow>
                      (Inr (if authValue \<noteq> [] then header_Set ''Authorization'' authValue headers else headers), w)
                  | (None, w) \<Rightarrow>
                      (case store host of
                         (cred, Some err) \<Rightarrow> (Inl (Wrap (''get credentials for '' @ host) err), w)
                       | (cred, None) \<Rightarrow>
                           if isEmptyCredential cred then (Inr headers, w)
                           else
                             let authValue = auth_value R cred
                             in if authValue \<noteq> []
                                then (Inr (header_Set ''Authorization'' authValue headers),
                                      w\<lparr>ow_cache := map_option (authCache_set host authValue (ow_now w)) (ow_cache w)\<rparr>)
                                else (Inr headers, w))))"

definition oras_InvalidateAuthHeaders :: "'n remote_lib \<Rightarrow> string \<Rightarrow> 'n oras_world \<Rightarrow> err option \<times> 'n oras_world" where
  "oras_InvalidateAuthHeaders R repoRef w =
     (case ow_cache w of
        None \<Rightarrow> (None, w)
      | Some cache \<Rightarrow>
          (case oras_parseRef R repoRef of
             Inl err \<Rightarrow> (Some err, w)
           | Inr (reg, repo, r) \<Rightarrow> (None, w\<lparr>ow_cache := Some (authCache_invalidate (rm_Host R reg) cache)\<rparr>)))"

definition oras_AuthClient :: "'n remote_lib \<Rightarrow> string \<Rightarrow> 'n oras_world http_client res" where
  "oras_AuthClient R repoRef = bindE (oras_parseRef R repoRef) (\<lambda>ref. Inr (\<lambda>req. on_net (rm_auth_Do R ref req)))"

text \<open>\<^verbatim>\<open>New\<close>: the options on the fields of the client and on its header cache.\<close>

definition oras_New :: "(Oras \<times> authHeaderCache option \<Rightarrow> Oras \<times> authHeaderCache option) list \<Rightarrow> Oras \<times> authHeaderCache option" where
  "oras_New opts =
     fold (\<lambda>opt c. opt c) opts
       (\<lparr>or_plainHTTP = False, or_userAgent = ''blob-client/1.0'', or_anonymous = False, or_credStore = None\<rparr>, newAuthHeaderCache 60000000000)"

definition WithCredentialStore :: "cred_store \<Rightarrow> Oras \<times> 'x \<Rightarrow> Oras \<times> 'x" where
  "WithCredentialStore store c = ((fst c)\<lparr>or_credStore := Some store\<rparr>, snd c)"

definition WithStaticCredentials :: "string \<Rightarrow> string \<Rightarrow> string \<Rightarrow> Oras \<times> 'x \<Rightarrow> Oras \<times> 'x" where
  "WithStaticCredentials registry username password c =
     ((fst c)\<lparr>or_credStore := Some (staticStore_Get (StaticCredentials registry username password))\<rparr>, snd c)"

definition WithStaticToken :: "string \<Rightarrow> string \<Rightarrow> Oras \<times> 'x \<Rightarrow> Oras \<times> 'x" where
  "WithStaticToken registry token c = ((fst c)\<lparr>or_credStore := Some (staticStore_Get (StaticToken registry token))\<rparr>, snd c)"

text \<open>\<open>docker\<close> is the credential store of the Docker configuration, if it can be opened.\<close>

definition DefaultCredentialStore :: "cred_store res \<Rightarrow> cred_store res" where
  "DefaultCredentialStore docker = bindE docker (\<lambda>store. Inr (dockerHubFallbackStore_Get store))"

definition WithDockerConfig :: "cred_store res \<Rightarrow> Oras \<times> 'x \<Rightarrow> Oras \<times> 'x" where
  "WithDockerConfig docker c =
     (case DefaultCredentialStore docker of Inl err \<Rightarrow> c | Inr store \<Rightarrow> ((fst c)\<lparr>or_credStore := Some store\<rparr>, snd c))"

definition WithPlainHTTP :: "bool \<Rightarrow> Oras \<times> 'x \<Rightarrow> Oras \<times> 'x" where
  "WithPlainHTTP enabled c = ((fst c)\<lparr>or_plainHTTP := enabled\<rparr>, snd c)"

definition WithAnonymous :: "Oras \<times> 'x \<Rightarrow> Oras \<times> 'x" where
  "WithAnonymous c = ((fst c)\<lparr>or_anonymous := True\<rparr>, snd c)"

definition WithUserAgent :: "string \<Rightarrow> Oras \<times> 'x \<Rightarrow> Oras \<times> 'x" where
  "WithUserAgent ua c = ((fst c)\<lparr>or_userAgent := ua\<rparr>, snd c)"

definition WithAuthHeaderCacheTTL :: "i64 \<Rightarrow> Oras \<times> authHeaderCache option \<Rightarrow> Oras \<times> authHeaderCache option" where
  "WithAuthHeaderCacheTTL ttl c = (fst c, newAuthHeaderCache ttl)"

text \<open>The client as an \<^verbatim>\<open>OCIClient\<close>.\<close>

definition oras_client :: "'n remote_lib \<Rightarrow> digest_lib \<Rightarrow> Oras \<Rightarrow> 'n oras_world oci_client" where
  "oras_client R D c =
     \<lparr>oci_PushBlob = oras_PushBlob R D c, oci_FetchBlob = oras_FetchBlob R D c, oci_PushManifest = oras_PushManifest R D c,
      oci_FetchManifest = oras_FetchManifest R D c, oci_Resolve = oras_Resolve R c, oci_Tag = oras_Tag R D c,
      oci_PushManifestByDigest = oras_PushManifestByDigest R D c, oci_BlobURL = oras_BlobURL R c,
      oci_AuthHeaders = oras_AuthHeaders R c, oci_InvalidateAuthHeaders = oras_InvalidateAuthHeaders R,
      oci_AuthClient = Some (oras_AuthClient R), oci_Referrers = Some (oras_Referrers R D c)\<rparr>"

subsection \<open>Disk caches in the state of the calls\<close>

text \<open>An operation of a cache that \<open>get\<close> and \<open>put\<close> find in the state, and the disk caches as the client's interfaces.\<close>

definition in_state :: "('w \<Rightarrow> 'c) \<Rightarrow> ('c \<Rightarrow> 'w \<Rightarrow> 'w) \<Rightarrow> ('c \<Rightarrow> 'x \<times> 'c) \<Rightarrow> 'w \<Rightarrow> 'x \<times> 'w" where
  "in_state get put op w = (case op (get w) of (x, c) \<Rightarrow> (x, put c w))"

definition disk_ref_cache ::
  "(bytes \<Rightarrow> bytes) \<Rightarrow> ('w \<Rightarrow> RefCache \<times> fsys) \<Rightarrow> (RefCache \<times> fsys \<Rightarrow> 'w \<Rightarrow> 'w) \<Rightarrow> 'w ref_cache" where
  "disk_ref_cache sha256 get put =
     \<lparr>rc_GetDigest = (\<lambda>ref. in_state get put (GetDigest sha256 ref)),
      rc_PutDigest = (\<lambda>ref dgst. in_state get put (PutDigest sha256 ref dgst))\<rparr>"

definition disk_manifest_cache ::
  "digest_lib \<Rightarrow> (bytes \<Rightarrow> Manifest option) \<Rightarrow> ('w \<Rightarrow> ManifestCache \<times> fsys) \<Rightarrow> (ManifestCache \<times> fsys \<Rightarrow> 'w \<Rightarrow> 'w) \<Rightarrow> 'w manifest_cache" where
  "disk_manifest_cache D unmarshal get put =
     \<lparr>mc_GetManifest = (\<lambda>dgst. in_state get put (GetManifest D unmarshal dgst)),
      mc_PutManifest = (\<lambda>dgst raw. in_state get put (PutManifest D dgst raw)),
      mc_Delete = (\<lambda>dgst. in_state get put (ManifestCache_Delete dgst))\<rparr>"

definition disk_index_cache ::
  "digest_lib \<Rightarrow> ('w \<Rightarrow> IndexCache \<times> fsys) \<Rightarrow> (IndexCache \<times> fsys \<Rightarrow> 'w \<Rightarrow> 'w) \<Rightarrow> 'w index_cache" where
  "disk_index_cache D get put =
     \<lparr>ic_GetIndex = (\<lambda>dgst. in_state get put (GetIndex D dgst)),
      ic_PutIndex = (\<lambda>dgst raw. in_state get put (PutIndex D dgst raw)),
      ic_Delete = (\<lambda>dgst. in_state get put (IndexCache_Delete dgst))\<rparr>"

section \<open>Manifests are verified\<close>

lemma check_manifest_Inr:
  "check_manifest R D expected desc rc = Inr (m, raw) \<Longrightarrow>
   dl_FromBytes D (dl_Algorithm D (d_Digest expected)) raw = d_Digest expected \<and> rm_unmarshal R raw = Some m"
  by (auto simp: check_manifest_def Let_def split: if_splits sum.splits option.splits)

lemma FetchManifest_Inr:
  "oras_FetchManifest R D c ref desc w = (Inr (m, raw), w') \<Longrightarrow>
   dl_FromBytes D (dl_Algorithm D (d_Digest desc)) raw = d_Digest desc \<and> rm_unmarshal R raw = Some m"
  by (auto simp: oras_FetchManifest_def with_repo_def split: option.splits sum.splits prod.splits dest: check_manifest_Inr)

interpretation oras: verified_manifests D "rm_unmarshal R" "oras_client R D c" "Some (disk_manifest_cache D (rm_unmarshal R) get put)"
  for D R c get put
proof
  fix ref desc w m raw w'
  show "oci_FetchManifest (oras_client R D c) ref desc w = (Inr (m, raw), w') \<Longrightarrow>
      dl_FromBytes D (dl_Algorithm D (d_Digest desc)) raw = d_Digest desc \<and> rm_unmarshal R raw = Some m"
    using FetchManifest_Inr by (simp add: oras_client_def)
next
  fix mc dgst w m raw w'
  assume "Some (disk_manifest_cache D (rm_unmarshal R) get put) = Some mc" "mc_GetManifest mc dgst w = (Some (m, raw), w')"
  then have "\<exists>cs'. GetManifest D (rm_unmarshal R) dgst (get w) = (Some (m, raw), cs')"
    by (auto simp: disk_manifest_cache_def in_state_def split: prod.splits)
  then show "dl_FromBytes D (dl_Algorithm D dgst) raw = dgst \<and> rm_unmarshal R raw = Some m"
    using GetManifest_Some [of D "rm_unmarshal R" dgst "get w" m raw] by (auto simp: digestMatches_True)
qed

interpretation oras_uncached: verified_manifests D "rm_unmarshal R" "oras_client R D c" None for D R c
  by unfold_locales (auto simp: oras_client_def dest: FetchManifest_Inr)

section \<open>Credentials\<close>

lemma staticStore_hub:
  "snd (staticStore_Get s host) = None"
  "normalizeServerAddress host = ss_registry s \<Longrightarrow> staticStore_Get s host = (ss_cred s, None)"
  by (simp_all add: staticStore_Get_def Let_def)

lemma try_fallbacks_Some:
  "try_fallbacks store a alts = Some cred \<Longrightarrow> \<not> isEmptyCredential cred \<and> (\<exists>alt\<in>set alts. store alt = (cred, None))"
  by (induction alts) (auto split: if_splits prod.splits option.splits)

text \<open>The header cache of the client stays an LRU cache.\<close>

lemma AuthHeaders_inv:
  assumes "oras_AuthHeaders R c ref w = (x, w')" "\<forall>cache. ow_cache w = Some cache \<longrightarrow> cache_inv cache"
  shows "\<forall>cache. ow_cache w' = Some cache \<longrightarrow> cache_inv cache"
proof -
  have g: "\<forall>cache. ow_cache (snd (cached_header host w)) = Some cache \<longrightarrow> cache_inv cache" for host
    using assms(2) get_refines by (auto simp: cached_header_def split: option.splits prod.splits)
  show ?thesis
  proof (cases "\<exists>reg repo r. oras_parseRef R ref = Inr (reg, repo, r)")
    case False
    then show ?thesis using assms by (auto simp: oras_AuthHeaders_def split: sum.splits)
  next
    case True
    then obtain reg repo r where p: "oras_parseRef R ref = Inr (reg, repo, r)" by blast
    obtain y w2 where y: "cached_header (rm_Host R reg) w = (y, w2)" by (metis prod.exhaust)
    with g [of "rm_Host R reg"] have "\<forall>cache. ow_cache w2 = Some cache \<longrightarrow> cache_inv cache" by simp
    then show ?thesis using assms p y set_refines
      by (auto simp: oras_AuthHeaders_def Let_def split: option.splits if_splits prod.splits)
  qed
qed

end
