(* ===== verification/RegistryRoundtrip.thy ===== *)
theory RegistryRoundtrip
  imports OrasClient
begin

text \<open>
  What the ORAS client needs of a registry to find again what was pushed, and that the registry client then does: after a
  successful \<^verbatim>\<open>Push\<close>, \<^verbatim>\<open>Inspect\<close> returns the manifest and the index. A registry keeps blobs, manifests and tags by repository; reading
  does not change them.
\<close>

section \<open>The registry\<close>

record 'n registry_view =
  rv_blobs :: "'n \<Rightarrow> repository \<times> string \<rightharpoonup> bytes"
  rv_manifests :: "'n \<Rightarrow> repository \<times> string \<rightharpoonup> bytes"
  rv_tags :: "'n \<Rightarrow> repository \<times> string \<rightharpoonup> Descriptor"

definition same_view :: "'n registry_view \<Rightarrow> 'n \<Rightarrow> 'n \<Rightarrow> bool" where
  "same_view V n n' \<longleftrightarrow> rv_blobs V n' = rv_blobs V n \<and> rv_manifests V n' = rv_manifests V n \<and> rv_tags V n' = rv_tags V n"

definition registry_keeps :: "'n remote_lib \<Rightarrow> 'n registry_view \<Rightarrow> bool" where
  "registry_keeps R V \<longleftrightarrow>
     (\<forall>repo desc r n n'. rm_Push R repo desc r n = (None, n') \<longrightarrow> d_MediaType desc \<noteq> MediaTypeImageManifest \<longrightarrow>
        (\<exists>d. io_ReadAll r = Inr d \<and> rv_blobs V n' = (rv_blobs V n)((repo, d_Digest desc) \<mapsto> d)) \<and>
        rv_manifests V n' = rv_manifests V n \<and> rv_tags V n' = rv_tags V n) \<and>
     (\<forall>repo desc r tag n n'. rm_PushReference R repo desc r tag n = (None, n') \<longrightarrow> d_MediaType desc = MediaTypeImageManifest \<longrightarrow>
        (\<exists>d. io_ReadAll r = Inr d \<and> rv_manifests V n' = (rv_manifests V n)((repo, d_Digest desc) \<mapsto> d)) \<and>
        rv_blobs V n' = rv_blobs V n \<and> rv_tags V n' = (rv_tags V n)((repo, tag) \<mapsto> desc)) \<and>
     (\<forall>repo desc tag n n'. rm_Tag R repo desc tag n = (None, n') \<longrightarrow>
        rv_blobs V n' = rv_blobs V n \<and> rv_manifests V n' = rv_manifests V n \<and> rv_tags V n' = (rv_tags V n)((repo, tag) \<mapsto> desc))"

definition registry_serves :: "'n remote_lib \<Rightarrow> 'n registry_view \<Rightarrow> bool" where
  "registry_serves R V \<longleftrightarrow>
     (\<forall>repo desc d n. rv_blobs V n (repo, d_Digest desc) = Some d \<longrightarrow> d_MediaType desc \<noteq> MediaTypeImageManifest \<longrightarrow>
        (\<exists>r n'. rm_Fetch R repo desc n = (Inr r, n') \<and> delivers r d \<and> same_view V n n')) \<and>
     (\<forall>repo dgst d n. rv_manifests V n (repo, dgst) = Some d \<longrightarrow>
        (\<exists>desc r n'. rm_FetchReference R repo dgst n = (Inr (desc, r), n') \<and> delivers r d \<and> same_view V n n' \<and>
           d_MediaType desc = MediaTypeImageManifest \<and> d_Size desc = int (length d))) \<and>
     (\<forall>repo tag desc n. rv_tags V n (repo, tag) = Some desc \<longrightarrow>
        (\<exists>n'. rm_Resolve R repo tag n = (Inr desc, n') \<and> same_view V n n'))"

text \<open>The digest library: a digest of bytes is valid and names its algorithm.\<close>

definition digests_valid :: "digest_lib \<Rightarrow> bool" where
  "digests_valid D \<longleftrightarrow> (\<forall>d. dl_FromBytes D ''sha256'' d \<noteq> [] \<and> dl_Validate D (dl_FromBytes D ''sha256'' d) = None \<and>
     dl_Algorithm D (dl_FromBytes D ''sha256'' d) = ''sha256'')"

lemma same_view_trans: "same_view V a b \<Longrightarrow> same_view V b c \<Longrightarrow> same_view V a c"
  by (simp add: same_view_def)

lemma keeps_Push:
  "registry_keeps R V \<Longrightarrow> rm_Push R repo desc r n = (None, n') \<Longrightarrow> d_MediaType desc \<noteq> MediaTypeImageManifest \<Longrightarrow>
   \<exists>d. io_ReadAll r = Inr d \<and> rv_blobs V n' = (rv_blobs V n)((repo, d_Digest desc) \<mapsto> d)"
  unfolding registry_keeps_def by blast

lemma keeps_PushReference:
  "registry_keeps R V \<Longrightarrow> rm_PushReference R repo desc r tag n = (None, n') \<Longrightarrow> d_MediaType desc = MediaTypeImageManifest \<Longrightarrow>
   (\<exists>d. io_ReadAll r = Inr d \<and> rv_manifests V n' = (rv_manifests V n)((repo, d_Digest desc) \<mapsto> d)) \<and>
   rv_blobs V n' = rv_blobs V n \<and> rv_tags V n' = (rv_tags V n)((repo, tag) \<mapsto> desc)"
  unfolding registry_keeps_def by blast

lemma keeps_Tag:
  "registry_keeps R V \<Longrightarrow> rm_Tag R repo desc tag n = (None, n') \<Longrightarrow>
   rv_blobs V n' = rv_blobs V n \<and> rv_manifests V n' = rv_manifests V n \<and> rv_tags V n' = (rv_tags V n)((repo, tag) \<mapsto> desc)"
  unfolding registry_keeps_def by blast

section \<open>Pushing\<close>

lemma to_err_of_err [simp]:
  "to_err (of_err x) = x"
  "to_err (mapped R (of_err x)) = (map_option (oras_mapError R) (fst x), snd x)"
  by (cases x; cases "fst x"; simp add: to_err_def of_err_def mapped_def mapErr_def)+

lemma on_net_eq: "on_net f w = (x, w') \<longleftrightarrow> (\<exists>n. f (ow_net w) = (x, n) \<and> w' = w\<lparr>ow_net := n\<rparr>)"
  by (auto simp: on_net_def split: prod.splits)

lemma PushBlob_None:
  assumes "oras_PushBlob R D c ref desc r w = (None, w')" "oras_repository R c ref = Inr repo"
  shows "rm_Push R repo desc r (ow_net w) = (None, ow_net w')"
proof -
  obtain x w1 where x: "on_net (rm_Push R repo desc r) w = (x, w1)" by (metis prod.exhaust)
  then have "x = None" "w1 = w'" using assms by (auto simp: oras_PushBlob_def with_repo_def split: option.splits)
  with x show ?thesis by (auto simp: on_net_eq)
qed

lemma PushBlob_repo:
  "oras_PushBlob R D c ref desc r w = (None, w') \<Longrightarrow> \<exists>repo. oras_repository R c ref = Inr repo"
  by (cases "oras_repository R c ref") (auto simp: oras_PushBlob_def with_repo_def to_err_def split: option.splits)

lemma Tag_None:
  assumes "oras_Tag R D c ref desc tag w = (None, w')" "oras_repository R c ref = Inr repo"
  shows "rm_Tag R repo desc tag (ow_net w) = (None, ow_net w')"
proof -
  obtain x w1 where x: "on_net (rm_Tag R repo desc tag) w = (x, w1)" by (metis prod.exhaust)
  then have "x = None" "w1 = w'" using assms by (auto simp: oras_Tag_def with_repo_def split: option.splits)
  with x show ?thesis by (auto simp: on_net_eq)
qed

lemma PushManifest_Inr:
  assumes "oras_PushManifest R D c ref tag m w = (Inr desc, w')" "oras_repository R c ref = Inr repo"
  shows "\<exists>j. rm_marshal R m = Inr j \<and> desc = manifest_descriptor D j \<and>
    rm_PushReference R repo desc (bytes_NewReader j) tag (ow_net w) = (None, ow_net w')"
proof -
  obtain j where j: "rm_marshal R m = Inr j" using assms by (auto simp: oras_PushManifest_def with_repo_def split: sum.splits)
  obtain x w1 where x: "on_net (rm_PushReference R repo (manifest_descriptor D j) (bytes_NewReader j) tag) w = (x, w1)"
    by (metis prod.exhaust)
  then have "x = None" "w1 = w'" "desc = manifest_descriptor D j"
    using assms j by (auto simp: oras_PushManifest_def with_repo_def Let_def split: option.splits)
  with x j show ?thesis by (auto simp: on_net_eq)
qed

lemma push_tags_None:
  assumes "push_tags c ref desc tags w = (None, w')" "registry_keeps R V" "cl_oci c = oras_client R D o'"
    and "oras_repository R o' ref = Inr repo" "rv_tags V (ow_net w) (repo, tag) = Some desc"
  shows "rv_blobs V (ow_net w') = rv_blobs V (ow_net w) \<and> rv_manifests V (ow_net w') = rv_manifests V (ow_net w) \<and>
    rv_tags V (ow_net w') (repo, tag) = Some desc"
  using assms(1,5)
proof (induction tags arbitrary: w)
  case (Cons t tags)
  obtain x w1 where x: "oras_Tag R D o' ref desc t w = (x, w1)" by (metis prod.exhaust)
  then have r: "x = None" "push_tags c ref desc tags w1 = (None, w')"
    using Cons.prems(1) assms(3) by (auto simp: oras_client_def split: option.splits)
  then have "rm_Tag R repo desc t (ow_net w) = (None, ow_net w1)" using Tag_None x assms(4) by metis
  from keeps_Tag [OF assms(2) this] Cons.IH [OF r(2)] Cons.prems(2) show ?case by simp
qed simp

text \<open>What a successful \<^verbatim>\<open>Push\<close> leaves in the registry.\<close>

definition pushed ::
  "'n remote_lib \<Rightarrow> digest_lib \<Rightarrow> 'n registry_view \<Rightarrow> repository \<Rightarrow> string \<Rightarrow> Manifest \<Rightarrow> bytes \<Rightarrow> Descriptor \<Rightarrow> 'n \<Rightarrow> bool" where
  "pushed R D V repo tag m indexData indexDesc n \<longleftrightarrow>
     (\<exists>j. rm_marshal R m = Inr j \<and> rv_tags V n (repo, tag) = Some (manifest_descriptor D j) \<and>
        rv_manifests V n (repo, dl_FromBytes D ''sha256'' j) = Some j) \<and>
     rv_blobs V n (repo, d_Digest indexDesc) = Some indexData"

lemma bytes_NewReader_ok: "delivers (bytes_NewReader d) d" "io_ReadAll (bytes_NewReader d) = Inr d"
  by (simp_all add: bytes_NewReader_def delivers_def io_ReadAll_def rd_stream_ok)

lemma media_types_blobs [simp]:
  "MediaTypeIndex \<noteq> MediaTypeImageManifest" "MediaTypeData \<noteq> MediaTypeImageManifest" "MediaTypeEmptyJSON \<noteq> MediaTypeImageManifest"
  by (simp_all add: media_types)

lemma dataDescriptor_Inr:
  "dataDescriptor E b = Inr desc \<Longrightarrow>
   d_MediaType desc = MediaTypeData \<and> (\<exists>h n. Blob_DataHash b = Some h \<and> Blob_DataSize b = Some n \<and>
     d_Digest desc = ''sha256:'' @ hex_encode h \<and> d_Size desc = uint n)"
  by (auto simp: dataDescriptor_def Let_def split: option.splits if_splits)

lemma Push_steps:
  assumes "Push E c ref b opts w = (None, w')" "cl_oci c = oras_client R D o'" "parseClientRef E ref = Inr r"
  obtains cfg :: pushConfig and dataDesc configDesc w1 w2 w3 w4 mdesc where "cr_reference r \<noteq> []" "\<not> isDigest (cr_reference r)"
    "dataDescriptor E b = Inr dataDesc" "pushEmptyConfig E c ref w = (Inr configDesc, w1)"
    "oras_PushBlob R D o' ref (push_index E b) (bytes_NewReader (Blob_IndexData b)) w1 = (None, w2)"
    "oras_PushBlob R D o' ref dataDesc (Blob_Stream b) w2 = (None, w3)"
    "oras_PushManifest R D o' ref (cr_reference r) (buildManifest E configDesc (push_index E b) dataDesc (pu_annotations cfg)) w3 = (Inr mdesc, w4)"
    "push_tags c ref mdesc (pu_tags cfg) w4 = (None, w')"
proof -
  have oci: "oci_PushBlob (cl_oci c) = oras_PushBlob R D o'" "oci_PushManifest (cl_oci c) = oras_PushManifest R D o'"
    using assms(2) by (simp_all add: oras_client_def)
  note push = assms(1) [unfolded Push_def Let_def assms(3) oci sum.case]
  have tag: "cr_reference r \<noteq> []" "\<not> isDigest (cr_reference r)" using push by (simp_all split: if_split_asm)
  obtain dataDesc where d: "dataDescriptor E b = Inr dataDesc" using push tag by (cases "dataDescriptor E b") simp_all
  obtain x w1 where p1: "pushEmptyConfig E c ref w = (x, w1)" by (metis prod.exhaust)
  then obtain configDesc where x: "x = Inr configDesc" using push tag d by (cases x) simp_all
  obtain y w2 where p2: "oras_PushBlob R D o' ref (push_index E b) (bytes_NewReader (Blob_IndexData b)) w1 = (y, w2)" by (metis prod.exhaust)
  then have y: "y = None" using push tag d p1 x by (cases y) simp_all
  obtain z w3 where p3: "oras_PushBlob R D o' ref dataDesc (Blob_Stream b) w2 = (z, w3)" by (metis prod.exhaust)
  then have z: "z = None" using push tag d p1 x p2 y by (cases z) simp_all
  obtain v w4 where p4: "oras_PushManifest R D o' ref (cr_reference r) (buildManifest E configDesc (push_index E b) dataDesc
      (pu_annotations (fold (\<lambda>opt cfg. opt cfg) opts \<lparr>pu_tags = [], pu_annotations = []\<rparr>))) w3 = (v, w4)" by (metis prod.exhaust)
  then obtain mdesc where v: "v = Inr mdesc" using push tag d p1 x p2 y p3 z by (cases v) simp_all
  then have "push_tags c ref mdesc (pu_tags (fold (\<lambda>opt cfg. opt cfg) opts \<lparr>pu_tags = [], pu_annotations = []\<rparr>)) w4 = (None, w')"
    using push tag d p1 x p2 y p3 z p4 by simp
  from that [OF tag d p1 [unfolded x] p2 [unfolded y] p3 [unfolded z] p4 [unfolded v] this] show ?thesis .
qed

lemma Push_pushed:
  assumes "Push E c ref b opts w = (None, w')" "cl_oci c = oras_client R D o'" "re_digest E = D" "registry_keeps R V"
    and "parseClientRef E ref = Inr r" "oras_repository R o' ref = Inr repo"
    and "\<forall>h. Blob_DataHash b = Some h \<longrightarrow> from_bytes E (Blob_IndexData b) \<noteq> ''sha256:'' @ hex_encode h"
  shows "cr_reference r \<noteq> [] \<and> \<not> isDigest (cr_reference r) \<and> (\<exists>cfg dataDesc anns. dataDescriptor E b = Inr dataDesc \<and>
    pushed R D V repo (cr_reference r) (buildManifest E cfg (push_index E b) dataDesc anns) (Blob_IndexData b) (push_index E b) (ow_net w') \<and>
    (\<forall>d. io_ReadAll (Blob_Stream b) = Inr d \<longrightarrow> rv_blobs V (ow_net w') (repo, d_Digest dataDesc) = Some d))"
proof -
  obtain cfg :: pushConfig and dataDesc configDesc w1 w2 w3 w4 mdesc where s: "cr_reference r \<noteq> []" "\<not> isDigest (cr_reference r)"
    "dataDescriptor E b = Inr dataDesc" "pushEmptyConfig E c ref w = (Inr configDesc, w1)"
    "oras_PushBlob R D o' ref (push_index E b) (bytes_NewReader (Blob_IndexData b)) w1 = (None, w2)"
    "oras_PushBlob R D o' ref dataDesc (Blob_Stream b) w2 = (None, w3)"
    "oras_PushManifest R D o' ref (cr_reference r) (buildManifest E configDesc (push_index E b) dataDesc (pu_annotations cfg)) w3 = (Inr mdesc, w4)"
    "push_tags c ref mdesc (pu_tags cfg) w4 = (None, w')"
    using Push_steps [OF assms(1,2,5)] by metis
  let ?i = "push_index E b"
  have "rv_blobs V (ow_net w2) = (rv_blobs V (ow_net w1))((repo, d_Digest ?i) \<mapsto> Blob_IndexData b)"
    using keeps_Push [OF assms(4) PushBlob_None [OF s(5) assms(6)]] bytes_NewReader_ok(2) [of "Blob_IndexData b"]
    by (simp add: push_index_def)
  moreover have "d_Digest dataDesc \<noteq> d_Digest ?i" using dataDescriptor_Inr [OF s(3)] assms(7) by (auto simp: push_index_def)
  moreover obtain d where d: "rv_blobs V (ow_net w3) = (rv_blobs V (ow_net w2))((repo, d_Digest dataDesc) \<mapsto> d)" "io_ReadAll (Blob_Stream b) = Inr d"
    using keeps_Push [OF assms(4) PushBlob_None [OF s(6) assms(6)]] dataDescriptor_Inr [OF s(3)] by auto
  ultimately have i: "rv_blobs V (ow_net w3) (repo, d_Digest ?i) = Some (Blob_IndexData b)" by simp
  obtain j where j: "rm_marshal R (buildManifest E configDesc ?i dataDesc (pu_annotations cfg)) = Inr j"
    "mdesc = manifest_descriptor D j" "rm_PushReference R repo mdesc (bytes_NewReader j) (cr_reference r) (ow_net w3) = (None, ow_net w4)"
    using PushManifest_Inr [OF s(7) assms(6)] by blast
  then have m: "rv_blobs V (ow_net w4) = rv_blobs V (ow_net w3)"
    "rv_manifests V (ow_net w4) = (rv_manifests V (ow_net w3))((repo, d_Digest mdesc) \<mapsto> j)"
    "rv_tags V (ow_net w4) = (rv_tags V (ow_net w3))((repo, cr_reference r) \<mapsto> mdesc)"
    using keeps_PushReference [OF assms(4) j(3)] bytes_NewReader_ok(2) [of j] by (simp_all add: manifest_descriptor_def)
  from push_tags_None [OF s(8) assms(4,2,6), of "cr_reference r"] m i j
  have "pushed R D V repo (cr_reference r) (buildManifest E configDesc ?i dataDesc (pu_annotations cfg)) (Blob_IndexData b) ?i (ow_net w') \<and>
      (\<forall>d. io_ReadAll (Blob_Stream b) = Inr d \<longrightarrow> rv_blobs V (ow_net w') (repo, d_Digest dataDesc) = Some d)"
    using d by (simp add: pushed_def manifest_descriptor_def)
  with s show ?thesis by blast
qed

section \<open>Fetching\<close>

lemma serves_Fetch:
  "registry_serves R V \<Longrightarrow> rv_blobs V n (repo, d_Digest desc) = Some d \<Longrightarrow> d_MediaType desc \<noteq> MediaTypeImageManifest \<Longrightarrow>
   \<exists>r n'. rm_Fetch R repo desc n = (Inr r, n') \<and> delivers r d \<and> same_view V n n'"
  unfolding registry_serves_def by blast

lemma serves_FetchReference:
  "registry_serves R V \<Longrightarrow> rv_manifests V n (repo, dgst) = Some d \<Longrightarrow>
   \<exists>desc r n'. rm_FetchReference R repo dgst n = (Inr (desc, r), n') \<and> delivers r d \<and> same_view V n n' \<and>
     d_MediaType desc = MediaTypeImageManifest \<and> d_Size desc = int (length d)"
  unfolding registry_serves_def by blast

lemma serves_Resolve:
  "registry_serves R V \<Longrightarrow> rv_tags V n (repo, tag) = Some desc \<Longrightarrow>
   \<exists>n'. rm_Resolve R repo tag n = (Inr desc, n') \<and> same_view V n n'"
  unfolding registry_serves_def by blast

lemma delivers_limit: "delivers r d \<Longrightarrow> int (length d) \<le> int k \<Longrightarrow> io_ReadAll (limit_reader r k) = Inr d"
  using limit_reader_ok [of r k] by (auto simp: delivers_def io_ReadAll_def rd_stream_ok)

lemma delivers_ReadAll: "delivers r d \<Longrightarrow> io_ReadAll r = Inr d"
  by (simp add: delivers_def io_ReadAll_def rd_stream_ok)

lemma validate_sha256:
  "digests_valid D \<Longrightarrow> 0 \<le> n \<Longrightarrow> validateDescriptor D \<lparr>d_MediaType = mt, d_Digest = dl_FromBytes D ''sha256'' d, d_Size = n\<rparr> = None"
  by (simp add: digests_valid_def validateDescriptor_def)

lemma FetchManifest_found:
  assumes "registry_serves R V" "digests_valid D" "oras_repository R o' ref = Inr repo"
    and "rv_manifests V (ow_net w) (repo, dl_FromBytes D ''sha256'' j) = Some j" "rm_unmarshal R j = Some m"
  shows "\<exists>w'. oras_FetchManifest R D o' ref \<lparr>d_MediaType = [], d_Digest = dl_FromBytes D ''sha256'' j, d_Size = 0\<rparr> w = (Inr (m, j), w') \<and>
    same_view V (ow_net w) (ow_net w')"
proof -
  let ?e = "\<lparr>d_MediaType = [], d_Digest = dl_FromBytes D ''sha256'' j, d_Size = 0\<rparr>"
  obtain desc r n' where f: "rm_FetchReference R repo (dl_FromBytes D ''sha256'' j) (ow_net w) = (Inr (desc, r), n')" "delivers r j"
    "same_view V (ow_net w) n'" "d_MediaType desc = MediaTypeImageManifest" "d_Size desc = int (length j)"
    using serves_FetchReference [OF assms(1,4)] by blast
  have "check_manifest R D ?e desc r = Inr (m, j)"
    using f(4,5) assms(2,5) delivers_limit [OF f(2), of "length j"] delivers_ReadAll [OF f(2)]
    by (cases "j = []") (simp_all add: check_manifest_def Let_def digests_valid_def)
  then have "oras_FetchManifest R D o' ref ?e w = (Inr (m, j), w\<lparr>ow_net := n'\<rparr>)"
    using f(1) assms(3) validate_sha256 [OF assms(2), of 0] by (simp add: oras_FetchManifest_def with_repo_def on_net_def)
  with f(3) show ?thesis by simp
qed

lemma FetchBlob_found:
  assumes "registry_serves R V" "validateDescriptor D desc = None" "oras_repository R o' ref = Inr repo"
    and "rv_blobs V (ow_net w) (repo, d_Digest desc) = Some d" "d_MediaType desc \<noteq> MediaTypeImageManifest"
  shows "\<exists>r w'. oras_FetchBlob R D o' ref desc w = (Inr r, w') \<and> delivers r d \<and> same_view V (ow_net w) (ow_net w')"
proof -
  obtain r n' where "rm_Fetch R repo desc (ow_net w) = (Inr r, n')" "delivers r d" "same_view V (ow_net w) n'"
    using serves_Fetch [OF assms(1,4,5)] by blast
  then show ?thesis using assms(2,3) by (simp add: oras_FetchBlob_def with_repo_def on_net_def mapped_def mapErr_def)
qed

lemma Resolve_found:
  assumes "registry_serves R V" "oras_repository R o' ref = Inr repo" "rv_tags V (ow_net w) (repo, tag) = Some desc"
  shows "\<exists>w'. oras_Resolve R o' ref tag w = (Inr desc, w') \<and> same_view V (ow_net w) (ow_net w')"
proof -
  obtain n' where "rm_Resolve R repo tag (ow_net w) = (Inr desc, n')" "same_view V (ow_net w) n'"
    using serves_Resolve [OF assms(1,3)] by blast
  then show ?thesis using assms(2) by (simp add: oras_Resolve_def with_repo_def on_net_def mapped_def mapErr_def)
qed

text \<open>A client without caches and policies.\<close>

definition plain_client :: "'w oci_client \<Rightarrow> 'w Client" where
  "plain_client oci = \<lparr>cl_oci = oci, cl_refCache = None, cl_manifestCache = None, cl_indexCache = None, cl_policies = []\<rparr>"

lemma fetch_pushed:
  fixes E :: "'n oras_world reg_env"
  assumes "pushed R D V repo (cr_reference r) m idx iDesc (ow_net w)" "registry_serves R V" "digests_valid D" "re_digest E = D"
    and "\<forall>j. rm_marshal R m = Inr j \<longrightarrow> rm_unmarshal R j = Some m"
    and "parseClientRef E ref = Inr r" "oras_repository R o' ref = Inr repo" "cr_reference r \<noteq> []" "\<not> isDigest (cr_reference r)"
    and "\<And>dgst. parseBlobManifest E m dgst = Inr (bm dgst)"
  shows "\<exists>j w'. fetch_with E (plain_client (oras_client R D o')) ref False w = (Inr (bm (dl_FromBytes D ''sha256'' j)), w') \<and>
    rm_marshal R m = Inr j \<and> same_view V (ow_net w) (ow_net w')"
proof -
  obtain j where j: "rm_marshal R m = Inr j" "rv_tags V (ow_net w) (repo, cr_reference r) = Some (manifest_descriptor D j)"
    "rv_manifests V (ow_net w) (repo, dl_FromBytes D ''sha256'' j) = Some j" using assms(1) by (auto simp: pushed_def)
  obtain w1 where w1: "oras_Resolve R o' ref (cr_reference r) w = (Inr (manifest_descriptor D j), w1)" "same_view V (ow_net w) (ow_net w1)"
    using Resolve_found [OF assms(2,7) j(2)] by blast
  then have "rv_manifests V (ow_net w1) (repo, dl_FromBytes D ''sha256'' j) = Some j" using j(3) by (simp add: same_view_def)
  from FetchManifest_found [OF assms(2,3,7) this] j(1) assms(5) obtain w2 where
    w2: "oras_FetchManifest R D o' ref \<lparr>d_MediaType = [], d_Digest = dl_FromBytes D ''sha256'' j, d_Size = 0\<rparr> w1 = (Inr (m, j), w2)"
      "same_view V (ow_net w1) (ow_net w2)" by blast
  let ?c = "plain_client (oras_client R D o')"
  have "resolveDigest ?c ref (cr_reference r) False w = (Inr (dl_FromBytes D ''sha256'' j), w1)"
    using assms(9) w1 by (simp add: resolveDigest_def plain_client_def oras_client_def manifest_descriptor_def)
  moreover have "fetchManifestByDigest E ?c ref (dl_FromBytes D ''sha256'' j) False w1 = (Inr (bm (dl_FromBytes D ''sha256'' j), j, False), w2)"
    using assms(3,4,10) w2
    by (simp add: fetchManifestByDigest_def fetch_network_def descriptorFromDigest_def plain_client_def oras_client_def digests_valid_def)
  ultimately have "fetch_with E ?c ref False w = (Inr (bm (dl_FromBytes D ''sha256'' j)), w2)"
    using assms(6,8) by (simp add: fetch_with_def evaluatePolicies_def) (simp add: plain_client_def)
  with j(1) same_view_trans [OF w1(2) w2(2)] show ?thesis by blast
qed

lemma index_pushed:
  fixes E :: "'n oras_world reg_env"
  assumes "registry_serves R V" "digests_valid D" "re_digest E = D" "oras_repository R o' ref = Inr repo"
    and "bm_indexDesc bm = \<lparr>d_MediaType = MediaTypeIndex, d_Digest = dl_FromBytes D ''sha256'' idx, d_Size = int (length idx)\<rparr>"
    and "rv_blobs V (ow_net w) (repo, dl_FromBytes D ''sha256'' idx) = Some idx" "int (length idx) \<le> m" "m < MaxInt64"
  shows "\<exists>w'. fetchIndexBlob E (plain_client (oras_client R D o')) ref bm False m w = (Inr idx, w') \<and> same_view V (ow_net w) (ow_net w')"
proof -
  let ?d = "bm_indexDesc bm"
  have d: "d_Digest ?d = dl_FromBytes D ''sha256'' idx" "d_Size ?d = int (length idx)" using assms(5) by simp_all
  have "validateDescriptor D ?d = None" using assms(5) validate_sha256 [OF assms(2)] by simp
  from FetchBlob_found [OF assms(1) this assms(4)] obtain r w1 where r: "oras_FetchBlob R D o' ref ?d w = (Inr r, w1)" "delivers r idx"
    "same_view V (ow_net w) (ow_net w1)" using assms(5,6) by fastforce
  have "add_i64 m 1 = m + 1" using assms(7,8) by (intro add_i64_id) (simp_all add: MaxInt64_def)
  then have "readIndexData r (int (length idx)) m = Inr idx"
    using delivers_limit [OF r(2), of "nat (m + 1)"] delivers_ReadAll [OF r(2)] assms(7) by (simp add: readIndexData_def Let_def)
  moreover have "verifyIndexDigest E idx ?d = None" using assms(2,3) d by (simp add: verifyIndexDigest_None digests_valid_def)
  ultimately show ?thesis using r(1,3) d assms(7)
    by (simp add: fetchIndexBlob_def tryIndexCache_def plain_client_def oras_client_def)
qed

section \<open>Push, then read\<close>

text \<open>What a client without caches finds of an archive that was pushed: the manifest, the index, and the data in the registry.\<close>

lemma Push_found:
  fixes b :: "'c Blob"
  assumes "Push E (plain_client (oras_client R D o')) ref b opts w = (None, w')" "re_digest E = D"
    and "registry_keeps R V" "registry_serves R V" "digests_valid D" "\<forall>m j. rm_marshal R m = Inr j \<longrightarrow> rm_unmarshal R j = Some m"
    and "\<forall>h. Blob_DataHash b = Some h \<longrightarrow> from_bytes E (Blob_IndexData b) \<noteq> ''sha256:'' @ hex_encode h"
    and "int (length (Blob_IndexData b)) \<le> defaultMaxIndexSize" "ow_net w2 = ow_net w'"
  obtains repo bm w3 w4 where "oras_repository R o' ref = Inr repo"
    "Fetch E (plain_client (oras_client R D o')) ref [] w2 = (Inr bm, w3)"
    "fetchIndexBlob E (plain_client (oras_client R D o')) ref bm False defaultMaxIndexSize w3 = (Inr (Blob_IndexData b), w4)"
    "bm_indexDesc bm = push_index E b" "dataDescriptor E b = Inr (bm_dataDesc bm)"
    "\<forall>d. io_ReadAll (Blob_Stream b) = Inr d \<longrightarrow> rv_blobs V (ow_net w4) (repo, d_Digest (bm_dataDesc bm)) = Some d"
proof -
  let ?c = "plain_client (oras_client R D o')"
  have c: "cl_oci ?c = oras_client R D o'" by (simp add: plain_client_def)
  obtain r where r: "parseClientRef E ref = Inr r" using assms(1) by (cases "parseClientRef E ref") (simp_all add: Push_def Let_def)
  obtain u v where "oras_PushBlob R D o' ref (push_index E b) (bytes_NewReader (Blob_IndexData b)) u = (None, v)"
    using Push_steps [OF assms(1) c r] by metis
  then obtain repo where repo: "oras_repository R o' ref = Inr repo" using PushBlob_repo by metis
  obtain cfg dataDesc anns where p: "cr_reference r \<noteq> []" "\<not> isDigest (cr_reference r)" "dataDescriptor E b = Inr dataDesc"
    "pushed R D V repo (cr_reference r) (buildManifest E cfg (push_index E b) dataDesc anns) (Blob_IndexData b) (push_index E b) (ow_net w2)"
    "\<forall>d. io_ReadAll (Blob_Stream b) = Inr d \<longrightarrow> rv_blobs V (ow_net w2) (repo, d_Digest dataDesc) = Some d"
    using Push_pushed [OF assms(1) c assms(2,3) r repo assms(7)] assms(9) by metis
  let ?m = "buildManifest E cfg (push_index E b) dataDesc anns"
  have "\<forall>dgst. \<exists>bm. parseBlobManifest E ?m dgst = Inr bm \<and> bm_indexDesc bm = push_index E b \<and> bm_dataDesc bm = dataDesc"
    using parse_buildManifest [of "push_index E b" dataDesc] dataDescriptor_Inr [OF p(3)] by (fastforce simp: push_index_def)
  then obtain bm where bm: "\<And>dgst. parseBlobManifest E ?m dgst = Inr (bm dgst)" "\<And>dgst. bm_indexDesc (bm dgst) = push_index E b"
    "\<And>dgst. bm_dataDesc (bm dgst) = dataDesc" by metis
  from fetch_pushed [OF p(4) assms(4,5,2) _ r repo p(1,2) bm(1)] assms(6) obtain j w3 where
    f: "fetch_with E ?c ref False w2 = (Inr (bm (dl_FromBytes D ''sha256'' j)), w3)" "same_view V (ow_net w2) (ow_net w3)" by blast
  have i: "push_index E b = \<lparr>d_MediaType = MediaTypeIndex, d_Digest = dl_FromBytes D ''sha256'' (Blob_IndexData b),
      d_Size = int (length (Blob_IndexData b))\<rparr>" using assms(2) by (simp add: push_index_def from_bytes_def)
  have "rv_blobs V (ow_net w3) (repo, dl_FromBytes D ''sha256'' (Blob_IndexData b)) = Some (Blob_IndexData b)"
    using p(4) f(2) i by (simp add: pushed_def same_view_def)
  from index_pushed [OF assms(4,5,2) repo _ this assms(8), of "bm (dl_FromBytes D ''sha256'' j)"] bm(2) i obtain w4 where
    w4: "fetchIndexBlob E ?c ref (bm (dl_FromBytes D ''sha256'' j)) False defaultMaxIndexSize w3 = (Inr (Blob_IndexData b), w4)"
      "same_view V (ow_net w3) (ow_net w4)"
    by (auto simp: defaultMaxIndexSize_def MaxInt64_def)
  have "Fetch E ?c ref [] w2 = (Inr (bm (dl_FromBytes D ''sha256'' j)), w3)" using f(1) by (simp add: Fetch_def)
  from that [OF repo this w4(1) bm(2)] p(3,5) bm(3) f(2) w4(2) show ?thesis by (simp add: same_view_def)
qed

lemma Push_Inspect:
  fixes b :: "'c Blob"
  assumes "Push E (plain_client (oras_client R D o')) ref b opts w = (None, w')" "re_digest E = D"
    and "registry_keeps R V" "registry_serves R V" "digests_valid D" "\<forall>m j. rm_marshal R m = Inr j \<longrightarrow> rm_unmarshal R j = Some m"
    and "\<forall>h. Blob_DataHash b = Some h \<longrightarrow> from_bytes E (Blob_IndexData b) \<noteq> ''sha256:'' @ hex_encode h"
    and "int (length (Blob_IndexData b)) \<le> defaultMaxIndexSize" "ow_net w2 = ow_net w'"
  shows "\<exists>bm w''. Client_Inspect E (plain_client (oras_client R D o')) ref [] w2 =
      (Inr \<lparr>ir_Manifest = bm, ir_IndexData = Blob_IndexData b\<rparr>, w'') \<and>
    bm_indexDesc bm = push_index E b \<and> dataDescriptor E b = Inr (bm_dataDesc bm)"
  by (rule Push_found [OF assms]) (simp add: Client_Inspect_def fetch_opts_def)

subsection \<open>Pull\<close>

text \<open>The URL of a blob gives what the registry holds under its digest, to the client that authenticates for the repository.\<close>

definition registry_http :: "'n remote_lib \<Rightarrow> 'n registry_view \<Rightarrow> Oras \<Rightarrow> string \<Rightarrow> bool" where
  "registry_http R V o' ref \<longleftrightarrow>
     (\<forall>p repo dgst url content. oras_parseRef R ref = Inr p \<longrightarrow> oras_repository R o' ref = Inr repo \<longrightarrow>
        oras_BlobURL R o' ref dgst = Inr url \<longrightarrow> int (length content) < 2 ^ 63 \<longrightarrow>
        serves (\<lambda>n. rv_blobs V n (repo, dgst) = Some content) url content (rm_auth_Do R p))"

lemma serves_on_net: "serves I url content Do \<Longrightarrow> serves (\<lambda>w. I (ow_net w)) url content (\<lambda>req. on_net (Do req))"
  unfolding serves_def on_net_def by (fastforce split: prod.split)

lemma createDataSource_found:
  fixes E :: "'n oras_world reg_env"
  assumes "registry_http R V o' ref" "oras_repository R o' ref = Inr repo" "oras_BlobURL R o' ref (d_Digest (bm_dataDesc bm)) = Inr url"
    and "re_bad_url E url = None" "rv_blobs V (ow_net w) (repo, d_Digest (bm_dataDesc bm)) = Some d" "d \<noteq> []" "int (length d) < 2 ^ 63"
  shows "\<exists>s Do w'. createDataSource E (plain_client (oras_client R D o')) ref bm w = (Inr (s, Do), w') \<and>
    source_ok (http_as_source (re_bad_url E) Do w' s) \<and> ra_content (src_at (http_as_source (re_bad_url E) Do w' s)) = d"
proof -
  obtain p where p: "oras_parseRef R ref = Inr p" using assms(3) by (cases "oras_parseRef R ref") (simp_all add: oras_BlobURL_def bindE_def)
  let ?I = "\<lambda>w. rv_blobs V (ow_net w) (repo, d_Digest (bm_dataDesc bm)) = Some d" and ?Do = "\<lambda>req. on_net (rm_auth_Do R p req)"
  have serves: "serves ?I url d ?Do"
    using assms(1-3,7) p unfolding registry_http_def by (intro serves_on_net) blast
  obtain s w' where s: "http_NewSource (re_bad_url E) ?Do url [] w = (Inr s, w')" "hs_url s = url" "hs_size s = int (length d)" "?I w'"
    using http_NewSource_ok [where bad_url = "re_bad_url E" and url = url and opts = "[]" and n = w, OF serves assms(4,6,7) _ assms(5)] by auto
  have "createDataSource E (plain_client (oras_client R D o')) ref bm w = (Inr (s, ?Do), w')"
    using assms(3) p s(1) by (simp add: createDataSource_def plain_client_def oras_client_def oras_AuthClient_def bindE_def)
  moreover have "source_ok (http_as_source (re_bad_url E) ?Do w' s) \<and> ra_content (src_at (http_as_source (re_bad_url E) ?Do w' s)) = d"
    using http_source_ok [where bad_url = "re_bad_url E" and s = s and n = w', OF serves [folded s(2)] _ s(3) assms(7) s(4)] assms(4) s(2) by simp
  ultimately show ?thesis by blast
qed

lemma Push_Pull:
  fixes b :: "'c Blob" and E :: "'n oras_world reg_env"
  assumes "Push E (plain_client (oras_client R D o')) ref b opts w = (None, w')" "re_digest E = D"
    and "registry_keeps R V" "registry_serves R V" "digests_valid D" "\<forall>m j. rm_marshal R m = Inr j \<longrightarrow> rm_unmarshal R j = Some m"
    and "\<forall>h. Blob_DataHash b = Some h \<longrightarrow> from_bytes E (Blob_IndexData b) \<noteq> ''sha256:'' @ hex_encode h"
    and "int (length (Blob_IndexData b)) \<le> defaultMaxIndexSize" "ow_net w2 = ow_net w'"
    and http: "registry_http R V o' ref" "\<And>dgst url. oras_BlobURL R o' ref dgst = Inr url \<Longrightarrow> re_bad_url E url = None" "oras_parseRef R ref = Inr p"
    and data: "io_ReadAll (Blob_Stream b) = Inr d" "d \<noteq> []" "int (length d) < 2 ^ 63"
  shows "\<exists>src w''. source_ok src \<and> ra_content (src_at src) = d \<and>
    Pull E (\<lambda>s Do w. http_as_source (re_bad_url E) Do w s) (plain_client (oras_client R D o')) ref [WithBlobOptions bopts] w2 =
      (Blob_New (re_get_root E) (Blob_IndexData b) src bopts, w'')"
proof -
  obtain repo bm w3 w4 where f: "oras_repository R o' ref = Inr repo"
    "Fetch E (plain_client (oras_client R D o')) ref [] w2 = (Inr bm, w3)"
    "fetchIndexBlob E (plain_client (oras_client R D o')) ref bm False defaultMaxIndexSize w3 = (Inr (Blob_IndexData b), w4)"
    "rv_blobs V (ow_net w4) (repo, d_Digest (bm_dataDesc bm)) = Some d"
    by (rule Push_found [OF assms(1-9)]) (use data(1) in blast)
  obtain url where url: "oras_BlobURL R o' ref (d_Digest (bm_dataDesc bm)) = Inr url"
    using http(3) by (cases p) (simp add: oras_BlobURL_def bindE_def Let_def)
  obtain s Do w5 where "createDataSource E (plain_client (oras_client R D o')) ref bm w4 = (Inr (s, Do), w5)"
    "source_ok (http_as_source (re_bad_url E) Do w5 s)" "ra_content (src_at (http_as_source (re_bad_url E) Do w5 s)) = d"
    using createDataSource_found [OF http(1) f(1) url http(2) [OF url] f(4) data(2,3)] by blast
  with f show ?thesis
    by (intro exI [of _ "http_as_source (re_bad_url E) Do w5 s"] exI [of _ w5])
      (simp add: Pull_def fetch_opts_def WithBlobOptions_def bindE_def)
qed

end
