(* ===== verification/Attestations.thy ===== *)
theory Attestations
  imports OciTypes
begin

text \<open>
  What the policies share: the combinators of \<^verbatim>\<open>policy/policy.go\<close>, JSON values with the lookups that the type assertions of the
  code make, and the envelopes around attestations. \<^verbatim>\<open>encoding/json\<close> and \<^verbatim>\<open>encoding/base64\<close> are the argument \<open>J\<close>, one function for each type
  the code unmarshals.
\<close>

section \<open>Combinators\<close>

text \<open>A missing policy is \<open>None\<close>; the text of a failed policy is left out of the joined message.\<close>

fun require_all :: "nat \<Rightarrow> 'w Policy option list \<Rightarrow> 'w Policy" where
  "require_all i [] req w = (None, w)"
| "require_all i (p # ps) req w =
     (case p of
        None \<Rightarrow> require_all (i + 1) ps req w
      | Some p \<Rightarrow>
          (case p req w of
             (Some err, w) \<Rightarrow> (Some (Wrap (''policy '' @ show_nat (i + 1)) err), w)
           | (None, w) \<Rightarrow> require_all (i + 1) ps req w))"

definition RequireAll :: "'w Policy option list \<Rightarrow> 'w Policy" where
  "RequireAll policies = require_all 0 policies"

fun require_any :: "nat \<Rightarrow> 'w Policy list \<Rightarrow> 'w Policy" where
  "require_any n [] req w = (Some (Errorf ''policy: all %d policies failed: %s'' [] [int n]), w)"
| "require_any n (p # ps) req w =
     (case p req w of
        (Some err, w) \<Rightarrow> require_any n ps req w
      | (None, w) \<Rightarrow> (None, w))"

definition RequireAny :: "'w Policy option list \<Rightarrow> 'w Policy" where
  "RequireAny policies req w =
     (let validPolicies = List.map_filter (\<lambda>p. p) policies
      in if validPolicies = [] then (Some (ErrNew ''policy: RequireAny requires at least one policy''), w)
         else require_any (length validPolicies) validPolicies req w)"

section \<open>JSON\<close>

datatype json =
    JNull
  | JBool bool
  | JNum string
  | JStr string
  | JArr "json list"
  | JObj "(string \<times> json) list"

type_synonym json_map = "(string \<times> json) list"

text \<open>\<^verbatim>\<open>m[key].(map[string]any)\<close>, \<^verbatim>\<open>m[key].([]any)\<close> and \<^verbatim>\<open>m[key].(string)\<close>.\<close>

definition as_map :: "json option \<Rightarrow> json_map option" where
  "as_map v = (case v of Some (JObj m) \<Rightarrow> Some m | _ \<Rightarrow> None)"

definition as_list :: "json option \<Rightarrow> json list option" where
  "as_list v = (case v of Some (JArr l) \<Rightarrow> Some l | _ \<Rightarrow> None)"

definition as_string :: "json option \<Rightarrow> string option" where
  "as_string v = (case v of Some (JStr s) \<Rightarrow> Some s | _ \<Rightarrow> None)"

definition str_field :: "json_map \<Rightarrow> string \<Rightarrow> string" where
  "str_field m key = (case as_string (map_of m key) of Some s \<Rightarrow> s | None \<Rightarrow> [])"

section \<open>Envelopes\<close>

record dsseEnvelope =
  en_PayloadType :: string
  en_Payload :: string

record inTotoSubject =
  sb_Name :: string
  sb_Digest :: "(string \<times> string) list"

record inTotoStatement =
  st_Type :: string
  st_PredicateType :: string
  st_Subject :: "inTotoSubject list"
  st_Predicate :: "bytes option"

record ociManifest =
  om_SchemaVersion :: int
  om_Layers :: "Descriptor list"

record json_lib =
  js_bundle :: "bytes \<Rightarrow> dsseEnvelope option"
  js_envelope :: "bytes \<Rightarrow> dsseEnvelope option"
  js_statement :: "bytes \<Rightarrow> inTotoStatement option"
  js_map :: "bytes \<Rightarrow> json_map option"
  js_manifest :: "bytes \<Rightarrow> ociManifest option"
  js_base64 :: "string \<Rightarrow> bytes option"

definition DSSEPayloadType :: string where
  "DSSEPayloadType = ''application/vnd.in-toto+json''"

definition InTotoArtifactType :: string where
  "InTotoArtifactType = ''application/vnd.in-toto+json''"

definition SigstoreBundleArtifactType :: string where
  "SigstoreBundleArtifactType = ''application/vnd.dev.sigstore.bundle.v0.3+json''"

definition SLSAv1 :: string where
  "SLSAv1 = ''https://slsa.dev/provenance/v1''"

definition SLSAPredicateTypes :: "string list" where
  "SLSAPredicateTypes = [SLSAv1, ''https://slsa.dev/provenance/v0.2'']"

text \<open>A Sigstore bundle with a payload is tried first, then a plain envelope.\<close>

definition find_envelope :: "json_lib \<Rightarrow> bytes \<Rightarrow> dsseEnvelope option" where
  "find_envelope J data =
     (case js_bundle J data of
        Some env \<Rightarrow> if en_Payload env \<noteq> [] then Some env else js_envelope J data
      | None \<Rightarrow> js_envelope J data)"

definition parseOCIManifest :: "json_lib \<Rightarrow> bytes \<Rightarrow> ociManifest option" where
  "parseOCIManifest J data =
     (case js_manifest J data of
        None \<Rightarrow> None
      | Some m \<Rightarrow> if om_SchemaVersion m \<noteq> 2 then None else Some m)"

section \<open>What a policy asks for\<close>

text \<open>The states of the client between two points of an evaluation: those that its calls for the request lead to.\<close>

inductive client_run :: "'w PolicyRequest \<Rightarrow> 'w \<Rightarrow> 'w \<Rightarrow> bool" for req where
  run_refl: "client_run req w w"
| run_referrers: "client_run req w w1 \<Longrightarrow> pc_Referrers (pr_Client req) (pr_Ref req) desc artifactType w1 = (x, w2) \<Longrightarrow> client_run req w w2"
| run_fetch: "client_run req w w1 \<Longrightarrow> pc_FetchDescriptor (pr_Client req) (pr_Ref req) desc w1 = (x, w2) \<Longrightarrow> client_run req w w2"

lemma client_run_trans: "client_run req w1 w2 \<Longrightarrow> client_run req w w1 \<Longrightarrow> client_run req w w2"
  by (induction rule: client_run.induct) (auto intro: client_run.intros)

lemmas client_runs = run_refl run_referrers [OF run_refl] run_fetch [OF run_refl]

text \<open>Bytes of an attestation of the request: a referrer of its subject, listed by the client under one of the types and then fetched, or a
  layer of one that is a manifest.\<close>

definition carried :: "(bytes \<Rightarrow> Descriptor list) \<Rightarrow> 'w PolicyRequest \<Rightarrow> bytes \<Rightarrow> 'w \<Rightarrow> bytes \<Rightarrow> bool" where
  "carried layers req d w data \<longleftrightarrow>
     data = d \<or>
     (\<exists>layer\<in>set (layers d). \<exists>w1 w2. client_run req w w1 \<and> pc_FetchDescriptor (pr_Client req) (pr_Ref req) layer w1 = (Inr data, w2))"

definition referrer_data ::
  "'w PolicyRequest \<Rightarrow> string set \<Rightarrow> 'w \<Rightarrow> bytes \<Rightarrow> 'w \<Rightarrow> bool" where
  "referrer_data req types w data w' \<longleftrightarrow>
     (\<exists>artifactType\<in>types. \<exists>w1 refs w2 ref w3.
        client_run req w w1 \<and> pc_Referrers (pr_Client req) (pr_Ref req) (pr_Subject req) artifactType w1 = (Inr refs, w2) \<and>
        ref \<in> set refs \<and> client_run req w2 w3 \<and> pc_FetchDescriptor (pr_Client req) (pr_Ref req) ref w3 = (Inr data, w'))"

definition attestation_data ::
  "(bytes \<Rightarrow> Descriptor list) \<Rightarrow> 'w PolicyRequest \<Rightarrow> string set \<Rightarrow> 'w \<Rightarrow> bytes \<Rightarrow> bool" where
  "attestation_data layers req types w data \<longleftrightarrow> (\<exists>d w1. referrer_data req types w d w1 \<and> carried layers req d w1 data)"

lemma referrer_data_run: "client_run req w w1 \<Longrightarrow> referrer_data req types w1 data w' \<Longrightarrow> referrer_data req types w data w'"
  unfolding referrer_data_def by (meson client_run_trans)

lemma attestation_data_run: "client_run req w w1 \<Longrightarrow> attestation_data layers req types w1 data \<Longrightarrow> attestation_data layers req types w data"
  unfolding attestation_data_def by (meson referrer_data_run)

lemma attestation_data_mono: "attestation_data layers req types w data \<Longrightarrow> types \<subseteq> types' \<Longrightarrow> attestation_data layers req types' w data"
  unfolding attestation_data_def referrer_data_def by blast

section \<open>Properties of the combinators\<close>

lemma require_all_None:
  "require_all i ps req w = (None, w') \<Longrightarrow> Some p \<in> set ps \<Longrightarrow> \<exists>w1 w2. p req w1 = (None, w2)"
  by (induction i ps req w rule: require_all.induct) (auto split: option.splits prod.splits)

lemma require_any_None: "require_any n ps req w = (None, w') \<Longrightarrow> \<exists>p\<in>set ps. \<exists>w1. p req w1 = (None, w')"
  by (induction n ps req w rule: require_any.induct) (fastforce split: option.splits prod.splits)+

end
