(* ===== verification/PolicySlsa.thy ===== *)
theory PolicySlsa
  imports Attestations
begin

text \<open>
  \<^verbatim>\<open>policy/slsa\<close>: the policy that looks for a SLSA provenance of a manifest and validates it. A reference pattern of
  \<^verbatim>\<open>WithBranches\<close> and \<^verbatim>\<open>WithTags\<close> compiles to a regular expression in which every character stands for itself and a star for characters
  other than the slash; the model matches the pattern directly (\<open>glob_match\<close>). Logging is left out.
\<close>

section \<open>Definitions\<close>

definition Slsa_ErrNoAttestations :: err where
  "Slsa_ErrNoAttestations = ErrNew ''slsa: no attestations found''"

definition Slsa_ErrInvalidProvenance :: err where
  "Slsa_ErrInvalidProvenance = ErrNew ''slsa: invalid provenance format''"

definition Slsa_ErrBuilderMismatch :: err where
  "Slsa_ErrBuilderMismatch = ErrNew ''slsa: builder mismatch''"

definition Slsa_ErrSourceMismatch :: err where
  "Slsa_ErrSourceMismatch = ErrNew ''slsa: source repository mismatch''"

definition Slsa_ErrRefMismatch :: err where
  "Slsa_ErrRefMismatch = ErrNew ''slsa: ref mismatch''"

definition Slsa_ErrWorkflowMismatch :: err where
  "Slsa_ErrWorkflowMismatch = ErrNew ''slsa: workflow path mismatch''"

definition Slsa_ErrNoValidators :: err where
  "Slsa_ErrNoValidators = ErrNew ''slsa: at least one validator required''"

subsection \<open>Provenance\<close>

record Provenance =
  pv_PredicateType :: string
  pv_BuilderID :: string
  pv_BuildType :: string
  pv_SourceRepo :: string
  pv_SourceRef :: string
  pv_SourceDigest :: string
  pv_WorkflowPath :: string
  pv_Raw :: json_map

definition slsa_isSLSAPredicateType :: "string \<Rightarrow> bool" where
  "slsa_isSLSAPredicateType pt = list_ex (\<lambda>valid. pt = valid) SLSAPredicateTypes"

definition slsa_dependency :: "json \<Rightarrow> Provenance \<Rightarrow> Provenance" where
  "slsa_dependency dep prov =
     (case as_map (Some dep) of
        None \<Rightarrow> prov
      | Some depMap \<Rightarrow>
          (let prov = (case as_string (map_of depMap ''uri'') of
                 Some uri \<Rightarrow> if pv_SourceRepo prov = [] then prov\<lparr>pv_SourceRepo := uri\<rparr> else prov
               | None \<Rightarrow> prov)
           in case as_map (map_of depMap ''digest'') of
                None \<Rightarrow> prov
              | Some dgst \<Rightarrow>
                  (case as_string (map_of dgst ''gitCommit'') of
                     Some sha \<Rightarrow> prov\<lparr>pv_SourceDigest := sha\<rparr>
                   | None \<Rightarrow> prov)))"

definition slsa_buildDef :: "json_map \<Rightarrow> Provenance \<Rightarrow> Provenance" where
  "slsa_buildDef buildDef prov =
     (let prov = prov\<lparr>pv_BuildType := str_field buildDef ''buildType''\<rparr>;
          prov = (case as_map (map_of buildDef ''externalParameters'') of
            None \<Rightarrow> prov
          | Some extParams \<Rightarrow>
              (case as_map (map_of extParams ''workflow'') of
                 None \<Rightarrow> prov
               | Some workflow \<Rightarrow>
                   prov\<lparr>pv_SourceRepo := str_field workflow ''repository'', pv_SourceRef := str_field workflow ''ref'',
                        pv_WorkflowPath := str_field workflow ''path''\<rparr>))
      in case as_list (map_of buildDef ''resolvedDependencies'') of
           None \<Rightarrow> prov
         | Some resolvedDeps \<Rightarrow> fold slsa_dependency resolvedDeps prov)"

definition slsa_extractSLSAv1 :: "Provenance \<Rightarrow> json_map \<Rightarrow> Provenance" where
  "slsa_extractSLSAv1 prov predicate =
     (let prov = (case as_map (map_of predicate ''runDetails'') of
            None \<Rightarrow> prov
          | Some runDetails \<Rightarrow>
              (case as_map (map_of runDetails ''builder'') of
                 None \<Rightarrow> prov
               | Some builder \<Rightarrow> prov\<lparr>pv_BuilderID := str_field builder ''id''\<rparr>))
      in case as_map (map_of predicate ''buildDefinition'') of
           None \<Rightarrow> prov
         | Some buildDef \<Rightarrow> slsa_buildDef buildDef prov)"

definition slsa_material :: "json \<Rightarrow> Provenance \<Rightarrow> Provenance" where
  "slsa_material mat prov =
     (case as_map (Some mat) of
        None \<Rightarrow> prov
      | Some matMap \<Rightarrow>
          (let prov = (case as_string (map_of matMap ''uri'') of
                 Some uri \<Rightarrow> if pv_SourceRepo prov = [] then prov\<lparr>pv_SourceRepo := uri\<rparr> else prov
               | None \<Rightarrow> prov)
           in case as_map (map_of matMap ''digest'') of
                None \<Rightarrow> prov
              | Some dgst \<Rightarrow>
                  (case as_string (map_of dgst ''sha1'') of
                     Some sha \<Rightarrow> if pv_SourceDigest prov = [] then prov\<lparr>pv_SourceDigest := sha\<rparr> else prov
                   | None \<Rightarrow> prov)))"

definition slsa_configSource :: "json_map \<Rightarrow> Provenance \<Rightarrow> Provenance" where
  "slsa_configSource configSource prov =
     (let prov = prov\<lparr>pv_SourceRepo := str_field configSource ''uri''\<rparr>;
          prov = (case as_map (map_of configSource ''digest'') of
            None \<Rightarrow> prov
          | Some dgst \<Rightarrow> prov\<lparr>pv_SourceDigest := str_field dgst ''sha1''\<rparr>)
      in prov\<lparr>pv_WorkflowPath := str_field configSource ''entryPoint''\<rparr>)"

definition slsa_extractSLSAv02 :: "Provenance \<Rightarrow> json_map \<Rightarrow> Provenance" where
  "slsa_extractSLSAv02 prov predicate =
     (let prov = (case as_map (map_of predicate ''builder'') of
            None \<Rightarrow> prov
          | Some builder \<Rightarrow> prov\<lparr>pv_BuilderID := str_field builder ''id''\<rparr>);
          prov = (case as_map (map_of predicate ''invocation'') of
            None \<Rightarrow> prov
          | Some invocation \<Rightarrow>
              (case as_map (map_of invocation ''configSource'') of
                 None \<Rightarrow> prov
               | Some configSource \<Rightarrow> slsa_configSource configSource prov))
      in case as_list (map_of predicate ''materials'') of
           None \<Rightarrow> prov
         | Some materials \<Rightarrow> fold slsa_material materials prov)"

definition extractProvenance :: "string \<Rightarrow> json_map \<Rightarrow> Provenance" where
  "extractProvenance predicateType predicate =
     (let prov = \<lparr>pv_PredicateType = predicateType, pv_BuilderID = [], pv_BuildType = [], pv_SourceRepo = [], pv_SourceRef = [],
                  pv_SourceDigest = [], pv_WorkflowPath = [], pv_Raw = predicate\<rparr>
      in if predicateType = SLSAv1 then slsa_extractSLSAv1 prov predicate else slsa_extractSLSAv02 prov predicate)"

definition slsa_parseFromDSSE :: "json_lib \<Rightarrow> dsseEnvelope \<Rightarrow> Provenance res" where
  "slsa_parseFromDSSE J envelope =
     (if en_PayloadType envelope \<noteq> DSSEPayloadType
      then Inl (errWith Slsa_ErrInvalidProvenance '': unexpected payload type '' [en_PayloadType envelope])
      else case js_base64 J (en_Payload envelope) of
        None \<Rightarrow> Inl (errWith Slsa_ErrInvalidProvenance '': decode payload: '' [])
      | Some payload \<Rightarrow>
          (case js_statement J payload of
             None \<Rightarrow> Inl (errWith Slsa_ErrInvalidProvenance '': parse statement: '' [])
           | Some stmt \<Rightarrow>
               if \<not> slsa_isSLSAPredicateType (st_PredicateType stmt)
               then Inl (errWith Slsa_ErrInvalidProvenance '': unsupported predicate type '' [st_PredicateType stmt])
               else case (case st_Predicate stmt of None \<Rightarrow> Some [] | Some raw \<Rightarrow> js_map J raw) of
                 None \<Rightarrow> Inl (errWith Slsa_ErrInvalidProvenance '': parse predicate: '' [])
               | Some predicate \<Rightarrow> Inr (extractProvenance (st_PredicateType stmt) predicate)))"

definition ParseProvenance :: "json_lib \<Rightarrow> bytes \<Rightarrow> Provenance res" where
  "ParseProvenance J data =
     (case find_envelope J data of
        None \<Rightarrow> Inl (errWith Slsa_ErrInvalidProvenance '': '' [])
      | Some envelope \<Rightarrow> slsa_parseFromDSSE J envelope)"

subsection \<open>Reference patterns\<close>

fun glob_match :: "string \<Rightarrow> string \<Rightarrow> bool" where
  "glob_match [] s = (s = [])"
| "glob_match (c # p) [] = (c = CHR ''*'' \<and> glob_match p [])"
| "glob_match (c # p) (x # xs) =
     (if c = CHR ''*'' then glob_match p (x # xs) \<or> x \<noteq> slash \<and> glob_match (c # p) xs
      else x = c \<and> glob_match p xs)"

definition branch_pattern :: "string \<Rightarrow> string" where
  "branch_pattern branch = ''refs/heads/'' @ branch"

definition tag_pattern :: "string \<Rightarrow> string" where
  "tag_pattern tag = ''refs/tags/'' @ tag"

record sourceConfig =
  sc_repo :: string
  sc_ref :: string
  sc_refPatterns :: "string list"

definition WithRef :: "string \<Rightarrow> sourceConfig \<Rightarrow> sourceConfig" where
  "WithRef ref c = c\<lparr>sc_ref := ref\<rparr>"

definition WithBranches :: "string list \<Rightarrow> sourceConfig \<Rightarrow> sourceConfig" where
  "WithBranches branches c = c\<lparr>sc_refPatterns := sc_refPatterns c @ map branch_pattern branches\<rparr>"

definition Slsa_WithTags :: "string list \<Rightarrow> sourceConfig \<Rightarrow> sourceConfig" where
  "Slsa_WithTags tags c = c\<lparr>sc_refPatterns := sc_refPatterns c @ map tag_pattern tags\<rparr>"

record ghActionsConfig =
  gh_repo :: string
  gh_workflowPath :: string
  gh_refPatterns :: "string list"

definition WithWorkflowPath :: "string \<Rightarrow> ghActionsConfig \<Rightarrow> ghActionsConfig" where
  "WithWorkflowPath path c = c\<lparr>gh_workflowPath := path\<rparr>"

definition WithWorkflowBranches :: "string list \<Rightarrow> ghActionsConfig \<Rightarrow> ghActionsConfig" where
  "WithWorkflowBranches branches c = c\<lparr>gh_refPatterns := gh_refPatterns c @ map branch_pattern branches\<rparr>"

definition WithWorkflowTags :: "string list \<Rightarrow> ghActionsConfig \<Rightarrow> ghActionsConfig" where
  "WithWorkflowTags tags c = c\<lparr>gh_refPatterns := gh_refPatterns c @ map tag_pattern tags\<rparr>"

subsection \<open>The policy\<close>

record slsa_policy =
  sp_validators :: "(Provenance \<Rightarrow> err option) list"
  sp_artifactTypes :: "string list"

type_synonym slsa_option = "slsa_policy \<Rightarrow> slsa_policy res"

definition WithArtifactTypes :: "string list \<Rightarrow> slsa_option" where
  "WithArtifactTypes types p = Inr (p\<lparr>sp_artifactTypes := types\<rparr>)"

fun apply_opts :: "('p \<Rightarrow> 'p res) list \<Rightarrow> 'p \<Rightarrow> 'p res" where
  "apply_opts [] p = Inr p"
| "apply_opts (opt # opts) p = bindE (opt p) (apply_opts opts)"

definition Slsa_NewPolicy :: "slsa_option list \<Rightarrow> slsa_policy res" where
  "Slsa_NewPolicy opts =
     bindE (mapErr (Wrap ''slsa'')
        (apply_opts opts \<lparr>sp_validators = [], sp_artifactTypes = [InTotoArtifactType, SigstoreBundleArtifactType]\<rparr>)) (\<lambda>p.
       if sp_validators p = [] then Inl Slsa_ErrNoValidators else Inr p)"

definition add_validator :: "(Provenance \<Rightarrow> err option) \<Rightarrow> slsa_option" where
  "add_validator v p = Inr (p\<lparr>sp_validators := sp_validators p @ [v]\<rparr>)"

definition builder_validator :: "string \<Rightarrow> Provenance \<Rightarrow> err option" where
  "builder_validator builderID prov =
     (if pv_BuilderID prov \<noteq> builderID
      then Some (errWith Slsa_ErrBuilderMismatch '': got '' [pv_BuilderID prov, '', want '', builderID]) else None)"

definition patterns_check :: "string list \<Rightarrow> Provenance \<Rightarrow> err option" where
  "patterns_check patterns prov =
     (if length patterns > 0 \<and> \<not> list_ex (\<lambda>pattern. glob_match pattern (pv_SourceRef prov)) patterns
      then Some (errWith Slsa_ErrRefMismatch '': '' [pv_SourceRef prov, '' does not match allowed patterns'']) else None)"

definition source_validator :: "sourceConfig \<Rightarrow> Provenance \<Rightarrow> err option" where
  "source_validator cfg prov =
     (if \<not> has_prefix (pv_SourceRepo prov) (sc_repo cfg)
      then Some (errWith Slsa_ErrSourceMismatch '': got '' [pv_SourceRepo prov, '', want prefix '', sc_repo cfg])
      else if sc_ref cfg \<noteq> [] \<and> pv_SourceRef prov \<noteq> sc_ref cfg
      then Some (errWith Slsa_ErrRefMismatch '': got '' [pv_SourceRef prov, '', want '', sc_ref cfg])
      else patterns_check (sc_refPatterns cfg) prov)"

definition github_validator :: "ghActionsConfig \<Rightarrow> Provenance \<Rightarrow> err option" where
  "github_validator cfg prov =
     (let expectedRepo = ''https://github.com/'' @ gh_repo cfg
      in if \<not> has_prefix (pv_SourceRepo prov) expectedRepo
         then Some (errWith Slsa_ErrSourceMismatch '': got '' [pv_SourceRepo prov, '', want prefix '', expectedRepo])
         else if gh_workflowPath cfg \<noteq> [] \<and> pv_WorkflowPath prov \<noteq> gh_workflowPath cfg
         then Some (errWith Slsa_ErrWorkflowMismatch '': got '' [pv_WorkflowPath prov, '', want '', gh_workflowPath cfg])
         else patterns_check (gh_refPatterns cfg) prov)"

definition RequireBuilder :: "string \<Rightarrow> slsa_policy res" where
  "RequireBuilder builderID = Slsa_NewPolicy [add_validator (builder_validator builderID)]"

definition RequireSource :: "string \<Rightarrow> (sourceConfig \<Rightarrow> sourceConfig) list \<Rightarrow> slsa_policy res" where
  "RequireSource repo opts =
     (let cfg = fold (\<lambda>opt c. opt c) opts \<lparr>sc_repo = repo, sc_ref = [], sc_refPatterns = []\<rparr>
      in Slsa_NewPolicy [add_validator (source_validator cfg)])"

datatype gh_option =
    GHWorkflow "ghActionsConfig \<Rightarrow> ghActionsConfig"
  | GHPolicy slsa_option
  | GHOther

fun gh_options :: "gh_option list \<Rightarrow> ghActionsConfig \<Rightarrow> slsa_option list \<Rightarrow> (ghActionsConfig \<times> slsa_option list) res" where
  "gh_options [] cfg policyOpts = Inr (cfg, policyOpts)"
| "gh_options (GHWorkflow opt # opts) cfg policyOpts = gh_options opts (opt cfg) policyOpts"
| "gh_options (GHPolicy opt # opts) cfg policyOpts = gh_options opts cfg (policyOpts @ [opt])"
| "gh_options (GHOther # opts) cfg policyOpts = Inl (ErrNew ''slsa: unexpected option type'')"

definition GitHubActionsWorkflow :: "string \<Rightarrow> gh_option list \<Rightarrow> slsa_policy res" where
  "GitHubActionsWorkflow repo opts =
     (if repo = [] then Inl (ErrNew ''slsa: repository cannot be empty'')
      else bindE (gh_options opts \<lparr>gh_repo = repo, gh_workflowPath = [], gh_refPatterns = []\<rparr> []) (\<lambda>(cfg, policyOpts).
        Slsa_NewPolicy (add_validator (github_validator cfg) # policyOpts)))"

subsection \<open>Evaluation\<close>

fun slsa_layers :: "json_lib \<Rightarrow> 'w PolicyRequest \<Rightarrow> Descriptor list \<Rightarrow> 'w \<Rightarrow> Provenance option \<times> 'w" where
  "slsa_layers J req [] w = (None, w)"
| "slsa_layers J req (layer # layers) w =
     (case pc_FetchDescriptor (pr_Client req) (pr_Ref req) layer w of
        (Inl err, w) \<Rightarrow> slsa_layers J req layers w
      | (Inr layerData, w) \<Rightarrow>
          (case ParseProvenance J layerData of
             Inr prov \<Rightarrow> (Some prov, w)
           | Inl err \<Rightarrow> slsa_layers J req layers w))"

definition fetchProvenance :: "json_lib \<Rightarrow> 'w PolicyRequest \<Rightarrow> Descriptor \<Rightarrow> 'w \<Rightarrow> Provenance option \<times> 'w" where
  "fetchProvenance J req ref w =
     (case pc_FetchDescriptor (pr_Client req) (pr_Ref req) ref w of
        (Inl err, w) \<Rightarrow> (None, w)
      | (Inr data, w) \<Rightarrow>
          (case parseOCIManifest J data of
             Some manifest \<Rightarrow>
               if length (om_Layers manifest) > 0 then slsa_layers J req (om_Layers manifest) w
               else (case ParseProvenance J data of Inr prov \<Rightarrow> (Some prov, w) | Inl err \<Rightarrow> (None, w))
           | None \<Rightarrow> (case ParseProvenance J data of Inr prov \<Rightarrow> (Some prov, w) | Inl err \<Rightarrow> (None, w))))"

fun slsa_referrers :: "json_lib \<Rightarrow> 'w PolicyRequest \<Rightarrow> Descriptor list \<Rightarrow> 'w \<Rightarrow> Provenance list \<times> 'w" where
  "slsa_referrers J req [] w = ([], w)"
| "slsa_referrers J req (ref # refs) w =
     (case fetchProvenance J req ref w of
        (p, w) \<Rightarrow> (case slsa_referrers J req refs w of
           (ps, w) \<Rightarrow> ((case p of None \<Rightarrow> ps | Some prov \<Rightarrow> prov # ps), w)))"

fun fetchProvenances :: "json_lib \<Rightarrow> string list \<Rightarrow> 'w PolicyRequest \<Rightarrow> 'w \<Rightarrow> Provenance list res \<times> 'w" where
  "fetchProvenances J [] req w = (Inr [], w)"
| "fetchProvenances J (artifactType # types) req w =
     (case pc_Referrers (pr_Client req) (pr_Ref req) (pr_Subject req) artifactType w of
        (Inl err, w) \<Rightarrow>
          if errors_is err ErrReferrersUnsupported then (Inl (ErrNew ''slsa: registry does not support referrers API''), w)
          else fetchProvenances J types req w
      | (Inr referrers, w) \<Rightarrow>
          (case slsa_referrers J req referrers w of
             (ps, w) \<Rightarrow>
               (case fetchProvenances J types req w of
                  (Inl err, w) \<Rightarrow> (Inl err, w)
                | (Inr rest, w) \<Rightarrow> (Inr (ps @ rest), w))))"

fun validateProvenance :: "(Provenance \<Rightarrow> err option) list \<Rightarrow> Provenance \<Rightarrow> err option" where
  "validateProvenance [] prov = None"
| "validateProvenance (v # vs) prov = (case v prov of Some err \<Rightarrow> Some err | None \<Rightarrow> validateProvenance vs prov)"

fun try_provenances :: "(Provenance \<Rightarrow> err option) list \<Rightarrow> Provenance list \<Rightarrow> err option \<Rightarrow> err option" where
  "try_provenances vs [] lastErr = lastErr"
| "try_provenances vs (prov # provs) lastErr =
     (case validateProvenance vs prov of
        Some err \<Rightarrow> try_provenances vs provs (Some err)
      | None \<Rightarrow> None)"

definition Slsa_Evaluate :: "json_lib \<Rightarrow> slsa_policy \<Rightarrow> 'w Policy" where
  "Slsa_Evaluate J p req w =
     (case fetchProvenances J (sp_artifactTypes p) req w of
        (Inl err, w) \<Rightarrow> (Some err, w)
      | (Inr provenances, w) \<Rightarrow>
          if provenances = [] then (Some Slsa_ErrNoAttestations, w)
          else (try_provenances (sp_validators p) provenances None, w))"

section \<open>Patterns\<close>

text \<open>A star does not cross a slash: the matched reference has as many slashes as the pattern.\<close>

lemma glob_match_slashes: "glob_match p s \<Longrightarrow> count_list s slash = count_list p slash"
  by (induction p s rule: glob_match.induct) (auto split: if_splits list.splits)

lemma glob_match_literal: "CHR ''*'' \<notin> set p \<Longrightarrow> glob_match p s \<longleftrightarrow> s = p"
  by (induction p s rule: glob_match.induct) (auto split: list.splits)

section \<open>Evaluation\<close>

lemma validateProvenance_None: "validateProvenance vs prov = None \<longleftrightarrow> (\<forall>v\<in>set vs. v prov = None)"
  by (induction vs) (auto split: option.splits)

lemma try_provenances_None:
  "try_provenances vs ps e = None \<longleftrightarrow> (\<exists>prov\<in>set ps. validateProvenance vs prov = None) \<or> ps = [] \<and> e = None"
  by (induction vs ps e rule: try_provenances.induct) (auto split: option.splits)

text \<open>
  Where a provenance comes from: bytes that the client fetched, in this evaluation, for a referrer of the subject of the request, or
  for a layer of such a referrer.
\<close>

definition slsa_manifest_layers :: "json_lib \<Rightarrow> bytes \<Rightarrow> Descriptor list" where
  "slsa_manifest_layers J data = (case parseOCIManifest J data of Some m \<Rightarrow> om_Layers m | None \<Rightarrow> [])"

definition attested :: "json_lib \<Rightarrow> string set \<Rightarrow> 'w PolicyRequest \<Rightarrow> 'w \<Rightarrow> Provenance \<Rightarrow> bool" where
  "attested J types req w prov \<longleftrightarrow>
     (\<exists>data. attestation_data (slsa_manifest_layers J) req types w data \<and> ParseProvenance J data = Inr prov)"

lemma attested_run: "client_run req w w1 \<Longrightarrow> attested J types req w1 prov \<Longrightarrow> attested J types req w prov"
  unfolding attested_def by (meson attestation_data_run)

lemma attested_mono: "attested J types req w prov \<Longrightarrow> types \<subseteq> types' \<Longrightarrow> attested J types' req w prov"
  unfolding attested_def by (meson attestation_data_mono)

lemma slsa_layers_run:
  "slsa_layers J req ls w = (r, w') \<Longrightarrow>
   client_run req w w' \<and> (\<forall>prov. r = Some prov \<longrightarrow> (\<exists>layer\<in>set ls. \<exists>w1 data w2. client_run req w w1 \<and>
      pc_FetchDescriptor (pr_Client req) (pr_Ref req) layer w1 = (Inr data, w2) \<and> ParseProvenance J data = Inr prov))"
proof (induction ls arbitrary: w)
  case (Cons l ls)
  obtain x w1 where x: "pc_FetchDescriptor (pr_Client req) (pr_Ref req) l w = (x, w1)" by (metis prod.exhaust)
  then have run: "client_run req w w1" by (rule client_runs)
  show ?case
  proof (cases "slsa_layers J req ls w1 = (r, w')")
    case True
    note IH = Cons.IH [OF True]
    have "\<exists>layer\<in>set (l # ls). \<exists>w1 data w2. client_run req w w1 \<and>
        pc_FetchDescriptor (pr_Client req) (pr_Ref req) layer w1 = (Inr data, w2) \<and> ParseProvenance J data = Inr prov" if r: "r = Some prov" for prov
    proof -
      from IH r obtain layer w2 data w3 where l: "layer \<in> set ls" "client_run req w1 w2"
        "pc_FetchDescriptor (pr_Client req) (pr_Ref req) layer w2 = (Inr data, w3)" "ParseProvenance J data = Inr prov" by blast
      from client_run_trans [OF l(2) run] l show ?thesis by (intro bexI [of _ layer] exI conjI) auto
    qed
    with IH client_run_trans [OF _ run] show ?thesis by blast
  next
    case False
    with Cons.prems x obtain data prov where "x = Inr data" "ParseProvenance J data = Inr prov" "r = Some prov" "w' = w1"
      by (auto split: sum.splits)
    with x run show ?thesis using run_refl by fastforce
  qed
qed (auto intro: client_runs)

lemma fetchProvenance_run:
  assumes "fetchProvenance J req ref w = (r, w')"
  shows "client_run req w w' \<and> (\<forall>prov. r = Some prov \<longrightarrow> (\<exists>data w1. pc_FetchDescriptor (pr_Client req) (pr_Ref req) ref w = (Inr data, w1) \<and>
    (ParseProvenance J data = Inr prov \<or> (\<exists>layer\<in>set (slsa_manifest_layers J data). \<exists>w2 d w3. client_run req w1 w2 \<and>
      pc_FetchDescriptor (pr_Client req) (pr_Ref req) layer w2 = (Inr d, w3) \<and> ParseProvenance J d = Inr prov))))"
proof -
  obtain x w1 where x: "pc_FetchDescriptor (pr_Client req) (pr_Ref req) ref w = (x, w1)" by (metis prod.exhaust)
  then have run: "client_run req w w1" by (rule client_runs)
  show ?thesis
  proof (cases "\<exists>data m. x = Inr data \<and> parseOCIManifest J data = Some m \<and> om_Layers m \<noteq> []")
    case True
    then obtain data m where m: "x = Inr data" "parseOCIManifest J data = Some m" "om_Layers m \<noteq> []" by blast
    with assms x have "slsa_layers J req (om_Layers m) w1 = (r, w')" by (simp add: fetchProvenance_def)
    note layers = slsa_layers_run [OF this]
    have ls: "slsa_manifest_layers J data = om_Layers m" using m(2) by (simp add: slsa_manifest_layers_def)
    have "client_run req w w'" using layers client_run_trans [OF _ run] by blast
    moreover have "pc_FetchDescriptor (pr_Client req) (pr_Ref req) ref w = (Inr data, w1)" using x m(1) by simp
    ultimately show ?thesis using layers unfolding ls [symmetric] by blast
  next
    case False
    then have "w' = w1 \<and> (\<forall>prov. r = Some prov \<longrightarrow> (\<exists>data. x = Inr data \<and> ParseProvenance J data = Inr prov))"
      using assms x by (auto simp: fetchProvenance_def split: sum.splits option.splits if_splits)
    with run x show ?thesis by auto
  qed
qed

lemma slsa_referrers_run:
  "slsa_referrers J req refs w = (ps, w') \<Longrightarrow>
   client_run req w w' \<and> (\<forall>prov\<in>set ps. \<exists>ref\<in>set refs. \<exists>w1 w2. client_run req w w1 \<and> fetchProvenance J req ref w1 = (Some prov, w2))"
proof (induction refs arbitrary: w ps w')
  case (Cons ref refs)
  obtain x w1 where x: "fetchProvenance J req ref w = (x, w1)" by (metis prod.exhaust)
  obtain qs w2 where q: "slsa_referrers J req refs w1 = (qs, w2)" by (metis prod.exhaust)
  have run: "client_run req w w1" using fetchProvenance_run [OF x] by blast
  have "ps = (case x of None \<Rightarrow> qs | Some prov \<Rightarrow> prov # qs)" "w' = w2" using Cons.prems x q by (auto split: option.splits)
  moreover note Cons.IH [OF q]
  ultimately show ?case using x run client_run_trans [OF _ run] run_refl [of req w]
    by (auto split: option.splits)
qed (auto intro: client_runs)

lemma slsa_referrers_attested:
  assumes "pc_Referrers (pr_Client req) (pr_Ref req) (pr_Subject req) artifactType w = (Inr refs, w1)"
    and "slsa_referrers J req refs w1 = (ps, w2)" "prov \<in> set ps"
  shows "attested J {artifactType} req w prov"
proof -
  obtain ref w3 w4 where ref: "ref \<in> set refs" "client_run req w1 w3" "fetchProvenance J req ref w3 = (Some prov, w4)"
    using slsa_referrers_run [OF assms(2)] assms(3) by blast
  obtain data w5 where d: "pc_FetchDescriptor (pr_Client req) (pr_Ref req) ref w3 = (Inr data, w5)"
    "ParseProvenance J data = Inr prov \<or> (\<exists>layer\<in>set (slsa_manifest_layers J data). \<exists>w2 d w3. client_run req w5 w2 \<and>
      pc_FetchDescriptor (pr_Client req) (pr_Ref req) layer w2 = (Inr d, w3) \<and> ParseProvenance J d = Inr prov)"
    using fetchProvenance_run [OF ref(3)] by blast
  have "referrer_data req {artifactType} w data w5"
    using assms(1) ref(1,2) d(1) run_refl [of req w] unfolding referrer_data_def by blast
  moreover obtain u where "carried (slsa_manifest_layers J) req data w5 u" "ParseProvenance J u = Inr prov"
    using d(2) unfolding carried_def by blast
  ultimately show ?thesis unfolding attested_def attestation_data_def by blast
qed

lemma fetchProvenances_attested:
  "fetchProvenances J types req w = (r, w') \<Longrightarrow> r = Inr ps \<Longrightarrow> prov \<in> set ps \<Longrightarrow> attested J (set types) req w prov"
proof (induction types arbitrary: w r ps)
  case (Cons t types)
  obtain x w1 where x: "pc_Referrers (pr_Client req) (pr_Ref req) (pr_Subject req) t w = (x, w1)" by (metis prod.exhaust)
  then have run: "client_run req w w1" by (rule client_runs)
  have rest: "attested J (set (t # types)) req w prov" if "client_run req w w2" "fetchProvenances J types req w2 = (Inr qs, w')" "prov \<in> set qs" for w2 qs
    by (rule attested_run [OF that(1) attested_mono [OF Cons.IH [OF that(2) refl that(3)]]]) auto
  show ?case
  proof (cases x)
    case (Inl err)
    with Cons.prems x run rest show ?thesis by (auto split: if_splits)
  next
    case (Inr refs)
    obtain qs w2 where q: "slsa_referrers J req refs w1 = (qs, w2)" by (metis prod.exhaust)
    have run2: "client_run req w w2" using slsa_referrers_run [OF q] client_run_trans [OF _ run] by blast
    obtain y w3 where y: "fetchProvenances J types req w2 = (y, w3)" by (metis prod.exhaust)
    with Cons.prems x Inr q obtain us where us: "y = Inr us" "ps = qs @ us" "w3 = w'" by (cases y) auto
    show ?thesis
    proof (cases "prov \<in> set qs")
      case True
      from slsa_referrers_attested [OF x [unfolded Inr] q True] show ?thesis by (rule attested_mono) simp
    next
      case False
      with rest [OF run2] y us Cons.prems show ?thesis by auto
    qed
  qed
qed simp

lemma Slsa_Evaluate_None:
  assumes "Slsa_Evaluate J p req w = (None, w')"
  shows "\<exists>prov. attested J (set (sp_artifactTypes p)) req w prov \<and> (\<forall>v\<in>set (sp_validators p). v prov = None)"
proof -
  obtain x w1 where x: "fetchProvenances J (sp_artifactTypes p) req w = (x, w1)" by (metis prod.exhaust)
  with assms obtain ps where ps: "x = Inr ps" "ps \<noteq> []" "try_provenances (sp_validators p) ps None = None"
    by (cases x) (auto simp: Slsa_Evaluate_def split: if_splits)
  then obtain prov where "prov \<in> set ps" "\<forall>v\<in>set (sp_validators p). v prov = None"
    by (auto simp: try_provenances_None validateProvenance_None)
  with fetchProvenances_attested [OF x ps(1)] show ?thesis by blast
qed

lemma patterns_check_None: "patterns_check ps prov = None \<longleftrightarrow> ps = [] \<or> (\<exists>p\<in>set ps. glob_match p (pv_SourceRef prov))"
  by (auto simp: patterns_check_def list_ex_iff)

lemma source_validator_None:
  "source_validator cfg prov = None \<longleftrightarrow>
   prefix (sc_repo cfg) (pv_SourceRepo prov) \<and> (sc_ref cfg = [] \<or> pv_SourceRef prov = sc_ref cfg) \<and>
   (sc_refPatterns cfg = [] \<or> (\<exists>p\<in>set (sc_refPatterns cfg). glob_match p (pv_SourceRef prov)))"
  by (auto simp: source_validator_def patterns_check_None has_prefix_iff)

end
