(* ===== verification/PolicyOpa.thy ===== *)
theory PolicyOpa
  imports PolicySlsa
begin

text \<open>
  \<^verbatim>\<open>policy/opa\<close>: the policy that hands the attestations of a manifest to a Rego query. The prepared query is a function of the
  input; its result set is the list of the values of the expressions of each result. Logging is left out.
\<close>

section \<open>Definitions\<close>

definition Opa_ErrNoPolicy :: err where
  "Opa_ErrNoPolicy = ErrNew ''opa: no policy provided''"

definition Opa_ErrNoAttestations :: err where
  "Opa_ErrNoAttestations = ErrNew ''opa: no attestations found for manifest''"

definition Opa_ErrPolicyDenied :: err where
  "Opa_ErrPolicyDenied = ErrNew ''opa: policy denied''"

definition Opa_ErrPolicyEvaluation :: err where
  "Opa_ErrPolicyEvaluation = ErrNew ''opa: policy evaluation failed''"

definition Opa_ErrInvalidAttestation :: err where
  "Opa_ErrInvalidAttestation = ErrNew ''opa: invalid attestation format''"

record AttestationInput =
  at_Type :: string
  at_PredicateType :: string
  at_Subject :: "inTotoSubject list"
  at_Predicate :: json_map

record ManifestInput =
  mi_Reference :: string
  mi_Digest :: string
  mi_MediaType :: string

record opa_input =
  oi_Manifest :: ManifestInput
  oi_Attestations :: "AttestationInput list"

type_synonym rego_query = "opa_input \<Rightarrow> json list list res"

record opa_policy =
  op_query :: "rego_query option"
  op_artifactType :: string
  op_predicateTypes :: "string list"

type_synonym opa_option = "opa_policy \<Rightarrow> opa_policy res"

text \<open>\<open>prepare\<close> is \<^verbatim>\<open>PrepareForEval\<close> of the Rego source, \<open>read\<close> reads a file.\<close>

definition WithPolicy :: "(string \<Rightarrow> rego_query res) \<Rightarrow> string \<Rightarrow> opa_option" where
  "WithPolicy prepare regoSource p = bindE (prepare regoSource) (\<lambda>query. Inr (p\<lparr>op_query := Some query\<rparr>))"

definition WithPolicyFile :: "(string \<Rightarrow> rego_query res) \<Rightarrow> (string \<Rightarrow> bytes res) \<Rightarrow> string \<Rightarrow> opa_option" where
  "WithPolicyFile prepare read path p = bindE (read path) (\<lambda>data. WithPolicy prepare (of_bytes data) p)"

definition WithArtifactType :: "string \<Rightarrow> opa_option" where
  "WithArtifactType artifactType p = Inr (p\<lparr>op_artifactType := artifactType\<rparr>)"

definition WithPredicateTypes :: "string list \<Rightarrow> opa_option" where
  "WithPredicateTypes types p = Inr (p\<lparr>op_predicateTypes := types\<rparr>)"

definition Opa_NewPolicy :: "opa_option list \<Rightarrow> opa_policy res" where
  "Opa_NewPolicy opts =
     bindE (mapErr (Wrap ''opa'')
        (apply_opts opts \<lparr>op_query = None, op_artifactType = InTotoArtifactType, op_predicateTypes = SLSAPredicateTypes\<rparr>)) (\<lambda>p.
       if op_query p = None then Inl Opa_ErrNoPolicy else Inr p)"

subsection \<open>Attestations\<close>

definition parseDSSEEnvelope :: "json_lib \<Rightarrow> dsseEnvelope \<Rightarrow> AttestationInput res" where
  "parseDSSEEnvelope J envelope =
     (if en_PayloadType envelope \<noteq> DSSEPayloadType
      then Inl (errWith Opa_ErrInvalidAttestation '': unexpected payload type '' [en_PayloadType envelope, '', expected '', DSSEPayloadType])
      else case js_base64 J (en_Payload envelope) of
        None \<Rightarrow> Inl (errWith Opa_ErrInvalidAttestation '': failed to decode payload: '' [])
      | Some payload \<Rightarrow>
          (case js_statement J payload of
             None \<Rightarrow> Inl (errWith Opa_ErrInvalidAttestation '': failed to parse in-toto statement: '' [])
           | Some stmt \<Rightarrow>
               (case (case st_Predicate stmt of None \<Rightarrow> Some [] | Some raw \<Rightarrow> js_map J raw) of
                  None \<Rightarrow> Inl (errWith Opa_ErrInvalidAttestation '': failed to parse predicate: '' [])
                | Some predicate \<Rightarrow>
                    Inr \<lparr>at_Type = st_Type stmt, at_PredicateType = st_PredicateType stmt, at_Subject = st_Subject stmt,
                         at_Predicate = predicate\<rparr>)))"

definition parseAttestation :: "json_lib \<Rightarrow> bytes \<Rightarrow> AttestationInput res" where
  "parseAttestation J data =
     (case find_envelope J data of
        None \<Rightarrow> Inl (errWith Opa_ErrInvalidAttestation '': failed to parse DSSE envelope: '' [])
      | Some envelope \<Rightarrow> parseDSSEEnvelope J envelope)"

definition matchesPredicateType :: "AttestationInput \<Rightarrow> string list \<Rightarrow> bool" where
  "matchesPredicateType att acceptedTypes \<longleftrightarrow> acceptedTypes = [] \<or> at_PredicateType att \<in> set acceptedTypes"

fun fetchAttestationsFromLayers :: "json_lib \<Rightarrow> 'w PolicyRequest \<Rightarrow> Descriptor list \<Rightarrow> 'w \<Rightarrow> AttestationInput list \<times> 'w" where
  "fetchAttestationsFromLayers J req [] w = ([], w)"
| "fetchAttestationsFromLayers J req (layer # layers) w =
     (case pc_FetchDescriptor (pr_Client req) (pr_Ref req) layer w of
        (Inl err, w) \<Rightarrow> fetchAttestationsFromLayers J req layers w
      | (Inr data, w) \<Rightarrow>
          (case parseAttestation J data of
             Inl err \<Rightarrow> fetchAttestationsFromLayers J req layers w
           | Inr att \<Rightarrow>
               (case fetchAttestationsFromLayers J req layers w of (atts, w) \<Rightarrow> (att # atts, w))))"

definition fetchAttestationFromReferrer :: "json_lib \<Rightarrow> 'w PolicyRequest \<Rightarrow> Descriptor \<Rightarrow> 'w \<Rightarrow> AttestationInput list \<times> 'w" where
  "fetchAttestationFromReferrer J req ref w =
     (case pc_FetchDescriptor (pr_Client req) (pr_Ref req) ref w of
        (Inl err, w) \<Rightarrow> ([], w)
      | (Inr data, w) \<Rightarrow>
          (let whole = (case parseAttestation J data of Inl err \<Rightarrow> ([], w) | Inr att \<Rightarrow> ([att], w))
           in case parseOCIManifest J data of
                Some manifest \<Rightarrow>
                  if length (om_Layers manifest) > 0 then fetchAttestationsFromLayers J req (om_Layers manifest) w else whole
              | None \<Rightarrow> whole))"

fun fetchAttestations :: "json_lib \<Rightarrow> opa_policy \<Rightarrow> 'w PolicyRequest \<Rightarrow> Descriptor list \<Rightarrow> 'w \<Rightarrow> AttestationInput list \<times> 'w" where
  "fetchAttestations J p req [] w = ([], w)"
| "fetchAttestations J p req (ref # refs) w =
     (case fetchAttestationFromReferrer J req ref w of
        (atts, w) \<Rightarrow>
          (case fetchAttestations J p req refs w of
             (rest, w) \<Rightarrow> (filter (\<lambda>att. matchesPredicateType att (op_predicateTypes p)) atts @ rest, w)))"

subsection \<open>The decision\<close>

definition collectDenyReasons :: "json list \<Rightarrow> string list" where
  "collectDenyReasons denySet = List.map_filter (\<lambda>d. as_string (Some d)) denySet"

definition checkDenyRules :: "json_map \<Rightarrow> err option" where
  "checkDenyRules result =
     (case map_of result ''deny'' of
        None \<Rightarrow> None
      | Some deny \<Rightarrow>
          (case as_list (Some deny) of
             None \<Rightarrow> None
           | Some denySet \<Rightarrow>
               if denySet = [] then None
               else
                 let reasons = collectDenyReasons denySet
                 in if length reasons > 0 then Some (errWith Opa_ErrPolicyDenied '': '' reasons) else Some Opa_ErrPolicyDenied))"

definition checkPolicyResult :: "json_map \<Rightarrow> err option" where
  "checkPolicyResult result =
     (case checkDenyRules result of
        Some err \<Rightarrow> Some err
      | None \<Rightarrow> if map_of result ''allow'' = Some (JBool True) then None else Some Opa_ErrPolicyDenied)"

text \<open>A result without expressions would make the code panic; it is an error of the model.\<close>

definition evaluatePolicy :: "rego_query \<Rightarrow> opa_input \<Rightarrow> err option" where
  "evaluatePolicy query input =
     (case query input of
        Inl err \<Rightarrow> Some (errWith Opa_ErrPolicyEvaluation '': '' [])
      | Inr [] \<Rightarrow> Some (errWith Opa_ErrPolicyEvaluation '': no results from policy evaluation'' [])
      | Inr ([] # rs) \<Rightarrow> Some (ErrNew ''panic: index out of range'')
      | Inr ((val # vals) # rs) \<Rightarrow>
          (case as_map (Some val) of
             None \<Rightarrow> Some (errWith Opa_ErrPolicyEvaluation '': unexpected result type'' [])
           | Some result \<Rightarrow> checkPolicyResult result))"

definition opa_request :: "'w PolicyRequest \<Rightarrow> AttestationInput list \<Rightarrow> opa_input" where
  "opa_request req attestations =
     \<lparr>oi_Manifest = \<lparr>mi_Reference = pr_Ref req, mi_Digest = pr_Digest req, mi_MediaType = d_MediaType (pr_Subject req)\<rparr>,
      oi_Attestations = attestations\<rparr>"

definition Opa_Evaluate :: "json_lib \<Rightarrow> opa_policy \<Rightarrow> rego_query \<Rightarrow> 'w Policy" where
  "Opa_Evaluate J p query req w =
     (case pc_Referrers (pr_Client req) (pr_Ref req) (pr_Subject req) (op_artifactType p) w of
        (Inl err, w) \<Rightarrow>
          (Some (if errors_is err ErrReferrersUnsupported then ErrNew ''opa: registry does not support referrers API''
                 else Wrap ''opa: list referrers'' err), w)
      | (Inr referrers, w) \<Rightarrow>
          (case fetchAttestations J p req referrers w of
             (attestations, w) \<Rightarrow>
               if attestations = [] then (Some Opa_ErrNoAttestations, w)
               else (evaluatePolicy query (opa_request req attestations), w)))"

section \<open>The decision\<close>

lemma checkPolicyResult_None:
  "checkPolicyResult result = None \<longleftrightarrow>
   map_of result ''allow'' = Some (JBool True) \<and> (\<forall>d ds. map_of result ''deny'' \<noteq> Some (JArr (d # ds)))"
  by (auto simp: checkPolicyResult_def checkDenyRules_def as_list_def Let_def neq_Nil_conv
      split: option.splits json.splits if_splits)

lemma evaluatePolicy_None:
  "evaluatePolicy query input = None \<longleftrightarrow>
   (\<exists>result vals rs. query input = Inr ((JObj result # vals) # rs) \<and> checkPolicyResult result = None)"
  by (auto simp: evaluatePolicy_def as_map_def split: sum.splits list.splits option.splits json.splits)

text \<open>The attestations the query sees were fetched for the request and have an accepted predicate type.\<close>

definition opa_fetched :: "json_lib \<Rightarrow> 'w PolicyRequest \<Rightarrow> AttestationInput \<Rightarrow> bool" where
  "opa_fetched J req att \<longleftrightarrow>
     (\<exists>desc w data w'. pc_FetchDescriptor (pr_Client req) (pr_Ref req) desc w = (Inr data, w') \<and> parseAttestation J data = Inr att)"

lemma opa_fetchedI:
  "pc_FetchDescriptor (pr_Client req) (pr_Ref req) desc w = (Inr data, w') \<Longrightarrow> parseAttestation J data = Inr att \<Longrightarrow>
   opa_fetched J req att"
  unfolding opa_fetched_def by blast

lemma layers_fetched:
  "fetchAttestationsFromLayers J req ls w = (atts, w') \<Longrightarrow> att \<in> set atts \<Longrightarrow> opa_fetched J req att"
  by (induction J req ls w arbitrary: atts w' rule: fetchAttestationsFromLayers.induct)
    (auto split: prod.splits sum.splits intro: opa_fetchedI)

lemma referrer_fetched:
  "fetchAttestationFromReferrer J req ref w = (atts, w') \<Longrightarrow> att \<in> set atts \<Longrightarrow> opa_fetched J req att"
  by (auto simp: fetchAttestationFromReferrer_def Let_def split: prod.splits sum.splits option.splits if_splits
      intro: opa_fetchedI layers_fetched)

lemma fetchAttestations_attested:
  "fetchAttestations J p req refs w = (atts, w') \<Longrightarrow> att \<in> set atts \<Longrightarrow>
   opa_fetched J req att \<and> matchesPredicateType att (op_predicateTypes p)"
  by (induction J p req refs w arbitrary: atts w' rule: fetchAttestations.induct)
    (auto split: prod.splits intro: referrer_fetched)

end
