(* ===== verification/GittufCache.thy ===== *)
theory GittufCache
  imports RegistryCache
begin

text \<open>
  \<^verbatim>\<open>policy/gittuf/cache.go\<close>: the cache of cloned repositories, one directory for each repository with the clone and a metadata file,
  with expiry and eviction. The gittuf library, which clones a repository into a directory and opens a clone, and the JSON coder are the
  argument \<open>L\<close>; both work on the file system of the model. Errors that the code ignores are ignored here. The mutex makes each
  operation one step; the time is the clock of the file system.
\<close>

section \<open>Definitions\<close>

text \<open>\<^verbatim>\<open>os.WriteFile\<close> with mode 0600, and \<^verbatim>\<open>os.ReadDir\<close>: the names in a directory and whether they are directories, sorted. A
  directory is listed when a file lies below it; a clone is never empty.\<close>

definition os_WriteFile :: "string \<Rightarrow> bytes \<Rightarrow> fsys \<Rightarrow> err option \<times> fsys" where
  "os_WriteFile p d s =
     (case os_CreateTrunc p s of
        (Some err, s) \<Rightarrow> (Some err, s)
      | (None, s) \<Rightarrow>
          (case os_Write p d s of ((n, err), s) \<Rightarrow>
             (case os_Close s of (err1, s) \<Rightarrow> (if err = None then err1 else err, s))))"

definition rel_name :: "string \<Rightarrow> string \<Rightarrow> string" where
  "rel_name dir p = (if dir = ''.'' then p else if dir = ''/'' then drop 1 p else drop (length dir + 1) p)"

definition dir_entries :: "string \<Rightarrow> fsys \<Rightarrow> (string \<times> bool) list" where
  "dir_entries dir s =
     sort (remdups (map (\<lambda>(p, n). let rest = rel_name dir p in (takeWhile (\<lambda>c. c \<noteq> slash) rest, slash \<in> set rest)) (walk_files dir s)))"

definition os_ReadDir :: "string \<Rightarrow> fsys \<Rightarrow> (string \<times> bool) list res \<times> fsys" where
  "os_ReadDir dir s =
     (case pop_fault s of
        (Some (k, e), s) \<Rightarrow> (Inl e, s)
      | (None, s) \<Rightarrow> if is_dir s dir then (Inr (dir_entries dir s), s) else (Inl ErrNotExist, s))"

record RepositoryCache =
  rc_baseDir :: string
  rc_ttl :: i64
  rc_maxEntries :: int

record cacheMetadata =
  cm_LastUsed :: int
  cm_RepoURL :: string

record 'r repo_lib =
  rl_Load :: "string \<Rightarrow> fsys \<Rightarrow> 'r res \<times> fsys"
  rl_Clone :: "string \<Rightarrow> string \<Rightarrow> fsys \<Rightarrow> 'r res \<times> fsys"
  rl_marshal :: "cacheMetadata \<Rightarrow> bytes res"
  rl_unmarshal :: "bytes \<Rightarrow> cacheMetadata option"

definition WithCacheBaseDir :: "string \<Rightarrow> RepositoryCache \<Rightarrow> RepositoryCache" where
  "WithCacheBaseDir dir c = c\<lparr>rc_baseDir := dir\<rparr>"

definition WithCacheTTLOption :: "i64 \<Rightarrow> RepositoryCache \<Rightarrow> RepositoryCache" where
  "WithCacheTTLOption ttl c = c\<lparr>rc_ttl := ttl\<rparr>"

definition WithCacheMaxEntries :: "int \<Rightarrow> RepositoryCache \<Rightarrow> RepositoryCache" where
  "WithCacheMaxEntries maxEntries c = c\<lparr>rc_maxEntries := maxEntries\<rparr>"

text \<open>The home directory and the directory for temporary files are those of the process.\<close>

definition DefaultCache :: "string res \<Rightarrow> string \<Rightarrow> RepositoryCache" where
  "DefaultCache userHome tempDir =
     (let home = (case userHome of Inl err \<Rightarrow> tempDir | Inr home \<Rightarrow> home)
      in \<lparr>rc_baseDir = join_path home ''.cache/blob/gittuf'', rc_ttl = 3600 * 10 ^ 9, rc_maxEntries = 10\<rparr>)"

definition NewRepositoryCache :: "string res \<Rightarrow> string \<Rightarrow> (RepositoryCache \<Rightarrow> RepositoryCache) list \<Rightarrow> RepositoryCache" where
  "NewRepositoryCache userHome tempDir opts = fold (\<lambda>opt c. opt c) opts (DefaultCache userHome tempDir)"

definition hashURL :: "(bytes \<Rightarrow> bytes) \<Rightarrow> string \<Rightarrow> string" where
  "hashURL sha256 url = take 16 (hex_encode (sha256 (to_bytes url)))"

definition entry_dir :: "(bytes \<Rightarrow> bytes) \<Rightarrow> RepositoryCache \<Rightarrow> string \<Rightarrow> string" where
  "entry_dir sha256 c repoURL = join_path (rc_baseDir c) (hashURL sha256 repoURL)"

definition isValidCache :: "'r repo_lib \<Rightarrow> RepositoryCache \<Rightarrow> string \<Rightarrow> fsys \<Rightarrow> bool \<times> fsys" where
  "isValidCache L c metaPath s =
     (case os_ReadFile metaPath s of
        (Inl err, s) \<Rightarrow> (False, s)
      | (Inr data, s) \<Rightarrow>
          (case rl_unmarshal L data of
             None \<Rightarrow> (False, s)
           | Some meta \<Rightarrow> (fs_clock s - cm_LastUsed meta < rc_ttl c, s)))"

definition updateMetadata :: "'r repo_lib \<Rightarrow> string \<Rightarrow> string \<Rightarrow> fsys \<Rightarrow> fsys" where
  "updateMetadata L metaPath repoURL s =
     (case rl_marshal L \<lparr>cm_LastUsed = fs_clock s, cm_RepoURL = repoURL\<rparr> of
        Inl err \<Rightarrow> s
      | Inr data \<Rightarrow> snd (os_WriteFile metaPath data s))"

subsection \<open>Eviction\<close>

fun entry_infos :: "'r repo_lib \<Rightarrow> RepositoryCache \<Rightarrow> (string \<times> bool) list \<Rightarrow> fsys \<Rightarrow> (string \<times> int) list \<times> fsys" where
  "entry_infos L c [] s = ([], s)"
| "entry_infos L c ((name, isDir) # entries) s =
     (if \<not> isDir then entry_infos L c entries s
      else case os_ReadFile (join_path (join_path (rc_baseDir c) name) ''.metadata'') s of
        (Inl err, s) \<Rightarrow> entry_infos L c entries s
      | (Inr data, s) \<Rightarrow>
          (case rl_unmarshal L data of
             None \<Rightarrow> entry_infos L c entries s
           | Some meta \<Rightarrow>
               (case entry_infos L c entries s of
                  (infos, s) \<Rightarrow> ((join_path (rc_baseDir c) name, cm_LastUsed meta) # infos, s))))"

text \<open>The loop that removes the first of the sorted entries. On an empty slice \<^verbatim>\<open>infos[0]\<close> panics, which is the error of the
  model.\<close>

fun evict_infos :: "int \<Rightarrow> (string \<times> int) list \<Rightarrow> fsys \<Rightarrow> err option \<times> fsys" where
  "evict_infos maxEntries [] s = (if 0 > maxEntries then Some (ErrNew ''panic: index out of range'') else None, s)"
| "evict_infos maxEntries ((path, lastUsed) # infos) s =
     (if int (length ((path, lastUsed) # infos)) > maxEntries then evict_infos maxEntries infos (snd (os_RemoveAll path s)) else (None, s))"

definition evictOldEntries :: "'r repo_lib \<Rightarrow> RepositoryCache \<Rightarrow> fsys \<Rightarrow> err option \<times> fsys" where
  "evictOldEntries L c s =
     (case os_ReadDir (rc_baseDir c) s of
        (Inl err, s) \<Rightarrow> (None, s)
      | (Inr entries, s) \<Rightarrow>
          if int (length entries) \<le> rc_maxEntries c then (None, s)
          else case entry_infos L c entries s of
            (infos, s) \<Rightarrow> evict_infos (rc_maxEntries c) (sort_key snd infos) s)"

subsection \<open>The operations\<close>

text \<open>\<^verbatim>\<open>Get\<close> from the creation of the directory on.\<close>

definition clone_entry ::
  "(bytes \<Rightarrow> bytes) \<Rightarrow> 'r repo_lib \<Rightarrow> RepositoryCache \<Rightarrow> string \<Rightarrow> fsys \<Rightarrow> 'r res \<times> fsys" where
  "clone_entry sha256 L c repoURL s =
     (let entryDir = entry_dir sha256 c repoURL;
          repoPath = join_path entryDir ''repo'';
          metaPath = join_path entryDir ''.metadata''
      in case os_MkdirAll entryDir s of
           (Some err, s) \<Rightarrow> (Inl err, s)
         | (None, s) \<Rightarrow>
             (case rl_Clone L repoURL repoPath s of
                (Inl err, s) \<Rightarrow> (Inl err, snd (os_RemoveAll entryDir s))
              | (Inr repo, s) \<Rightarrow>
                  (case evictOldEntries L c (updateMetadata L metaPath repoURL s) of
                     (Some panic, s) \<Rightarrow> (Inl panic, s)
                   | (None, s) \<Rightarrow> (Inr repo, s))))"

definition RepositoryCache_Get ::
  "(bytes \<Rightarrow> bytes) \<Rightarrow> 'r repo_lib \<Rightarrow> RepositoryCache \<Rightarrow> string \<Rightarrow> fsys \<Rightarrow> 'r res \<times> fsys" where
  "RepositoryCache_Get sha256 L c repoURL s =
     (let entryDir = entry_dir sha256 c repoURL;
          repoPath = join_path entryDir ''repo'';
          metaPath = join_path entryDir ''.metadata''
      in case isValidCache L c metaPath s of
           (False, s) \<Rightarrow> clone_entry sha256 L c repoURL s
         | (True, s) \<Rightarrow>
             (case rl_Load L repoPath s of
                (Inr repo, s) \<Rightarrow> (Inr repo, updateMetadata L metaPath repoURL s)
              | (Inl err, s) \<Rightarrow> clone_entry sha256 L c repoURL (snd (os_RemoveAll entryDir s))))"

definition RepositoryCache_Invalidate :: "(bytes \<Rightarrow> bytes) \<Rightarrow> RepositoryCache \<Rightarrow> string \<Rightarrow> fsys \<Rightarrow> err option \<times> fsys" where
  "RepositoryCache_Invalidate sha256 c repoURL s = os_RemoveAll (entry_dir sha256 c repoURL) s"

definition RepositoryCache_Clear :: "RepositoryCache \<Rightarrow> fsys \<Rightarrow> err option \<times> fsys" where
  "RepositoryCache_Clear c s = os_RemoveAll (rc_baseDir c) s"

section \<open>What the cache returns\<close>

text \<open>A repository that is returned was cloned for the URL by this call, or it was opened where the clone of the URL is kept, and
  the metadata there was read and not expired.\<close>

lemma clone_entry_Inr:
  "clone_entry sha256 L c repoURL s = (Inr repo, s') \<Longrightarrow>
   \<exists>s1 s2. rl_Clone L repoURL (join_path (entry_dir sha256 c repoURL) ''repo'') s1 = (Inr repo, s2)"
  by (auto simp: clone_entry_def Let_def split: prod.splits option.splits sum.splits)

lemma isValidCache_True:
  "isValidCache L c metaPath s = (True, s') \<Longrightarrow>
   \<exists>d meta. fs_content s metaPath = Some d \<and> rl_unmarshal L d = Some meta \<and> fs_clock s' - cm_LastUsed meta < rc_ttl c"
  by (auto simp: isValidCache_def split: prod.splits option.splits sum.splits dest!: os_ReadFile_content)

theorem Get_cloned_or_fresh:
  assumes "RepositoryCache_Get sha256 L c repoURL s = (Inr repo, s')"
  shows "(\<exists>s1 s2. rl_Clone L repoURL (join_path (entry_dir sha256 c repoURL) ''repo'') s1 = (Inr repo, s2)) \<or>
    (\<exists>s1 s2 d meta. rl_Load L (join_path (entry_dir sha256 c repoURL) ''repo'') s1 = (Inr repo, s2) \<and>
       fs_content s (join_path (entry_dir sha256 c repoURL) ''.metadata'') = Some d \<and> rl_unmarshal L d = Some meta \<and>
       fs_clock s1 - cm_LastUsed meta < rc_ttl c)"
proof -
  obtain b s1 where v: "isValidCache L c (join_path (entry_dir sha256 c repoURL) ''.metadata'') s = (b, s1)" by (metis prod.exhaust)
  obtain x s2 where l: "rl_Load L (join_path (entry_dir sha256 c repoURL) ''repo'') s1 = (x, s2)" by (metis prod.exhaust)
  show ?thesis
  proof (cases "b \<and> (\<exists>r. x = Inr r)")
    case True
    then have b: "b" and x: "x = Inr repo" using assms v l by (auto simp: RepositoryCache_Get_def Let_def)
    from v b have "isValidCache L c (join_path (entry_dir sha256 c repoURL) ''.metadata'') s = (True, s1)" by simp
    from isValidCache_True [OF this] obtain d meta where
      "fs_content s (join_path (entry_dir sha256 c repoURL) ''.metadata'') = Some d" "rl_unmarshal L d = Some meta"
      "fs_clock s1 - cm_LastUsed meta < rc_ttl c" by blast
    with l x show ?thesis by blast
  next
    case False
    then have "\<exists>t. clone_entry sha256 L c repoURL t = (Inr repo, s')"
      using assms v l by (auto simp: RepositoryCache_Get_def Let_def split: bool.splits sum.splits)
    then obtain t where "clone_entry sha256 L c repoURL t = (Inr repo, s')" ..
    from clone_entry_Inr [OF this] show ?thesis by (rule disjI1)
  qed
qed

section \<open>Without faults\<close>

lemma pop_no_fault [simp]: "fs_faults s = [] \<Longrightarrow> pop_fault s = (None, s)"
  by (simp add: pop_fault_def)

lemma guarded_no_fault [simp]: "fs_faults s = [] \<Longrightarrow> guarded op s = op s"
  by (simp add: guarded_def)

definition below_path :: "string \<Rightarrow> string \<Rightarrow> bool" where
  "below_path p q \<longleftrightarrow> q = p \<or> prefix (p @ [slash]) q"

lemma map_of_filter_key: "map_of (filter (\<lambda>(q, n). P q) xs) q = (if P q then map_of xs q else None)"
  by (induction xs) auto

lemma RemoveAll_content:
  "fs_faults s = [] \<Longrightarrow>
   fst (os_RemoveAll p s) = None \<and> fs_faults (snd (os_RemoveAll p s)) = [] \<and> fs_clock (snd (os_RemoveAll p s)) = fs_clock s \<and>
   fs_content (snd (os_RemoveAll p s)) q = (if below_path p q then None else fs_content s q)"
  by (simp add: os_RemoveAll_def Let_def fs_content_def below_path_def map_of_filter_key [of "\<lambda>q. q \<noteq> p \<and> \<not> prefix (p @ [slash]) q"])

text \<open>Eviction removes the entries used longest ago, just as many as exceed the limit, and nothing else.\<close>

lemma evict_infos_content:
  assumes "0 \<le> maxEntries" "fs_faults s = []"
  shows "fst (evict_infos maxEntries infos s) = None \<and>
    fs_content (snd (evict_infos maxEntries infos s)) q =
      (if \<exists>i\<in>set (take (length infos - nat maxEntries) infos). below_path (fst i) q then None else fs_content s q)"
  using assms
proof (induction maxEntries infos s rule: evict_infos.induct)
  case (2 maxEntries path lastUsed infos s)
  show ?case
  proof (cases "int (length ((path, lastUsed) # infos)) > maxEntries")
    case True
    then have "length ((path, lastUsed) # infos) - nat maxEntries = Suc (length infos - nat maxEntries)" using 2(2) by auto
    with True 2 RemoveAll_content [of s path] show ?thesis by auto
  next
    case False
    then have "length ((path, lastUsed) # infos) - nat maxEntries = 0" using 2(2) by auto
    with False show ?thesis by simp
  qed
qed auto

lemma entry_infos_same: "fs_faults s = [] \<Longrightarrow> snd (entry_infos L c entries s) = s"
  by (induction L c entries s rule: entry_infos.induct) (auto simp: os_ReadFile_def split: prod.splits sum.splits option.splits)

theorem evictOldEntries_oldest:
  fixes L :: "'r repo_lib"
  assumes "0 \<le> rc_maxEntries c" "fs_faults s = []" "is_dir s (rc_baseDir c)"
  defines "infos \<equiv> sort_key snd (fst (entry_infos L c (dir_entries (rc_baseDir c) s) s))"
  shows "\<exists>s' gone. evictOldEntries L c s = (None, s') \<and> length infos - length gone \<le> nat (rc_maxEntries c) \<and>
    (\<forall>g\<in>set gone. \<forall>i\<in>set (drop (length gone) infos). snd g \<le> snd i) \<and> gone = take (length gone) infos \<and>
    (\<forall>q. fs_content s' q = (if \<exists>g\<in>set gone. below_path (fst g) q then None else fs_content s q))"
proof (cases "int (length (dir_entries (rc_baseDir c) s)) \<le> rc_maxEntries c")
  case True
  have "length (fst (entry_infos L c es s)) \<le> length es" for es
    using assms(2) by (induction L c es s rule: entry_infos.induct) (auto simp: os_ReadFile_def split: prod.splits sum.splits option.splits)
  then have "length infos \<le> length (dir_entries (rc_baseDir c) s)" by (simp add: infos_def)
  with True have "length infos \<le> nat (rc_maxEntries c)" by linarith
  with True assms show ?thesis
    by (intro exI [of _ s] exI [of _ "[]"]) (simp add: evictOldEntries_def os_ReadDir_def)
next
  case False
  let ?n = "length infos - nat (rc_maxEntries c)"
  have "evictOldEntries L c s = evict_infos (rc_maxEntries c) infos s"
    using False assms entry_infos_same [OF assms(2), of L c]
    by (simp add: evictOldEntries_def os_ReadDir_def split_beta)
  moreover have sorted: "snd g \<le> snd i" if "g \<in> set (take ?n infos)" "i \<in> set (drop ?n infos)" for g i
  proof -
    have "sorted (map snd (take ?n infos @ drop ?n infos))" by (simp add: infos_def)
    then have "\<forall>x\<in>set (map snd (take ?n infos)). \<forall>y\<in>set (map snd (drop ?n infos)). x \<le> y"
      unfolding map_append sorted_append by (elim conjE)
    with that show ?thesis unfolding set_map by (meson imageI)
  qed
  moreover note r = evict_infos_content [OF assms(1,2), of infos]
  ultimately have e: "evictOldEntries L c s = (None, snd (evict_infos (rc_maxEntries c) infos s))" by (simp add: prod_eq_iff)
  have "\<forall>g\<in>set (take ?n infos). \<forall>i\<in>set (drop (length (take ?n infos)) infos). snd g \<le> snd i" using sorted by simp
  moreover have "length infos - length (take ?n infos) \<le> nat (rc_maxEntries c)" "take ?n infos = take (length (take ?n infos)) infos"
    by simp_all
  ultimately show ?thesis using e conjunct2 [OF r]
    by (intro exI [of _ "snd (evict_infos (rc_maxEntries c) infos s)"] exI [of _ "take ?n infos"] conjI allI)
qed

text \<open>With a negative limit eviction, and with it every first use of a repository, panics.\<close>

theorem evict_negative_limit: "maxEntries < 0 \<Longrightarrow> \<exists>e s'. evict_infos maxEntries infos s = (Some e, s')"
  by (induction maxEntries infos s rule: evict_infos.induct) auto

section \<open>Expiry\<close>

lemma isValidCache_no_fault:
  "fs_faults s = [] \<Longrightarrow> fs_content s p = Some d \<Longrightarrow> rl_unmarshal L d = Some meta \<Longrightarrow>
   isValidCache L c p s = (fs_clock s - cm_LastUsed meta < rc_ttl c, s)"
  by (auto simp: isValidCache_def os_ReadFile_def fs_content_def)

lemma os_WriteFile_no_fault:
  assumes "fs_faults s = []" "\<not> is_dir s p" "is_dir s (dir_of p)"
  shows "fst (os_WriteFile p d s) = None \<and> fs_content (snd (os_WriteFile p d s)) = (fs_content s)(p \<mapsto> d)"
  using assms
  by (simp add: os_WriteFile_def os_CreateTrunc_def os_Write_def os_Close_def os_append_def Let_def fs_content_def update_conv' fun_eq_iff)

text \<open>A repository that is found is not cloned again, and its time starts anew: one that is used more often than the time to live is
  never refreshed.\<close>

theorem Get_hit_restarts_ttl:
  assumes "fs_faults s = []" "fs_content s metaPath = Some d" "rl_unmarshal L d = Some meta" "fs_clock s - cm_LastUsed meta < rc_ttl c"
    and "metaPath = join_path (entry_dir sha256 c repoURL) ''.metadata''"
    and "rl_Load L (join_path (entry_dir sha256 c repoURL) ''repo'') s = (Inr repo, s1)" "fs_faults s1 = []"
    and "\<not> is_dir s1 metaPath" "is_dir s1 (dir_of metaPath)" "rl_marshal L \<lparr>cm_LastUsed = fs_clock s1, cm_RepoURL = repoURL\<rparr> = Inr j"
  shows "\<exists>s'. RepositoryCache_Get sha256 L c repoURL s = (Inr repo, s') \<and> fs_content s' = (fs_content s1)(metaPath \<mapsto> j)"
  using assms isValidCache_no_fault [OF assms(1-3), of c] os_WriteFile_no_fault [OF assms(7-9), of j]
  by (simp add: RepositoryCache_Get_def updateMetadata_def Let_def)

text \<open>An expired clone is not removed before the repository is cloned into its directory. If the library refuses a directory that is not
  empty, the first use after the expiry fails, and removes the clone.\<close>

theorem Get_expired_fails:
  assumes "fs_faults s = []" "fs_content s (join_path (entry_dir sha256 c repoURL) ''.metadata'') = Some d" "rl_unmarshal L d = Some meta"
    and "rc_ttl c \<le> fs_clock s - cm_LastUsed meta"
    and refuses: "\<forall>url p t. (\<exists>q. below_path p q \<and> fs_content t q \<noteq> None) \<longrightarrow> (\<exists>e. rl_Clone L url p t = (Inl e, t))"
    and "below_path (join_path (entry_dir sha256 c repoURL) ''repo'') q" "fs_content s q \<noteq> None"
    and "\<forall>p\<in>set (parents (entry_dir sha256 c repoURL)). fs_content s p = None"
  shows "\<exists>e s'. RepositoryCache_Get sha256 L c repoURL s = (Inl e, s') \<and>
    (\<forall>q. below_path (entry_dir sha256 c repoURL) q \<longrightarrow> fs_content s' q = None)"
proof -
  let ?d = "entry_dir sha256 c repoURL"
  have "isValidCache L c (join_path ?d ''.metadata'') s = (False, s)" using isValidCache_no_fault [OF assms(1-3)] assms(4) by simp
  then have g: "RepositoryCache_Get sha256 L c repoURL s = clone_entry sha256 L c repoURL s" by (simp add: RepositoryCache_Get_def)
  obtain s1 where m: "os_MkdirAll ?d s = (None, s1)" "fs_faults s1 = []" "fs_content s1 = fs_content s"
    using assms(1,8) by (auto simp: os_MkdirAll_def fs_content_def list_ex_iff fun_eq_iff)
  then obtain e where "rl_Clone L repoURL (join_path ?d ''repo'') s1 = (Inl e, s1)" using refuses assms(6,7) by metis
  with m(1) have "clone_entry sha256 L c repoURL s = (Inl e, snd (os_RemoveAll ?d s1))" by (simp add: clone_entry_def)
  with g RemoveAll_content [OF m(2), of ?d] show ?thesis by simp
qed

end
