(* ===== verification/PolicyGittuf.thy ===== *)
theory PolicyGittuf
  imports PolicySlsa GittufCache
begin

text \<open>
  \<^verbatim>\<open>policy/gittuf\<close>: the policy that takes the source reference from the provenance of a manifest and verifies it with the gittuf
  log of a configured repository. The gittuf library is the argument \<open>G\<close>; what it does to get a repository is an operation of its
  own, and \<open>gittuf_on_disk\<close> makes it the cache of clones on disk. Logging is left out.
\<close>

section \<open>Definitions\<close>

definition Gittuf_ErrNoRepository :: err where
  "Gittuf_ErrNoRepository = ErrNew ''gittuf: repository URL required''"

definition Gittuf_ErrNoSLSAProvenance :: err where
  "Gittuf_ErrNoSLSAProvenance = ErrNew ''gittuf: no SLSA provenance found''"

definition Gittuf_ErrNoGittufPolicy :: err where
  "Gittuf_ErrNoGittufPolicy = ErrNew ''gittuf: repository has no gittuf policy''"

definition Gittuf_ErrNoRefToVerify :: err where
  "Gittuf_ErrNoRefToVerify = ErrNew ''gittuf: no ref to verify''"

definition Gittuf_ErrCloneFailed :: err where
  "Gittuf_ErrCloneFailed = ErrNew ''gittuf: clone failed''"

definition Gittuf_ErrVerificationFailed :: err where
  "Gittuf_ErrVerificationFailed = ErrNew ''gittuf: verification failed''"

record gittuf_policy =
  gp_repoURL :: string
  gp_cache :: RepositoryCache
  gp_latestOnly :: bool
  gp_overrideRef :: string
  gp_allowMissingGittuf :: bool
  gp_allowMissingProvenance :: bool

type_synonym gittuf_option = "gittuf_policy \<Rightarrow> gittuf_policy res"

definition WithRepository :: "string \<Rightarrow> gittuf_option" where
  "WithRepository url p = Inr (p\<lparr>gp_repoURL := url\<rparr>)"

definition Gittuf_WithCacheDir :: "string res \<Rightarrow> string \<Rightarrow> string \<Rightarrow> gittuf_option" where
  "Gittuf_WithCacheDir userHome tempDir path p =
     Inr (p\<lparr>gp_cache := NewRepositoryCache userHome tempDir
       [WithCacheBaseDir path, WithCacheMaxEntries (rc_maxEntries (gp_cache p)), WithCacheTTLOption (rc_ttl (gp_cache p))]\<rparr>)"

definition WithCacheTTL :: "i64 \<Rightarrow> gittuf_option" where
  "WithCacheTTL ttl p = Inr (p\<lparr>gp_cache := (gp_cache p)\<lparr>rc_ttl := ttl\<rparr>\<rparr>)"

definition WithFullVerification :: gittuf_option where
  "WithFullVerification p = Inr (p\<lparr>gp_latestOnly := False\<rparr>)"

definition WithOverrideRef :: "string \<Rightarrow> gittuf_option" where
  "WithOverrideRef refName p = Inr (p\<lparr>gp_overrideRef := refName\<rparr>)"

definition WithAllowMissingGittuf :: gittuf_option where
  "WithAllowMissingGittuf p = Inr (p\<lparr>gp_allowMissingGittuf := True\<rparr>)"

definition WithAllowMissingProvenance :: gittuf_option where
  "WithAllowMissingProvenance p = Inr (p\<lparr>gp_allowMissingProvenance := True\<rparr>)"

definition Gittuf_NewPolicy :: "string res \<Rightarrow> string \<Rightarrow> gittuf_option list \<Rightarrow> gittuf_policy res" where
  "Gittuf_NewPolicy userHome tempDir opts =
     bindE (mapErr (Wrap ''gittuf'')
        (apply_opts opts \<lparr>gp_repoURL = [], gp_cache = DefaultCache userHome tempDir, gp_latestOnly = True, gp_overrideRef = [], gp_allowMissingGittuf = False,
                          gp_allowMissingProvenance = False\<rparr>)) (\<lambda>p.
       if gp_repoURL p = [] then Inl Gittuf_ErrNoRepository else Inr p)"

definition GitHubRepository :: "string res \<Rightarrow> string \<Rightarrow> string \<Rightarrow> string \<Rightarrow> gittuf_option list \<Rightarrow> gittuf_policy res" where
  "GitHubRepository userHome tempDir owner repo opts =
     (let url = ''https://github.com/'' @ owner @ ''/'' @ repo in Gittuf_NewPolicy userHome tempDir (WithRepository url # opts))"

subsection \<open>The source of an artifact\<close>

record sourceInfo =
  si_Repo :: string
  si_Ref :: string
  si_Commit :: string

text \<open>A nil map is \<open>None\<close>.\<close>

definition getMap :: "json_map option \<Rightarrow> string \<Rightarrow> json_map option" where
  "getMap m key = (case m of None \<Rightarrow> None | Some m \<Rightarrow> as_map (map_of m key))"

definition getString :: "json_map option \<Rightarrow> string \<Rightarrow> string" where
  "getString m key = (case m of None \<Rightarrow> [] | Some m \<Rightarrow> str_field m key)"

definition gittuf_dependency :: "json \<Rightarrow> sourceInfo \<Rightarrow> sourceInfo" where
  "gittuf_dependency dep info =
     (case as_map (Some dep) of
        None \<Rightarrow> info
      | Some depMap \<Rightarrow>
          (let info = (if si_Repo info = [] then info\<lparr>si_Repo := getString (Some depMap) ''uri''\<rparr> else info)
           in case getMap (Some depMap) ''digest'' of
                None \<Rightarrow> info
              | Some dgst \<Rightarrow>
                  let sha = getString (Some dgst) ''gitCommit'' in if sha \<noteq> [] then info\<lparr>si_Commit := sha\<rparr> else info))"

definition extractFromResolvedDeps :: "json_map \<Rightarrow> sourceInfo \<Rightarrow> sourceInfo" where
  "extractFromResolvedDeps buildDef info =
     (case as_list (map_of buildDef ''resolvedDependencies'') of
        None \<Rightarrow> info
      | Some resolvedDeps \<Rightarrow> fold gittuf_dependency resolvedDeps info)"

definition gittuf_extractSLSAv1 :: "json_map \<Rightarrow> sourceInfo \<Rightarrow> sourceInfo" where
  "gittuf_extractSLSAv1 predicate info =
     (case getMap (Some predicate) ''buildDefinition'' of
        None \<Rightarrow> info
      | Some buildDef \<Rightarrow>
          (let extParams = getMap (Some buildDef) ''externalParameters'';
               workflow = getMap extParams ''workflow'';
               repo = getString workflow ''repository'';
               info = (if repo \<noteq> [] then info\<lparr>si_Repo := repo\<rparr> else info);
               ref = getString workflow ''ref'';
               info = (if ref \<noteq> [] then info\<lparr>si_Ref := ref\<rparr> else info)
           in extractFromResolvedDeps buildDef info))"

definition gittuf_material :: "json \<Rightarrow> sourceInfo \<Rightarrow> sourceInfo" where
  "gittuf_material mat info =
     (case as_map (Some mat) of
        None \<Rightarrow> info
      | Some matMap \<Rightarrow>
          (let info = (if si_Repo info = [] then info\<lparr>si_Repo := getString (Some matMap) ''uri''\<rparr> else info)
           in case getMap (Some matMap) ''digest'' of
                None \<Rightarrow> info
              | Some dgst \<Rightarrow>
                  let sha = getString (Some dgst) ''sha1''
                  in if sha \<noteq> [] \<and> si_Commit info = [] then info\<lparr>si_Commit := sha\<rparr> else info))"

definition extractFromMaterials :: "json_map \<Rightarrow> sourceInfo \<Rightarrow> sourceInfo" where
  "extractFromMaterials predicate info =
     (case as_list (map_of predicate ''materials'') of
        None \<Rightarrow> info
      | Some materials \<Rightarrow> fold gittuf_material materials info)"

definition gittuf_extractSLSAv02 :: "json_map \<Rightarrow> sourceInfo \<Rightarrow> sourceInfo" where
  "gittuf_extractSLSAv02 predicate info =
     (let invocation = getMap (Some predicate) ''invocation'';
          configSource = getMap invocation ''configSource'';
          uri = getString configSource ''uri'';
          info = (if uri \<noteq> [] then info\<lparr>si_Repo := uri\<rparr> else info);
          info = (case getMap configSource ''digest'' of
            None \<Rightarrow> info
          | Some dgst \<Rightarrow> info\<lparr>si_Commit := getString (Some dgst) ''sha1''\<rparr>)
      in extractFromMaterials predicate info)"

definition extractSourceFromPredicate :: "string \<Rightarrow> json_map \<Rightarrow> sourceInfo option" where
  "extractSourceFromPredicate predicateType predicate =
     (let info = \<lparr>si_Repo = [], si_Ref = [], si_Commit = []\<rparr>;
          info = (if predicateType = SLSAv1 then gittuf_extractSLSAv1 predicate info else gittuf_extractSLSAv02 predicate info)
      in if si_Repo info = [] then None else Some info)"

definition gittuf_isSLSAPredicateType :: "string \<Rightarrow> bool" where
  "gittuf_isSLSAPredicateType pt = list_ex (\<lambda>valid. pt = valid) SLSAPredicateTypes"

definition gittuf_parseFromDSSE :: "json_lib \<Rightarrow> dsseEnvelope \<Rightarrow> sourceInfo option" where
  "gittuf_parseFromDSSE J envelope =
     (if en_PayloadType envelope \<noteq> DSSEPayloadType then None
      else case js_base64 J (en_Payload envelope) of
        None \<Rightarrow> None
      | Some payload \<Rightarrow>
          (case js_statement J payload of
             None \<Rightarrow> None
           | Some stmt \<Rightarrow>
               if \<not> gittuf_isSLSAPredicateType (st_PredicateType stmt) then None
               else case (case st_Predicate stmt of None \<Rightarrow> Some [] | Some raw \<Rightarrow> js_map J raw) of
                 None \<Rightarrow> None
               | Some predicate \<Rightarrow> extractSourceFromPredicate (st_PredicateType stmt) predicate))"

definition parseSourceInfo :: "json_lib \<Rightarrow> bytes \<Rightarrow> sourceInfo option" where
  "parseSourceInfo J data =
     (case find_envelope J data of None \<Rightarrow> None | Some envelope \<Rightarrow> gittuf_parseFromDSSE J envelope)"

fun gittuf_layers :: "json_lib \<Rightarrow> 'w PolicyRequest \<Rightarrow> Descriptor list \<Rightarrow> 'w \<Rightarrow> sourceInfo option \<times> 'w" where
  "gittuf_layers J req [] w = (None, w)"
| "gittuf_layers J req (layer # layers) w =
     (case pc_FetchDescriptor (pr_Client req) (pr_Ref req) layer w of
        (Inl err, w) \<Rightarrow> gittuf_layers J req layers w
      | (Inr layerData, w) \<Rightarrow>
          (case parseSourceInfo J layerData of
             Some info \<Rightarrow> (Some info, w)
           | None \<Rightarrow> gittuf_layers J req layers w))"

definition tryExtractSourceInfo :: "json_lib \<Rightarrow> 'w PolicyRequest \<Rightarrow> Descriptor \<Rightarrow> 'w \<Rightarrow> sourceInfo option \<times> 'w" where
  "tryExtractSourceInfo J req ref w =
     (case pc_FetchDescriptor (pr_Client req) (pr_Ref req) ref w of
        (Inl err, w) \<Rightarrow> (None, w)
      | (Inr data, w) \<Rightarrow>
          (case parseOCIManifest J data of
             Some manifest \<Rightarrow>
               if length (om_Layers manifest) > 0 then gittuf_layers J req (om_Layers manifest) w else (parseSourceInfo J data, w)
           | None \<Rightarrow> (parseSourceInfo J data, w)))"

fun try_referrers :: "json_lib \<Rightarrow> 'w PolicyRequest \<Rightarrow> Descriptor list \<Rightarrow> 'w \<Rightarrow> sourceInfo option \<times> 'w" where
  "try_referrers J req [] w = (None, w)"
| "try_referrers J req (ref # refs) w =
     (case tryExtractSourceInfo J req ref w of
        (Some info, w) \<Rightarrow> (Some info, w)
      | (None, w) \<Rightarrow> try_referrers J req refs w)"

fun extract_types :: "json_lib \<Rightarrow> 'w PolicyRequest \<Rightarrow> string list \<Rightarrow> 'w \<Rightarrow> sourceInfo res \<times> 'w" where
  "extract_types J req [] w = (Inl Gittuf_ErrNoSLSAProvenance, w)"
| "extract_types J req (artifactType # types) w =
     (case pc_Referrers (pr_Client req) (pr_Ref req) (pr_Subject req) artifactType w of
        (Inl err, w) \<Rightarrow>
          if errors_is err ErrReferrersUnsupported then (Inl (Wrap ''gittuf: registry does not support referrers API'' err), w)
          else extract_types J req types w
      | (Inr referrers, w) \<Rightarrow>
          (case try_referrers J req referrers w of
             (Some info, w) \<Rightarrow> (Inr info, w)
           | (None, w) \<Rightarrow> extract_types J req types w))"

definition extractSourceInfo :: "json_lib \<Rightarrow> 'w PolicyRequest \<Rightarrow> 'w \<Rightarrow> sourceInfo res \<times> 'w" where
  "extractSourceInfo J req w = extract_types J req [InTotoArtifactType, SigstoreBundleArtifactType] w"

subsection \<open>Evaluation\<close>

record ('r, 'w) gittuf_lib =
  gt_Get :: "RepositoryCache \<Rightarrow> string \<Rightarrow> 'w \<Rightarrow> 'r res \<times> 'w"
  gt_HasPolicy :: "'r \<Rightarrow> 'w \<Rightarrow> bool res \<times> 'w"
  gt_PullRSL :: "'r \<Rightarrow> string \<Rightarrow> 'w \<Rightarrow> err option \<times> 'w"
  gt_VerifyRef :: "'r \<Rightarrow> string \<Rightarrow> bool \<Rightarrow> 'w \<Rightarrow> err option \<times> 'w"

text \<open>\<^verbatim>\<open>Evaluate\<close> from the check for a gittuf policy on.\<close>

definition verify_source :: "('r, 'w) gittuf_lib \<Rightarrow> gittuf_policy \<Rightarrow> sourceInfo \<Rightarrow> 'r \<Rightarrow> 'w \<Rightarrow> err option \<times> 'w" where
  "verify_source G p info repo w =
     (case gt_HasPolicy G repo w of
        (Inl err, w) \<Rightarrow> (Some (Wrap ''gittuf: failed to check for policy'' err), w)
      | (Inr hasPolicy, w) \<Rightarrow>
          if \<not> hasPolicy then (if gp_allowMissingGittuf p then None else Some Gittuf_ErrNoGittufPolicy, w)
          else
            (let w = snd (gt_PullRSL G repo ''origin'' w);
                 refToVerify = (if gp_overrideRef p \<noteq> [] then gp_overrideRef p else si_Ref info)
             in if refToVerify = [] then (Some Gittuf_ErrNoRefToVerify, w)
                else case gt_VerifyRef G repo refToVerify (gp_latestOnly p) w of
                  (Some err, w) \<Rightarrow> (Some (errWith Gittuf_ErrVerificationFailed '': '' []), w)
                | (None, w) \<Rightarrow> (None, w)))"

definition Gittuf_Evaluate :: "json_lib \<Rightarrow> ('r, 'w) gittuf_lib \<Rightarrow> gittuf_policy \<Rightarrow> 'w Policy" where
  "Gittuf_Evaluate J G p req w =
     (case extractSourceInfo J req w of
        (Inl err, w) \<Rightarrow>
          (if gp_allowMissingProvenance p \<and> errors_is err Gittuf_ErrNoSLSAProvenance then None else Some err, w)
      | (Inr info, w) \<Rightarrow>
          (case gt_Get G (gp_cache p) (gp_repoURL p) w of
             (Inl err, w) \<Rightarrow> (if gp_allowMissingGittuf p then None else Some (errWith Gittuf_ErrCloneFailed '': '' []), w)
           | (Inr repo, w) \<Rightarrow> verify_source G p info repo w))"

text \<open>The policy with the cache of clones; \<open>get\<close> and \<open>put\<close> give the file system in the state.\<close>

definition gittuf_on_disk ::
  "(bytes \<Rightarrow> bytes) \<Rightarrow> 'r repo_lib \<Rightarrow> ('w \<Rightarrow> fsys) \<Rightarrow> (fsys \<Rightarrow> 'w \<Rightarrow> 'w) \<Rightarrow> ('r, 'w) gittuf_lib \<Rightarrow> ('r, 'w) gittuf_lib" where
  "gittuf_on_disk sha256 L get put G =
     G\<lparr>gt_Get := (\<lambda>c url w. case RepositoryCache_Get sha256 L c url (get w) of (x, s) \<Rightarrow> (x, put s w))\<rparr>"

section \<open>What acceptance means\<close>

lemma verify_source_None:
  assumes "verify_source G p info repo w = (None, w')" "\<not> gp_allowMissingGittuf p"
  shows "(if gp_overrideRef p \<noteq> [] then gp_overrideRef p else si_Ref info) \<noteq> [] \<and>
    (\<exists>w1. gt_VerifyRef G repo (if gp_overrideRef p \<noteq> [] then gp_overrideRef p else si_Ref info) (gp_latestOnly p) w1 = (None, w'))"
  using assms by (auto simp: verify_source_def Let_def split: prod.splits sum.splits if_splits option.splits)

text \<open>The repository and the commit of the provenance play no role.\<close>

lemma verify_source_ref_only:
  "si_Ref info = si_Ref info' \<Longrightarrow> verify_source G p info repo w = verify_source G p info' repo w"
  by (simp add: verify_source_def Let_def split: prod.split sum.split)

text \<open>Options that set the directory and the time to live of the cache can be given in either order.\<close>

lemma cache_options_commute:
  "bindE (Gittuf_WithCacheDir h t dir p) (WithCacheTTL ttl) = bindE (WithCacheTTL ttl p) (Gittuf_WithCacheDir h t dir)"
  by (simp add: Gittuf_WithCacheDir_def WithCacheTTL_def NewRepositoryCache_def WithCacheBaseDir_def WithCacheMaxEntries_def
      WithCacheTTLOption_def bindE_def)

text \<open>Over the cache of clones the verified repository was cloned from the configured URL or opened from the place of its clone.\<close>

theorem gittuf_on_disk_repo:
  assumes "gt_Get (gittuf_on_disk sha256 L get put G) (gp_cache p) (gp_repoURL p) w = (Inr repo, w')"
  shows "(\<exists>s1 s2. rl_Clone L (gp_repoURL p) (join_path (entry_dir sha256 (gp_cache p) (gp_repoURL p)) ''repo'') s1 = (Inr repo, s2)) \<or>
    (\<exists>s1 s2. rl_Load L (join_path (entry_dir sha256 (gp_cache p) (gp_repoURL p)) ''repo'') s1 = (Inr repo, s2))"
proof -
  obtain s' where "RepositoryCache_Get sha256 L (gp_cache p) (gp_repoURL p) (get w) = (Inr repo, s')"
    using assms by (auto simp: gittuf_on_disk_def split: prod.splits)
  from Get_cloned_or_fresh [OF this] show ?thesis by (elim disjE exE conjE) (rule disjI1, intro exI, assumption, rule disjI2, intro exI, assumption)
qed

end
