(* ===== verification/PolicySigstore.thy ===== *)
theory PolicySigstore
  imports PolicySlsa RegistryClient
begin

text \<open>
  \<^verbatim>\<open>policy/sigstore\<close>: the policy that verifies the Sigstore signatures of a manifest (\<^verbatim>\<open>policy.go\<close>) and the identity of a GitHub Actions
  workflow (\<^verbatim>\<open>github_actions.go\<close>). The Sigstore library is the argument \<open>S\<close>: parsing a bundle, building
  a verifier from the trusted root, verifying a bundle against an artifact and an identity. Logging is left out.
\<close>

section \<open>Definitions\<close>

record CertificateIdentity =
  ci_Issuer :: string
  ci_IssuerRegexp :: string
  ci_Subject :: string
  ci_SubjectRegexp :: string

record ('r, 'b) sigstore_lib =
  sg_FetchTrustedRoot :: "'r res"
  sg_TrustedRootFromPath :: "string \<Rightarrow> 'r res"
  sg_UnmarshalBundle :: "bytes \<Rightarrow> 'b res"
  sg_NewVerifier :: "'r \<Rightarrow> err option"
  sg_Verify :: "'r \<Rightarrow> CertificateIdentity option \<Rightarrow> 'b \<Rightarrow> bytes \<Rightarrow> err option"
  sg_NewIdentity :: "CertificateIdentity \<Rightarrow> err option"

record 'r sigstore_policy =
  sy_trustedRoot :: "'r option"
  sy_identity :: "CertificateIdentity option"

type_synonym 'r sigstore_option = "'r sigstore_policy \<Rightarrow> 'r sigstore_policy res"

definition WithTrustedRoot :: "'r \<Rightarrow> 'r sigstore_option" where
  "WithTrustedRoot tr p = Inr (p\<lparr>sy_trustedRoot := Some tr\<rparr>)"

definition WithTrustedRootFile :: "('r, 'b) sigstore_lib \<Rightarrow> string \<Rightarrow> 'r sigstore_option" where
  "WithTrustedRootFile S path p = bindE (sg_TrustedRootFromPath S path) (\<lambda>tr. Inr (p\<lparr>sy_trustedRoot := Some tr\<rparr>))"

definition new_identity :: "('r, 'b) sigstore_lib \<Rightarrow> CertificateIdentity \<Rightarrow> CertificateIdentity res" where
  "new_identity S i = (case sg_NewIdentity S i of Some err \<Rightarrow> Inl err | None \<Rightarrow> Inr i)"

definition WithIdentity :: "('r, 'b) sigstore_lib \<Rightarrow> string \<Rightarrow> string \<Rightarrow> 'r sigstore_option" where
  "WithIdentity S issuer subject p =
     bindE (new_identity S \<lparr>ci_Issuer = issuer, ci_IssuerRegexp = [], ci_Subject = subject, ci_SubjectRegexp = []\<rparr>) (\<lambda>i.
       Inr (p\<lparr>sy_identity := Some i\<rparr>))"

definition Sigstore_NewPolicy :: "('r, 'b) sigstore_lib \<Rightarrow> 'r sigstore_option list \<Rightarrow> 'r sigstore_policy res" where
  "Sigstore_NewPolicy S opts =
     bindE (apply_opts opts \<lparr>sy_trustedRoot = None, sy_identity = None\<rparr>) (\<lambda>p.
       case sy_trustedRoot p of
         Some tr \<Rightarrow> Inr p
       | None \<Rightarrow>
           (case sg_FetchTrustedRoot S of
              Inl err \<Rightarrow> Inl (Wrap ''sigstore fetch trusted root'' err)
            | Inr tr \<Rightarrow> Inr (p\<lparr>sy_trustedRoot := Some tr\<rparr>)))"

subsection \<open>Bundles\<close>

record ociArtifactManifest =
  oa_SchemaVersion :: int
  oa_Layers :: "Descriptor list"
  oa_Blobs :: "Descriptor list"

definition parseOCIArtifactLayers :: "(bytes \<Rightarrow> ociArtifactManifest option) \<Rightarrow> bytes \<Rightarrow> Descriptor list option res" where
  "parseOCIArtifactLayers unmarshal data =
     (case unmarshal data of
        None \<Rightarrow> Inr None
      | Some manifest \<Rightarrow>
          if oa_SchemaVersion manifest \<noteq> 2 then Inr None
          else
            let layers = (if oa_Layers manifest = [] then oa_Blobs manifest else oa_Layers manifest)
            in if layers = [] then Inl (ErrNew ''sigstore: manifest contains no layers'') else Inr (Some layers))"

definition verifyBundle :: "('r, 'b) sigstore_lib \<Rightarrow> 'r \<Rightarrow> CertificateIdentity option \<Rightarrow> bytes \<Rightarrow> bytes \<Rightarrow> err option" where
  "verifyBundle S tr identity bundleData payload =
     (case sg_UnmarshalBundle S bundleData of
        Inl err \<Rightarrow> Some (Wrap ''parse bundle'' err)
      | Inr b \<Rightarrow>
          (case sg_NewVerifier S tr of
             Some err \<Rightarrow> Some (Wrap ''create verifier'' err)
           | None \<Rightarrow>
               (case sg_Verify S tr identity b payload of
                  Some err \<Rightarrow> Some (Wrap ''signature invalid'' err)
                | None \<Rightarrow> None)))"

fun verify_layers ::
  "('r, 'b) sigstore_lib \<Rightarrow> 'r \<Rightarrow> CertificateIdentity option \<Rightarrow> 'w PolicyRequest \<Rightarrow> bytes \<Rightarrow> Descriptor list \<Rightarrow> err \<Rightarrow> 'w \<Rightarrow> err option \<times> 'w" where
  "verify_layers S tr identity req payload [] lastErr w = (Some lastErr, w)"
| "verify_layers S tr identity req payload (layer # layers) lastErr w =
     (case pc_FetchDescriptor (pr_Client req) (pr_Ref req) layer w of
        (Inl err, w) \<Rightarrow> verify_layers S tr identity req payload layers (Wrap ''sigstore: fetch bundle layer'' err) w
      | (Inr layerData, w) \<Rightarrow>
          (case verifyBundle S tr identity layerData payload of
             Some err \<Rightarrow> verify_layers S tr identity req payload layers err w
           | None \<Rightarrow> (None, w)))"

definition verifyBundleData ::
  "(bytes \<Rightarrow> ociArtifactManifest option) \<Rightarrow> ('r, 'b) sigstore_lib \<Rightarrow> 'r \<Rightarrow> CertificateIdentity option \<Rightarrow> 'w PolicyRequest \<Rightarrow>
   bytes \<Rightarrow> bytes \<Rightarrow> 'w \<Rightarrow> err option \<times> 'w" where
  "verifyBundleData unmarshal S tr identity req data payload w =
     (case parseOCIArtifactLayers unmarshal data of
        Inl err \<Rightarrow> (Some err, w)
      | Inr (Some layers) \<Rightarrow>
          verify_layers S tr identity req payload layers (ErrNew ''sigstore: no valid bundle layers found'') w
      | Inr None \<Rightarrow> (verifyBundle S tr identity data payload, w))"

subsection \<open>Evaluation\<close>

fun verify_referrers ::
  "(bytes \<Rightarrow> ociArtifactManifest option) \<Rightarrow> ('r, 'b) sigstore_lib \<Rightarrow> 'r \<Rightarrow> CertificateIdentity option \<Rightarrow> 'w PolicyRequest \<Rightarrow>
   bytes \<Rightarrow> Descriptor list \<Rightarrow> err option \<Rightarrow> 'w \<Rightarrow> err option \<times> 'w" where
  "verify_referrers unmarshal S tr identity req payload [] lastErr w =
     (Some (case lastErr of Some err \<Rightarrow> Wrap ''sigstore: verification failed'' err
            | None \<Rightarrow> ErrNew ''sigstore: no valid signatures found''), w)"
| "verify_referrers unmarshal S tr identity req payload (ref # refs) lastErr w =
     (case pc_FetchDescriptor (pr_Client req) (pr_Ref req) ref w of
        (Inl err, w) \<Rightarrow> verify_referrers unmarshal S tr identity req payload refs (Some (Wrap ''sigstore: fetch bundle'' err)) w
      | (Inr bundleData, w) \<Rightarrow>
          (case verifyBundleData unmarshal S tr identity req bundleData payload w of
             (Some err, w) \<Rightarrow> verify_referrers unmarshal S tr identity req payload refs (Some err) w
           | (None, w) \<Rightarrow> (None, w)))"

definition Sigstore_Evaluate ::
  "(bytes \<Rightarrow> ociArtifactManifest option) \<Rightarrow> ('r, 'b) sigstore_lib \<Rightarrow> 'r \<Rightarrow> CertificateIdentity option \<Rightarrow> 'w Policy" where
  "Sigstore_Evaluate unmarshal S tr identity req w =
     (case pc_Referrers (pr_Client req) (pr_Ref req) (pr_Subject req) SigstoreBundleArtifactType w of
        (Inl err, w) \<Rightarrow>
          (Some (if errors_is err ErrReferrersUnsupported then ErrNew ''sigstore: registry does not support referrers API''
                 else Wrap ''sigstore: list referrers'' err), w)
      | (Inr referrers, w) \<Rightarrow>
          if referrers = [] then (Some (ErrNew ''sigstore: no signatures found for manifest''), w)
          else case pc_FetchDescriptor (pr_Client req) (pr_Ref req) (pr_Subject req) w of
            (Inl err, w) \<Rightarrow> (Some (Wrap ''sigstore: fetch manifest'' err), w)
          | (Inr payload, w) \<Rightarrow> verify_referrers unmarshal S tr identity req payload referrers None w)"

subsection \<open>GitHub Actions\<close>

record gitHubActionsConfig =
  ga_branches :: "string list"
  ga_tags :: "string list"
  ga_refs :: "string list"

definition AllowBranches :: "string list \<Rightarrow> gitHubActionsConfig \<Rightarrow> gitHubActionsConfig" where
  "AllowBranches branches c = c\<lparr>ga_branches := ga_branches c @ branches\<rparr>"

definition AllowTags :: "string list \<Rightarrow> gitHubActionsConfig \<Rightarrow> gitHubActionsConfig" where
  "AllowTags tags c = c\<lparr>ga_tags := ga_tags c @ tags\<rparr>"

definition AllowRefs :: "string list \<Rightarrow> gitHubActionsConfig \<Rightarrow> gitHubActionsConfig" where
  "AllowRefs refs c = c\<lparr>ga_refs := ga_refs c @ refs\<rparr>"

text \<open>\<^verbatim>\<open>regexp.QuoteMeta\<close> and \<^verbatim>\<open>strings.ReplaceAll\<close>.\<close>

definition special_char :: "char \<Rightarrow> bool" where
  "special_char c \<longleftrightarrow> c = CHR 0x5C \<or> c \<in> set ''.+*?()|[]{}^$''"

definition QuoteMeta :: "string \<Rightarrow> string" where
  "QuoteMeta s = concat (map (\<lambda>c. if special_char c then [CHR 0x5C, c] else [c]) s)"

function ReplaceAll :: "string \<Rightarrow> string \<Rightarrow> string \<Rightarrow> string" where
  "ReplaceAll s old new =
     (if old = [] \<or> s = [] then s
      else if has_prefix s old then new @ ReplaceAll (drop (length old) s) old new
      else hd s # ReplaceAll (tl s) old new)"
  by pat_completeness auto
termination
  by (relation "measure (\<lambda>(s, old, new). length s)") auto

declare ReplaceAll.simps [simp del]

definition globToRegex :: "string \<Rightarrow> string" where
  "globToRegex pattern = ReplaceAll (QuoteMeta pattern) [CHR 0x5C, CHR ''*''] ''[^/]*''"

fun join_bar :: "string list \<Rightarrow> string" where
  "join_bar [] = []"
| "join_bar [p] = p"
| "join_bar (p # ps) = p @ ''|'' @ join_bar ps"

definition buildGitHubActionsSubjectRegex :: "string \<Rightarrow> gitHubActionsConfig \<Rightarrow> string" where
  "buildGitHubActionsSubjectRegex repo cfg =
     (let escapedRepo = QuoteMeta repo;
          workflowPattern = ''.github/workflows/[^@]+'';
          refPattern =
            (if ga_branches cfg = [] \<and> ga_tags cfg = [] \<and> ga_refs cfg = [] then ''refs/.+''
             else
               let patterns = map (\<lambda>branch. ''refs/heads/'' @ globToRegex branch) (ga_branches cfg)
                     @ map (\<lambda>tag. ''refs/tags/'' @ globToRegex tag) (ga_tags cfg) @ map globToRegex (ga_refs cfg)
               in ''(?:'' @ join_bar patterns @ '')'')
      in ''^https://github'' @ [CHR 0x5C] @ ''.com/'' @ escapedRepo @ ''/'' @ workflowPattern @ ''@'' @ refPattern @ ''$'')"

datatype 'r ga_option =
    GAConfig "gitHubActionsConfig \<Rightarrow> gitHubActionsConfig"
  | GAPolicy "'r sigstore_option"
  | GAOther

fun ga_options ::
  "'r ga_option list \<Rightarrow> gitHubActionsConfig \<Rightarrow> 'r sigstore_option list \<Rightarrow> (gitHubActionsConfig \<times> 'r sigstore_option list) res" where
  "ga_options [] cfg policyOpts = Inr (cfg, policyOpts)"
| "ga_options (GAConfig opt # opts) cfg policyOpts = ga_options opts (opt cfg) policyOpts"
| "ga_options (GAPolicy opt # opts) cfg policyOpts = ga_options opts cfg (policyOpts @ [opt])"
| "ga_options (GAOther # opts) cfg policyOpts = Inl (ErrNew ''sigstore: unexpected option type'')"

definition GitHubActionsPolicy :: "('r, 'b) sigstore_lib \<Rightarrow> string \<Rightarrow> 'r ga_option list \<Rightarrow> 'r sigstore_policy res" where
  "GitHubActionsPolicy S repo opts =
     (if repo = [] then Inl (ErrNew ''sigstore: repository cannot be empty'')
      else bindE (ga_options opts \<lparr>ga_branches = [], ga_tags = [], ga_refs = []\<rparr> []) (\<lambda>(cfg, policyOpts).
        bindE (mapErr (Wrap ''sigstore: create identity'')
          (new_identity S \<lparr>ci_Issuer = ''https://token.actions.githubusercontent.com'', ci_IssuerRegexp = [], ci_Subject = [],
             ci_SubjectRegexp = buildGitHubActionsSubjectRegex repo cfg\<rparr>)) (\<lambda>identity.
          Sigstore_NewPolicy S ((\<lambda>p. Inr (p\<lparr>sy_identity := Some identity\<rparr>)) # policyOpts))))"

section \<open>What acceptance means\<close>

lemma verifyBundle_None:
  "verifyBundle S tr identity data payload = None \<longleftrightarrow>
   (\<exists>b. sg_UnmarshalBundle S data = Inr b \<and> sg_NewVerifier S tr = None \<and> sg_Verify S tr identity b payload = None)"
  by (auto simp: verifyBundle_def split: sum.splits option.splits)

definition sigstore_layers :: "(bytes \<Rightarrow> ociArtifactManifest option) \<Rightarrow> bytes \<Rightarrow> Descriptor list" where
  "sigstore_layers unmarshal data = (case parseOCIArtifactLayers unmarshal data of Inr (Some layers) \<Rightarrow> layers | _ \<Rightarrow> [])"

lemma verify_layers_run:
  "verify_layers S tr identity req payload ls e w = (r, w') \<Longrightarrow>
   client_run req w w' \<and> (r = None \<longrightarrow> (\<exists>layer\<in>set ls. \<exists>w1 data w2. client_run req w w1 \<and>
      pc_FetchDescriptor (pr_Client req) (pr_Ref req) layer w1 = (Inr data, w2) \<and> verifyBundle S tr identity data payload = None))"
proof (induction ls arbitrary: e w)
  case (Cons l ls)
  obtain x w1 where x: "pc_FetchDescriptor (pr_Client req) (pr_Ref req) l w = (x, w1)" by (metis prod.exhaust)
  then have run: "client_run req w w1" by (rule client_runs)
  show ?case
  proof (cases "\<exists>e'. verify_layers S tr identity req payload ls e' w1 = (r, w')")
    case True
    then obtain e' where "verify_layers S tr identity req payload ls e' w1 = (r, w')" by blast
    note IH = Cons.IH [OF this]
    have "\<exists>layer\<in>set (l # ls). \<exists>w1 data w2. client_run req w w1 \<and>
        pc_FetchDescriptor (pr_Client req) (pr_Ref req) layer w1 = (Inr data, w2) \<and> verifyBundle S tr identity data payload = None" if r: "r = None"
    proof -
      from IH r obtain layer w2 data w3 where l: "layer \<in> set ls" "client_run req w1 w2"
        "pc_FetchDescriptor (pr_Client req) (pr_Ref req) layer w2 = (Inr data, w3)" "verifyBundle S tr identity data payload = None" by blast
      from client_run_trans [OF l(2) run] l show ?thesis by (intro bexI [of _ layer] exI conjI) auto
    qed
    with IH client_run_trans [OF _ run] show ?thesis by blast
  next
    case False
    with Cons.prems x obtain data where "x = Inr data" "verifyBundle S tr identity data payload = None" "w' = w1"
      by (cases x) (auto split: option.splits)
    with x run show ?thesis using run_refl by fastforce
  qed
qed (auto intro: client_runs)

lemma verifyBundleData_run:
  assumes "verifyBundleData unmarshal S tr identity req d payload w = (r, w')"
  shows "client_run req w w' \<and> (r = None \<longrightarrow> (\<exists>data. carried (sigstore_layers unmarshal) req d w data \<and> verifyBundle S tr identity data payload = None))"
proof (cases "\<exists>ls. parseOCIArtifactLayers unmarshal d = Inr (Some ls)")
  case True
  then obtain ls where ls: "parseOCIArtifactLayers unmarshal d = Inr (Some ls)" by blast
  then have "sigstore_layers unmarshal d = ls" by (simp add: sigstore_layers_def)
  moreover have "verify_layers S tr identity req payload ls (ErrNew ''sigstore: no valid bundle layers found'') w = (r, w')"
    using assms ls by (simp add: verifyBundleData_def)
  note verify_layers_run [OF this]
  ultimately show ?thesis unfolding carried_def by blast
next
  case False
  then have "w' = w \<and> (r = None \<longrightarrow> verifyBundle S tr identity d payload = None)"
    using assms by (auto simp: verifyBundleData_def split: sum.splits option.splits)
  then show ?thesis using run_refl [of req w] unfolding carried_def by blast
qed

text \<open>The bundle that was verified came from a referrer in the list.\<close>

lemma verify_referrers_None:
  "verify_referrers unmarshal S tr identity req payload refs e w = (None, w') \<Longrightarrow>
   \<exists>ref\<in>set refs. \<exists>w1 d w2 data. client_run req w w1 \<and> pc_FetchDescriptor (pr_Client req) (pr_Ref req) ref w1 = (Inr d, w2) \<and>
     carried (sigstore_layers unmarshal) req d w2 data \<and> verifyBundle S tr identity data payload = None"
proof (induction refs arbitrary: e w)
  case (Cons ref refs)
  obtain x w1 where x: "pc_FetchDescriptor (pr_Client req) (pr_Ref req) ref w = (x, w1)" by (metis prod.exhaust)
  then have run: "client_run req w w1" by (rule client_runs)
  have later: ?case if run: "client_run req w w2" and r: "verify_referrers unmarshal S tr identity req payload refs e' w2 = (None, w')" for w2 e'
  proof -
    from Cons.IH [OF r] obtain ref' w3 d w4 data where l: "ref' \<in> set refs" "client_run req w2 w3"
      "pc_FetchDescriptor (pr_Client req) (pr_Ref req) ref' w3 = (Inr d, w4)" "carried (sigstore_layers unmarshal) req d w4 data"
      "verifyBundle S tr identity data payload = None" by blast
    from client_run_trans [OF l(2) run] l show ?thesis by (intro bexI [of _ ref'] exI conjI) auto
  qed
  show ?case
  proof (cases x)
    case (Inl err)
    with Cons.prems x later [OF run] show ?thesis by simp
  next
    case (Inr d)
    obtain y w2 where y: "verifyBundleData unmarshal S tr identity req d payload w1 = (y, w2)" by (metis prod.exhaust)
    note data = verifyBundleData_run [OF y]
    have run2: "client_run req w w2" using data client_run_trans [OF _ run] by blast
    show ?thesis
    proof (cases y)
      case None
      with data x Inr show ?thesis using run_refl [of req w] by (intro bexI [of _ ref]) auto
    next
      case (Some err)
      with Cons.prems x Inr y later [OF run2] show ?thesis by simp
    qed
  qed
qed simp

end
