(* ===== verification/SigstoreSigner.thy ===== *)
theory SigstoreSigner
  imports PolicySigstore
begin

text \<open>
  The signing side of \<^verbatim>\<open>policy/sigstore\<close>: key pairs made of an existing private key (\<^verbatim>\<open>keypair.go\<close>), identity tokens of the CI
  environment (\<^verbatim>\<open>ambient.go\<close>), the options of a signer (\<^verbatim>\<open>options.go\<close>) and the signer (\<^verbatim>\<open>signer.go\<close>). The Sigstore library and
  the cryptographic packages are the argument \<open>K\<close>: the details of an algorithm, hash functions, encodings of keys, building a bundle.
\<close>

section \<open>Keys\<close>

text \<open>The dynamic type of a \<^verbatim>\<open>crypto.Signer\<close>, with the name of the curve or the size of the modulus.\<close>

datatype key_type = ECDSAKey string | RSAKey int | Ed25519Key | OtherKey string

record 'p crypto_signer =
  cs_type :: key_type
  cs_Public :: 'p
  cs_Sign :: "bytes \<Rightarrow> string option \<Rightarrow> bytes res"

datatype PublicKeyDetails =
    PKIX_ECDSA_P256_SHA_256
  | PKIX_ECDSA_P384_SHA_384
  | PKIX_ECDSA_P521_SHA_512
  | PKIX_RSA_PKCS1V15_2048_SHA256
  | PKIX_RSA_PKCS1V15_3072_SHA256
  | PKIX_RSA_PKCS1V15_4096_SHA256
  | PKIX_ED25519

datatype KeyType = KT_ECDSA | KT_RSA | KT_ED25519 | KT_Other

text \<open>The hash function is \<open>None\<close> for \<^verbatim>\<open>crypto.Hash(0)\<close>.\<close>

record AlgorithmDetails =
  ad_SignatureAlgorithm :: PublicKeyDetails
  ad_KeyType :: KeyType
  ad_HashType :: "string option"
  ad_ProtoHashType :: string

record pem_block =
  pb_Type :: string
  pb_Bytes :: bytes
  pb_Encrypted :: bool

record 'p key_lib =
  kl_AlgorithmDetails :: "PublicKeyDetails \<Rightarrow> AlgorithmDetails res"
  kl_MarshalPublic :: "'p \<Rightarrow> bytes res"
  kl_PublicToPEM :: "'p \<Rightarrow> bytes res"
  kl_sha256 :: "bytes \<Rightarrow> bytes"
  kl_Hash :: "string \<Rightarrow> bytes \<Rightarrow> bytes"
  kl_PemDecode :: "bytes \<Rightarrow> pem_block option"
  kl_Decrypt :: "pem_block \<Rightarrow> bytes \<Rightarrow> bytes res"
  kl_ParsePKCS8 :: "bytes \<Rightarrow> (string + 'p crypto_signer) res"
  kl_ParsePKCS1 :: "bytes \<Rightarrow> 'p crypto_signer res"
  kl_ParseEC :: "bytes \<Rightarrow> 'p crypto_signer res"

text \<open>\<^verbatim>\<open>base64.StdEncoding\<close>.\<close>

definition base64_char :: "nat \<Rightarrow> char" where
  "base64_char n = ''ABCDEFGHIJKLMNOPQRSTUVWXYZabcdefghijklmnopqrstuvwxyz0123456789+/'' ! (n mod 64)"

fun base64_EncodeToString :: "bytes \<Rightarrow> string" where
  "base64_EncodeToString [] = []"
| "base64_EncodeToString [a] = [base64_char (unat a div 4), base64_char (unat a mod 4 * 16), CHR ''='', CHR ''='']"
| "base64_EncodeToString [a, b] =
     [base64_char (unat a div 4), base64_char (unat a mod 4 * 16 + unat b div 16), base64_char (unat b mod 16 * 4), CHR ''='']"
| "base64_EncodeToString (a # b # c # bs) =
     [base64_char (unat a div 4), base64_char (unat a mod 4 * 16 + unat b div 16),
      base64_char (unat b mod 16 * 4 + unat c div 64), base64_char (unat c mod 64)] @ base64_EncodeToString bs"

record 'p StaticKeypair =
  kp_privKey :: "'p crypto_signer"
  kp_algDetails :: AlgorithmDetails
  kp_hint :: bytes

definition detectECDSAAlgorithm :: "string \<Rightarrow> PublicKeyDetails res" where
  "detectECDSAAlgorithm curve =
     (if curve = ''P-256'' then Inr PKIX_ECDSA_P256_SHA_256
      else if curve = ''P-384'' then Inr PKIX_ECDSA_P384_SHA_384
      else if curve = ''P-521'' then Inr PKIX_ECDSA_P521_SHA_512
      else Inl (Errorf ''sigstore: unsupported ECDSA curve'' [curve] []))"

definition detectRSAAlgorithm :: "int \<Rightarrow> PublicKeyDetails res" where
  "detectRSAAlgorithm bits =
     (if bits \<ge> 4096 then Inr PKIX_RSA_PKCS1V15_4096_SHA256
      else if bits \<ge> 3072 then Inr PKIX_RSA_PKCS1V15_3072_SHA256
      else if bits \<ge> 2048 then Inr PKIX_RSA_PKCS1V15_2048_SHA256
      else Inl (Errorf ''sigstore: RSA key size bits is too small (minimum 2048)'' [] [bits]))"

definition detectAlgorithm :: "'p crypto_signer \<Rightarrow> PublicKeyDetails res" where
  "detectAlgorithm key =
     (case cs_type key of
        ECDSAKey curve \<Rightarrow> detectECDSAAlgorithm curve
      | RSAKey bits \<Rightarrow> detectRSAAlgorithm bits
      | Ed25519Key \<Rightarrow> Inr PKIX_ED25519
      | OtherKey t \<Rightarrow> Inl (Errorf ''sigstore: unsupported key type'' [t] []))"

definition NewStaticKeypair :: "'p key_lib \<Rightarrow> 'p crypto_signer option \<Rightarrow> 'p StaticKeypair res" where
  "NewStaticKeypair K nkey =
     (case nkey of
        None \<Rightarrow> Inl (ErrNew ''sigstore: nil key'')
      | Some key \<Rightarrow>
          bindE (detectAlgorithm key) (\<lambda>algo.
          bindE (mapErr (Wrap ''sigstore: get algorithm details'') (kl_AlgorithmDetails K algo)) (\<lambda>algDetails.
          bindE (mapErr (Wrap ''sigstore: marshal public key'') (kl_MarshalPublic K (cs_Public key))) (\<lambda>pubKeyBytes.
            Inr \<lparr>kp_privKey = key, kp_algDetails = algDetails,
                 kp_hint = to_bytes (base64_EncodeToString (kl_sha256 K pubKeyBytes))\<rparr>))))"

definition ParsePrivateKeyPEM :: "'p key_lib \<Rightarrow> bytes \<Rightarrow> bytes option \<Rightarrow> 'p crypto_signer res" where
  "ParsePrivateKeyPEM K pemData password =
     (case kl_PemDecode K pemData of
        None \<Rightarrow> Inl (ErrNew ''sigstore: failed to decode PEM block'')
      | Some block \<Rightarrow>
          bindE (if pb_Encrypted block then
                   (case password of
                      None \<Rightarrow> Inl (ErrNew ''sigstore: encrypted key requires password'')
                    | Some pw \<Rightarrow> mapErr (Wrap ''sigstore: decrypt PEM block'') (kl_Decrypt K block pw))
                 else Inr (pb_Bytes block)) (\<lambda>keyBytes.
            if pb_Type block = ''PRIVATE KEY'' then
              bindE (mapErr (Wrap ''sigstore: parse PKCS8 private key'') (kl_ParsePKCS8 K keyBytes)) (\<lambda>key.
                case key of
                  Inl t \<Rightarrow> Inl (Errorf ''sigstore: key type does not implement crypto.Signer'' [t] [])
                | Inr signer \<Rightarrow> Inr signer)
            else if pb_Type block = ''RSA PRIVATE KEY'' then
              mapErr (Wrap ''sigstore: parse PKCS1 private key'') (kl_ParsePKCS1 K keyBytes)
            else if pb_Type block = ''EC PRIVATE KEY'' then
              mapErr (Wrap ''sigstore: parse EC private key'') (kl_ParseEC K keyBytes)
            else Inl (Errorf ''sigstore: unsupported PEM block type'' [pb_Type block] [])))"

definition GetHashAlgorithm :: "'p StaticKeypair \<Rightarrow> string" where
  "GetHashAlgorithm s = ad_ProtoHashType (kp_algDetails s)"

definition GetSigningAlgorithm :: "'p StaticKeypair \<Rightarrow> PublicKeyDetails" where
  "GetSigningAlgorithm s = ad_SignatureAlgorithm (kp_algDetails s)"

definition GetHint :: "'p StaticKeypair \<Rightarrow> bytes" where
  "GetHint s = kp_hint s"

definition GetKeyAlgorithm :: "'p StaticKeypair \<Rightarrow> string" where
  "GetKeyAlgorithm s =
     (case ad_KeyType (kp_algDetails s) of KT_ECDSA \<Rightarrow> ''ECDSA'' | KT_RSA \<Rightarrow> ''RSA'' | KT_ED25519 \<Rightarrow> ''ED25519'' | KT_Other \<Rightarrow> [])"

definition GetPublicKey :: "'p StaticKeypair \<Rightarrow> 'p" where
  "GetPublicKey s = cs_Public (kp_privKey s)"

definition GetPublicKeyPem :: "'p key_lib \<Rightarrow> 'p StaticKeypair \<Rightarrow> string res" where
  "GetPublicKeyPem K s = bindE (kl_PublicToPEM K (cs_Public (kp_privKey s))) (\<lambda>pubKeyBytes. Inr (of_bytes pubKeyBytes))"

definition SignData :: "'p key_lib \<Rightarrow> 'p StaticKeypair \<Rightarrow> bytes \<Rightarrow> (bytes \<times> bytes) res" where
  "SignData K s data =
     (let hf = ad_HashType (kp_algDetails s);
          dataToSign = (case hf of None \<Rightarrow> data | Some h \<Rightarrow> kl_Hash K h data)
      in bindE (cs_Sign (kp_privKey s) dataToSign hf) (\<lambda>sig. Inr (sig, dataToSign)))"

section \<open>Identity tokens\<close>

text \<open>\<open>getenv\<close> is the environment, \<open>bad_url\<close> the error of \<^verbatim>\<open>http.NewRequest\<close> for a URL, \<open>decode\<close> the member \<^verbatim>\<open>value\<close> of the decoded
  body.\<close>

definition getGitHubActionsToken ::
  "(string \<Rightarrow> string) \<Rightarrow> (string \<Rightarrow> err option) \<Rightarrow> (reader \<Rightarrow> string res) \<Rightarrow> 'n http_client \<Rightarrow> 'n \<Rightarrow> string res \<times> 'n" where
  "getGitHubActionsToken getenv bad_url decode client net =
     (let requestURL = getenv ''ACTIONS_ID_TOKEN_REQUEST_URL'';
          requestToken = getenv ''ACTIONS_ID_TOKEN_REQUEST_TOKEN''
      in if requestURL = [] \<or> requestToken = []
         then (Inl (ErrNew ''GitHub Actions OIDC environment variables not set''), net)
         else
           let url = requestURL @ ''&audience=sigstore''
           in case bad_url url of
                Some err \<Rightarrow> (Inl (Wrap ''create request'' err), net)
              | None \<Rightarrow>
                  (case client \<lparr>rq_method = ''GET'', rq_url = url,
                       rq_header = header_Set ''Accept'' ''application/json'' (header_Set ''Authorization'' (''Bearer '' @ requestToken) [])\<rparr> net of
                     (Inl err, net) \<Rightarrow> (Inl (Wrap ''fetch token'' err), net)
                   | (Inr resp, net) \<Rightarrow>
                       if rs_code resp \<noteq> 200
                       then (case io_ReadAll (rs_body resp) of
                               Inl err \<Rightarrow> (Inl (Errorf ''GitHub Actions OIDC request failed with status'' [] [rs_code resp]), net)
                             | Inr body \<Rightarrow> (Inl (Errorf ''GitHub Actions OIDC request failed with status'' [of_bytes body] [rs_code resp]), net))
                       else case decode (rs_body resp) of
                         Inl err \<Rightarrow> (Inl (Wrap ''decode token response'' err), net)
                       | Inr tokenValue \<Rightarrow>
                           if tokenValue = [] then (Inl (ErrNew ''empty token returned from GitHub Actions''), net)
                           else (Inr tokenValue, net)))"

definition GetAmbientToken ::
  "(string \<Rightarrow> string) \<Rightarrow> (string \<Rightarrow> err option) \<Rightarrow> (reader \<Rightarrow> string res) \<Rightarrow> 'n http_client \<Rightarrow> 'n \<Rightarrow> string res \<times> 'n" where
  "GetAmbientToken getenv bad_url decode client net =
     (case getGitHubActionsToken getenv bad_url decode client net of
        (Inr token, net) \<Rightarrow> (Inr token, net)
      | (Inl err, net) \<Rightarrow> (Inl (ErrNew ''no ambient OIDC credentials found (not running in GitHub Actions?)''), net))"

section \<open>The signer\<close>

text \<open>A certificate provider and a transparency log are known by the URL of the service.\<close>

record BundleOptions =
  bo_CertificateProvider :: "string option"
  bo_IDToken :: "string option"
  bo_TransparencyLogs :: "string list"

datatype ('e, 'p) Keypair = Ephemeral 'e | Static "'p StaticKeypair"

record ('e, 'p, 'w) Signer =
  sn_keypair :: "('e, 'p) Keypair option"
  sn_opts :: BundleOptions
  sn_tokenProvider :: "('w \<Rightarrow> string res \<times> 'w) option"

record Signature =
  sig_Data :: bytes
  sig_MediaType :: string

type_synonym ('e, 'p, 'w) signer_option = "('e, 'p, 'w) Signer \<Rightarrow> ('e, 'p, 'w) Signer res"

definition WithEphemeralKey :: "'e res \<Rightarrow> ('e, 'p, 'w) signer_option" where
  "WithEphemeralKey generated s = bindE generated (\<lambda>kp. Inr (s\<lparr>sn_keypair := Some (Ephemeral kp)\<rparr>))"

definition WithFulcio :: "string \<Rightarrow> ('e, 'p, 'w) signer_option" where
  "WithFulcio baseURL s = Inr (s\<lparr>sn_opts := (sn_opts s)\<lparr>bo_CertificateProvider := Some baseURL\<rparr>\<rparr>)"

definition WithIDToken :: "string \<Rightarrow> ('e, 'p, 'w) signer_option" where
  "WithIDToken token s = Inr (s\<lparr>sn_tokenProvider := Some (\<lambda>w. (Inr token, w))\<rparr>)"

definition WithAmbientCredentials ::
  "(string \<Rightarrow> string) \<Rightarrow> (string \<Rightarrow> err option) \<Rightarrow> (reader \<Rightarrow> string res) \<Rightarrow> 'w http_client \<Rightarrow> ('e, 'p, 'w) signer_option" where
  "WithAmbientCredentials getenv bad_url decode client s =
     Inr (s\<lparr>sn_tokenProvider := Some (GetAmbientToken getenv bad_url decode client)\<rparr>)"

definition WithRekor :: "string \<Rightarrow> ('e, 'p, 'w) signer_option" where
  "WithRekor baseURL s = Inr (s\<lparr>sn_opts := (sn_opts s)\<lparr>bo_TransparencyLogs := bo_TransparencyLogs (sn_opts s) @ [baseURL]\<rparr>\<rparr>)"

definition WithPrivateKey :: "'p key_lib \<Rightarrow> 'p crypto_signer option \<Rightarrow> ('e, 'p, 'w) signer_option" where
  "WithPrivateKey K key s = bindE (NewStaticKeypair K key) (\<lambda>kp. Inr (s\<lparr>sn_keypair := Some (Static kp)\<rparr>))"

definition WithPrivateKeyPEM :: "'p key_lib \<Rightarrow> bytes \<Rightarrow> bytes option \<Rightarrow> ('e, 'p, 'w) signer_option" where
  "WithPrivateKeyPEM K pemData password s =
     bindE (ParsePrivateKeyPEM K pemData password) (\<lambda>key.
     bindE (NewStaticKeypair K (Some key)) (\<lambda>kp. Inr (s\<lparr>sn_keypair := Some (Static kp)\<rparr>)))"

definition NewSigner :: "('e, 'p, 'w) signer_option list \<Rightarrow> ('e, 'p, 'w) Signer res" where
  "NewSigner opts =
     bindE (apply_opts opts
        \<lparr>sn_keypair = None, sn_opts = \<lparr>bo_CertificateProvider = None, bo_IDToken = None, bo_TransparencyLogs = []\<rparr>,
         sn_tokenProvider = None\<rparr>) (\<lambda>s.
       if sn_keypair s = None then Inl (ErrNew ''sigstore: no keypair configured (use WithEphemeralKey or WithPrivateKey)'')
       else Inr s)"

text \<open>The options for one signature: those of the signer, with a token when there is a certificate provider and a source of tokens.\<close>

definition signing_options :: "('e, 'p, 'w) Signer \<Rightarrow> 'w \<Rightarrow> BundleOptions res \<times> 'w" where
  "signing_options s w =
     (case (sn_tokenProvider s, bo_CertificateProvider (sn_opts s)) of
        (Some provider, Some fulcio) \<Rightarrow>
          (case provider w of
             (Inl err, w) \<Rightarrow> (Inl (Wrap ''sigstore get token'' err), w)
           | (Inr token, w) \<Rightarrow> (Inr ((sn_opts s)\<lparr>bo_IDToken := Some token\<rparr>), w))
      | _ \<Rightarrow> (Inr (sn_opts s), w))"

text \<open>\<open>bundle\<close> is \<^verbatim>\<open>sign.Bundle\<close> and \<open>marshal\<close> \<^verbatim>\<open>protojson.Marshal\<close>.\<close>

definition Signer_Sign ::
  "(bytes \<Rightarrow> ('e, 'p) Keypair option \<Rightarrow> BundleOptions \<Rightarrow> 'w \<Rightarrow> 'b res \<times> 'w) \<Rightarrow> ('b \<Rightarrow> bytes res) \<Rightarrow> ('e, 'p, 'w) Signer \<Rightarrow> bytes \<Rightarrow> 'w \<Rightarrow>
   Signature res \<times> 'w" where
  "Signer_Sign bundle marshal s payload w =
     (case signing_options s w of
        (Inl err, w) \<Rightarrow> (Inl err, w)
      | (Inr opts, w) \<Rightarrow>
          (case bundle payload (sn_keypair s) opts w of
             (Inl err, w) \<Rightarrow> (Inl (Wrap ''sigstore sign'' err), w)
           | (Inr b, w) \<Rightarrow>
               (case marshal b of
                  Inl err \<Rightarrow> (Inl (Wrap ''sigstore marshal bundle'' err), w)
                | Inr bundleJSON \<Rightarrow> (Inr \<lparr>sig_Data = bundleJSON, sig_MediaType = SigstoreBundleArtifactType\<rparr>, w))))"

definition SignManifest ::
  "(bytes \<Rightarrow> ('e, 'p) Keypair option \<Rightarrow> BundleOptions \<Rightarrow> 'w \<Rightarrow> 'b res \<times> 'w) \<Rightarrow> ('b \<Rightarrow> bytes res) \<Rightarrow> ('e, 'p, 'w) Signer \<Rightarrow> bytes \<Rightarrow> 'w \<Rightarrow>
   (bytes \<times> string) res \<times> 'w" where
  "SignManifest bundle marshal s payload w =
     (case Signer_Sign bundle marshal s payload w of
        (Inl err, w) \<Rightarrow> (Inl err, w)
      | (Inr sig, w) \<Rightarrow> (Inr (sig_Data sig, sig_MediaType sig), w))"

section \<open>What the parts promise\<close>

lemma base64_length: "length (base64_EncodeToString bs) = 4 * ((length bs + 2) div 3)"
proof (induction bs rule: base64_EncodeToString.induct)
  case (4 a b c bs)
  have "(length (a # b # c # bs) + 2) div 3 = (length bs + 2) div 3 + 1" by simp
  with 4 show ?case by simp
qed simp_all

text \<open>An RSA key has at least 2048 bits and at least the size its algorithm is named for.\<close>

fun rsa_bits :: "PublicKeyDetails \<Rightarrow> int" where
  "rsa_bits PKIX_RSA_PKCS1V15_2048_SHA256 = 2048"
| "rsa_bits PKIX_RSA_PKCS1V15_3072_SHA256 = 3072"
| "rsa_bits PKIX_RSA_PKCS1V15_4096_SHA256 = 4096"
| "rsa_bits _ = 0"

theorem RSA_key_strength:
  "detectAlgorithm key = Inr algo \<Longrightarrow> cs_type key = RSAKey bits \<Longrightarrow> 2048 \<le> rsa_bits algo \<and> rsa_bits algo \<le> bits"
  by (auto simp: detectAlgorithm_def detectRSAAlgorithm_def split: if_splits)

lemma NewStaticKeypair_Inr:
  "NewStaticKeypair K nkey = Inr kp \<Longrightarrow>
   \<exists>key algo pub. nkey = Some key \<and> detectAlgorithm key = Inr algo \<and> kl_AlgorithmDetails K algo = Inr (kp_algDetails kp) \<and>
     kl_MarshalPublic K (cs_Public key) = Inr pub \<and> kp_privKey kp = key \<and>
     kp_hint kp = to_bytes (base64_EncodeToString (kl_sha256 K pub))"
  by (auto simp: NewStaticKeypair_def bindE_def mapErr_def split: option.splits sum.splits)

text \<open>What is signed is the digest of the data under the hash function of the algorithm, or the data when there is none.\<close>

theorem SignData_digest:
  assumes "SignData K s data = Inr (sig, signedData)"
  shows "cs_Sign (kp_privKey s) signedData (ad_HashType (kp_algDetails s)) = Inr sig \<and>
    signedData = (case ad_HashType (kp_algDetails s) of None \<Rightarrow> data | Some h \<Rightarrow> kl_Hash K h data)"
  using assms by (auto simp: SignData_def bindE_def Let_def split: sum.splits)

text \<open>The option for an encoded key is the option for the key that is parsed.\<close>

theorem WithPrivateKeyPEM_eq:
  "WithPrivateKeyPEM K pemData password s =
     (case ParsePrivateKeyPEM K pemData password of Inl err \<Rightarrow> Inl err | Inr key \<Rightarrow> WithPrivateKey K (Some key) s)"
  by (simp add: WithPrivateKeyPEM_def WithPrivateKey_def bindE_def split: sum.split)

lemma ParsePrivateKeyPEM_encrypted:
  "kl_PemDecode K pemData = Some block \<Longrightarrow> pb_Encrypted block \<Longrightarrow>
   ParsePrivateKeyPEM K pemData None = Inl (ErrNew ''sigstore: encrypted key requires password'')"
  by (simp add: ParsePrivateKeyPEM_def bindE_def)

text \<open>An ambient token is not empty and comes from a response with status 200 to a request with both variables of the environment.\<close>

theorem ambient_token:
  assumes "GetAmbientToken getenv bad_url decode client net = (Inr token, net')"
  shows "token \<noteq> [] \<and> getenv ''ACTIONS_ID_TOKEN_REQUEST_URL'' \<noteq> [] \<and> getenv ''ACTIONS_ID_TOKEN_REQUEST_TOKEN'' \<noteq> [] \<and>
    (\<exists>req resp. client req net = (Inr resp, net') \<and> rs_code resp = 200 \<and> decode (rs_body resp) = Inr token \<and>
       rq_url req = getenv ''ACTIONS_ID_TOKEN_REQUEST_URL'' @ ''&audience=sigstore'')"
proof -
  let ?url = "getenv ''ACTIONS_ID_TOKEN_REQUEST_URL''" and ?tok = "getenv ''ACTIONS_ID_TOKEN_REQUEST_TOKEN''"
  let ?req = "\<lparr>rq_method = ''GET'', rq_url = ?url @ ''&audience=sigstore'',
      rq_header = header_Set ''Accept'' ''application/json'' (header_Set ''Authorization'' (''Bearer '' @ ?tok) [])\<rparr>"
  have t: "getGitHubActionsToken getenv bad_url decode client net = (Inr token, net')"
    using assms by (auto simp: GetAmbientToken_def split: prod.splits sum.splits)
  then have env: "?url \<noteq> []" "?tok \<noteq> []" "bad_url (?url @ ''&audience=sigstore'') = None"
    by (auto simp: getGitHubActionsToken_def Let_def split: if_splits option.splits)
  obtain x n where c: "client ?req net = (x, n)" by (metis prod.exhaust)
  with t env obtain resp where "x = Inr resp" by (cases x) (auto simp: getGitHubActionsToken_def)
  with c t env have "rs_code resp = 200" "decode (rs_body resp) = Inr token" "token \<noteq> []" "n = net'"
    by (auto simp: getGitHubActionsToken_def split: if_splits sum.splits)
  with c env \<open>x = Inr resp\<close> show ?thesis by (intro conjI exI [of _ ?req] exI [of _ resp]) simp_all
qed

lemma NewSigner_keypair: "NewSigner opts = Inr s \<Longrightarrow> sn_keypair s \<noteq> None"
  by (auto simp: NewSigner_def bindE_def split: sum.splits if_splits)

text \<open>A successful signature is the encoded bundle of the payload; with a certificate provider and a source of tokens, a token was obtained.\<close>

lemma signing_options_Inr:
  "signing_options s w = (Inr opts, w1) \<Longrightarrow>
   w1 = w \<and> opts = sn_opts s \<or>
   (\<exists>p token. sn_tokenProvider s = Some p \<and> p w = (Inr token, w1) \<and> opts = (sn_opts s)\<lparr>bo_IDToken := Some token\<rparr>)"
  by (auto simp: signing_options_def split: option.splits prod.splits sum.splits)

text \<open>
  What verification by the Sigstore policy needs of a signature: a certificate, for which there must be an identity token, and an entry in
  a transparency log. The options of a signer with Fulcio, a source of tokens and Rekor always have them.
\<close>

definition keyless :: "BundleOptions \<Rightarrow> bool" where
  "keyless opts \<longleftrightarrow> bo_CertificateProvider opts \<noteq> None \<and> bo_IDToken opts \<noteq> None \<and> bo_TransparencyLogs opts \<noteq> []"

lemma signing_options_keyless:
  assumes "bo_CertificateProvider (sn_opts s) \<noteq> None" "sn_tokenProvider s \<noteq> None" "bo_TransparencyLogs (sn_opts s) \<noteq> []"
    and "signing_options s w = (Inr opts, w1)"
  shows "keyless opts"
  using assms by (auto simp: signing_options_def keyless_def split: prod.splits sum.splits)

lemma SignManifest_Inr:
  assumes "SignManifest bundle marshal s payload w = (Inr (d, t), w')"
  shows "\<exists>opts w1 b. signing_options s w = (Inr opts, w1) \<and> bundle payload (sn_keypair s) opts w1 = (Inr b, w') \<and>
    marshal b = Inr d \<and> t = SigstoreBundleArtifactType"
  using assms by (auto simp: SignManifest_def Signer_Sign_def split: prod.splits sum.splits)

end
