(* ===== verification/BlobClient.thy ===== *)
theory BlobClient
  imports RegistryRoundtrip Archives BlockCache
begin

text \<open>
  The package \<^verbatim>\<open>blob\<close> at the root of the repository: the client that creates, pushes, pulls, inspects, tags and signs archives, with
  its options, and \<^verbatim>\<open>registry.New\<close> with the options of the registry client, which every operation calls. Caches in directories are
  slots of the state \<open>disk_world\<close> beside the file system: a later option of the same kind replaces the cache and its slot.
  \<open>as_cached\<close> gives what reads through a block cache return. Logging and progress reports are left out; the compression
  ratio, a floating point number, too.
\<close>

section \<open>Definitions\<close>

subsection \<open>The constructor of the registry client\<close>

type_synonym oras_option = "Oras \<times> authHeaderCache option \<Rightarrow> Oras \<times> authHeaderCache option"

record 'n registry_opts =
  ro_oci :: "'n oras_world oci_client option"
  ro_refCache :: "'n oras_world ref_cache option"
  ro_manifestCache :: "'n oras_world manifest_cache option"
  ro_indexCache :: "'n oras_world index_cache option"
  ro_policies :: "'n oras_world Policy list"
  ro_orasOpts :: "oras_option list"

type_synonym 'n registry_option = "'n registry_opts \<Rightarrow> 'n registry_opts"

definition Registry_WithOCIClient :: "'n oras_world oci_client \<Rightarrow> 'n registry_option" where
  "Registry_WithOCIClient oci c = c\<lparr>ro_oci := Some oci\<rparr>"

definition Registry_WithOrasOptions :: "oras_option list \<Rightarrow> 'n registry_option" where
  "Registry_WithOrasOptions opts c = c\<lparr>ro_orasOpts := ro_orasOpts c @ opts\<rparr>"

definition Registry_WithPlainHTTP :: "bool \<Rightarrow> 'n registry_option" where
  "Registry_WithPlainHTTP enabled c = c\<lparr>ro_orasOpts := ro_orasOpts c @ [WithPlainHTTP enabled]\<rparr>"

definition Registry_WithDockerConfig :: "cred_store res \<Rightarrow> 'n registry_option" where
  "Registry_WithDockerConfig docker c = c\<lparr>ro_orasOpts := ro_orasOpts c @ [WithDockerConfig docker]\<rparr>"

definition Registry_WithUserAgent :: "string \<Rightarrow> 'n registry_option" where
  "Registry_WithUserAgent ua c = c\<lparr>ro_orasOpts := ro_orasOpts c @ [WithUserAgent ua]\<rparr>"

definition Registry_WithRefCache :: "'n oras_world ref_cache \<Rightarrow> 'n registry_option" where
  "Registry_WithRefCache rc c = c\<lparr>ro_refCache := Some rc\<rparr>"

definition Registry_WithManifestCache :: "'n oras_world manifest_cache \<Rightarrow> 'n registry_option" where
  "Registry_WithManifestCache mc c = c\<lparr>ro_manifestCache := Some mc\<rparr>"

definition Registry_WithIndexCache :: "'n oras_world index_cache \<Rightarrow> 'n registry_option" where
  "Registry_WithIndexCache ic c = c\<lparr>ro_indexCache := Some ic\<rparr>"

text \<open>A policy that is nil is \<open>None\<close>.\<close>

definition Registry_WithPolicy :: "'n oras_world Policy option \<Rightarrow> 'n registry_option" where
  "Registry_WithPolicy policy c = (case policy of None \<Rightarrow> c | Some p \<Rightarrow> c\<lparr>ro_policies := ro_policies c @ [p]\<rparr>)"

definition Registry_WithPolicies :: "'n oras_world Policy option list \<Rightarrow> 'n registry_option" where
  "Registry_WithPolicies policies c = c\<lparr>ro_policies := ro_policies c @ List.map_filter (\<lambda>p. p) policies\<rparr>"

text \<open>\<^verbatim>\<open>New\<close>: without an OCI client of its own it makes an ORAS client, whose header cache is new.\<close>

definition Registry_New ::
  "'n remote_lib \<Rightarrow> digest_lib \<Rightarrow> 'n registry_option list \<Rightarrow> 'n oras_world \<Rightarrow> 'n oras_world Client \<times> 'n oras_world" where
  "Registry_New R D opts w =
     (let c = fold (\<lambda>opt c. opt c) opts
            \<lparr>ro_oci = None, ro_refCache = None, ro_manifestCache = None, ro_indexCache = None, ro_policies = [], ro_orasOpts = []\<rparr>;
          (oci, w) = (case ro_oci c of
            Some oci \<Rightarrow> (oci, w)
          | None \<Rightarrow> (case oras_New (ro_orasOpts c) of (o', cache) \<Rightarrow> (oras_client R D o', w\<lparr>ow_cache := cache\<rparr>)))
      in (\<lparr>cl_oci = oci, cl_refCache = ro_refCache c, cl_manifestCache = ro_manifestCache c, cl_indexCache = ro_indexCache c,
           cl_policies = ro_policies c\<rparr>, w))"

subsection \<open>The state\<close>

record 'm disk_world =
  dw_content :: DiskCache
  dw_blocks :: BlockCache
  dw_refs :: RefCache
  dw_manifests :: ManifestCache
  dw_indexes :: IndexCache
  dw_fs :: fsys
  dw_net :: 'm

type_synonym 'm world = "'m disk_world oras_world"

definition on_fs :: "(fsys \<Rightarrow> 'x \<times> fsys) \<Rightarrow> 'm world \<Rightarrow> 'x \<times> 'm world" where
  "on_fs f w = (case f (dw_fs (ow_net w)) of (x, s) \<Rightarrow> (x, w\<lparr>ow_net := (ow_net w)\<lparr>dw_fs := s\<rparr>\<rparr>))"

definition get_refs :: "'m world \<Rightarrow> RefCache \<times> fsys" where
  "get_refs w = (dw_refs (ow_net w), dw_fs (ow_net w))"

definition put_refs :: "RefCache \<times> fsys \<Rightarrow> 'm world \<Rightarrow> 'm world" where
  "put_refs cs w = w\<lparr>ow_net := (ow_net w)\<lparr>dw_refs := fst cs, dw_fs := snd cs\<rparr>\<rparr>"

definition get_manifests :: "'m world \<Rightarrow> ManifestCache \<times> fsys" where
  "get_manifests w = (dw_manifests (ow_net w), dw_fs (ow_net w))"

definition put_manifests :: "ManifestCache \<times> fsys \<Rightarrow> 'm world \<Rightarrow> 'm world" where
  "put_manifests cs w = w\<lparr>ow_net := (ow_net w)\<lparr>dw_manifests := fst cs, dw_fs := snd cs\<rparr>\<rparr>"

definition get_indexes :: "'m world \<Rightarrow> IndexCache \<times> fsys" where
  "get_indexes w = (dw_indexes (ow_net w), dw_fs (ow_net w))"

definition put_indexes :: "IndexCache \<times> fsys \<Rightarrow> 'm world \<Rightarrow> 'm world" where
  "put_indexes cs w = w\<lparr>ow_net := (ow_net w)\<lparr>dw_indexes := fst cs, dw_fs := snd cs\<rparr>\<rparr>"

subsection \<open>The client and its options\<close>

record 'm BlobClient =
  bc_orasOpts :: "oras_option list"
  bc_contentCache :: "(DiskCache \<times> fsys) Cache option"
  bc_blockCache :: "(source \<Rightarrow> source res) option"
  bc_refCache :: "'m world ref_cache option"
  bc_manifestCache :: "'m world manifest_cache option"
  bc_indexCache :: "'m world index_cache option"
  bc_refCacheTTL :: i64
  bc_policies :: "'m world Policy list"

type_synonym 'm blob_option = "'m BlobClient \<Rightarrow> 'm world \<Rightarrow> 'm BlobClient res \<times> 'm world"

definition DefaultContentCacheSize :: i64 where
  "DefaultContentCacheSize = 100 * 2 ^ 20"

definition DefaultBlockCacheSize :: i64 where
  "DefaultBlockCacheSize = 50 * 2 ^ 20"

definition DefaultIndexCacheSize :: i64 where
  "DefaultIndexCacheSize = 50 * 2 ^ 20"

definition DefaultManifestCacheSize :: i64 where
  "DefaultManifestCacheSize = 10 * 2 ^ 20"

definition DefaultRefCacheSize :: i64 where
  "DefaultRefCacheSize = 5 * 2 ^ 20"

definition DefaultRefCacheTTL :: i64 where
  "DefaultRefCacheTTL = 5 * 60 * 1000000000"

fun blob_options :: "'m blob_option list \<Rightarrow> 'm blob_option" where
  "blob_options [] c w = (Inr c, w)"
| "blob_options (opt # opts) c w =
     (case opt c w of
        (Inl err, w) \<Rightarrow> (Inl err, w)
      | (Inr c, w) \<Rightarrow> blob_options opts c w)"

definition NewClient :: "'m blob_option list \<Rightarrow> 'm world \<Rightarrow> 'm BlobClient res \<times> 'm world" where
  "NewClient opts w =
     blob_options opts
       \<lparr>bc_orasOpts = [], bc_contentCache = None, bc_blockCache = None, bc_refCache = None, bc_manifestCache = None, bc_indexCache = None,
        bc_refCacheTTL = DefaultRefCacheTTL, bc_policies = []\<rparr> w"

definition oras_opt :: "oras_option \<Rightarrow> 'm blob_option" where
  "oras_opt opt c w = (Inr (c\<lparr>bc_orasOpts := bc_orasOpts c @ [opt]\<rparr>), w)"

definition Client_WithDockerConfig :: "cred_store res \<Rightarrow> 'm blob_option" where
  "Client_WithDockerConfig docker = oras_opt (WithDockerConfig docker)"

definition Client_WithStaticCredentials :: "string \<Rightarrow> string \<Rightarrow> string \<Rightarrow> 'm blob_option" where
  "Client_WithStaticCredentials registry username password = oras_opt (WithStaticCredentials registry username password)"

definition Client_WithStaticToken :: "string \<Rightarrow> string \<Rightarrow> 'm blob_option" where
  "Client_WithStaticToken registry token = oras_opt (WithStaticToken registry token)"

definition Client_WithAnonymous :: "'m blob_option" where
  "Client_WithAnonymous = oras_opt WithAnonymous"

definition Client_WithPlainHTTP :: "bool \<Rightarrow> 'm blob_option" where
  "Client_WithPlainHTTP enabled = oras_opt (WithPlainHTTP enabled)"

definition Client_WithUserAgent :: "string \<Rightarrow> 'm blob_option" where
  "Client_WithUserAgent ua = oras_opt (WithUserAgent ua)"

definition WithContentCacheDir :: "string \<Rightarrow> 'm blob_option" where
  "WithContentCacheDir dir c w =
     (case on_fs (DiskCache_New dir [WithMaxBytes DefaultContentCacheSize]) w of
        (Inl err, w) \<Rightarrow> (Inl err, w)
      | (Inr cache, w) \<Rightarrow> (Inr (c\<lparr>bc_contentCache := Some disk_cache\<rparr>), w\<lparr>ow_net := (ow_net w)\<lparr>dw_content := cache\<rparr>\<rparr>))"

definition WithBlockCacheDir :: "(BlockCache \<Rightarrow> source \<Rightarrow> source res) \<Rightarrow> string \<Rightarrow> 'm blob_option" where
  "WithBlockCacheDir as_cached dir c w =
     (case on_fs (NewBlockCache dir [WithBlockMaxBytes DefaultBlockCacheSize]) w of
        (Inl err, w) \<Rightarrow> (Inl err, w)
      | (Inr cache, w) \<Rightarrow> (Inr (c\<lparr>bc_blockCache := Some (as_cached cache)\<rparr>), w\<lparr>ow_net := (ow_net w)\<lparr>dw_blocks := cache\<rparr>\<rparr>))"

definition WithRefCacheDir :: "(bytes \<Rightarrow> bytes) \<Rightarrow> string \<Rightarrow> 'm blob_option" where
  "WithRefCacheDir sha256 dir c w =
     (case on_fs (NewRefCache dir [Reg_WithMaxBytes DefaultRefCacheSize, WithRefCacheTTL (bc_refCacheTTL c)]) w of
        (Inl err, w) \<Rightarrow> (Inl err, w)
      | (Inr cache, w) \<Rightarrow>
          (Inr (c\<lparr>bc_refCache := Some (disk_ref_cache sha256 get_refs put_refs)\<rparr>), w\<lparr>ow_net := (ow_net w)\<lparr>dw_refs := cache\<rparr>\<rparr>))"

definition WithManifestCacheDir :: "digest_lib \<Rightarrow> (bytes \<Rightarrow> Manifest option) \<Rightarrow> string \<Rightarrow> 'm blob_option" where
  "WithManifestCacheDir D unmarshal dir c w =
     (case on_fs (NewManifestCache dir [Reg_WithMaxBytes DefaultManifestCacheSize]) w of
        (Inl err, w) \<Rightarrow> (Inl err, w)
      | (Inr cache, w) \<Rightarrow>
          (Inr (c\<lparr>bc_manifestCache := Some (disk_manifest_cache D unmarshal get_manifests put_manifests)\<rparr>),
           w\<lparr>ow_net := (ow_net w)\<lparr>dw_manifests := cache\<rparr>\<rparr>))"

definition WithIndexCacheDir :: "digest_lib \<Rightarrow> string \<Rightarrow> 'm blob_option" where
  "WithIndexCacheDir D dir c w =
     (case on_fs (NewIndexCache dir [Reg_WithMaxBytes DefaultIndexCacheSize]) w of
        (Inl err, w) \<Rightarrow> (Inl err, w)
      | (Inr cache, w) \<Rightarrow>
          (Inr (c\<lparr>bc_indexCache := Some (disk_index_cache D get_indexes put_indexes)\<rparr>), w\<lparr>ow_net := (ow_net w)\<lparr>dw_indexes := cache\<rparr>\<rparr>))"

text \<open>\<^verbatim>\<open>WithCacheDir\<close> does what the five options do, in this order, on subdirectories.\<close>

definition WithCacheDir ::
  "(BlockCache \<Rightarrow> source \<Rightarrow> source res) \<Rightarrow> (bytes \<Rightarrow> bytes) \<Rightarrow> digest_lib \<Rightarrow> (bytes \<Rightarrow> Manifest option) \<Rightarrow> string \<Rightarrow> 'm blob_option" where
  "WithCacheDir as_cached sha256 D unmarshal dir c w =
     (case on_fs (os_MkdirAll dir) w of
        (Some err, w) \<Rightarrow> (Inl err, w)
      | (None, w) \<Rightarrow>
          blob_options
            [WithContentCacheDir (join_path dir ''content''), WithBlockCacheDir as_cached (join_path dir ''blocks''),
             WithRefCacheDir sha256 (join_path dir ''refs''), WithManifestCacheDir D unmarshal (join_path dir ''manifests''),
             WithIndexCacheDir D (join_path dir ''indexes'')] c w)"

definition Client_WithRefCacheTTL :: "i64 \<Rightarrow> 'm blob_option" where
  "Client_WithRefCacheTTL ttl c w =
     (if ttl < 0 then (Inl (ErrNew ''ref cache TTL must be non-negative''), w) else (Inr (c\<lparr>bc_refCacheTTL := ttl\<rparr>), w))"

definition Client_WithContentCache :: "(DiskCache \<times> fsys) Cache \<Rightarrow> 'm blob_option" where
  "Client_WithContentCache cache c w = (Inr (c\<lparr>bc_contentCache := Some cache\<rparr>), w)"

definition Client_WithBlockCache :: "(source \<Rightarrow> source res) \<Rightarrow> 'm blob_option" where
  "Client_WithBlockCache cache c w = (Inr (c\<lparr>bc_blockCache := Some cache\<rparr>), w)"

definition Client_WithRefCache :: "'m world ref_cache \<Rightarrow> 'm blob_option" where
  "Client_WithRefCache cache c w = (Inr (c\<lparr>bc_refCache := Some cache\<rparr>), w)"

definition Client_WithManifestCache :: "'m world manifest_cache \<Rightarrow> 'm blob_option" where
  "Client_WithManifestCache cache c w = (Inr (c\<lparr>bc_manifestCache := Some cache\<rparr>), w)"

definition Client_WithIndexCache :: "'m world index_cache \<Rightarrow> 'm blob_option" where
  "Client_WithIndexCache cache c w = (Inr (c\<lparr>bc_indexCache := Some cache\<rparr>), w)"

definition Client_WithPolicy :: "'m world Policy option \<Rightarrow> 'm blob_option" where
  "Client_WithPolicy policy c w =
     (Inr (case policy of None \<Rightarrow> c | Some p \<Rightarrow> c\<lparr>bc_policies := bc_policies c @ [p]\<rparr>), w)"

definition Client_WithPolicies :: "'m world Policy option list \<Rightarrow> 'm blob_option" where
  "Client_WithPolicies policies c w = (Inr (c\<lparr>bc_policies := bc_policies c @ List.map_filter (\<lambda>p. p) policies\<rparr>), w)"

subsection \<open>Operations\<close>

definition buildRegistryOpts :: "'m BlobClient \<Rightarrow> 'm disk_world registry_option list" where
  "buildRegistryOpts c =
     [Registry_WithOrasOptions (bc_orasOpts c)]
     @ (case bc_refCache c of None \<Rightarrow> [] | Some rc \<Rightarrow> [Registry_WithRefCache rc])
     @ (case bc_manifestCache c of None \<Rightarrow> [] | Some mc \<Rightarrow> [Registry_WithManifestCache mc])
     @ (case bc_indexCache c of None \<Rightarrow> [] | Some ic \<Rightarrow> [Registry_WithIndexCache ic])
     @ map (\<lambda>p. Registry_WithPolicy (Some p)) (bc_policies c)"

definition FetchWithSkipCache :: "fetchConfig \<Rightarrow> fetchConfig" where
  "FetchWithSkipCache cfg = cfg\<lparr>fe_skipCache := True\<rparr>"

definition BlobClient_Fetch ::
  "'m world reg_env \<Rightarrow> 'm disk_world remote_lib \<Rightarrow> 'm BlobClient \<Rightarrow> string \<Rightarrow> (fetchConfig \<Rightarrow> fetchConfig) list \<Rightarrow> 'm world \<Rightarrow>
   BlobManifest res \<times> 'm world" where
  "BlobClient_Fetch E R c ref opts w =
     (let cfg = fold (\<lambda>opt cfg. opt cfg) opts \<lparr>fe_skipCache = False\<rparr>;
          (regClient, w) = Registry_New R (re_digest E) (buildRegistryOpts c) w;
          fetchOpts = (if fe_skipCache cfg then [WithSkipCache] else [])
      in Fetch E regClient ref fetchOpts w)"

definition BlobClient_Tag ::
  "'m world reg_env \<Rightarrow> 'm disk_world remote_lib \<Rightarrow> 'm BlobClient \<Rightarrow> string \<Rightarrow> string \<Rightarrow> 'm world \<Rightarrow> err option \<times> 'm world" where
  "BlobClient_Tag E R c ref dgst w =
     (let (regClient, w) = Registry_New R (re_digest E) (buildRegistryOpts c) w in Client_Tag E regClient ref dgst w)"

record blobPullConfig =
  bp_skipCache :: bool
  bp_maxIndexSize :: i64
  bp_blobOpts :: "((DiskCache \<times> fsys) Blob \<Rightarrow> (DiskCache \<times> fsys) Blob) list"

definition PullWithSkipCache :: "blobPullConfig \<Rightarrow> blobPullConfig" where
  "PullWithSkipCache cfg = cfg\<lparr>bp_skipCache := True\<rparr>"

definition PullWithMaxIndexSize :: "i64 \<Rightarrow> blobPullConfig \<Rightarrow> blobPullConfig" where
  "PullWithMaxIndexSize maxBytes cfg = cfg\<lparr>bp_maxIndexSize := maxBytes\<rparr>"

definition PullWithMaxFileSize :: "u64 \<Rightarrow> blobPullConfig \<Rightarrow> blobPullConfig" where
  "PullWithMaxFileSize limit cfg = cfg\<lparr>bp_blobOpts := bp_blobOpts cfg @ [Blob_WithMaxFileSize limit]\<rparr>"

definition PullWithDecoderConcurrency :: "int \<Rightarrow> blobPullConfig \<Rightarrow> blobPullConfig" where
  "PullWithDecoderConcurrency n cfg = cfg\<lparr>bp_blobOpts := bp_blobOpts cfg @ [Blob_WithDecoderConcurrency n]\<rparr>"

definition PullWithDecoderLowmem :: "bool \<Rightarrow> blobPullConfig \<Rightarrow> blobPullConfig" where
  "PullWithDecoderLowmem enabled cfg = cfg\<lparr>bp_blobOpts := bp_blobOpts cfg @ [Blob_WithDecoderLowmem enabled]\<rparr>"

definition PullWithVerifyOnClose :: "bool \<Rightarrow> blobPullConfig \<Rightarrow> blobPullConfig" where
  "PullWithVerifyOnClose enabled cfg = cfg\<lparr>bp_blobOpts := bp_blobOpts cfg @ [WithVerifyOnClose enabled]\<rparr>"

definition pull_opts :: "'m BlobClient \<Rightarrow> blobPullConfig \<Rightarrow> ((DiskCache \<times> fsys) pullConfig \<Rightarrow> (DiskCache \<times> fsys) pullConfig) list" where
  "pull_opts c cfg =
     (let blobOpts = bp_blobOpts cfg @ (case bc_contentCache c of None \<Rightarrow> [] | Some cache \<Rightarrow> [WithCache cache])
      in (if bp_skipCache cfg then [WithPullSkipCache] else [])
         @ (if bp_maxIndexSize cfg > 0 then [WithMaxIndexSize (bp_maxIndexSize cfg)] else [])
         @ (case bc_blockCache c of None \<Rightarrow> [] | Some cache \<Rightarrow> [WithBlockCache cache])
         @ (if length blobOpts > 0 then [WithBlobOptions blobOpts] else []))"

definition BlobClient_Pull ::
  "'m world reg_env \<Rightarrow> 'm disk_world remote_lib \<Rightarrow> (http_source \<Rightarrow> 'm world http_client \<Rightarrow> 'm world \<Rightarrow> source) \<Rightarrow> 'm BlobClient \<Rightarrow>
   string \<Rightarrow> (blobPullConfig \<Rightarrow> blobPullConfig) list \<Rightarrow> 'm world \<Rightarrow> (DiskCache \<times> fsys) Blob res \<times> 'm world" where
  "BlobClient_Pull E R as_source c ref opts w =
     (let cfg = fold (\<lambda>opt cfg. opt cfg) opts \<lparr>bp_skipCache = False, bp_maxIndexSize = 0, bp_blobOpts = []\<rparr>;
          (regClient, w) = Registry_New R (re_digest E) (buildRegistryOpts c) w
      in Pull E as_source regClient ref (pull_opts c cfg) w)"

record blobPushConfig =
  bh_tags :: "string list"
  bh_annotations :: "(string \<times> string) list option"
  bh_createOpts :: "(createConfig \<Rightarrow> createConfig) list"

definition PushWithTags :: "string list \<Rightarrow> blobPushConfig \<Rightarrow> blobPushConfig" where
  "PushWithTags tags cfg = cfg\<lparr>bh_tags := bh_tags cfg @ tags\<rparr>"

definition PushWithAnnotations :: "(string \<times> string) list \<Rightarrow> blobPushConfig \<Rightarrow> blobPushConfig" where
  "PushWithAnnotations annotations cfg =
     cfg\<lparr>bh_annotations := Some (fold (\<lambda>(k, v) m. AList.update k v m) annotations (case bh_annotations cfg of None \<Rightarrow> [] | Some m \<Rightarrow> m))\<rparr>"

definition PushWithCompression :: "compression \<Rightarrow> blobPushConfig \<Rightarrow> blobPushConfig" where
  "PushWithCompression c cfg = cfg\<lparr>bh_createOpts := bh_createOpts cfg @ [CreateWithCompression c]\<rparr>"

definition PushWithSkipCompression :: "SkipCompressionFunc option list \<Rightarrow> blobPushConfig \<Rightarrow> blobPushConfig" where
  "PushWithSkipCompression fns cfg = cfg\<lparr>bh_createOpts := bh_createOpts cfg @ [CreateWithSkipCompression fns]\<rparr>"

definition PushWithChangeDetection :: "bool \<Rightarrow> blobPushConfig \<Rightarrow> blobPushConfig" where
  "PushWithChangeDetection cd cfg = cfg\<lparr>bh_createOpts := bh_createOpts cfg @ [CreateWithChangeDetection cd]\<rparr>"

definition PushWithMaxFiles :: "int \<Rightarrow> blobPushConfig \<Rightarrow> blobPushConfig" where
  "PushWithMaxFiles n cfg = cfg\<lparr>bh_createOpts := bh_createOpts cfg @ [CreateWithMaxFiles n]\<rparr>"

definition push_opts :: "blobPushConfig \<Rightarrow> (pushConfig \<Rightarrow> pushConfig) list" where
  "push_opts cfg =
     (if length (bh_tags cfg) > 0 then [WithTags (bh_tags cfg)] else [])
     @ (case bh_annotations cfg of None \<Rightarrow> [] | Some annotations \<Rightarrow> [WithAnnotations annotations])"

definition pushArchive ::
  "'m world reg_env \<Rightarrow> 'm disk_world remote_lib \<Rightarrow> 'm BlobClient \<Rightarrow> string \<Rightarrow> 'c Blob \<Rightarrow> blobPushConfig \<Rightarrow> 'm world \<Rightarrow> err option \<times> 'm world" where
  "pushArchive E R c ref archive cfg w =
     (let (regClient, w) = Registry_New R (re_digest E) (buildRegistryOpts c) w in Push E regClient ref archive (push_opts cfg) w)"

definition PushArchive ::
  "'m world reg_env \<Rightarrow> 'm disk_world remote_lib \<Rightarrow> 'm BlobClient \<Rightarrow> string \<Rightarrow> 'c Blob \<Rightarrow> (blobPushConfig \<Rightarrow> blobPushConfig) list \<Rightarrow> 'm world \<Rightarrow>
   err option \<times> 'm world" where
  "PushArchive E R c ref archive opts w =
     pushArchive E R c ref archive (fold (\<lambda>opt cfg. opt cfg) opts \<lparr>bh_tags = [], bh_annotations = None, bh_createOpts = []\<rparr>) w"

text \<open>
  \<^verbatim>\<open>memSource\<close>. A read inside the data is that of a healthy source; the archive is read through sections of its own size only, so
  the model of the source is a healthy one (\<open>memSource_in_range\<close>).
\<close>

definition memSource_ReadAt :: "bytes \<Rightarrow> nat \<Rightarrow> i64 \<Rightarrow> bytes \<times> err option" where
  "memSource_ReadAt data n off =
     (if off \<ge> int (length data) then ([], Some (Errorf ''offset %d exceeds data length %d'' [] [off, int (length data)]))
      else (take n (drop (nat off) data), None))"

definition memSource :: "bytes \<Rightarrow> source" where
  "memSource data =
     \<lparr>src_at = \<lparr>ra_content = data, ra_fault = (\<lambda>_ _. None), ra_eager = False\<rparr>, src_size = int (length data), src_id = ''memory'', src_range = None\<rparr>"

text \<open>\<^verbatim>\<open>Push\<close>: the archive is created in two buffers; \<open>tree\<close> is what opening the directory gives.\<close>

definition BlobClient_Push ::
  "'m world reg_env \<Rightarrow> 'm disk_world remote_lib \<Rightarrow> (bytes \<Rightarrow> bytes) \<Rightarrow> z_encoder \<Rightarrow> (fb_index \<Rightarrow> bytes) \<Rightarrow> (string \<Rightarrow> nat \<Rightarrow> err option) \<Rightarrow>
   tree res \<Rightarrow> 'm BlobClient \<Rightarrow> string \<Rightarrow> (blobPushConfig \<Rightarrow> blobPushConfig) list \<Rightarrow> 'm world \<Rightarrow> err option \<times> 'm world" where
  "BlobClient_Push E R sha256 z_Encode encode ctx srcDir c ref opts w =
     (let cfg = fold (\<lambda>opt cfg. opt cfg) opts \<lparr>bh_tags = [], bh_annotations = None, bh_createOpts = []\<rparr>;
          buf = \<lparr>w_out = [], w_cap = None, w_err = None\<rparr>
      in case Create_archive sha256 z_Encode encode ctx srcDir (bh_createOpts cfg) buf buf of
           (Some err, indexBuf, dataBuf) \<Rightarrow> (Some (Wrap ''create archive'' err), w)
         | (None, indexBuf, dataBuf) \<Rightarrow>
             (case Blob_New (re_get_root E) (w_out indexBuf) (memSource (w_out dataBuf)) [] of
                Inl err \<Rightarrow> (Some (Wrap ''load archive'' err), w)
              | Inr archive \<Rightarrow> pushArchive E R c ref (archive :: unit Blob) cfg w))"

definition BlobClient_Sign ::
  "'m world reg_env \<Rightarrow> 'm disk_world remote_lib \<Rightarrow> 'm BlobClient \<Rightarrow> string \<Rightarrow> (bytes \<Rightarrow> 'm world \<Rightarrow> (bytes \<times> string) res \<times> 'm world) \<Rightarrow>
   'm world \<Rightarrow> string res \<times> 'm world" where
  "BlobClient_Sign E R c ref signer w =
     (let (regClient, w) = Registry_New R (re_digest E) (buildRegistryOpts (c\<lparr>bc_policies := []\<rparr>)) w in Sign E regClient ref signer w)"

subsection \<open>Inspect\<close>

record 'm BlobInspect =
  bi_manifest :: BlobManifest
  bi_index :: IndexView
  bi_client :: "'m BlobClient"
  bi_ref :: string

definition InspectWithSkipCache :: "inspectConfig \<Rightarrow> inspectConfig" where
  "InspectWithSkipCache cfg = cfg\<lparr>in_skipCache := True\<rparr>"

definition InspectWithMaxIndexSize :: "i64 \<Rightarrow> inspectConfig \<Rightarrow> inspectConfig" where
  "InspectWithMaxIndexSize n cfg = cfg\<lparr>in_maxIndexSize := n\<rparr>"

definition inspect_opts :: "inspectConfig \<Rightarrow> (inspectConfig \<Rightarrow> inspectConfig) list" where
  "inspect_opts cfg =
     (if in_skipCache cfg then [WithInspectSkipCache] else [])
     @ (if in_maxIndexSize cfg > 0 then [WithInspectMaxIndexSize (in_maxIndexSize cfg)] else [])"

definition BlobClient_Inspect ::
  "'m world reg_env \<Rightarrow> 'm disk_world remote_lib \<Rightarrow> 'm BlobClient \<Rightarrow> string \<Rightarrow> (inspectConfig \<Rightarrow> inspectConfig) list \<Rightarrow> 'm world \<Rightarrow>
   'm BlobInspect res \<times> 'm world" where
  "BlobClient_Inspect E R c ref opts w =
     (let cfg = fold (\<lambda>opt cfg. opt cfg) opts \<lparr>in_skipCache = False, in_maxIndexSize = 0\<rparr>;
          (regClient, w) = Registry_New R (re_digest E) (buildRegistryOpts c) w
      in case Client_Inspect E regClient ref (inspect_opts cfg) w of
           (Inl err, w) \<Rightarrow> (Inl err, w)
         | (Inr result, w) \<Rightarrow>
             (bindE (NewIndexView (re_get_root E) (ir_IndexData result)) (\<lambda>indexView.
                Inr \<lparr>bi_manifest = ir_Manifest result, bi_index = indexView, bi_client = c, bi_ref = ref\<rparr>), w))"

text \<open>\<^verbatim>\<open>computeStats\<close>: the totals, in 64 bits.\<close>

definition computeStats :: "'m BlobInspect \<Rightarrow> u64 \<times> u64" where
  "computeStats r =
     fold (\<lambda>e (uncompressed, compressed). (uncompressed + fb_original_size e, compressed + fb_data_size e))
       (EntriesView (iv_idx (bi_index r))) (0, 0)"

record Referrer =
  rr_Digest :: string
  rr_Size :: i64
  rr_MediaType :: string

definition referrerFromDescriptor :: "Descriptor \<Rightarrow> Referrer" where
  "referrerFromDescriptor desc = \<lparr>rr_Digest = d_Digest desc, rr_Size = d_Size desc, rr_MediaType = d_MediaType desc\<rparr>"

definition Inspect_Referrers ::
  "'m world reg_env \<Rightarrow> 'm disk_world remote_lib \<Rightarrow> 'm BlobInspect \<Rightarrow> string \<Rightarrow> 'm world \<Rightarrow> Referrer list res \<times> 'm world" where
  "Inspect_Referrers E R r artifactType w =
     (let (regClient, w) = Registry_New R (re_digest E) (buildRegistryOpts (bi_client r)) w
      in case dl_Validate (re_digest E) (bm_digest (bi_manifest r)) of
           Some err \<Rightarrow> (Inl err, w)
         | None \<Rightarrow>
             (let subject = \<lparr>d_MediaType = m_MediaType (bm_raw (bi_manifest r)), d_Digest = bm_digest (bi_manifest r), d_Size = 0\<rparr>
              in case Client_Referrers regClient (bi_ref r) subject artifactType w of
                   (Inl err, w) \<Rightarrow> (Inl err, w)
                 | (Inr descs, w) \<Rightarrow> (Inr (map referrerFromDescriptor descs), w)))"

section \<open>The registry client of an operation\<close>

lemma fold_policies:
  "fold (\<lambda>opt c. opt c) (map (\<lambda>p. Registry_WithPolicy (Some p)) ps) c = c\<lparr>ro_policies := ro_policies c @ ps\<rparr>"
  by (induction ps arbitrary: c) (simp_all add: Registry_WithPolicy_def)

lemma Registry_New_client:
  "Registry_New R D (buildRegistryOpts c) w =
     (\<lparr>cl_oci = oras_client R D (fst (oras_New (bc_orasOpts c))), cl_refCache = bc_refCache c, cl_manifestCache = bc_manifestCache c,
       cl_indexCache = bc_indexCache c, cl_policies = bc_policies c\<rparr>, w\<lparr>ow_cache := snd (oras_New (bc_orasOpts c))\<rparr>)"
  by (cases "bc_refCache c"; cases "bc_manifestCache c"; cases "bc_indexCache c")
    (simp_all add: Registry_New_def buildRegistryOpts_def fold_policies Registry_WithOrasOptions_def Registry_WithRefCache_def
      Registry_WithManifestCache_def Registry_WithIndexCache_def split: prod.split)

text \<open>A client with all caches in one directory.\<close>

definition cached_client ::
  "(BlockCache \<Rightarrow> source \<Rightarrow> source res) \<Rightarrow> (bytes \<Rightarrow> bytes) \<Rightarrow> digest_lib \<Rightarrow> (bytes \<Rightarrow> Manifest option) \<Rightarrow> 'm BlobClient \<Rightarrow> 'm world \<Rightarrow> bool" where
  "cached_client as_cached sha256 D unmarshal c w \<longleftrightarrow>
     bc_contentCache c = Some disk_cache \<and> bc_blockCache c = Some (as_cached (dw_blocks (ow_net w))) \<and>
     bc_refCache c = Some (disk_ref_cache sha256 get_refs put_refs) \<and>
     bc_manifestCache c = Some (disk_manifest_cache D unmarshal get_manifests put_manifests) \<and>
     bc_indexCache c = Some (disk_index_cache D get_indexes put_indexes) \<and>
     dc_maxBytes (dw_content (ow_net w)) = DefaultContentCacheSize \<and> dc_maxBytes (dw_blocks (ow_net w)) = DefaultBlockCacheSize \<and>
     dc_maxBytes (rf_disk (dw_refs (ow_net w))) = DefaultRefCacheSize \<and> rf_ttl (dw_refs (ow_net w)) = bc_refCacheTTL c \<and>
     dc_maxBytes (dw_manifests (ow_net w)) = DefaultManifestCacheSize \<and> dc_maxBytes (dw_indexes (ow_net w)) = DefaultIndexCacheSize"

lemma reg_open_dir_Inr: "reg_open_dir dir cfg s = (Inr c, s') \<Longrightarrow> dc_maxBytes c = rg_maxBytes cfg"
  by (auto simp: reg_open_dir_def split: prod.splits option.splits)

lemma on_fs_slots:
  "on_fs f w = (x, w') \<Longrightarrow> dw_content (ow_net w') = dw_content (ow_net w) \<and> dw_blocks (ow_net w') = dw_blocks (ow_net w) \<and>
   dw_refs (ow_net w') = dw_refs (ow_net w) \<and> dw_manifests (ow_net w') = dw_manifests (ow_net w) \<and> dw_indexes (ow_net w') = dw_indexes (ow_net w) \<and>
   (\<exists>s'. f (dw_fs (ow_net w)) = (x, s'))"
  by (auto simp: on_fs_def split: prod.splits)

text \<open>Each option attaches its cache, puts it into its slot with its limit and leaves the other slots alone.\<close>

lemma content_dir:
  "WithContentCacheDir dir c w = (Inr c', w') \<Longrightarrow>
   c' = c\<lparr>bc_contentCache := Some disk_cache\<rparr> \<and> dc_maxBytes (dw_content (ow_net w')) = DefaultContentCacheSize"
  by (auto simp: WithContentCacheDir_def DiskCache_New_def WithMaxBytes_def Let_def
      split: prod.splits sum.splits if_splits option.splits dest!: on_fs_slots)

lemma block_dir:
  "WithBlockCacheDir as_cached dir c w = (Inr c', w') \<Longrightarrow>
   c' = c\<lparr>bc_blockCache := Some (as_cached (dw_blocks (ow_net w')))\<rparr> \<and> dc_maxBytes (dw_blocks (ow_net w')) = DefaultBlockCacheSize \<and> dw_content (ow_net w') = dw_content (ow_net w)"
  by (auto simp: WithBlockCacheDir_def NewBlockCache_def WithBlockMaxBytes_def Let_def
      split: prod.splits sum.splits if_splits option.splits dest!: on_fs_slots)

lemma ref_dir:
  "WithRefCacheDir sha256 dir c w = (Inr c', w') \<Longrightarrow>
   c' = c\<lparr>bc_refCache := Some (disk_ref_cache sha256 get_refs put_refs)\<rparr> \<and> dc_maxBytes (rf_disk (dw_refs (ow_net w'))) = DefaultRefCacheSize \<and>
   rf_ttl (dw_refs (ow_net w')) = bc_refCacheTTL c \<and> dw_content (ow_net w') = dw_content (ow_net w) \<and> dw_blocks (ow_net w') = dw_blocks (ow_net w)"
  by (auto simp: WithRefCacheDir_def NewRefCache_def Reg_WithMaxBytes_def WithRefCacheTTL_def Let_def
      split: prod.splits sum.splits if_splits dest!: on_fs_slots reg_open_dir_Inr)

lemma manifest_dir:
  "WithManifestCacheDir D unmarshal dir c w = (Inr c', w') \<Longrightarrow>
   c' = c\<lparr>bc_manifestCache := Some (disk_manifest_cache D unmarshal get_manifests put_manifests)\<rparr> \<and>
   dc_maxBytes (dw_manifests (ow_net w')) = DefaultManifestCacheSize \<and> dw_content (ow_net w') = dw_content (ow_net w) \<and> dw_blocks (ow_net w') = dw_blocks (ow_net w) \<and> dw_refs (ow_net w') = dw_refs (ow_net w)"
  by (auto simp: WithManifestCacheDir_def NewManifestCache_def Reg_WithMaxBytes_def Let_def
      split: prod.splits sum.splits if_splits dest!: on_fs_slots reg_open_dir_Inr)

lemma index_dir:
  "WithIndexCacheDir D dir c w = (Inr c', w') \<Longrightarrow>
   c' = c\<lparr>bc_indexCache := Some (disk_index_cache D get_indexes put_indexes)\<rparr> \<and>
   dc_maxBytes (dw_indexes (ow_net w')) = DefaultIndexCacheSize \<and> dw_content (ow_net w') = dw_content (ow_net w) \<and> dw_blocks (ow_net w') = dw_blocks (ow_net w) \<and> dw_refs (ow_net w') = dw_refs (ow_net w) \<and> dw_manifests (ow_net w') = dw_manifests (ow_net w)"
  by (auto simp: WithIndexCacheDir_def NewIndexCache_def Reg_WithMaxBytes_def Let_def
      split: prod.splits sum.splits if_splits dest!: on_fs_slots reg_open_dir_Inr)

lemma blob_options_Cons:
  "blob_options (opt # opts) c w = (Inr c', w') \<longleftrightarrow> (\<exists>c1 w1. opt c w = (Inr c1, w1) \<and> blob_options opts c1 w1 = (Inr c', w'))"
  by (auto split: prod.splits sum.splits)

lemma WithCacheDir_cached:
  assumes "WithCacheDir as_cached sha256 D unmarshal dir c w = (Inr c', w')"
  shows "cached_client as_cached sha256 D unmarshal c' w' \<and> bc_policies c' = bc_policies c \<and> bc_orasOpts c' = bc_orasOpts c"
proof -
  obtain x w0 where "on_fs (os_MkdirAll dir) w = (x, w0)" by (metis prod.exhaust)
  then have "blob_options
      [WithContentCacheDir (join_path dir ''content''), WithBlockCacheDir as_cached (join_path dir ''blocks''),
       WithRefCacheDir sha256 (join_path dir ''refs''), WithManifestCacheDir D unmarshal (join_path dir ''manifests''),
       WithIndexCacheDir D (join_path dir ''indexes'')] c w0 = (Inr c', w')"
    using assms by (cases x) (simp_all add: WithCacheDir_def)
  then obtain c1 w1 c2 w2 c3 w3 c4 w4 where o:
    "WithContentCacheDir (join_path dir ''content'') c w0 = (Inr c1, w1)"
    "WithBlockCacheDir as_cached (join_path dir ''blocks'') c1 w1 = (Inr c2, w2)"
    "WithRefCacheDir sha256 (join_path dir ''refs'') c2 w2 = (Inr c3, w3)"
    "WithManifestCacheDir D unmarshal (join_path dir ''manifests'') c3 w3 = (Inr c4, w4)"
    "WithIndexCacheDir D (join_path dir ''indexes'') c4 w4 = (Inr c', w')"
    unfolding blob_options_Cons blob_options.simps(1) by auto
  from content_dir [OF o(1)] block_dir [OF o(2)] ref_dir [OF o(3)] manifest_dir [OF o(4)] index_dir [OF o(5)]
  show ?thesis by (simp add: cached_client_def)
qed

section \<open>The source of a created archive\<close>

lemma memSource_in_range:
  "0 \<le> off \<Longrightarrow> off + int n \<le> int (length data) \<Longrightarrow> off < int (length data) \<Longrightarrow>
   memSource_ReadAt data n off = ra_ReadAt (src_at (memSource data)) n off"
  by (auto simp: memSource_ReadAt_def memSource_def ra_ReadAt_def Let_def)

text \<open>At the end of the data a read is short without an error, against the contract of \<^verbatim>\<open>io.ReaderAt\<close>.\<close>

theorem memSource_short_read:
  assumes "0 \<le> off" "off < int (length data)" "int (length data) < off + int n"
  shows "snd (memSource_ReadAt data n off) = None \<and> length (fst (memSource_ReadAt data n off)) < n"
proof -
  have "length data - nat off < n" using assms by linarith
  then show ?thesis using assms(2) by (simp add: memSource_ReadAt_def)
qed

section \<open>The limit of the index\<close>

text \<open>A limit that is not positive does not disable the limit of the registry client: it is as if the option had not been given.\<close>

theorem Pull_limit_not_disabled:
  "m \<le> 0 \<Longrightarrow> BlobClient_Pull E R as_source c ref [PullWithMaxIndexSize m] w = BlobClient_Pull E R as_source c ref [] w"
  by (simp add: BlobClient_Pull_def PullWithMaxIndexSize_def pull_opts_def Let_def)

section \<open>The files of a created archive\<close>

lemma laid_out_meta:
  "laid_out sha256 Z opts off es fs d \<Longrightarrow>
   map (\<lambda>e. (Path e, Hash e, OriginalSize e)) es = map (\<lambda>(p, fi, content). (p, sha256 content, of_nat (length content))) fs"
  by (induction sha256 Z opts off es fs d rule: laid_out.induct) (auto simp: entry_for_def split: prod.splits)

end
