(* ===== verification/Examples.thy ===== *)
theory Examples
  imports Pipeline FileHandle ArchiveIndex
begin

text \<open>
  Concrete inputs on which the properties are instantiated: a stand-in for SHA-256 with results
  of 32 bytes, a zstd library that stores data as it is, a small data blob with its entries, a
  file system with one file.
\<close>

definition demo_hash :: "bytes \<Rightarrow> bytes" where
  "demo_hash c = replicate 31 (of_nat (length c)) @ [sum_list c]"

definition demo_zstd :: zstd_lib where
  "demo_zstd = \<lparr>z_NewReader = (\<lambda>_ r. Inr r), z_Reset = (\<lambda>_ r. Inr r), z_NewNil = (\<lambda>_. True)\<rparr>"

definition demo_blob :: bytes where
  "demo_blob = [1, 2, 3, 4, 5, 6]"

definition demo_at :: reader_at where
  "demo_at = \<lparr>ra_content = demo_blob, ra_fault = (\<lambda>_ _. None), ra_eager = False\<rparr>"

definition demo_source :: source where
  "demo_source = \<lparr>src_at = demo_at, src_size = 6, src_id = ''demo'', src_range = None\<rparr>"

definition demo_entry :: "string \<Rightarrow> u64 \<Rightarrow> bytes \<Rightarrow> Entry" where
  "demo_entry p off d =
     \<lparr>Path = p, DataOffset = off, DataSize = ulen d, OriginalSize = ulen d, Hash = demo_hash d, Mode = 420,
      UID = 0, GID = 0, ModTime = 0, Compression = CompressionNone\<rparr>"

definition demo_a :: Entry where
  "demo_a = demo_entry ''a'' 0 [1, 2]"

definition demo_b :: Entry where
  "demo_b = demo_entry ''b'' 2 [3, 4, 5]"

text \<open>The same bytes stored as a (trivially) compressed entry.\<close>

definition demo_z :: Entry where
  "demo_z = demo_b\<lparr>Compression := CompressionZstd\<rparr>"

definition demo_reader :: Reader where
  "demo_reader = NewReader demo_source []"

definition demo_fs :: fsys where
  "demo_fs = \<lparr>fs_list = [(''out/x'', \<lparr>n_content = [7], n_mode = 384, n_mtime = 0\<rparr>)], fs_dirs = (\<lambda>p. p = ''out''), fs_faults = [], fs_rand = [''01'', ''02'', ''03''], fs_clock = 1\<rparr>"

definition demo_sink :: FileSink where
  "demo_sink = NewFileSink ''out'' [WithOverwrite True]"

definition demo_proc :: Processor where
  "demo_proc = NewProcessor demo_source (r_pool demo_reader) 0 [WithWorkers 2]"

text \<open>A sorted index with three paths.\<close>

definition demo_idx :: Index where
  "demo_idx =
     \<lparr>idx_data = [0],
      idx_root = \<lparr>fb_version = 1,
        fb_entries = Some (map (\<lambda>p. fb_of_Entry (demo_entry p 0 [1])) [''a.txt'', ''a/b'', ''b'']),
        fb_index_data_size = 6, fb_data_hash = Some (demo_hash demo_blob)\<rparr>\<rparr>"

lemmas demo_defs = demo_hash_def demo_zstd_def demo_blob_def demo_at_def demo_source_def demo_entry_def demo_a_def
  demo_b_def demo_z_def demo_reader_def demo_fs_def demo_sink_def demo_proc_def

lemma demo_reader_simps [simp]:
  "r_source demo_reader = demo_source" "r_maxFileSize demo_reader = 268435456"
  "\<exists>q. r_pool demo_reader = Some q"
  by (simp_all add: demo_reader_def NewReader_def Let_def DefaultMaxFileSize_def)

lemma demo_source_ok: "source_ok demo_source"
  by (simp add: source_ok_def demo_source_def demo_at_def demo_blob_def)

lemma demo_validate:
  "ValidateAll demo_a 6 268435456 = None" "ValidateAll demo_b 6 268435456 = None" "ValidateAll demo_z 6 268435456 = None"
  "ValidateAll demo_a 6 0 = None" "ValidateAll demo_b 6 0 = None"
  by (simp_all add: ValidateAll_def ValidateForRead_def ValidateHash_def ValidateCompression_def AddUint64_def Let_def
      demo_a_def demo_b_def demo_z_def demo_entry_def demo_hash_def CompressionNone_def CompressionZstd_def)

text \<open>Both entries are extracted in one group.\<close>

definition demo_groups :: "rangeGroup list" where
  "demo_groups = [\<lparr>g_start = 0, g_end = 5, g_entries = [demo_a, demo_b]\<rparr>]"

text \<open>Two workers that take turns, each with its temporary file.\<close>

definition demo_sched :: schedule where
  "demo_sched g = [0, 1, 0, 1, 1, 0, 0, 1]"

definition demo_run :: "(ProcessStats \<times> err option) \<times> fsys" where
  "demo_run = processGroupsSequential demo_hash demo_zstd 1 demo_sched demo_proc (file_sink (atomic demo_sink)) no_stats
     demo_groups demo_fs"

lemma demo_run_result: "fst demo_run = (\<lparr>Processed = 2, Skipped = 0, TotalBytes = 5\<rparr>, None)"
  by code_simp

lemma demo_sorts: "sorts_by_offset (sort_key DataOffset)"
  by (simp add: sorts_by_offset_def)

lemma demo_names: "\<forall>e\<in>set [demo_b, demo_a]. sink_dest (atomic demo_sink) e \<notin> temp_names demo_fs"
proof -
  have "list_all (\<lambda>e. list_all (\<lambda>name. \<not> suffix (''.blob-'' @ name) (sink_dest (atomic demo_sink) e)) (fs_rand demo_fs)) [demo_b, demo_a]"
    by code_simp
  then show ?thesis by (simp add: temp_names_def list_all_iff)
qed

lemma demo_process:
  "Process demo_hash demo_zstd 1 demo_sched (sort_key DataOffset) demo_proc (file_sink (atomic demo_sink)) [demo_b, demo_a] demo_fs
     ((\<lparr>Processed = 2, Skipped = 0, TotalBytes = 5\<rparr>, None), snd demo_run)"
proof -
  have sel: "filter (sk_ShouldProcess (file_sink (atomic demo_sink)) demo_fs) [demo_b, demo_a] = [demo_b, demo_a]"
    by code_simp
  have srt: "sort_key DataOffset [demo_b, demo_a] = [demo_a, demo_b]"
    by code_simp
  have run: "processGroupsSequential demo_hash demo_zstd 1 demo_sched demo_proc (file_sink (atomic demo_sink)) no_stats
      demo_groups demo_fs = ((\<lparr>Processed = 2, Skipped = 0, TotalBytes = 5\<rparr>, None), snd demo_run)"
    using demo_run_result by (simp add: demo_run_def prod_eq_iff)
  have "Process_validate demo_proc [demo_b, demo_a] = None" by code_simp
  moreover have "groupAdjacentEntries (sort_key DataOffset [demo_b, demo_a]) = Some demo_groups"
    unfolding srt by (simp add: groupAdjacentEntries_def demo_groups_def demo_a_def demo_b_def demo_entry_def)
  moreover have "\<not> (length demo_groups > 1 \<and> (pr_readConcurrency demo_proc > 1 \<or> pr_readAheadEnabled demo_proc))"
    by (simp add: demo_groups_def)
  ultimately show ?thesis
    using process_sequential [OF sel [symmetric], where groups = demo_groups, OF _ _ _ _ run] sel
    by (simp add: stats_add_def)
qed

end
