(* ===== verification/CacheProperties.thy ===== *)
theory CacheProperties
  imports BlockCache Examples
begin

text \<open>
  The properties of the disk caches: what their contents are, how large they get, and that the block
  cache is invisible to its reader; with a small cache in memory as the concrete input.
\<close>

section \<open>A concrete cache\<close>

definition demo_cfs :: fsys where
  "demo_cfs = \<lparr>fs_list = [], fs_dirs = (\<lambda>p. p = ''c''), fs_faults = [], fs_rand = [''01'', ''02'', ''03'', ''04''], fs_clock = 1\<rparr>"

definition demo_cache :: DiskCache where
  "demo_cache = \<lparr>dc_dir = ''c'', dc_shardPrefixLen = 2, dc_dirPerm = 448, dc_maxBytes = 4, dc_bytes = 0\<rparr>"

definition demo_stream :: "bytes \<Rightarrow> stream" where
  "demo_stream d = \<lparr>s_data = d, s_end = EOF\<rparr>"

text \<open>The cache with one entry of three bytes.\<close>

definition demo_cached :: "DiskCache \<times> fsys" where
  "demo_cached = snd (DiskCache_Put [16, 17] (demo_stream [1, 2, 3]) (demo_cache, demo_cfs))"

lemma demo_cfs_simps: "tmp_ok demo_cfs" "calm demo_cfs" "within_limit (demo_cache, demo_cfs)" "proper_dir (dc_dir demo_cache)"
  by (simp_all add: tmp_ok_def calm_def fs_wf_def within_limit_def proper_dir_def demo_cfs_def demo_cache_def dirSize_def
      walk_files_def)

lemma demo_put: "fst (DiskCache_Put [16, 17] (demo_stream [1, 2, 3]) (demo_cache, demo_cfs)) = None"
  "map_option rd_data (DiskCache_Get demo_cached [16, 17]) = Some [1, 2, 3]" "dc_bytes (fst demo_cached) = 3"
  by code_simp+

section \<open>The contents of the cache\<close>

text \<open>Every entry of the cache delivers content with the entry's hash.\<close>

definition cache_sound :: "(bytes \<Rightarrow> bytes) \<Rightarrow> DiskCache \<times> fsys \<Rightarrow> bool" where
  "cache_sound sha256 cs \<longleftrightarrow> tmp_ok (snd cs) \<and>
     (\<forall>h r. DiskCache_Get cs h = Some r \<longrightarrow> (\<exists>d. delivers r d \<and> sha256 d = h))"

lemma cache_sound_iff: "cache_sound sha256 cs = disk.sound sha256 cs"
  unfolding cache_sound_def disk.sound_def by (simp add: disk_cache_def)

lemma Prune_sound:
  assumes "cache_sound sha256 (c, s)" "DiskCache_Prune n (c, s) = (x, (c', s'))"
  shows "cache_sound sha256 (c', s')"
proof -
  have "fs_content s' \<subseteq>\<^sub>m fs_content s \<and> fs_rand s' = fs_rand s \<and> same_place c c'"
    using assms(2) by (auto simp: DiskCache_Prune_def Let_def same_place_def split: prod.splits option.splits if_splits
        dest: pruneDir_shrinks)
  then show ?thesis using assms(1) cache_path_same [of c c'] unfolding cache_sound_def tmp_ok_def
    by (simp add: Get_iff map_le_def) (metis domI)
qed

text \<open>C12. The cache never serves content under a wrong hash: when every entry delivers content with
  its hash, this is so after a \<^verbatim>\<open>Put\<close> of a stream that either fails or has the given hash, after a
  \<^verbatim>\<open>Delete\<close> and after a \<^verbatim>\<open>Prune\<close>, whatever operations of the file system fail.\<close>

theorem disk_cache_stays_sound:
  assumes "cache_sound sha256 cs" "s_end st = EOF \<longrightarrow> sha256 (s_data st) = h"
  shows "cache_sound sha256 (snd (DiskCache_Put h st cs)) \<and> cache_sound sha256 (snd (DiskCache_Delete h' cs)) \<and>
    cache_sound sha256 (snd (DiskCache_Prune n cs))"
proof (intro conjI)
  have "disk.sound sha256 cs" using assms(1) by (simp add: cache_sound_iff)
  from disk.Put_sound [OF this assms(2)] disk.Delete_sound [OF this]
  show "cache_sound sha256 (snd (DiskCache_Put h st cs))" "cache_sound sha256 (snd (DiskCache_Delete h' cs))"
    by (simp_all add: cache_sound_iff disk_cache_def) (metis prod.collapse)+
  show "cache_sound sha256 (snd (DiskCache_Prune n cs))"
    using Prune_sound assms(1) by (metis prod.collapse)
qed

theorem disk_cache_stays_sound_witness:
  "cache_sound demo_hash (snd (DiskCache_Put (demo_hash [1, 2]) (demo_stream [1, 2]) (demo_cache, demo_cfs)))"
proof -
  have "cache_sound demo_hash (demo_cache, demo_cfs)"
    using demo_cfs_simps by (simp add: cache_sound_def Get_iff fs_content_def demo_cfs_def)
  from disk_cache_stays_sound [OF this, of "demo_stream [1, 2]"] show ?thesis by (simp add: demo_stream_def)
qed

text \<open>C36. Pruning removes the oldest files first and no more than needed: in a file system without
  faults, \<^verbatim>\<open>Prune\<close> removes an initial part of the files by age, what remains fits the target, the last
  file removed was needed to get there, and the counter and the result are exact.\<close>

theorem Prune_oldest_first:
  assumes "calm s"
  shows "\<exists>k s'. s' = without (take k (by_age (dc_dir c) s)) s \<and>
    DiskCache_Prune t (c, s) = (Inr (dirSize (dc_dir c) s - dirSize (dc_dir c) s'), (c\<lparr>dc_bytes := dirSize (dc_dir c) s'\<rparr>, s')) \<and>
    dirSize (dc_dir c) s' \<le> max 0 t \<and>
    (k > 0 \<longrightarrow> max 0 t < dirSize (dc_dir c) (without (take (k - 1) (by_age (dc_dir c) s)) s))"
proof -
  have w: "fs_faults s = []" "fs_wf s" using assms by (simp_all add: calm_def)
  let ?es = "by_age (dc_dir c) s"
  obtain k where k: "pruneDir (dc_dir c) (max 0 t) s =
      ((sizes (take k ?es), dirSize (dc_dir c) (without (take k ?es) s), None), without (take k ?es) s)"
    "dirSize (dc_dir c) (without (take k ?es) s) \<le> max 0 t" "k > 0 \<longrightarrow> max 0 t < sizes (drop (k - 1) ?es)"
    using pruneDir_spec [OF w, of "dc_dir c" "max 0 t"] by (auto simp: Let_def)
  have t: "(if t < 0 then 0 else t) = max 0 t" by simp
  have "sizes (take k ?es @ drop k ?es) = sizes (take k ?es) + sizes (drop k ?es)" by (simp del: append_take_drop_id)
  then have "sizes (take k ?es) = dirSize (dc_dir c) s - dirSize (dc_dir c) (without (take k ?es) s)"
    by (simp add: dirSize_without [OF w(2)] dirSize_by_age [of "dc_dir c" s])
  with k show ?thesis
    by (intro exI [of _ k] exI [of _ "without (take k ?es) s"])
      (simp add: DiskCache_Prune_def Let_def t dirSize_without [OF w(2)])
qed

text \<open>Two files of three and two bytes, the smaller one newer and listed first.\<close>

definition demo_aged :: fsys where
  "demo_aged = demo_cfs\<lparr>fs_list :=
     [(''c/y'', \<lparr>n_content = [1, 2], n_mode = 384, n_mtime = 5\<rparr>), (''c/x'', \<lparr>n_content = [1, 2, 3], n_mode = 384, n_mtime = 3\<rparr>)]\<rparr>"

lemma demo_aged_calm: "calm demo_aged"
  by (simp add: calm_def fs_wf_def demo_aged_def demo_cfs_def)

lemma demo_aged_pruned:
  "fs_list (without (take k (by_age ''c'' demo_aged)) demo_aged) =
     (if k = 0 then fs_list demo_aged else if k = 1 then [hd (fs_list demo_aged)] else [])"
  "dirSize ''c'' (without (take k (by_age ''c'' demo_aged)) demo_aged) = (if k = 0 then 5 else if k = 1 then 2 else 0)"
proof -
  have "by_age ''c'' demo_aged = rev (fs_list demo_aged)" by code_simp
  then show f: "fs_list (without (take k (by_age ''c'' demo_aged)) demo_aged) =
     (if k = 0 then fs_list demo_aged else if k = 1 then [hd (fs_list demo_aged)] else [])"
    by (auto simp: without_def demo_aged_def take_Cons' numeral_2_eq_2)
  have "dirSize ''c'' demo_aged = 5" "below_dir ''c'' ''c/y''" by code_simp+
  then show "dirSize ''c'' (without (take k (by_age ''c'' demo_aged)) demo_aged) = (if k = 0 then 5 else if k = 1 then 2 else 0)"
    using f unfolding dirSize_def walk_files_def by (simp add: demo_aged_def file_size_def)
qed

theorem Prune_oldest_first_witness:
  "\<exists>s'. DiskCache_Prune 4 (demo_cache, demo_aged) = (Inr 3, (demo_cache\<lparr>dc_bytes := 2\<rparr>, s')) \<and> map fst (fs_list s') = [''c/y'']"
proof -
  have dir: "dc_dir demo_cache = ''c''" by (simp add: demo_cache_def)
  have all: "dirSize ''c'' demo_aged = 5" and max: "max 0 4 = (4 :: int)" using demo_aged_pruned(2) [of 0] by simp_all
  from Prune_oldest_first [OF demo_aged_calm, of demo_cache 4, unfolded dir all max] obtain k s' where
    s': "s' = without (take k (by_age ''c'' demo_aged)) demo_aged"
    and k: "DiskCache_Prune 4 (demo_cache, demo_aged) = (Inr (5 - dirSize ''c'' s'), (demo_cache\<lparr>dc_bytes := dirSize ''c'' s'\<rparr>, s'))"
      "dirSize ''c'' s' \<le> 4" "k > 0 \<longrightarrow> 4 < dirSize ''c'' (without (take (k - 1) (by_age ''c'' demo_aged)) demo_aged)"
    by blast
  from k(2,3) have "k = 1" unfolding s' demo_aged_pruned(2) by (auto split: if_splits)
  with k(1) show ?thesis using demo_aged_pruned [of 1] s' by (simp add: demo_aged_def)
qed

text \<open>C26. The size limit holds: if the files of the cache fit the counter and the counter the limit,
  this is so after \<^verbatim>\<open>Put\<close> and \<^verbatim>\<open>Delete\<close>, in a file system without faults and for a limit below
  \<open>2^62\<close> (so that the sum of two sizes does not overflow).\<close>

theorem disk_cache_limit:
  assumes "within_limit (c, s)" "tmp_ok s" "proper_dir (dc_dir c)"
  shows "within_limit (snd (DiskCache_Put h st (c, s))) \<and> within_limit (snd (DiskCache_Delete h' (c, s)))"
  using Put_limit [OF assms] Delete_limit [OF assms(1,3)] by (metis prod.collapse)

theorem disk_cache_limit_witness:
  "within_limit demo_cached"
  using disk_cache_limit [OF demo_cfs_simps(3,1,4), of "[16, 17]" "demo_stream [1, 2, 3]"] by (simp add: demo_cached_def)

text \<open>C40. \<^verbatim>\<open>Put\<close> can evict the content it is storing: the temporary file lies in the directory that is
  pruned, so content that fits the limit but is larger than half of it is removed before the rename
  whenever pruning is needed, and \<^verbatim>\<open>Put\<close> reports \<^verbatim>\<open>ErrNotExist\<close>.\<close>

theorem Put_evicts_itself:
  assumes "within_limit (c, s)" "tmp_ok s" "proper_dir (dc_dir c)" "s_end st = EOF" "cache_path c h = Inr p"
    and "os_MkdirAll (dir_of p) s = (None, s1)" "\<not> fs_exists s1 p" "os_CreateTemp (dir_of p) ''cache-'' s1 = (Inr t, s2)"
    and "int (length (s_data st)) \<le> dc_maxBytes c" "dc_maxBytes c < dc_bytes c + int (length (s_data st))"
      "dc_maxBytes c < 2 * int (length (s_data st))"
  shows "fst (DiskCache_Put h st (c, s)) = Some ErrNotExist \<and> DiskCache_Get (snd (DiskCache_Put h st (c, s))) h = None"
proof -
  have s: "calm s" using assms(1) by (simp add: within_limit_def)
  note s1 = calm_MkdirAll [OF assms(6) s, of "dc_dir c"]
  have t: "create_temp 10000 (dir_of p) ''cache-'' s1 = (Inr t, s2)" using assms(8) by (simp add: os_CreateTemp_def)
  note s2 = calm_create_temp [OF t conjunct1 [OF s1], of "dc_dir c"]
  have "within_limit (c, s2)" using assms(1) s1 s2 by (simp add: within_limit_def)
  moreover have "below_dir (dc_dir c) t"
    using create_temp_below [OF assms(8) _ assms(5,3)] os_rand(1) [OF assms(6)] assms(2) by (simp add: tmp_ok_def)
  moreover have ct: "fs_content s2 t = Some []" "fs_content s1 t = None" "t \<noteq> p"
    using create_temp_content [OF t] cache_temp_dash [OF assms(8)] os_rand(1) [OF assms(6)] assms(2,5) hex_encode_chars(2)
    by (auto simp: tmp_ok_def cache_path_def base_name_shard split: if_splits)
  moreover have "fs_content s2 p = fs_content s1 p" using create_temp_content [OF t] ct(3) by auto
  then have "\<not> fs_exists s2 p"
    using assms(7) create_temp_dirs [OF t] by (simp add: fs_exists_def fs_content_def is_dir_def)
  ultimately obtain cs' where r: "Put_temp st t p (c, s2) = (Some ErrNotExist, cs')" "same_place c (fst cs')" "fs_content (snd cs') p = None"
    using Put_temp_lost [of c s2 t p st] assms(4,9-11) by blast
  have "\<not> fs_exists s p"
    using assms(6,7) s by (auto simp: os_MkdirAll_def guarded_calm fs_exists_def is_dir_def split: if_splits)
  then have "DiskCache_Put h st (c, s) = (Some ErrNotExist, cs')"
    using assms(5,6,8) r(1) by (simp add: DiskCache_Put_def)
  then show ?thesis using r cache_path_same [OF r(2)] assms(5)
    by (cases cs') (auto simp: DiskCache_Get_def fs_content_def)
qed


theorem Put_evicts_itself_witness:
  "fst (DiskCache_Put [32, 33] (demo_stream [4, 5, 6]) demo_cached) = Some ErrNotExist"
proof -
  define p where "p = ''c/20/2021''"
  define s1 where "s1 = snd (os_MkdirAll (dir_of p) (snd demo_cached))"
  define t where "t = fst (os_CreateTemp (dir_of p) ''cache-'' s1)"
  have "fst (os_MkdirAll (dir_of p) (snd demo_cached)) = None" unfolding p_def by code_simp
  then have m: "os_MkdirAll (dir_of p) (snd demo_cached) = (None, s1)" by (simp add: s1_def prod_eq_iff)
  have t: "t = Inr ''c/20/cache-02''" unfolding t_def s1_def p_def by code_simp
  then have c: "os_CreateTemp (dir_of p) ''cache-'' s1 = (Inr ''c/20/cache-02'', snd (os_CreateTemp (dir_of p) ''cache-'' s1))"
    by (simp add: t_def prod_eq_iff)
  have "within_limit (fst demo_cached, snd demo_cached)"
    using Put_limit [OF demo_cfs_simps(3,1,4)] by (metis demo_cached_def prod.collapse)
  moreover have "tmp_ok (snd demo_cached)" by code_simp
  moreover have "proper_dir (dc_dir (fst demo_cached))" by code_simp
  moreover have "cache_path (fst demo_cached) [32, 33] = Inr p" unfolding p_def by code_simp
  moreover have "\<not> fs_exists s1 p" unfolding s1_def p_def by code_simp
  moreover have "dc_maxBytes (fst demo_cached) = 4" "dc_bytes (fst demo_cached) = 3" by code_simp+
  ultimately have "fst (DiskCache_Put [32, 33] (demo_stream [4, 5, 6]) (fst demo_cached, snd demo_cached)) = Some ErrNotExist"
    using Put_evicts_itself [OF _ _ _ _ _ m _ c, of "fst demo_cached" "demo_stream [4, 5, 6]" "[32, 33]"]
    by (simp add: demo_stream_def)
  then show ?thesis by simp
qed

section \<open>The block cache\<close>

text \<open>C27. The block cache is invisible: on a healthy source, from a coherent cache and in a file
  system without faults, \<^verbatim>\<open>ReadAt\<close> of the wrapped source returns exactly what \<^verbatim>\<open>ReadAt\<close> of the source
  returns, on hits, misses, partial blocks at the end and large reads that bypass the cache, and the cache stays
  coherent.\<close>

theorem block_cache_transparent:
  assumes "source_ok (bs_src cs)" "\<not> ra_eager (src_at (bs_src cs))"
    and "0 < bs_blockSize cs" "src_size (bs_src cs) + bs_blockSize cs < 2 ^ 63" "keys_differ sha256 cs"
    and "coherent sha256 cs st" "calm (snd st)" "0 \<le> off" "p \<noteq> []" "off + int (length p) < 2 ^ 63"
  shows "fst (cachedSource_ReadAt sha256 cs p off st) = ra_ReadAt (src_at (bs_src cs)) (length p) off \<and>
    coherent sha256 cs (snd (cachedSource_ReadAt sha256 cs p off st))"
  using cachedSource_ReadAt_ok [OF assms(1,3-5,2,6,8-10)] assms(7) by (metis prod.collapse)

definition demo_wrapped :: cachedSource where
  "demo_wrapped = \<lparr>bs_src = demo_source, bs_sourceID = ''d'', bs_blockSize = 4, bs_maxBlocksPerRead = 4\<rparr>"

lemma demo_blocks: "is_block \<lparr>bs_src = demo_source, bs_sourceID = ''d'', bs_blockSize = 4, bs_maxBlocksPerRead = 4\<rparr> i \<Longrightarrow> i = 0 \<or> i = 1"
  by (auto simp: is_block_def demo_wrapped_def demo_source_def)

lemma demo_wrapped_ok: "keys_differ demo_hash demo_wrapped" "coherent demo_hash demo_wrapped (demo_cache, demo_cfs)"
proof -
  have "blockKeyHex demo_hash ''d'' 4 0 \<noteq> blockKeyHex demo_hash ''d'' 4 1" by code_simp
  then show "keys_differ demo_hash demo_wrapped"
    unfolding keys_differ_def by (auto simp: demo_wrapped_def dest!: demo_blocks)
  show "coherent demo_hash demo_wrapped (demo_cache, demo_cfs)"
    using demo_cfs_simps by (simp add: coherent_def settled_def fs_content_def demo_cfs_def)
qed

theorem block_cache_transparent_witness:
  "fst (cachedSource_ReadAt demo_hash demo_wrapped [0, 0, 0] 2 (demo_cache, demo_cfs)) = ([3, 4, 5], None)"
proof -
  have w: "bs_src demo_wrapped = demo_source" "bs_blockSize demo_wrapped = 4" by (simp_all add: demo_wrapped_def)
  from block_cache_transparent [of demo_wrapped demo_hash "(demo_cache, demo_cfs)" 2 "[0, 0, 0]"]
  show ?thesis using demo_source_ok demo_wrapped_ok demo_cfs_simps(2)
    by (simp add: w) (simp add: demo_source_def demo_at_def demo_blob_def ra_ReadAt_def)
qed

end
