(* ===== verification/BlobProperties.thy ===== *)
theory BlobProperties
  imports CacheProperties BlobCopy
begin

text \<open>
  The properties of the blob as a file system (\<^verbatim>\<open>core/blob.go\<close>): directory listings, file information, reads
  through a cache, copies out of the archive, saving and opening. They are instantiated on an index
  with three paths over the small data blob.
\<close>

section \<open>A small blob\<close>

definition demo_fs_blob :: "'c Cache option \<Rightarrow> 'c Blob" where
  "demo_fs_blob ca =
     \<lparr>b_idx = demo_idx, b_indexData = [0], b_reader = demo_reader, b_maxFileSize = 268435456, b_maxDecoderMemory = 268435456,
      b_decoderConcurrencySet = False, b_decoderConcurrency = 0, b_decoderLowmemSet = False, b_decoderLowmem = False,
      b_verifyOnClose = True, b_cache = ca\<rparr>"

lemma demo_fs_blob_sel [simp]:
  "b_idx (demo_fs_blob ca) = demo_idx" "b_cache (demo_fs_blob ca) = ca" "b_reader (demo_fs_blob ca) = demo_reader"
  "b_verifyOnClose (demo_fs_blob ca)" "b_maxFileSize (demo_fs_blob ca) = 268435456"
  by (simp_all add: demo_fs_blob_def)

lemma demo_sorted: "index_sorted (b_idx (demo_fs_blob ca))"
proof -
  have "index_sorted demo_idx" by code_simp
  then show ?thesis by (simp add: demo_fs_blob_def)
qed

lemma demo_under: "under (demo_fs_blob ca) ''.'' = EntriesView demo_idx"
  by (simp add: under_def DirPrefix_def demo_fs_blob_def)

lemma demo_entries: "EntriesView demo_idx = map (\<lambda>p. fb_of_Entry (demo_entry p 0 [1])) [''a.txt'', ''a/b'', ''b'']"
  by (simp add: EntriesView_def demo_idx_def)

lemma demo_fs_entries: "Blob_Entries (demo_fs_blob ca) = EntriesView demo_idx"
  by (simp add: Blob_Entries_def demo_fs_blob_def)

lemma demo_dir_ok: "dir_ok [] (EntriesView demo_idx)"
  unfolding demo_entries
  by (simp add: dir_ok_def demo_entry_def fb_of_Entry_def Child_append [of "[]", simplified] view_key_def MaxInt64_def)

section \<open>Directories\<close>

text \<open>C16. On a sorted index with well-formed names a directory listing holds each child once, in the order
  of the names with a slash after those of directories, and nothing else; a directory that holds no
  file does not exist.\<close>

theorem ReadDir_lists_children:
  assumes "index_sorted (b_idx b)" "valid_path name" "dir_ok (DirPrefix name) (under b name)"
  shows "case Blob_ReadDir b name of
      Inr es \<Rightarrow> sorted_wrt (<) (map entry_key es) \<and>
        set (map entry_key es) = (\<lambda>e. child_key (drop (length (DirPrefix name)) (fb_path e))) `
          {e \<in> set (Blob_Entries b). prefix (DirPrefix name) (fb_path e)}
    | Inl err \<Rightarrow> err = PathError ''readdir'' name ErrNotExist \<and> name \<noteq> ''.'' \<and>
        (\<forall>e\<in>set (Blob_Entries b). \<not> prefix (DirPrefix name) (fb_path e))"
  using listing_keys [OF assms(1,3)] ReadDir_eq [OF assms]
  by (auto simp: under_def view_key_def [abs_def] Blob_Entries_def filter_empty_conv)

theorem ReadDir_lists_children_witness:
  "\<exists>es. Blob_ReadDir (demo_fs_blob (None :: unit Cache option)) ''.'' = Inr es \<and> set (map entry_key es) = {''a.txt'', ''a/'', ''b''}"
proof -
  let ?b = "demo_fs_blob (None :: unit Cache option)"
  have "dir_ok (DirPrefix ''.'') (under ?b ''.'')" using demo_dir_ok by (simp add: demo_under DirPrefix_def)
  moreover have "valid_path ''.''" by code_simp
  ultimately have "case Blob_ReadDir ?b ''.'' of
      Inr es \<Rightarrow> set (map entry_key es) = (\<lambda>e. child_key (fb_path e)) ` set (EntriesView demo_idx) | Inl err \<Rightarrow> False"
    using ReadDir_lists_children [OF demo_sorted, of "''.''" "None :: unit Cache option"]
    by (cases "Blob_ReadDir ?b ''.''") (simp_all add: DirPrefix_def demo_fs_entries)
  then show ?thesis by (auto simp: demo_entries demo_entry_def split: sum.splits)
qed

text \<open>Reading an open directory page by page.\<close>

fun read_pages :: "openDir \<Rightarrow> nat list \<Rightarrow> DirEntry list \<times> bool \<times> openDir" where
  "read_pages d [] = ([], False, d)"
| "read_pages d (n # ns) =
     (case openDir_ReadDir d (int n) of
        ((es, Some err), d') \<Rightarrow> (es, True, d')
      | ((es, None), d') \<Rightarrow> (case read_pages d' ns of (fs, ended, d'') \<Rightarrow> (es @ fs, ended, d'')))"

lemma openDir_rest:
  assumes "openDir_ReadDir d (int n) = ((es, x), d')" "0 < n"
  shows "es @ fst (fst (openDir_ReadDir d' (-1))) = fst (fst (openDir_ReadDir d (-1))) \<and>
    (x \<noteq> None \<longrightarrow> es = [] \<and> fst (fst (openDir_ReadDir d' (-1))) = [])"
proof -
  define it where "it = (case od_iter d of Some it \<Rightarrow> it | None \<Rightarrow> newDirIter (od_idx d) (DirPrefix (od_name d)))"
  obtain fs ended it' where t: "dir_take n it = (fs, ended, it')" by (metis prod.exhaust)
  have r: "es = fs" "x = (if ended \<and> fs = [] then Some EOF else None)" "d' = d\<lparr>od_iter := Some it'\<rparr>"
    using assms t unfolding openDir_ReadDir_def it_def [symmetric] Let_def by auto
  have all: "fst (fst (openDir_ReadDir d (-1))) = fst (dir_readAll it)"
    unfolding openDir_ReadDir_def it_def [symmetric] Let_def by (simp split: prod.splits)
  have rest: "fst (fst (openDir_ReadDir d' (-1))) = fst (dir_readAll it')"
    unfolding r(3) openDir_ReadDir_def Let_def by (simp split: prod.splits)
  show ?thesis using dir_take_readAll [OF t] r all rest by auto
qed

lemma read_pages_rest:
  "read_pages d ns = (es, ended, d') \<Longrightarrow> \<forall>n\<in>set ns. 0 < n \<Longrightarrow>
   es @ fst (fst (openDir_ReadDir d' (-1))) = fst (fst (openDir_ReadDir d (-1))) \<and>
   (ended \<longrightarrow> fst (fst (openDir_ReadDir d' (-1))) = [])"
proof (induction ns arbitrary: d es)
  case (Cons n ns)
  obtain fs x d1 where o: "openDir_ReadDir d (int n) = ((fs, x), d1)" by (metis prod.exhaust)
  have n: "0 < n" using Cons.prems(2) by simp
  note page = openDir_rest [OF o n]
  show ?case
  proof (cases x)
    case None
    obtain gs e2 d2 where p: "read_pages d1 ns = (gs, e2, d2)" by (metis prod.exhaust)
    then have "es = fs @ gs" "ended = e2" "d' = d2" using Cons.prems(1) o None by auto
    then show ?thesis using Cons.IH [of d1 gs] p Cons.prems(2) page by auto
  qed (use Cons.prems o page in auto)
qed simp

text \<open>C32. Reading a directory in pages: the pages, in order, are an initial part of the full listing, and the
  end is reported only when the listing is complete.\<close>

theorem ReadDir_pages:
  assumes "fst (Blob_Open sha256 Z race b name c) = Inr (ODir d)" "Blob_ReadDir b name = Inr listing"
    and "read_pages d ns = (es, ended, d')" "\<forall>n\<in>set ns. 0 < n"
  shows "\<exists>rest. listing = es @ rest \<and> fst (fst (openDir_ReadDir d' (-1))) = rest \<and> (ended \<longrightarrow> rest = [])"
proof -
  have d: "d = \<lparr>od_idx = b_idx b, od_name = name, od_iter = None\<rparr>"
    using assms(1) by (auto simp: Blob_Open_def Let_def split: if_splits option.splits prod.splits)
  have "fst (fst (openDir_ReadDir d (-1))) = listing"
    using assms(2) by (auto simp: d openDir_ReadDir_def Blob_ReadDir_def Let_def split: prod.splits if_splits)
  with read_pages_rest [OF assms(3,4)] show ?thesis by auto
qed

theorem ReadDir_pages_witness:
  "\<exists>rest. Blob_ReadDir (demo_fs_blob (None :: unit Cache option)) ''.'' =
     Inr (fst (read_pages \<lparr>od_idx = demo_idx, od_name = ''.'', od_iter = None\<rparr> [2]) @ rest)"
proof -
  let ?b = "demo_fs_blob (None :: unit Cache option)" and ?d = "\<lparr>od_idx = demo_idx, od_name = ''.'', od_iter = None\<rparr>"
  obtain es ended d' where p: "read_pages ?d [2] = (es, ended, d')" by (metis prod.exhaust)
  have v: "valid_path ''.''" "LookupView demo_idx ''.'' = None" "Len demo_idx = 3" by code_simp+
  then obtain listing where l: "Blob_ReadDir ?b ''.'' = Inr listing" by (simp add: Blob_ReadDir_def Let_def)
  have "fst (Blob_Open demo_hash demo_zstd (\<lambda>x. x) ?b ''.'' ()) = Inr (ODir ?d)"
    using v by (simp add: Blob_Open_def demo_fs_blob_def isDir_def)
  from ReadDir_pages [OF this l p] show ?thesis using p l by auto
qed

text \<open>On a sorted index \<^verbatim>\<open>Stat\<close> of a valid name is exact: a file when an entry has the name, a directory
  when entries lie below it, and otherwise the name does not exist.\<close>

theorem Stat_exact:
  assumes "index_sorted (b_idx b)" "valid_path name" "\<forall>e\<in>set (Blob_Entries b). uint (fb_original_size e) \<le> MaxInt64"
  shows "case Blob_Stat b name of
      Inr (FileI i) \<Rightarrow> i_name i = Base name \<and>
        (\<exists>e\<in>set (Blob_Entries b). fb_path e = name \<and> i_entry i = EntryFromViewWithPath e name \<and> i_size i = uint (fb_original_size e))
    | Inr (DirI base) \<Rightarrow> name \<notin> fb_path ` set (Blob_Entries b) \<and> (\<exists>e\<in>set (Blob_Entries b). prefix (DirPrefix name) (fb_path e))
    | Inl err \<Rightarrow> err = PathError ''stat'' name ErrNotExist \<and> name \<notin> fb_path ` set (Blob_Entries b) \<and>
        (\<forall>e\<in>set (Blob_Entries b). \<not> prefix (DirPrefix name) (fb_path e))"
proof (cases "LookupView (b_idx b) name")
  case None
  then have "name \<notin> fb_path ` set (Blob_Entries b)" using idx.lookup_None_iff [OF assms(1)] by (simp add: Blob_Entries_def)
  moreover have "isDir b name \<longleftrightarrow> (\<exists>e\<in>set (Blob_Entries b). prefix (DirPrefix name) (fb_path e))"
    unfolding isDir_iff [OF assms(1,2)] by (auto simp: under_def Blob_Entries_def filter_empty_conv)
  ultimately show ?thesis using None assms(2) by (auto simp: Blob_Stat_def NewDirInfo_def)
next
  case (Some e)
  then have e: "e \<in> set (Blob_Entries b)" "fb_path e = name" using idx.lookup_sound by (auto simp: Blob_Entries_def)
  then have "ToInt64 (fb_original_size e) ErrSizeOverflow = Inr (uint (fb_original_size e))"
    using assms(3) by (simp add: ToInt64_Inr_iff)
  then show ?thesis using Some e assms(2) by (auto simp: Blob_Stat_def NewInfo_def)
qed

theorem Stat_exact_witness:
  "\<exists>base. Blob_Stat (demo_fs_blob (None :: unit Cache option)) ''a'' = Inr (DirI base)"
proof -
  let ?b = "demo_fs_blob (None :: unit Cache option)"
  have "valid_path ''a''" by code_simp
  moreover have "\<forall>e\<in>set (Blob_Entries ?b). uint (fb_original_size e) \<le> MaxInt64"
    by (simp add: demo_fs_entries demo_entries demo_entry_def MaxInt64_def fb_of_Entry_def)
  ultimately show ?thesis using Stat_exact [OF demo_sorted, of "''a''" "None :: unit Cache option"]
    by (simp add: demo_fs_entries demo_entries demo_entry_def DirPrefix_def split: sum.splits FileInfo.splits)
qed

text \<open>\<^verbatim>\<open>ValidateFiles\<close> accepts a list of paths just when each of them is a regular file of the archive,
  and then returns them normalised, in order; otherwise it names the first path that is not.\<close>

theorem ValidateFiles_exact:
  "case ValidateFiles b paths of
     Inr ps \<Rightarrow> ps = map NormalizePath paths \<and> (\<forall>p\<in>set paths. IsFile b p)
   | Inl e \<Rightarrow> \<exists>before after. paths = before @ ve_Path e # after \<and> (\<forall>p\<in>set before. IsFile b p) \<and> \<not> IsFile b (ve_Path e)"
proof (induction paths)
  case (Cons p paths)
  show ?case
  proof (cases "IsFile b p")
    case True
    then have "ValidateFiles b (p # paths) = bindE (ValidateFiles b paths) (\<lambda>ps. Inr (NormalizePath p # ps))"
      by (auto simp: IsFile_def Let_def split: option.splits)
    then show ?thesis using Cons True by (cases "ValidateFiles b paths") (auto, metis append_Cons set_ConsD)
  next
    case False
    then obtain e where e: "ValidateFiles b (p # paths) = Inl e" "ve_Path e = p"
      by (cases "valid_path (NormalizePath p)"; cases "isDir b (NormalizePath p)"; cases "LookupView (b_idx b) (NormalizePath p)")
        (auto simp: IsFile_def Let_def)
    have "p # paths = [] @ ve_Path e # paths" using e(2) by simp
    then show ?thesis unfolding e(1) sum.case using False e(2) by (metis empty_iff list.set(1))
  qed
qed simp

theorem ValidateFiles_exact_witness:
  "ValidateFiles (demo_fs_blob (None :: unit Cache option)) [''/a/b'', ''b''] = Inr [''a/b'', ''b'']"
proof -
  have "IsFile (demo_fs_blob (None :: unit Cache option)) ''/a/b''" "IsFile (demo_fs_blob (None :: unit Cache option)) ''b''"
    "NormalizePath ''/a/b'' = ''a/b''" "NormalizePath ''b'' = ''b''" by code_simp+
  then show ?thesis using ValidateFiles_exact [of "[''/a/b'', ''b'']" "demo_fs_blob (None :: unit Cache option)"]
    by (auto simp del: ValidateFiles.simps simp: append_eq_Cons_conv Cons_eq_append_conv split: sum.splits)
qed

section \<open>Reads through the cache\<close>

text \<open>C5. Reads through a sound disk cache are verified and keep it sound: whatever \<^verbatim>\<open>ReadFile\<close> returns has
  the hash of the entry, and \<^verbatim>\<open>Open\<close> and \<^verbatim>\<open>ReadFile\<close> leave only content under its own hash, whatever fails
  and whatever other goroutines did to the cache in a sound way.\<close>

theorem cached_reads_verified:
  assumes "cache_sound sha256 cs" "\<And>cs. cache_sound sha256 cs \<Longrightarrow> cache_sound sha256 (race cs)"
    and "b_cache b = Some disk_cache" "src_size (r_source (b_reader b)) < 2 ^ 63"
  shows "cache_sound sha256 (snd (Blob_Open sha256 Z race b name cs)) \<and>
    cache_sound sha256 (snd (Blob_ReadFile sha256 Z race b name cs)) \<and>
    (\<forall>d. fst (Blob_ReadFile sha256 Z race b name cs) = Inr d \<longrightarrow>
       (\<exists>v. LookupView (b_idx b) name = Some v \<and> sha256 d = fb_hash v))"
proof -
  obtain x cs1 where o: "Blob_Open sha256 Z race b name cs = (x, cs1)" by (metis prod.exhaust)
  obtain y cs2 where r: "Blob_ReadFile sha256 Z race b name cs = (y, cs2)" by (metis prod.exhaust)
  note s = assms(1,2) [unfolded cache_sound_iff]
  show ?thesis
    using content_cache.Open_sound [OF disk.content_cache_axioms s assms(3) o]
      content_cache.ReadFile_sound [OF disk.content_cache_axioms s assms(3,4) r] o r by (simp add: cache_sound_iff)
qed

theorem cached_reads_verified_witness:
  "cache_sound demo_hash (snd (Blob_ReadFile demo_hash demo_zstd (\<lambda>cs. cs) (demo_fs_blob (Some disk_cache)) ''b'' (demo_cache, demo_cfs)))"
proof -
  have "cache_sound demo_hash (demo_cache, demo_cfs)"
    using demo_cfs_simps by (simp add: cache_sound_def Get_iff fs_content_def demo_cfs_def)
  from cached_reads_verified [OF this, of "\<lambda>cs. cs" "demo_fs_blob (Some disk_cache)"] show ?thesis
    by (simp add: demo_fs_blob_def demo_source_def)
qed

text \<open>The second look into the cache is not verified: when another caller has stored content between
  the two lookups of \<^verbatim>\<open>ReadFile\<close>, it is returned whatever its hash, while the same content found by the
  first lookup is checked, refused and deleted.\<close>

theorem ReadFile_second_lookup_unverified:
  assumes "valid_path name" "LookupView (b_idx b) name = Some v" "b_cache b = Some ca"
    and "ca_Get ca c (fb_hash v) = None" "ca_Get ca (race c) (fb_hash v) = Some f" "delivers f d" "sha256 d \<noteq> fb_hash v"
  shows "fst (Blob_ReadFile sha256 Z race b name c) = Inr d \<and>
    Blob_ReadFile sha256 Z race' b name (race c) = (Inl ErrHashMismatch, snd (ca_Delete ca (fb_hash v) (race c)))"
  using assms by (simp add: Blob_ReadFile_def io_ReadAll_def delivers_def rd_stream_ok)

text \<open>A cache that is a map, and one that another caller fills with wrong content.\<close>

definition map_cache :: "(bytes \<times> bytes) list Cache" where
  "map_cache =
     \<lparr>ca_Get = (\<lambda>m h. map_option (\<lambda>d. Chunks [d] EOF False) (map_of m h)),
      ca_Put = (\<lambda>h st m. (None, if s_end st = EOF then (h, s_data st) # m else m)),
      ca_Delete = (\<lambda>h m. (None, filter (\<lambda>x. fst x \<noteq> h) m))\<rparr>"

theorem ReadFile_second_lookup_unverified_witness:
  "fst (Blob_ReadFile demo_hash demo_zstd (\<lambda>m. (demo_hash [1], [9, 9]) # m) (demo_fs_blob (Some map_cache)) ''b'' []) = Inr [9, 9]"
proof -
  have v: "valid_path ''b''" "map_option fb_hash (LookupView demo_idx ''b'') = Some (demo_hash [1])" by code_simp+
  then obtain w where w: "LookupView demo_idx ''b'' = Some w" "fb_hash w = demo_hash [1]" by auto
  have "delivers (Chunks [[9, 9]] EOF False) [9, 9]" by (simp add: delivers_def)
  moreover have "demo_hash [9, 9] \<noteq> demo_hash [1]" by (simp add: demo_hash_def)
  ultimately show ?thesis
    using ReadFile_second_lookup_unverified [of "''b''" "demo_fs_blob (Some map_cache)" w map_cache "[]"
        "\<lambda>m. (demo_hash [1], [9, 9]) # m" "Chunks [[9, 9]] EOF False" "[9, 9]" demo_hash demo_zstd] v w
    by (simp add: demo_fs_blob_def map_cache_def)
qed

section \<open>Copies\<close>

text \<open>C11. \<^verbatim>\<open>CopyFile\<close> that reports success has put content with the recorded hash at the destination and
  changed no other file; without the overwrite option a failing copy leaves every file as it was.\<close>

theorem CopyFile_verified:
  assumes "CopyFile sha256 Z race b srcPath destPath opts (c, s) = ((st, x), (c', s'))"
  shows "case x of
      None \<Rightarrow> (\<exists>v d. LookupView (b_idx b) (NormalizePath srcPath) = Some v \<and> sha256 d = fb_hash v \<and>
        fs_content s' = (fs_content s)(destPath \<mapsto> d))
    | Some err \<Rightarrow> \<forall>q d. fs_content s q = Some d \<longrightarrow>
        (cc_overwrite (fold (\<lambda>opt c. opt c) opts zero_config) \<longrightarrow> q \<noteq> destPath) \<longrightarrow> fs_content s' q = Some d"
  using assms
proof (cases rule: CopyFile_cases)
  case 1
  then show ?thesis by (auto split: option.splits)
next
  case (2 v src c1 str src' c2)
  note spec = copyFileAtomic_spec [OF 2(5)]
  show ?thesis
  proof (cases x)
    case None
    then have "s_end str = EOF" using spec by blast
    from opened_stream_verified [OF 2(3,1,4) this] None spec 2(1) show ?thesis by auto
  next
    case (Some err)
    then show ?thesis using spec by (auto simp: kept_def split: if_splits)
  qed
qed

definition demo_view :: fb_entry where
  "demo_view = fb_of_Entry (demo_entry ''b'' 0 [1])"

definition demo_file :: File where
  "demo_file = OpenFile demo_reader (EntryFromViewWithPath demo_view ''b'') True"

lemma File_Read_clip:
  assumes "fst (init Z f) = None" "f_remaining (snd (init Z f)) < of_nat n" "f_remaining (snd (init Z f)) < of_nat m"
  shows "File_Read sha256 Z f n = File_Read sha256 Z f m"
  using assms by (cases "init Z f"; cases n; cases m) (simp_all add: File_Read_def)

lemma demo_file_stream: "fst (file_stream demo_hash demo_zstd demo_file) = \<lparr>s_data = [1], s_end = EOF\<rparr>"
proof -
  let ?read = "File_Read demo_hash demo_zstd"
  define f1 where "f1 = snd (?read demo_file 2)"
  have i: "fst (init demo_zstd demo_file) = None" "f_remaining (snd (init demo_zstd demo_file)) = 1"
    "fst (init demo_zstd f1) = None" "f_remaining (snd (init demo_zstd f1)) = 0" "fst (?read demo_file 2) = ([1], None)"
    "fst (?read f1 2) = ([], Some EOF)" unfolding f1_def by code_simp+
  have "?read demo_file 32768 = ?read demo_file 2" "?read f1 32768 = ?read f1 2"
    by (rule File_Read_clip; simp add: i)+
  then have "?read demo_file 32768 = (([1], None), f1)" "?read f1 32768 = (([], Some EOF), snd (?read f1 2))"
    using i by (simp_all add: f1_def prod_eq_iff)
  then show ?thesis by (simp add: file_stream.simps [of _ _ demo_file] file_stream.simps [of _ _ f1])
qed

lemma demo_lookup: "LookupView demo_idx ''b'' = Some demo_view"
  using idx.lookup_unique [of demo_idx demo_view] demo_sorted [of None]
  by (simp add: demo_fs_blob_def demo_entries demo_view_def demo_entry_def)

lemma demo_open:
  "Blob_Open demo_hash demo_zstd race (demo_fs_blob None) ''b'' c = (Inr (OFile demo_file), c)"
proof -
  have "valid_path ''b''" by code_simp
  then show ?thesis using demo_lookup by (simp add: Blob_Open_def demo_fs_blob_def demo_file_def)
qed

theorem CopyFile_verified_witness:
  "\<exists>d. fs_content (snd (snd (CopyFile demo_hash demo_zstd (\<lambda>u. u) (demo_fs_blob None) ''/b'' ''out/y'' [] ((), demo_fs)))) ''out/y'' = Some d \<and>
     demo_hash d = demo_hash [1]"
proof -
  let ?r = "CopyFile demo_hash demo_zstd (\<lambda>u. u) (demo_fs_blob None) ''/b'' ''out/y'' [] ((), demo_fs)"
  have p: "NormalizePath ''/b'' = ''b''" "valid_path ''b''" "\<not> mode_is_dir (fb_mode demo_view)" "\<not> fs_exists demo_fs ''out/y''" by code_simp+
  let ?st = "\<lparr>s_data = [1], s_end = EOF\<rparr>"
  have "fst (copyFileAtomic ?st ''out/y'' (EntryFromViewWithPath demo_view ''b'') zero_config demo_fs) = None" by code_simp
  then obtain s1 where c: "copyFileAtomic ?st ''out/y'' (EntryFromViewWithPath demo_view ''b'') zero_config demo_fs = (None, s1)"
    by (metis prod.collapse)
  obtain f1 where f: "file_stream demo_hash demo_zstd demo_file = (?st, f1)" by (metis demo_file_stream prod.collapse)
  have z: "\<not> cc_cleanDest zero_config" "\<not> cc_overwrite zero_config" by (simp_all add: zero_config_def)
  have "snd (fst ?r) = None" using p demo_lookup by (simp add: CopyFile_def Let_def demo_open opened_stream_def f c z)
  then have r: "?r = ((fst (fst ?r), None), ((), snd (snd ?r)))" by (simp add: prod_eq_iff)
  show ?thesis using CopyFile_verified [OF r] p(1) demo_lookup by (auto simp: demo_view_def demo_entry_def fb_of_Entry_def)
qed

text \<open>A copy with the overwrite option is not atomic: the old file is removed before the rename, and when
  the rename fails it is gone.\<close>

definition bad_rename :: fsys where
  "bad_rename = demo_fs\<lparr>fs_faults := [None, None, None, None, Some (0, ErrNew ''rename'')]\<rparr>"

theorem CopyFile_overwrite_loses_file:
  "let r = copyFileAtomic (demo_stream [1]) ''out/x'' demo_a (CopyWithOverwrite True zero_config) bad_rename
   in fs_content bad_rename ''out/x'' = Some [7] \<and> fst r = Some (Wrap ''renaming to destination'' (ErrNew ''rename'')) \<and>
      fs_content (snd r) ''out/x'' = None"
proof -
  let ?r = "copyFileAtomic (demo_stream [1]) ''out/x'' demo_a (CopyWithOverwrite True zero_config) bad_rename"
  have "fs_content bad_rename ''out/x'' = Some [7]" by code_simp
  moreover have "fst ?r = Some (Wrap ''renaming to destination'' (ErrNew ''rename''))" by code_simp
  moreover have "fs_content (snd ?r) ''out/x'' = None" by code_simp
  ultimately show ?thesis by (simp add: Let_def)
qed

text \<open>C29. An archive survives saving and opening: after a successful \<^verbatim>\<open>Save\<close>, \<^verbatim>\<open>OpenFile\<close> gives a blob with the
  same index over the same data.\<close>

theorem Save_OpenFile_roundtrip:
  fixes b :: "'c Blob"
  assumes "source_ok (r_source (b_reader b))" "Save b indexPath dataPath s = (None, s')" "indexPath \<noteq> dataPath"
    and "Load get_root (b_indexData b) = Inr (b_idx b)" "fs_faults s' = []"
  shows "\<exists>b' :: 'c Blob. Blob_OpenFile abs_path get_root indexPath dataPath [] s' = (Inr b', s') \<and> b_idx b' = b_idx b \<and>
    b_indexData b' = b_indexData b \<and> source_ok (r_source (b_reader b')) \<and>
    ra_content (src_at (r_source (b_reader b'))) = ra_content (src_at (r_source (b_reader b)))"
proof -
  have "int (length (ra_content (src_at (r_source (b_reader b))))) < 2 ^ 63" using assms(1) by (simp add: source_ok_def)
  moreover have "fs_content s' indexPath = Some (b_indexData b)"
    "fs_content s' dataPath = Some (ra_content (src_at (r_source (b_reader b))))"
    using Save_spec [OF assms(1,2)] assms(3) by simp_all
  ultimately show ?thesis using OpenFile_spec [OF _ _ assms(5,4)] by blast
qed

theorem Save_OpenFile_roundtrip_witness:
  "\<exists>b'. fst (Blob_OpenFile (\<lambda>p. Inr p) (\<lambda>d. Inr (Some (idx_root demo_idx))) ''out/i'' ''out/d''
     ([] :: (unit Blob \<Rightarrow> unit Blob) list) (snd (Save (demo_fs_blob None :: unit Blob) ''out/i'' ''out/d'' demo_fs))) = Inr b' \<and> b_idx b' = demo_idx"
proof -
  let ?b = "demo_fs_blob None :: unit Blob" and ?s = "snd (Save (demo_fs_blob None :: unit Blob) ''out/i'' ''out/d'' demo_fs)"
  have s: "fst (Save ?b ''out/i'' ''out/d'' demo_fs) = None" "fs_faults ?s = []" by code_simp+
  then have save: "Save ?b ''out/i'' ''out/d'' demo_fs = (None, ?s)" by (simp add: prod_eq_iff)
  have load: "Load (\<lambda>d. Inr (Some (idx_root demo_idx))) (b_indexData ?b) = Inr (b_idx ?b)"
    by (simp add: Load_def demo_fs_blob_def demo_idx_def)
  have "source_ok (r_source (b_reader ?b))" using demo_source_ok by simp
  from Save_OpenFile_roundtrip [OF this save _ load s(2), of "\<lambda>p. Inr p"] show ?thesis by fastforce
qed

text \<open>C31. \<^verbatim>\<open>CopyDir\<close> that reports success has copied the whole directory: on a sorted index without duplicate
  paths and without an entry for the root itself, and without the option to clean the destination first, every entry below the
  prefix that the sink does not skip is at its destination, with the recorded hash and size. An entry is skipped when there is
  something at its destination and overwriting is off. The random names of the temporary files must differ from the names of the entries.\<close>

theorem CopyDir_complete:
  assumes "CopyDir sha256 Z mp sched SortFunc b dest pre opts s ((st, None), s')" "sorts_by_offset SortFunc"
    and "index_sorted (b_idx b)" "distinct (map fb_path (Blob_Entries b))" "pre = [] \<or> valid_path pre"
    and "e \<in> set (Blob_Entries b)" "prefix (if pre = [] then [] else DirPrefix pre) (fb_path e)"
    and "\<forall>v\<in>set (Blob_Entries b). fb_path v \<noteq> ''.'' \<and> join_path dest (fb_path v) \<notin> temp_names s"
  defines "cfg \<equiv> fold (\<lambda>opt c. opt c) opts zero_config"
  assumes "\<not> cc_cleanDest cfg" "ShouldProcess (copy_sink dest cfg) s (EntryFromViewWithPath e (fb_path e))"
  shows "\<exists>c. fs_content s' (join_path dest (fb_path e)) = Some c \<and> sha256 c = fb_hash e \<and> int (length c) = uint (fb_original_size e)"
proof -
  let ?entry = "\<lambda>v. EntryFromViewWithPath v (fb_path v)"
  have run: "copyEntries sha256 Z mp sched SortFunc b dest (collectPrefixEntries b pre) cfg s ((st, None), s')"
    using assms(1,10) unfolding CopyDir_def Let_def cfg_def [symmetric] by simp
  have coll: "set (collectPrefixEntries b pre) \<subseteq> ?entry ` set (Blob_Entries b)" "?entry e \<in> set (collectPrefixEntries b pre)"
    using assms(5-7) EntriesWithPrefixView_eq [OF assms(3)]
    by (auto simp: collectPrefixEntries_def Let_def Blob_Entries_def DirPrefix_def split: if_splits)
  have names: "\<forall>e\<in>set (collectPrefixEntries b pre). join_path dest (Path e) \<notin> temp_names s"
  proof
    fix x assume "x \<in> set (collectPrefixEntries b pre)"
    then obtain v where "v \<in> set (Blob_Entries b)" "x = ?entry v" using coll(1) by blast
    with assms(8) show "join_path dest (Path x) \<notin> temp_names s" by simp
  qed
  obtain e' c where e': "e' \<in> set (collectPrefixEntries b pre)" "join_path dest (Path e') = join_path dest (fb_path e)"
    "fs_content s' (join_path dest (fb_path e)) = Some c" "sha256 c = Hash e'" "int (length c) = uint (OriginalSize e')"
    using copyEntries_ok [OF run assms(10,2) coll(2) assms(11) names] by auto
  then obtain v where v: "v \<in> set (Blob_Entries b)" "e' = ?entry v" using coll(1) by blast
  then have "fb_path v = fb_path e" using join_path_inj [of dest "fb_path v" "fb_path e"] e'(2) assms(6,8) by simp
  then have "v = e" using assms(4,6) v(1) by (meson distinct_map inj_onD)
  then show ?thesis using e' v(2) by auto
qed

definition demo_ab :: Entry where
  "demo_ab = EntryFromViewWithPath (fb_of_Entry (demo_entry ''a/b'' 0 [1])) ''a/b''"

lemma demo_CopyDir:
  "\<exists>st s'. CopyDir demo_hash demo_zstd 1 demo_sched (sort_key DataOffset) (demo_fs_blob (None :: unit Cache option)) ''out'' ''a'' []
     demo_fs ((st, None), s')"
proof -
  let ?b = "demo_fs_blob (None :: unit Cache option)" and ?fsk = "copy_sink ''out'' zero_config"
  let ?groups = "[\<lparr>g_start = 0, g_end = 1, g_entries = [demo_ab]\<rparr>]"
  let ?run = "processGroupsSequential demo_hash demo_zstd 1 demo_sched (copy_processor ?b zero_config) (file_sink ?fsk) no_stats ?groups demo_fs"
  have coll: "collectPrefixEntries ?b ''a'' = [demo_ab]" by code_simp
  have sel: "filter (sk_ShouldProcess (file_sink ?fsk) demo_fs) [demo_ab] = [demo_ab]" by code_simp
  have val: "Process_validate (copy_processor ?b zero_config) [demo_ab] = None" by code_simp
  have run: "snd (fst ?run) = None" by code_simp
  have grp: "groupAdjacentEntries (sort_key DataOffset [demo_ab]) = Some ?groups"
    by (simp add: groupAdjacentEntries_def demo_ab_def demo_entry_def fb_of_Entry_def)
  obtain ps s' where r: "?run = ((ps, None), s')" using run by (metis prod.collapse)
  have "Process demo_hash demo_zstd 1 demo_sched (sort_key DataOffset) (copy_processor ?b zero_config) (file_sink ?fsk) [demo_ab] demo_fs
      ((stats_add (no_stats\<lparr>Skipped := int (length [demo_ab]) - int (length [demo_ab])\<rparr>) ps, None), s')"
    by (rule process_sequential [where SortFunc = "sort_key DataOffset", OF sel [symmetric] _ val grp _ r]) simp_all
  moreover have "find (\<lambda>e. \<not> valid_path (Path e)) [demo_ab] = None" by code_simp
  ultimately have "copyEntries demo_hash demo_zstd 1 demo_sched (sort_key DataOffset) ?b ''out'' [demo_ab] zero_config demo_fs
      ((\<lparr>cs_FileCount = Processed (stats_add (no_stats\<lparr>Skipped := int (length [demo_ab]) - int (length [demo_ab])\<rparr>) ps),
         cs_TotalBytes = TotalBytes (stats_add (no_stats\<lparr>Skipped := int (length [demo_ab]) - int (length [demo_ab])\<rparr>) ps),
         cs_Skipped = Skipped (stats_add (no_stats\<lparr>Skipped := int (length [demo_ab]) - int (length [demo_ab])\<rparr>) ps)\<rparr>, None), s')"
    by (intro copy_process) simp_all
  then show ?thesis using coll by (auto simp: CopyDir_def Let_def zero_config_def)
qed

theorem CopyDir_complete_witness:
  "\<exists>st s' c. CopyDir demo_hash demo_zstd 1 demo_sched (sort_key DataOffset) (demo_fs_blob (None :: unit Cache option)) ''out'' ''a'' []
     demo_fs ((st, None), s') \<and> fs_content s' ''out/a/b'' = Some c \<and> demo_hash c = demo_hash [1]"
proof -
  let ?b = "demo_fs_blob (None :: unit Cache option)" and ?e = "fb_of_Entry (demo_entry ''a/b'' 0 [1])"
  obtain st s' where run: "CopyDir demo_hash demo_zstd 1 demo_sched (sort_key DataOffset) ?b ''out'' ''a'' [] demo_fs ((st, None), s')"
    using demo_CopyDir by blast
  have "valid_path ''a''" "join_path ''out'' ''a/b'' = ''out/a/b''" "ShouldProcess (copy_sink ''out'' zero_config) demo_fs demo_ab" by code_simp+
  moreover have "list_all (\<lambda>v. list_all (\<lambda>name. \<not> suffix (''.blob-'' @ name) (join_path ''out'' (fb_path v))) (fs_rand demo_fs)) (Blob_Entries ?b)"
    by code_simp
  then have "\<forall>v\<in>set (Blob_Entries ?b). join_path ''out'' (fb_path v) \<notin> temp_names demo_fs" by (simp add: temp_names_def list_all_iff)
  ultimately have "\<exists>c. fs_content s' ''out/a/b'' = Some c \<and> demo_hash c = demo_hash [1]"
    using CopyDir_complete [OF run demo_sorts demo_sorted, of ?e]
    by (auto simp: demo_ab_def demo_fs_entries demo_entries demo_entry_def DirPrefix_def zero_config_def fb_of_Entry_def)
  then show ?thesis using run by blast
qed

end
