(* ===== verification/ArchiveProperties.thy ===== *)
theory ArchiveProperties
  imports Archives Examples
begin

text \<open>
  The properties of archive creation (\<^verbatim>\<open>core/create.go\<close>): what a successful \<^verbatim>\<open>Create\<close> has written, that it reads
  back, that its entries are well formed, and the trees whose archives have files that cannot be
  looked up. They are instantiated on a tree with two files, an encoder that stores the content, and an
  index codec that knows one index.
\<close>

section \<open>A small archive\<close>

definition demo_finfo :: "bytes \<Rightarrow> finfo" where
  "demo_finfo c = \<lparr>st_mode = 420, st_size = int (length c), st_mtime = 7, st_uid = 0, st_gid = 0, st_file = 1\<rparr>"

definition demo_leaf :: "bytes \<Rightarrow> leaf" where
  "demo_leaf c =
     \<lparr>lf_type = 0, lf_lstat = Inr (demo_finfo c), lf_info = Inr (demo_finfo c),
      lf_open = Inr \<lparr>of_stat = Inr (demo_finfo c), of_reader = Chunks [c] EOF False, of_after = Inr (demo_finfo c)\<rparr>\<rparr>"

definition demo_tree :: "string \<Rightarrow> tree" where
  "demo_tree name = Dir [(''a'', Dir [(''b'', Leaf (demo_leaf [1, 2]))]), (name, Leaf (demo_leaf [3]))]"

definition demo_encoder :: z_encoder where
  "demo_encoder c w = (None, None, w\<lparr>w_out := w_out w @ c\<rparr>)"

definition no_writer :: writer where
  "no_writer = \<lparr>w_out = [], w_cap = None, w_err = None\<rparr>"

definition demo_ctx :: "string \<Rightarrow> nat \<Rightarrow> err option" where
  "demo_ctx p i = None"

definition demo_created :: "string \<Rightarrow> Entry list" where
  "demo_created name =
     [(demo_entry ''a/b'' 0 [1, 2])\<lparr>ModTime := 7\<rparr>, (demo_entry name 2 [3])\<lparr>ModTime := 7\<rparr>]"

definition demo_index :: "string \<Rightarrow> fb_index" where
  "demo_index name = buildIndex (demo_created name) 3 (demo_hash [1, 2, 3])"

definition demo_encode :: "fb_index \<Rightarrow> bytes" where
  "demo_encode ix = [1]"

definition demo_get_root :: "string \<Rightarrow> bytes \<Rightarrow> string + fb_index option" where
  "demo_get_root name d = (if d = [1] then Inr (Some (demo_index name)) else Inr None)"

lemma demo_copy:
  assumes "c \<noteq> []" "length c \<le> buf" "ctx i = None" "ctx (i + 1) = None" "w_cap w = None" "length c < 2 ^ 64"
  shows "CopyWithContext ctx i w (Chunks [c] EOF False) buf 0 = Some (of_nat (length c), None, w\<lparr>w_out := w_out w @ c\<rparr>)"
proof -
  have b: "buf \<noteq> 0" using assms(1,2) by (metis le_zero_eq length_0_conv)
  have "\<not> (NOT 0 :: u64) - of_nat (length c) < 0" by simp
  then have "CopyWithContext ctx i w (Chunks [c] EOF False) buf 0 =
      CopyWithContext ctx (i + 1) (w\<lparr>w_out := w_out w @ c\<rparr>) (Chunks [] EOF False) buf (of_nat (length c))"
    using assms b by (subst CopyWithContext.simps) (simp add: copy_write_def w_Write_def Let_def)
  also have "\<dots> = Some (of_nat (length c), None, w\<lparr>w_out := w_out w @ c\<rparr>)"
    using assms b by (subst CopyWithContext.simps) (simp add: copy_write_def)
  finally show ?thesis .
qed

lemma demo_limit: "c \<noteq> [] \<Longrightarrow> limit_reader (Chunks [c] EOF False) (length c) = Chunks [c] EOF False"
  by simp

lemma demo_writeEntry:
  assumes "c \<noteq> []" "length c \<le> 32768" "w_cap w = None"
  shows "writeEntry demo_hash demo_encoder zero_create (demo_ctx p) p (demo_leaf c) info w =
    (Inr ((demo_entry p 0 c)\<lparr>ModTime := 7\<rparr>), w\<lparr>w_out := w_out w @ c\<rparr>)"
proof -
  have len: "length c < 2 ^ 64" using assms(2) by simp
  have "CopyWithContext (demo_ctx p) 1 w (Chunks [c] EOF False) buf_size 0 =
      Some (of_nat (length c), None, w\<lparr>w_out := w_out w @ c\<rparr>)"
    using assms len by (intro demo_copy) (auto simp: demo_ctx_def)
  then have "write_File demo_hash demo_encoder (demo_ctx p) (Chunks [c] EOF False) w CompressionNone (int (length c)) =
      (Inr (ulen c, ulen c, demo_hash c), w\<lparr>w_out := w_out w @ c\<rparr>)"
    using assms(1) unfolding write_File_def Let_def by (simp add: file_result_def)
  moreover have "mode_is_regular 420" "mode_perm 420 = 420" by code_simp+
  ultimately show ?thesis
    by (simp add: writeEntry_def demo_leaf_def demo_finfo_def zero_create_def ValidateFileInfo_def CheckFileUnchanged_def
        demo_entry_def)
qed

lemma demo_resolve: "ResolveEntryInfo (demo_leaf c) False = Inr (Some (demo_finfo c), True)"
proof -
  have "mode_is_regular 420" "420 AND ModeSymlink = 0" by code_simp+
  then show ?thesis by (simp add: ResolveEntryInfo_def demo_leaf_def demo_finfo_def)
qed

lemma demo_processEntry:
  assumes "c \<noteq> []" "length c \<le> 32768" "w_cap w = None" "cnt < 200000"
  shows "create_processEntry demo_hash demo_encoder zero_create demo_ctx DefaultMaxFiles cnt (p, Some (demo_leaf c), None) w =
      (Inr (Some ((demo_entry p 0 c)\<lparr>ModTime := 7\<rparr>)), w\<lparr>w_out := w_out w @ c\<rparr>)"
  using assms demo_writeEntry [OF assms(1-3)] demo_resolve [of c]
  by (simp add: create_processEntry_def demo_ctx_def [abs_def] zero_create_def DefaultMaxFiles_def)

lemma demo_processDir:
  "create_processEntry demo_hash demo_encoder zero_create demo_ctx DefaultMaxFiles cnt (p, None, None) w = (Inr None, w)"
  by (simp add: create_processEntry_def demo_ctx_def)

lemma demo_walk:
  assumes "''a'' < name"
  shows "walk ''.'' (demo_tree name) =
    [(''.'', None, None), (''a'', None, None), (''a/b'', Some (demo_leaf [1, 2]), None), (name, Some (demo_leaf [3]), None)]"
  using assms by (simp add: demo_tree_def path_join_def)

lemma demo_writeData:
  assumes "''a'' < name"
  shows "writeData demo_hash demo_encoder zero_create demo_ctx (demo_tree name) no_writer =
    (Inr (demo_created name, 3), no_writer\<lparr>w_out := [1, 2, 3]\<rparr>)"
  using demo_walk [OF assms]
  by (simp add: writeData_def zero_create_def [THEN arg_cong [where f = cr_maxFiles]] demo_processEntry demo_processDir
      no_writer_def demo_created_def demo_entry_def)

lemma demo_Create:
  assumes "''a'' < name"
  shows "Create_archive demo_hash demo_encoder demo_encode demo_ctx (Inr (demo_tree name)) [] no_writer no_writer =
    (None, no_writer\<lparr>w_out := [1]\<rparr>, no_writer\<lparr>w_out := [1, 2, 3]\<rparr>)"
  using demo_writeData [OF assms]
  by (simp add: Create_archive_def no_writer_def demo_encode_def w_Write_def)

definition default_decoder :: "dopt list" where
  "default_decoder = decoder_opts (NewDecompressPool DefaultMaxDecoderMemory [])"

definition index_decodes :: "(fb_index \<Rightarrow> bytes) \<Rightarrow> (bytes \<Rightarrow> string + fb_index option) \<Rightarrow> fb_index \<Rightarrow> bool" where
  "index_decodes encode get_root ix \<longleftrightarrow> encode ix \<noteq> [] \<and> get_root (encode ix) = Inr (Some ix)"

lemma Blob_New_limit:
  assumes "index_decodes encode get_root ix"
  obtains b :: "'c Blob" where "Blob_New get_root (encode ix) src [Blob_WithMaxFileSize m] = Inr b" "idx_root (b_idx b) = ix" "b_cache b = None"
    "r_source (b_reader b) = src" "r_maxFileSize (b_reader b) = m"
    "r_pool (b_reader b) = Some (NewDecompressPool DefaultMaxDecoderMemory [])"
  using assms that
  by (auto simp: Blob_New_def Load_def Blob_WithMaxFileSize_def NewReader_def WithMaxFileSize_def WithMaxDecoderMemory_def Let_def
      index_decodes_def)

lemma demo_env:
  assumes "''a'' < name"
  shows "create_env demo_zstd opts 10 demo_encoder demo_ctx (demo_tree name) [] no_writer no_writer"
proof -
  have "tree_ok 10 (demo_tree name)" using demo_walk [OF assms] by (auto simp: tree_ok_def leaf_ok_def demo_leaf_def demo_finfo_def)
  moreover have "zstd_encodes demo_zstd opts 10 demo_encoder"
    by (auto simp: zstd_encodes_def demo_encoder_def appended_def zstd_decodes_def demo_zstd_def)
  moreover have "encoder_quiet demo_encoder" by (auto simp: encoder_quiet_def demo_encoder_def)
  ultimately show ?thesis
    by (simp add: create_env_def demo_ctx_def no_writer_def create_config_def zero_create_def honest_def)
qed

lemma demo_archived: "archived False (p, Some (demo_leaf c), None) = Some (p, demo_finfo c, c)"
  using demo_resolve [of c] by (simp add: archived_def demo_leaf_def demo_finfo_def)

lemma demo_files:
  assumes "''a'' < name"
  shows "tree_files False (demo_tree name) = [(''a/b'', demo_finfo [1, 2], [1, 2]), (name, demo_finfo [3], [3])]"
proof -
  have "archived False (p, None, None) = None" for p by (simp add: archived_def)
  then show ?thesis
    by (simp add: tree_files_def demo_walk [OF assms] map_filter_Cons List.map_filter_simps demo_archived)
qed

section \<open>Properties\<close>

text \<open>C21. A \<^verbatim>\<open>Create\<close> that reports success has archived the tree: the data blob is the concatenation of the
  stored files, in the order of the walk, each with an entry that gives its offset, sizes, hash and
  metadata, and the index holds just these entries, the size and the hash of the data. Files left out
  are those that are not regular or could not be opened because they are symbolic links.\<close>

theorem Create_archives_tree:
  assumes "Create_archive sha256 z_Encode encode ctx (Inr root) copts iw dw = (None, iw', dw')"
    and "create_env Z opts limit z_Encode ctx root copts iw dw" "length (w_out dw') < 2 ^ 64"
  shows "\<exists>entries. laid_out sha256 Z opts 0 entries (tree_files (cr_strict (create_config copts)) root) (w_out dw') \<and>
    w_out iw' = encode (buildIndex entries (of_nat (length (w_out dw'))) (sha256 (w_out dw')))"
  using create_layout [OF assms] by metis

theorem Create_archives_tree_witness:
  "\<exists>entries. laid_out demo_hash demo_zstd [] 0 entries
     [(''a/b'', demo_finfo [1, 2], [1, 2]), (''c'', demo_finfo [3], [3])] [1, 2, 3]"
proof -
  have lt: "''a'' < ''c''" by simp
  have cfg: "cr_strict (create_config []) = False" by (simp add: create_config_def zero_create_def)
  show ?thesis using Create_archives_tree [OF demo_Create [OF lt] demo_env [OF lt]]
    by (simp add: cfg demo_files [OF lt] no_writer_def) blast
qed

text \<open>C3. An archive reads back as the tree: when the names of the tree sort like its paths, \<^verbatim>\<open>ReadFile\<close> of
  every archived path returns the content of the file.\<close>

theorem Create_ReadFile_roundtrip:
  fixes c :: 'c
  assumes created: "Create_archive sha256 z_Encode encode ctx (Inr root) copts iw dw = (None, iw', dw')"
    and env: "create_env Z default_decoder limit z_Encode ctx root copts iw dw" and sorted: "tree_sorted root"
    and index: "\<forall>entries n. writeData sha256 z_Encode (create_config copts) ctx root dw = (Inr (entries, n), dw') \<longrightarrow>
      index_decodes encode get_root (buildIndex entries n (sha256 (w_out dw')))"
    and src: "source_ok src" "ra_content (src_at src) = w_out dw'" and hash: "\<forall>c. length (sha256 c) = 32"
    and fl: "(p, fi, content) \<in> set (tree_files (cr_strict (create_config copts)) root)" "valid_path p" "st_size fi < 2 ^ 63"
    and limits: "m = 0 \<or> length (w_out dw') \<le> unat m \<and> length content \<le> unat m"
  shows "\<exists>b. Blob_New get_root (w_out iw') src [Blob_WithMaxFileSize m] = Inr b \<and>
    Blob_ReadFile sha256 Z race b p c = (Inr content, c)"
proof -
  have len: "length (w_out dw') < 2 ^ 64" using src by (simp add: source_ok_def)
  obtain entries where e: "writeData sha256 z_Encode (create_config copts) ctx root dw = (Inr (entries, of_nat (length (w_out dw'))), dw')"
    "laid_out sha256 Z default_decoder 0 entries (tree_files (cr_strict (create_config copts)) root) (w_out dw')"
    "w_out iw' = encode (buildIndex entries (of_nat (length (w_out dw'))) (sha256 (w_out dw')))"
    using create_layout [OF created env len] .
  then have "index_decodes encode get_root (buildIndex entries (of_nat (length (w_out dw'))) (sha256 (w_out dw')))" using index by blast
  from Blob_New_limit [OF this, of src m] e(3) obtain b :: "'c Blob" where b:
    "Blob_New get_root (w_out iw') src [Blob_WithMaxFileSize m] = Inr b"
    "idx_root (b_idx b) = buildIndex entries (of_nat (length (w_out dw'))) (sha256 (w_out dw'))" "b_cache b = None"
    "r_source (b_reader b) = src" "r_maxFileSize (b_reader b) = m"
    "r_pool (b_reader b) = Some (NewDecompressPool DefaultMaxDecoderMemory [])" by metis
  have "Blob_ReadFile sha256 Z race b p c = (Inr content, c)"
    using created_ReadFile [OF e(2) [unfolded default_decoder_def] tree_files_sorted [OF sorted] b(2)] b src hash fl limits by simp
  then show ?thesis using b(1) by blast
qed

definition demo_created_source :: source where
  "demo_created_source =
     \<lparr>src_at = \<lparr>ra_content = [1, 2, 3], ra_fault = (\<lambda>_ _. None), ra_eager = False\<rparr>, src_size = 3, src_id = ''demo'', src_range = None\<rparr>"

theorem Create_ReadFile_roundtrip_witness:
  "\<exists>b. Blob_New (demo_get_root ''c'') [1] demo_created_source [Blob_WithMaxFileSize 0] = Inr b \<and>
     Blob_ReadFile demo_hash demo_zstd (\<lambda>x. x) b ''a/b'' () = (Inr [1, 2], ())"
proof -
  have lt: "''a'' < ''c''" by simp
  have cfg: "create_config [] = zero_create" "cr_strict zero_create = False" by (simp_all add: create_config_def zero_create_def)
  have dec: "\<forall>entries n. writeData demo_hash demo_encoder (create_config []) demo_ctx (demo_tree ''c'') no_writer =
      (Inr (entries, n), no_writer\<lparr>w_out := [1, 2, 3]\<rparr>) \<longrightarrow>
      index_decodes demo_encode (demo_get_root ''c'') (buildIndex entries n (demo_hash (w_out (no_writer\<lparr>w_out := [1, 2, 3]\<rparr>))))"
    by (simp add: cfg demo_writeData [OF lt] index_decodes_def demo_encode_def demo_get_root_def demo_index_def)
  have "tree_sorted (demo_tree ''c'')" by (simp add: demo_tree_def strict_prefix_def)
  moreover have "source_ok demo_created_source" "ra_content (src_at demo_created_source) = w_out (no_writer\<lparr>w_out := [1, 2, 3]\<rparr>)"
    by (simp_all add: source_ok_def demo_created_source_def)
  moreover have "\<forall>c. length (demo_hash c) = 32" by (simp add: demo_hash_def)
  moreover have "(''a/b'', demo_finfo [1, 2], [1, 2]) \<in> set (tree_files (cr_strict (create_config [])) (demo_tree ''c''))"
    by (simp add: cfg demo_files [OF lt])
  moreover have "valid_path ''a/b''" by code_simp
  moreover have "st_size (demo_finfo [1, 2]) < 2 ^ 63" by (simp add: demo_finfo_def)
  ultimately show ?thesis
    using Create_ReadFile_roundtrip [OF demo_Create [OF lt] demo_env [OF lt] _ dec, of demo_created_source "''a/b''" _ _ 0 "\<lambda>x. x" "()"]
    by simp
qed

text \<open>C22. Every entry of a created archive is well formed: it passes the validation of the reader against
  the data blob, has a regular mode and a known compression.\<close>

theorem Create_entries_valid:
  assumes "Create_archive sha256 z_Encode encode ctx (Inr root) copts iw dw = (None, iw', dw')"
    and "create_env Z opts limit z_Encode ctx root copts iw dw" "length (w_out dw') < 2 ^ 63" "\<forall>c. length (sha256 c) = 32"
  shows "\<exists>entries. w_out iw' = encode (buildIndex entries (of_nat (length (w_out dw'))) (sha256 (w_out dw'))) \<and>
    (\<forall>e\<in>set entries. ValidateAll e (int (length (w_out dw'))) 0 = None \<and> mode_is_regular (Mode e) \<and>
       Compression e \<in> {CompressionNone, CompressionZstd})"
proof -
  have len: "length (w_out dw') < 2 ^ 64" using assms(3) by simp
  obtain entries where e: "laid_out sha256 Z opts 0 entries (tree_files (cr_strict (create_config copts)) root) (w_out dw')"
    "w_out iw' = encode (buildIndex entries (of_nat (length (w_out dw'))) (sha256 (w_out dw')))"
    using create_layout [OF assms(1,2) len] by metis
  from laid_out_valid [OF e(1)] assms(3,4) e(2) show ?thesis by (intro exI [of _ entries]) simp
qed

theorem Create_entries_valid_witness:
  "\<exists>entries. demo_encode (buildIndex entries 3 (demo_hash [1, 2, 3])) = [1] \<and>
     (\<forall>e\<in>set entries. ValidateAll e 3 0 = None \<and> mode_is_regular (Mode e))"
proof -
  have lt: "''a'' < ''c''" by simp
  have "\<forall>c. length (demo_hash c) = 32" by (simp add: demo_hash_def)
  from Create_entries_valid [OF demo_Create [OF lt] demo_env [OF lt, of "[]"] _ this] show ?thesis
    by (auto simp: demo_encode_def)
qed

lemma lookup_two:
  assumes "fb_path e2 < fb_path e1"
  shows "LookupByKey [e1, e2] (fb_path e1) 0 2 = None"
proof -
  have "LookupByKey [e1, e2] (fb_path e1) 0 2 = LookupByKey [e1, e2] (fb_path e1) 2 0"
    using LookupByKey_unfold(3) [of 2 "[e1, e2]" 0 "fb_path e1"] assms by (simp add: numeral_2_eq_2)
  then show ?thesis by (simp add: LookupByKey_unfold(1))
qed

text \<open>C38. The order of the walk is not the order of the index: in an archive of a directory \<^verbatim>\<open>n\<close> and a file
  whose name extends \<^verbatim>\<open>n\<close> by a character below the slash (\<^verbatim>\<open>a\<close> and \<^verbatim>\<open>a.txt\<close>) the file in the directory is
  stored but cannot be read.\<close>

theorem Create_walk_order_loses_file:
  fixes c :: 'c
  assumes created: "Create_archive sha256 z_Encode encode ctx (Inr root) copts iw dw = (None, iw', dw')"
    and env: "create_env Z default_decoder limit z_Encode ctx root copts iw dw" "length (w_out dw') < 2 ^ 64"
    and root: "root = Dir [(n, Dir [(m, Leaf l)]), (n @ x # r, Leaf l')]" "x < slash" "n \<noteq> ''.''"
    and archived: "archived (cr_strict (create_config copts)) (n @ slash # m, Some l, None) \<noteq> None"
      "archived (cr_strict (create_config copts)) (n @ x # r, Some l', None) \<noteq> None"
    and index: "\<forall>entries k. writeData sha256 z_Encode (create_config copts) ctx root dw = (Inr (entries, k), dw') \<longrightarrow>
      index_decodes encode get_root (buildIndex entries k (sha256 (w_out dw')))"
    and valid: "valid_path (n @ slash # m)"
  shows "\<exists>b. Blob_New get_root (w_out iw') src [Blob_WithMaxFileSize 0] = Inr b \<and>
    n @ slash # m \<in> fb_path ` set (Blob_Entries b) \<and>
    fst (Blob_ReadFile sha256 Z race b (n @ slash # m) c) = Inl (PathError ''readfile'' (n @ slash # m) ErrNotExist)"
proof -
  let ?strict = "cr_strict (create_config copts)"
  obtain entries where e: "writeData sha256 z_Encode (create_config copts) ctx root dw = (Inr (entries, of_nat (length (w_out dw'))), dw')"
    "laid_out sha256 Z default_decoder 0 entries (tree_files ?strict root) (w_out dw')"
    "w_out iw' = encode (buildIndex entries (of_nat (length (w_out dw'))) (sha256 (w_out dw')))"
    using create_layout [OF created env] .
  then have "index_decodes encode get_root (buildIndex entries (of_nat (length (w_out dw'))) (sha256 (w_out dw')))" using index by blast
  from Blob_New_limit [OF this, of src 0] e(3) obtain b :: "'c Blob" where b:
    "Blob_New get_root (w_out iw') src [Blob_WithMaxFileSize 0] = Inr b"
    "idx_root (b_idx b) = buildIndex entries (of_nat (length (w_out dw'))) (sha256 (w_out dw'))" by metis
  have "n < n @ x # r" by (rule less_append) simp
  then have "walk ''.'' root = [(''.'', None, None), (n, None, None), (n @ slash # m, Some l, None), (n @ x # r, Some l', None)]"
    using root by (simp add: path_join_def)
  moreover have "archived ?strict (p, None, None) = None" for p by (simp add: archived_def)
  moreover obtain f g where fg: "archived ?strict (n @ slash # m, Some l, None) = Some f" "archived ?strict (n @ x # r, Some l', None) = Some g"
    using archived by blast
  moreover have "fst f = n @ slash # m" "fst g = n @ x # r"
    using fg by (auto simp: archived_def split: sum.splits bool.splits)
  ultimately have "map Path entries = [n @ slash # m, n @ x # r]"
    using laid_out_paths [OF e(2)] by (simp add: tree_files_def map_filter_Cons List.map_filter_simps)
  then obtain e1 e2 where es: "entries = [e1, e2]" "Path e1 = n @ slash # m" "Path e2 = n @ x # r" by auto
  have "LookupByKey [fb_of_Entry e1, fb_of_Entry e2] (n @ slash # m) 0 2 = None"
    using lookup_two [of "fb_of_Entry e2" "fb_of_Entry e1"] es root(2) by simp
  then have "LookupView (b_idx b) (n @ slash # m) = None"
    using b(2) es(1) by (simp add: LookupView_def EntriesByKey_def buildIndex_def numeral_2_eq_2)
  moreover have "n @ slash # m \<in> fb_path ` set (Blob_Entries b)"
    using b(2) es by (simp add: Blob_Entries_def EntriesView_def buildIndex_def)
  ultimately show ?thesis using b(1) valid by (auto simp: Blob_ReadFile_def)
qed

theorem Create_walk_order_loses_file_witness:
  "\<exists>b. Blob_New (demo_get_root ''a.txt'') [1] demo_created_source [Blob_WithMaxFileSize 0] = Inr b \<and>
     ''a/b'' \<in> fb_path ` set (Blob_Entries b) \<and>
     fst (Blob_ReadFile demo_hash demo_zstd (\<lambda>x. x) b ''a/b'' ()) = Inl (PathError ''readfile'' ''a/b'' ErrNotExist)"
proof -
  have lt: "''a'' < ''a.txt''" by simp
  have cfg: "create_config [] = zero_create" "cr_strict zero_create = False" by (simp_all add: create_config_def zero_create_def)
  have dec: "\<forall>entries n. writeData demo_hash demo_encoder (create_config []) demo_ctx (demo_tree ''a.txt'') no_writer =
      (Inr (entries, n), no_writer\<lparr>w_out := [1, 2, 3]\<rparr>) \<longrightarrow>
      index_decodes demo_encode (demo_get_root ''a.txt'') (buildIndex entries n (demo_hash (w_out (no_writer\<lparr>w_out := [1, 2, 3]\<rparr>))))"
    by (simp add: cfg demo_writeData [OF lt] index_decodes_def demo_encode_def demo_get_root_def demo_index_def)
  have tree: "demo_tree ''a.txt'' = Dir [(''a'', Dir [(''b'', Leaf (demo_leaf [1, 2]))]), (''a'' @ CHR ''.'' # ''txt'', Leaf (demo_leaf [3]))]"
    by (simp add: demo_tree_def)
  have v: "valid_path ''a/b''" by code_simp
  from Create_walk_order_loses_file [where src = demo_created_source and race = "\<lambda>x. x" and c = "()", OF demo_Create [OF lt] demo_env [OF lt] _ tree _ _ _ _ dec]
  show ?thesis using v demo_archived [of "''a/b''" "[1, 2]"] demo_archived [of "''a.txt''" "[3]"]
    by (simp add: cfg) 
qed

end
