(* ===== verification/HttpProperties.thy ===== *)
theory HttpProperties
  imports HttpSource Examples
begin

text \<open>
  The properties of the HTTP source (\<^verbatim>\<open>core/http/source.go\<close>), with a server that answers range requests from
  a byte list as the concrete input.
\<close>

section \<open>A concrete server\<close>

definition parse_range :: "string \<Rightarrow> (int \<times> int) option" where
  "parse_range v =
     (case SplitN2 CHR ''-'' (trim_prefix v ''bytes='') of
        [a, b] \<Rightarrow> (case (ParseInt a, ParseInt b) of (Some x, Some y) \<Rightarrow> Some (x, y) | _ \<Rightarrow> None)
      | _ \<Rightarrow> None)"

lemma parse_range_value:
  assumes "0 \<le> a" "a < 2 ^ 63" "0 \<le> b" "b < 2 ^ 63"
  shows "parse_range (range_value a b) = Some (a, b)"
proof -
  have "digit_value CHR ''-'' = None" by code_simp
  then have "CHR ''-'' \<notin> set (show_int a)" using show_int_digits [OF assms(1)] by blast
  then have "SplitN2 CHR ''-'' (show_int a @ CHR ''-'' # show_int b) = [show_int a, show_int b]" by (rule SplitN2_append)
  moreover have "trim_prefix (range_value a b) ''bytes='' = show_int a @ CHR ''-'' # show_int b"
    using trim_prefix_append [of "''bytes=''"] by (simp add: range_value_def)
  ultimately show ?thesis using assms by (simp add: parse_range_def ParseInt_show)
qed

definition range_response :: "bytes \<Rightarrow> request \<Rightarrow> response" where
  "range_response content req =
     (let sz = int (length content);
          empty = \<lparr>rs_code = 416, rs_status = ''416'', rs_header = [], rs_length = sz, rs_body = Chunks [] EOF False\<rparr>
      in if rq_method req = ''HEAD'' then empty
         else case parse_range (header_Get (rq_header req) ''Range'') of
           Some (a, b) \<Rightarrow>
             if 0 \<le> a \<and> a \<le> b \<and> b < sz then
               \<lparr>rs_code = 206, rs_status = ''206'', rs_header = [(''Content-Range'', [content_range a b sz])], rs_length = b - a + 1,
                rs_body = Chunks [take (nat (b - a + 1)) (drop (nat a) content)] EOF False\<rparr>
             else empty
         | None \<Rightarrow> empty)"

definition demo_server :: "bytes \<Rightarrow> unit http_client" where
  "demo_server content req n = (Inr (range_response content req), n)"

lemma range_response_serves:
  assumes "int (length content) < 2 ^ 63"
    and "\<And>req n. rq_url req = url \<Longrightarrow> I n \<Longrightarrow> Do req n = (Inr (range_response content req), n)"
  shows "serves I url content Do"
proof -
  have key: "canonical_key ''Content-Range'' = ''Content-Range''" by code_simp
  show ?thesis unfolding serves_def
  proof (intro allI impI)
    fix req :: request and n assume q: "rq_url req = url" "I n"
    let ?r = "range_response content req"
    have "?r = \<lparr>rs_code = 206, rs_status = ''206'',
        rs_header = [(''Content-Range'', [content_range a b (int (length content))])], rs_length = b - a + 1,
        rs_body = Chunks [take (nat (b - a + 1)) (drop (nat a) content)] EOF False\<rparr>"
      if "rq_method req = ''GET''" "header_Get (rq_header req) ''Range'' = range_value a b" "0 \<le> a" "a \<le> b" "b < int (length content)"
      for a b
      using that assms(1) parse_range_value [of a b] by (simp add: range_response_def Let_def)
    then have "\<forall>a b. rq_method req = ''GET'' \<longrightarrow> header_Get (rq_header req) ''Range'' = range_value a b \<longrightarrow>
           0 \<le> a \<longrightarrow> a \<le> b \<longrightarrow> b < int (length content) \<longrightarrow>
           rs_code ?r = 206 \<and> delivers (rs_body ?r) (take (nat (b - a + 1)) (drop (nat a) content)) \<and>
           header_Get (rs_header ?r) ''Content-Range'' = content_range a b (int (length content))"
      by (auto simp: delivers_def header_Get_def header_values_def key)
    moreover have "rq_method req = ''HEAD'' \<longrightarrow> rs_length ?r = int (length content)" by (simp add: range_response_def Let_def)
    ultimately show "\<exists>resp n'. Do req n = (Inr resp, n') \<and> I n' \<and>
        (rq_method req = ''HEAD'' \<longrightarrow> rs_length resp = int (length content) \<or> rs_length resp \<le> 0) \<and>
        (\<forall>a b. rq_method req = ''GET'' \<longrightarrow> header_Get (rq_header req) ''Range'' = range_value a b \<longrightarrow>
           0 \<le> a \<longrightarrow> a \<le> b \<longrightarrow> b < int (length content) \<longrightarrow>
           rs_code resp = 206 \<and> delivers (rs_body resp) (take (nat (b - a + 1)) (drop (nat a) content)) \<and>
           header_Get (rs_header resp) ''Content-Range'' = content_range a b (int (length content)))"
      using assms(2) [OF q] q(2) by blast
  qed
qed

lemma demo_serves: "int (length content) < 2 ^ 63 \<Longrightarrow> serves (\<lambda>_. True) url content (demo_server content)"
  by (rule range_response_serves) (simp_all add: demo_server_def)

section \<open>Properties\<close>

text \<open>C28. Over a server that serves the data blob, \<^verbatim>\<open>NewSource\<close> finds its size and the source it returns reads
  like the blob in memory: \<^verbatim>\<open>ReadAt\<close> returns the same bytes and the same error, \<^verbatim>\<open>ReadRange\<close> a reader of the
  range, so that all that holds of reads from a healthy source holds over HTTP. The blob is not empty, the options keep the
  URL, and a read stays within 64-bit offsets.\<close>

theorem http_source_transparent:
  assumes "serves I url content Do" "bad_url url = None" "content \<noteq> []" "int (length content) < 2 ^ 63"
    and "\<forall>opt\<in>set opts. \<forall>s. hs_url (opt s) = hs_url s" "I n"
  shows "\<exists>s n'. http_NewSource bad_url Do url opts n = (Inr s, n') \<and> hs_size s = int (length content) \<and>
    (\<forall>k off m. I m \<longrightarrow> 0 \<le> off \<longrightarrow> int (length content) + int k < 2 ^ 63 \<longrightarrow>
       fst (http_ReadAt bad_url Do s k off m) =
         ra_ReadAt \<lparr>ra_content = content, ra_fault = (\<lambda>_ _. None), ra_eager = False\<rparr> k off) \<and>
    source_ok (http_as_source bad_url Do n' s) \<and> ra_content (src_at (http_as_source bad_url Do n' s)) = content"
proof -
  obtain s n' where s: "http_NewSource bad_url Do url opts n = (Inr s, n')" "hs_url s = url" "hs_size s = int (length content)" "I n'"
    using http_NewSource_ok [where bad_url = bad_url and url = url, OF assms] by blast
  then have url: "bad_url (hs_url s) = None" using assms(2) by simp
  have "fst (http_ReadAt bad_url Do s k off m) = ra_ReadAt \<lparr>ra_content = content, ra_fault = (\<lambda>_ _. None), ra_eager = False\<rparr> k off"
    if "I m" "0 \<le> off" "int (length content) + int k < 2 ^ 63" for k off m
    by (rule http_ReadAt_ok [OF assms(1) [folded s(2)] _ s(3)]) (use url that in auto)
  with s url show ?thesis
    using http_source_ok [where bad_url = bad_url and s = s, OF assms(1) [folded s(2)] _ s(3) assms(4)] by blast
qed

theorem http_source_transparent_witness:
  "\<exists>s n'. http_NewSource (\<lambda>_. None) (demo_server demo_blob) ''http://x'' [WithSourceID ''x''] () = (Inr s, n') \<and>
     fst (http_ReadAt (\<lambda>_. None) (demo_server demo_blob) s 3 4 ()) = ([5, 6], Some EOF)"
proof -
  have "serves (\<lambda>_. True) ''http://x'' demo_blob (demo_server demo_blob)" by (rule demo_serves) (simp add: demo_blob_def)
  from http_source_transparent [OF this, of "\<lambda>_. None" "[WithSourceID ''x'']" "()"] obtain s n' where
    "http_NewSource (\<lambda>_. None) (demo_server demo_blob) ''http://x'' [WithSourceID ''x''] () = (Inr s, n')"
    "\<forall>k off m. 0 \<le> off \<longrightarrow> int (length demo_blob) + int k < 2 ^ 63 \<longrightarrow>
       fst (http_ReadAt (\<lambda>_. None) (demo_server demo_blob) s k off m) =
         ra_ReadAt \<lparr>ra_content = demo_blob, ra_fault = (\<lambda>_ _. None), ra_eager = False\<rparr> k off"
    by (auto simp: demo_blob_def WithSourceID_def)
  then show ?thesis by (auto simp: demo_blob_def ra_ReadAt_def)
qed

text \<open>An empty data blob cannot be opened over HTTP: a server has to refuse the probe for its first byte, and
  \<^verbatim>\<open>NewSource\<close> fails.\<close>

theorem http_empty_fails:
  assumes "\<forall>req n. rq_method req = ''GET'' \<longrightarrow> header_Get (rq_header req) ''Range'' = ''bytes=0-0'' \<longrightarrow>
      (\<exists>resp n'. Do req n = (Inr resp, n') \<and> rs_code resp = 416 \<and> rs_status resp = status)"
    and "bad_url url = None" "\<forall>opt\<in>set opts. \<forall>s. hs_url (opt s) = hs_url s"
  shows "\<exists>n'. http_NewSource bad_url Do url opts n = (Inl (Errorf ''range probe failed: %s'' [status] []), n')"
proof -
  define s1 where "s1 = fold (\<lambda>opt s. opt s) opts \<lparr>hs_url = url, hs_headers = None, hs_size = 0, hs_etag = [], hs_lastModified = [],
    hs_sourceID = [], hs_useConditionalHeaders = False\<rparr>"
  have "hs_url (fold (\<lambda>opt s. opt s) opts s) = hs_url s" for s using assms(3) by (induction opts arbitrary: s) auto
  then have "bad_url (hs_url s1) = None" using assms(2) by (simp add: s1_def)
  then obtain h where h: "newRequest bad_url s1 ''GET'' False = Inr \<lparr>rq_method = ''GET'', rq_url = hs_url s1, rq_header = h\<rparr>"
    using newRequest_ok [where bad_url = bad_url and s = s1] by blast
  obtain x n1 where d: "doHead bad_url Do s1 n = (x, n1)" by (metis prod.exhaust)
  obtain resp n2 where "Do \<lparr>rq_method = ''GET'', rq_url = hs_url s1, rq_header = header_Set ''Range'' ''bytes=0-0'' h\<rparr> n1 = (Inr resp, n2)"
    "rs_code resp = 416" "rs_status resp = status" using assms(1) by (metis header_Get_Set request.select_convs(1,3))
  then have "rangeProbe bad_url Do s1 n1 = (Inl (Errorf ''range probe failed: %s'' [status] []), n2)"
    using h by (simp add: rangeProbe_def)
  then show ?thesis using d unfolding http_NewSource_def Let_def s1_def [symmetric] fetchMetadata_def
    by (simp split: prod.splits sum.splits)
qed

theorem http_empty_fails_witness:
  "\<exists>n'. http_NewSource (\<lambda>_. None) (demo_server []) ''http://x'' [] () = (Inl (Errorf ''range probe failed: %s'' [''416''] []), n')"
proof -
  have "range_value 0 0 = ''bytes=0-0''" by code_simp
  then have "parse_range ''bytes=0-0'' = Some (0, 0)" using parse_range_value [of 0 0] by simp
  then have "\<forall>req n. rq_method req = ''GET'' \<longrightarrow> header_Get (rq_header req) ''Range'' = ''bytes=0-0'' \<longrightarrow>
      (\<exists>resp n'. demo_server [] req n = (Inr resp, n') \<and> rs_code resp = 416 \<and> rs_status resp = ''416'')"
    by (auto simp: demo_server_def range_response_def Let_def)
  from http_empty_fails [OF this, of "\<lambda>_. None" "''http://x''" "[]" "()"] show ?thesis by simp
qed

end
