(* ===== verification/RegistryProperties.thy ===== *)
theory RegistryProperties
  imports RegistryRoundtrip Examples
begin

text \<open>
  The properties of the registry client over the ORAS client and the disk caches, with a digest library, a registry in memory and
  caches in a small file system as concrete inputs.
\<close>

section \<open>Concrete inputs\<close>

definition demo_digest :: digest_lib where
  "demo_digest =
     \<lparr>dl_Validate = (\<lambda>d. if isValidDigestFormat d then None else Some (ErrNew ''invalid'')), dl_Algorithm = takeWhile (\<lambda>c. c \<noteq> CHR '':''),
      dl_Available = (\<lambda>a. a = ''sha256''), dl_FromBytes = (\<lambda>a d. a @ '':'' @ hex_encode (demo_hash d))\<rparr>"

text \<open>A registry in memory that knows one manifest, and an HTTP server for a data blob of six bytes.\<close>

record mem_net =
  me_blobs :: "repository \<times> string \<rightharpoonup> bytes"
  me_manifests :: "repository \<times> string \<rightharpoonup> bytes"
  me_tags :: "repository \<times> string \<rightharpoonup> Descriptor"

definition demo_missing :: err where
  "demo_missing = ErrNew ''missing''"

text \<open>The registry lies in a part of the state that \<open>get\<close> reads and \<open>upd\<close> changes.\<close>

definition mem_push ::
  "((mem_net \<Rightarrow> mem_net) \<Rightarrow> 'n \<Rightarrow> 'n) \<Rightarrow> repository \<Rightarrow> Descriptor \<Rightarrow> reader \<Rightarrow> 'n \<Rightarrow> err option \<times> 'n" where
  "mem_push upd repo desc r n =
     (case io_ReadAll r of
        Inl err \<Rightarrow> (Some err, n)
      | Inr d \<Rightarrow>
          (None, upd (if d_MediaType desc = MediaTypeImageManifest then (\<lambda>m. m\<lparr>me_manifests := (me_manifests m)((repo, d_Digest desc) \<mapsto> d)\<rparr>)
                      else (\<lambda>m. m\<lparr>me_blobs := (me_blobs m)((repo, d_Digest desc) \<mapsto> d)\<rparr>)) n))"

definition mem_tag :: "((mem_net \<Rightarrow> mem_net) \<Rightarrow> 'n \<Rightarrow> 'n) \<Rightarrow> repository \<Rightarrow> Descriptor \<Rightarrow> string \<Rightarrow> 'n \<Rightarrow> err option \<times> 'n" where
  "mem_tag upd repo desc tag n = (None, upd (\<lambda>m. m\<lparr>me_tags := (me_tags m)((repo, tag) \<mapsto> desc)\<rparr>) n)"

definition mem_server :: "'n http_client" where
  "mem_server req n =
     (Inr (if rq_method req = ''HEAD''
           then \<lparr>rs_code = 200, rs_status = ''200'', rs_header = [], rs_length = 6, rs_body = Chunks [] EOF False\<rparr>
           else \<lparr>rs_code = 206, rs_status = ''206'', rs_header = [(''Content-Range'', [''bytes 0-0/6''])], rs_length = 1,
                 rs_body = Chunks [[1]] EOF False\<rparr>), n)"

definition mem_remote :: "('n \<Rightarrow> mem_net) \<Rightarrow> ((mem_net \<Rightarrow> mem_net) \<Rightarrow> 'n \<Rightarrow> 'n) \<Rightarrow> Manifest \<Rightarrow> 'n remote_lib" where
  "mem_remote get upd m =
     \<lparr>rm_NewRepository = (\<lambda>_. None), rm_Push = mem_push upd,
      rm_Fetch = (\<lambda>repo desc n. (case me_blobs (get n) (repo, d_Digest desc) of Some d \<Rightarrow> Inr (bytes_NewReader d) | None \<Rightarrow> Inl demo_missing, n)),
      rm_PushReference = (\<lambda>repo desc r tag n. case mem_push upd repo desc r n of
         (Some err, n) \<Rightarrow> (Some err, n) | (None, n) \<Rightarrow> mem_tag upd repo desc tag n),
      rm_FetchReference = (\<lambda>repo dgst n. (case me_manifests (get n) (repo, dgst) of
         Some d \<Rightarrow> Inr (\<lparr>d_MediaType = MediaTypeImageManifest, d_Digest = dgst, d_Size = int (length d)\<rparr>, bytes_NewReader d)
       | None \<Rightarrow> Inl demo_missing, n)),
      rm_Resolve = (\<lambda>repo tag n. (case me_tags (get n) (repo, tag) of Some desc \<Rightarrow> Inr desc | None \<Rightarrow> Inl demo_missing, n)),
      rm_Tag = mem_tag upd, rm_Referrers = (\<lambda>repo desc t n. (Inr [], n)),
      rm_ParseReference = (\<lambda>ref. Some (''host'', ''repo'', ''latest'')), rm_Host = (\<lambda>r. r),
      rm_marshal = (\<lambda>x. if x = m then Inr [1, 2, 3] else Inl demo_missing),
      rm_unmarshal = (\<lambda>d. if d = [1, 2, 3] then Some m else None), rm_base64 = (\<lambda>s. s),
      rm_ErrNotFound = demo_missing, rm_ErrUnsupported = ErrNew ''unsupported'', rm_StatusCode = (\<lambda>_. None),
      rm_auth_Do = (\<lambda>_. mem_server)\<rparr>"

definition mem_view :: "('n \<Rightarrow> mem_net) \<Rightarrow> 'n registry_view" where
  "mem_view get = \<lparr>rv_blobs = (\<lambda>n. me_blobs (get n)), rv_manifests = (\<lambda>n. me_manifests (get n)), rv_tags = (\<lambda>n. me_tags (get n))\<rparr>"

lemma mem_registry:
  assumes "\<And>f n. get (upd f n) = f (get n)"
  shows "registry_keeps (mem_remote get upd m) (mem_view get)" "registry_serves (mem_remote get upd m) (mem_view get)"
  by (auto simp: registry_keeps_def registry_serves_def same_view_def mem_remote_def mem_view_def mem_push_def mem_tag_def
      bytes_NewReader_ok assms split: sum.splits)

text \<open>The environment, an archive with its manifest, and a client.\<close>

definition demo_reg :: "'w reg_env" where
  "demo_reg =
     \<lparr>re_ParseReference = (\<lambda>ref. Some (''host'', ''repo'', ''latest'')), re_digest = demo_digest, re_parseTime = (\<lambda>_. None), re_now = ''now'',
      re_get_root = (\<lambda>d. Inr (Some (idx_root demo_idx))), re_bad_url = (\<lambda>_. None), re_DefaultClient = mem_server\<rparr>"

definition demo_archive :: "unit Blob" where
  "demo_archive =
     \<lparr>b_idx = demo_idx, b_indexData = [0, 7], b_reader = demo_reader, b_maxFileSize = 268435456, b_maxDecoderMemory = 268435456,
      b_decoderConcurrencySet = False, b_decoderConcurrency = 0, b_decoderLowmemSet = False, b_decoderLowmem = False,
      b_verifyOnClose = True, b_cache = None\<rparr>"

definition demo_config_desc :: Descriptor where
  "demo_config_desc = \<lparr>d_MediaType = MediaTypeEmptyJSON, d_Digest = dl_FromBytes demo_digest ''sha256'' (to_bytes ''{}''), d_Size = 2\<rparr>"

definition demo_data_desc :: Descriptor where
  "demo_data_desc = \<lparr>d_MediaType = MediaTypeData, d_Digest = ''sha256:'' @ hex_encode (demo_hash demo_blob), d_Size = 6\<rparr>"

definition demo_manifest :: Manifest where
  "demo_manifest = buildManifest (demo_reg :: unit reg_env) demo_config_desc (push_index (demo_reg :: unit reg_env) demo_archive) demo_data_desc []"

definition demo_oras :: "mem_net oras_world oci_client" where
  "demo_oras = oras_client (mem_remote (\<lambda>n. n) (\<lambda>f. f) demo_manifest) demo_digest (fst (oras_New []))"

definition demo_world :: "mem_net oras_world" where
  "demo_world = \<lparr>ow_cache = None, ow_now = 0, ow_net = \<lparr>me_blobs = Map.empty, me_manifests = Map.empty, me_tags = Map.empty\<rparr>\<rparr>"

definition demo_pushed :: "mem_net oras_world" where
  "demo_pushed = snd (Push demo_reg (plain_client demo_oras) ''host/repo:latest'' demo_archive [WithTags [''v1'']] demo_world)"

section \<open>The authorization headers\<close>

text \<open>Sequences of calls of the header cache, and of the abstract cache; \<open>now\<close> is the time of a call.\<close>

datatype auth_call =
    GetCall string int
  | SetCall string string int
  | InvalidateCall string

fun auth_calls :: "auth_call list \<Rightarrow> authHeaderCache \<Rightarrow> string option list \<times> authHeaderCache" where
  "auth_calls [] c = ([], c)"
| "auth_calls (GetCall host now # calls) c =
     (case authCache_get host now c of (x, c) \<Rightarrow> (case auth_calls calls c of (xs, c) \<Rightarrow> (x # xs, c)))"
| "auth_calls (SetCall host val now # calls) c = auth_calls calls (authCache_set host val now c)"
| "auth_calls (InvalidateCall host # calls) c = auth_calls calls (authCache_invalidate host c)"

fun lru_calls :: "i64 \<Rightarrow> int \<Rightarrow> auth_call list \<Rightarrow> cachedAuthHeader list \<Rightarrow> string option list \<times> cachedAuthHeader list" where
  "lru_calls ttl n [] l = ([], l)"
| "lru_calls ttl n (GetCall host now # calls) l =
     (case lru_get host now l of (x, l) \<Rightarrow> (case lru_calls ttl n calls l of (xs, l) \<Rightarrow> (x # xs, l)))"
| "lru_calls ttl n (SetCall host val now # calls) l =
     lru_calls ttl n calls (lru_set n \<lparr>ah_host = host, ah_value = val, ah_expires = now + ttl\<rparr> l)"
| "lru_calls ttl n (InvalidateCall host # calls) l = lru_calls ttl n calls (lru_without host l)"

lemma calls_params:
  "ac_ttl (snd (authCache_get host now c)) = ac_ttl c" "ac_maxSize (snd (authCache_get host now c)) = ac_maxSize c"
  "ac_ttl (authCache_invalidate host c) = ac_ttl c" "ac_maxSize (authCache_invalidate host c) = ac_maxSize c"
  by (auto simp: authCache_get_def authCache_invalidate_def removeLocked_def moveToFront_def Let_def split: option.split)

lemma set_params:
  "cache_inv c \<Longrightarrow> ac_ttl (authCache_set host val now c) = ac_ttl c \<and> ac_maxSize (authCache_set host val now c) = ac_maxSize c"
  using evict_refines [of c] by (auto simp: authCache_set_def moveToFront_def Let_def split: option.split)

lemma calls_refine:
  "cache_inv c \<Longrightarrow> auth_calls calls c = (xs, c') \<Longrightarrow>
   cache_inv c' \<and> ac_maxSize c' = ac_maxSize c \<and> lru_calls (ac_ttl c) (ac_maxSize c) calls (headers c) = (xs, headers c')"
proof (induction calls c arbitrary: xs c' rule: auth_calls.induct)
  case (2 host now calls c)
  obtain x c1 where g: "authCache_get host now c = (x, c1)" by (metis prod.exhaust)
  obtain ys c2 where r: "auth_calls calls c1 = (ys, c2)" by (metis prod.exhaust)
  from get_refines [OF "2.prems"(1) g] "2.IH" [OF g [symmetric], of ys c2] r "2.prems"(2) g
    calls_params(1,2) [of host now c] show ?case by auto
next
  case (3 host val now calls c)
  from set_refines [OF "3.prems"(1), of host val now] "3.IH" [of xs c'] "3.prems" set_params [OF "3.prems"(1), of host val now]
  show ?case by auto
next
  case (4 host calls c)
  from invalidate_refines [OF "4.prems"(1), of host] "4.IH" [of xs c'] "4.prems" calls_params(3,4) [of host c]
  show ?case by auto
qed simp

text \<open>C13. The header cache is a bounded least recently used cache with expiry: any sequence of \<^verbatim>\<open>get\<close>, \<^verbatim>\<open>set\<close> and
  \<^verbatim>\<open>invalidate\<close> on a new cache answers like the abstract cache, a list with the most recently used header first, of which
  \<^verbatim>\<open>set\<close> drops the tail when it is full; there are never more entries than the limit and never two for one host.\<close>

theorem auth_cache_refines_lru:
  assumes "newAuthHeaderCacheWithSize ttl n = Some c" "auth_calls calls c = (xs, c')"
  shows "lru_calls ttl (ac_maxSize c) calls [] = (xs, headers c') \<and> distinct (map ah_host (headers c')) \<and>
    int (length (headers c')) \<le> ac_maxSize c"
proof -
  have "cache_inv c" "headers c = []" "ac_ttl c = ttl"
    using new_inv [OF assms(1)] assms(1) by (auto simp: newAuthHeaderCacheWithSize_def split: if_splits)
  with calls_refine [OF _ assms(2)] show ?thesis using inv_distinct [of c'] by (auto simp: cache_inv_def headers_def)
qed

definition demo_calls :: "auth_call list" where
  "demo_calls = [SetCall ''a'' ''x'' 0, SetCall ''b'' ''y'' 1, GetCall ''a'' 2, SetCall ''c'' ''z'' 3, GetCall ''b'' 4, GetCall ''a'' 5, GetCall ''a'' 99]"

theorem auth_cache_refines_lru_witness:
  "\<exists>c c'. newAuthHeaderCacheWithSize 50 2 = Some c \<and> auth_calls demo_calls c = ([Some ''x'', None, Some ''x'', None], c') \<and>
     map ah_host (headers c') = [''c'']"
proof -
  obtain c where c: "newAuthHeaderCacheWithSize 50 2 = Some c" "ac_maxSize c = 2" by (simp add: newAuthHeaderCacheWithSize_def)
  obtain xs c' where r: "auth_calls demo_calls c = (xs, c')" by (metis prod.exhaust)
  have "lru_calls 50 2 demo_calls [] =
      ([Some ''x'', None, Some ''x'', None], [\<lparr>ah_host = ''c'', ah_value = ''z'', ah_expires = 53\<rparr>])" by code_simp
  then have "xs = [Some ''x'', None, Some ''x'', None]" "headers c' = [\<lparr>ah_host = ''c'', ah_value = ''z'', ah_expires = 53\<rparr>]"
    using auth_cache_refines_lru [OF c(1) r] c(2) by simp_all
  with c r show ?thesis by (intro exI [of _ c] exI [of _ c']) simp
qed

section \<open>The client\<close>

text \<open>C4. A manifest that \<^verbatim>\<open>Fetch\<close> returns is trustworthy, whatever the registry and the disk cache hold: it was decoded from bytes with
  the digest the client reports, it is an image manifest of the artifact type with just an index and a data layer, every configured
  policy accepted it under that digest, and a reference that names a digest gives the manifest with that digest.\<close>

theorem Fetch_trusted:
  assumes "Fetch E c ref opts w = (Inr bm, w')" "cl_oci c = oras_client R D o'" "re_digest E = D"
    and "cl_manifestCache c = None \<or> cl_manifestCache c = Some (disk_manifest_cache D (rm_unmarshal R) get put)"
  shows "\<exists>raw. dl_FromBytes D (dl_Algorithm D (bm_digest bm)) raw = bm_digest bm \<and> rm_unmarshal R raw = Some (bm_raw bm) \<and>
    m_MediaType (bm_raw bm) = MediaTypeImageManifest \<and> m_ArtifactType (bm_raw bm) = ArtifactType \<and>
    archive_layers (m_Layers (bm_raw bm)) (bm_indexDesc bm) (bm_dataDesc bm) \<and>
    (\<forall>policy\<in>set (cl_policies c). \<exists>w1 w2. policy (policy_request c ref (bm_digest bm) bm raw) w1 = (None, w2)) \<and>
    (\<forall>r. parseClientRef E ref = Inr r \<longrightarrow> isDigest (cr_reference r) \<longrightarrow> bm_digest bm = cr_reference r)"
proof -
  obtain skip where f: "fetch_with E c ref skip w = (Inr bm, w')" using assms(1) by (auto simp: Fetch_def Let_def)
  from assms(4) have "\<exists>raw w2 w3. dl_FromBytes D (dl_Algorithm D (bm_digest bm)) raw = bm_digest bm \<and> rm_unmarshal R raw = Some (bm_raw bm) \<and>
    parseBlobManifest E (bm_raw bm) (bm_digest bm) = Inr bm \<and> evaluatePolicies E c ref (bm_digest bm) bm raw w2 = (None, w3)"
    using oras.Fetch_verified [OF f assms(2)] oras_uncached.Fetch_verified [OF f assms(2)] by blast
  then obtain raw w2 w3 where raw: "dl_FromBytes D (dl_Algorithm D (bm_digest bm)) raw = bm_digest bm" "rm_unmarshal R raw = Some (bm_raw bm)"
    "parseBlobManifest E (bm_raw bm) (bm_digest bm) = Inr bm" "evaluatePolicies E c ref (bm_digest bm) bm raw w2 = (None, w3)" by blast
  have "\<forall>policy\<in>set (cl_policies c). \<exists>w1 w2. policy (policy_request c ref (bm_digest bm) bm raw) w1 = (None, w2)"
    using evaluatePolicies_accepts [OF raw(4)] by blast
  moreover have "bm_digest bm = cr_reference r" if "parseClientRef E ref = Inr r" "isDigest (cr_reference r)" for r
    using fetch_with_Inr [OF f] that by (metis (no_types, lifting) Inr_inject Pair_inject resolveDigest_def)
  ultimately show ?thesis using raw parseBlobManifest_indexed [OF raw(3)] by blast
qed

theorem Fetch_trusted_witness:
  "\<exists>bm raw. fst (Fetch demo_reg ((plain_client demo_oras)\<lparr>cl_policies := [\<lambda>req w. (None, w)]\<rparr>) ''host/repo:latest'' [] demo_pushed) = Inr bm \<and>
     dl_FromBytes demo_digest (dl_Algorithm demo_digest (bm_digest bm)) raw = bm_digest bm \<and>
     archive_layers (m_Layers (bm_raw bm)) (bm_indexDesc bm) (bm_dataDesc bm)"
proof -
  let ?c = "(plain_client demo_oras)\<lparr>cl_policies := [\<lambda>req w. (None, w)]\<rparr>"
  have "case fst (Fetch demo_reg ?c ''host/repo:latest'' [] demo_pushed) of Inr bm \<Rightarrow> True | Inl _ \<Rightarrow> False" by code_simp
  then obtain bm w' where f: "Fetch demo_reg ?c ''host/repo:latest'' [] demo_pushed = (Inr bm, w')"
    by (cases "Fetch demo_reg ?c ''host/repo:latest'' [] demo_pushed") (auto split: sum.splits)
  have "\<exists>raw. dl_FromBytes demo_digest (dl_Algorithm demo_digest (bm_digest bm)) raw = bm_digest bm \<and>
     archive_layers (m_Layers (bm_raw bm)) (bm_indexDesc bm) (bm_dataDesc bm)"
    using Fetch_trusted [OF f, of "mem_remote (\<lambda>n. n) (\<lambda>f. f) demo_manifest" demo_digest] by (auto simp: plain_client_def demo_oras_def demo_reg_def)
  with f show ?thesis by auto
qed

text \<open>C20. What \<^verbatim>\<open>Pull\<close> opens is verified and bounded: the index of the returned blob is parsed from bytes with the digest of the index
  layer of the fetched manifest, and these bytes, from the cache or from the registry, are never more than the configured limit.\<close>

theorem Pull_verified:
  assumes "Pull E as_source c ref opts w = (Inr b, w')"
    and "cfg = fold (\<lambda>opt cfg. opt cfg) opts
      \<lparr>pl_skipCache = False, pl_blobOpts = [], pl_maxIndexSize = defaultMaxIndexSize, pl_blockCache = None\<rparr>"
  shows "\<exists>bm idx src. fst (Fetch E c ref (fetch_opts (pl_skipCache cfg)) w) = Inr bm \<and>
    dl_FromBytes (re_digest E) (dl_Algorithm (re_digest E) (d_Digest (bm_indexDesc bm))) idx = d_Digest (bm_indexDesc bm) \<and>
    (0 < pl_maxIndexSize cfg \<longrightarrow> int (length idx) \<le> pl_maxIndexSize cfg) \<and>
    Blob_New (re_get_root E) idx src (pl_blobOpts cfg) = Inr b"
proof -
  note pull = assms(1) [unfolded Pull_def Let_def assms(2) [symmetric]]
  obtain x w1 where x: "Fetch E c ref (fetch_opts (pl_skipCache cfg)) w = (x, w1)" by (metis prod.exhaust)
  then obtain bm where bm: "x = Inr bm" using pull by (cases x) simp_all
  obtain y w2 where y: "fetchIndexBlob E c ref bm (pl_skipCache cfg) (pl_maxIndexSize cfg) w1 = (y, w2)" by (metis prod.exhaust)
  then obtain idx where idx: "y = Inr idx" using pull x bm by (cases y) simp_all
  obtain z w3 where z: "createDataSource E c ref bm w2 = (z, w3)" by (metis prod.exhaust)
  then obtain sc where sc: "z = Inr sc" using pull x bm y idx by (cases z) simp_all
  obtain src where "Blob_New (re_get_root E) idx src (pl_blobOpts cfg) = Inr b"
    using pull x bm y idx z sc by (cases sc) (auto simp: res_simps)
  with x bm fetchIndexBlob_Inr [OF y [unfolded idx]] show ?thesis by auto
qed

theorem Pull_verified_witness:
  "\<exists>b. fst (Pull demo_reg (\<lambda>s cl w. demo_source) (plain_client demo_oras) ''host/repo:latest'' [WithMaxIndexSize 2] demo_pushed) = Inr (b :: unit Blob) \<and>
     (\<exists>idx src. length idx \<le> 2 \<and> Blob_New (re_get_root (demo_reg :: unit reg_env)) idx src [] = Inr b)"
proof -
  let ?p = "Pull demo_reg (\<lambda>s cl w. demo_source) (plain_client demo_oras) ''host/repo:latest'' [WithMaxIndexSize 2] demo_pushed ::
      unit Blob res \<times> mem_net oras_world"
  have "case fst ?p of Inr b \<Rightarrow> True | Inl _ \<Rightarrow> False" by code_simp
  then obtain b w' where p: "?p = (Inr b, w')" by (cases ?p) (auto split: sum.splits)
  from Pull_verified [OF p refl] have "\<exists>idx src. length idx \<le> 2 \<and> Blob_New (re_get_root (demo_reg :: unit reg_env)) idx src [] = Inr b"
    by (auto simp: WithMaxIndexSize_def demo_reg_def)
  with p show ?thesis by auto
qed

lemma demo_digests_valid: "digests_valid demo_digest"
proof -
  have "isValidDigestFormat (''sha256:'' @ hex_encode (demo_hash d))" for d
  proof -
    have h: "hex_name (hex_encode (demo_hash d))" by (rule hex_encode_name) (simp add: demo_hash_def)
    have "list_all isValidAlgoChar ''sha256''" by code_simp
    moreover have "index_byte (''sha256:'' @ x) CHR '':'' = Some 6" for x by (simp add: index_byte_def)
    ultimately show ?thesis using h by (simp add: isValidDigestFormat_def hex_name_def Let_def)
  qed
  then show ?thesis by (simp add: digests_valid_def demo_digest_def)
qed

section \<open>The disk caches\<close>

text \<open>C30. A manifest is found again: in a file system without faults, when the entry is new and fits, a \<^verbatim>\<open>PutManifest\<close> that reports
  success makes \<^verbatim>\<open>GetManifest\<close> return the manifest with its bytes, and only bytes with the digest of the entry are stored.\<close>

theorem manifest_cache_roundtrip:
  assumes "room_for (ManifestCache_path c dgst) (c, s) (length raw)" "PutManifest D dgst raw (c, s) = (None, cs')" "unmarshal raw = Some m"
  shows "fst (GetManifest D unmarshal dgst cs') = Some (m, raw) \<and> dl_FromBytes D (dl_Algorithm D dgst) raw = dgst"
  using PutManifest_GetManifest [OF assms(1,2), of unmarshal m] assms(3) by (simp add: digestMatches_True)

definition demo_rfs :: fsys where
  "demo_rfs =
     \<lparr>fs_list = [(''refs/'' @ hex_encode (demo_hash (to_bytes ''x:t'')), \<lparr>n_content = to_bytes ''sha256:aa'', n_mode = 384, n_mtime = 0\<rparr>)],
      fs_dirs = (\<lambda>p. p = ''refs''), fs_faults = [], fs_rand = [''01'', ''02'', ''03''], fs_clock = 1\<rparr>"

definition demo_rdir :: DiskCache where
  "demo_rdir = \<lparr>dc_dir = ''refs'', dc_shardPrefixLen = 0, dc_dirPerm = 448, dc_maxBytes = 0, dc_bytes = 0\<rparr>"

theorem manifest_cache_roundtrip_witness:
  "fst (GetManifest demo_digest (\<lambda>d. Some (length d)) (dl_FromBytes demo_digest ''sha256'' [5, 6])
     (snd (PutManifest demo_digest (dl_FromBytes demo_digest ''sha256'' [5, 6]) [5, 6] (demo_rdir, demo_rfs)))) = Some (2, [5, 6])"
proof -
  let ?d = "dl_FromBytes demo_digest ''sha256'' [5, 6]"
  have "fst (PutManifest demo_digest ?d [5, 6] (demo_rdir, demo_rfs)) = None" by code_simp
  then have p: "PutManifest demo_digest ?d [5, 6] (demo_rdir, demo_rfs) = (None, snd (PutManifest demo_digest ?d [5, 6] (demo_rdir, demo_rfs)))"
    by (simp add: prod_eq_iff)
  have "case ManifestCache_path demo_rdir ?d of Inr p \<Rightarrow> \<not> fs_exists demo_rfs (join_path ''refs'' p) | Inl e \<Rightarrow> False" by code_simp
  then have "room_for (ManifestCache_path demo_rdir ?d) (demo_rdir, demo_rfs) (length [5, 6 :: u8])"
    by (auto simp: room_for_def demo_rfs_def demo_rdir_def fits_def is_dir_def split: sum.splits)
  from manifest_cache_roundtrip [OF this p, of "\<lambda>d. Some (length d)" 2] show ?thesis by simp
qed

text \<open>C39. Skipping the cache does not refresh it: \<^verbatim>\<open>PutDigest\<close> leaves an existing entry alone, so when a tag has moved, a resolution that
  skips the cache returns the new digest but the next one that does not returns the old digest, for ever when the cache has no
  time-to-live.\<close>

theorem skip_cache_keeps_stale_ref:
  assumes "cl_refCache c = Some (disk_ref_cache sha256 get put)" "\<forall>cs w. get (put cs w) = cs" "get w = (rc, s)"
    and "fs_faults s = []" "is_dir s (dc_dir (rf_disk rc))" "rf_ttl rc = 0" "isValidDigestFormat old" "\<not> isDigest tag"
    and "fs_content s (join_path (dc_dir (rf_disk rc)) (RefCache_path sha256 rc ref)) = Some (to_bytes old)"
    and "oci_Resolve (cl_oci c) ref tag w = (Inr desc, w1)" "get w1 = get w"
  shows "\<exists>w2. resolveDigest c ref tag True w = (Inr (d_Digest desc), w2) \<and> fst (resolveDigest c ref tag False w2) = Inr old"
proof -
  let ?p = "join_path (dc_dir (rf_disk rc)) (RefCache_path sha256 rc ref)"
  obtain n where n: "fs_files s ?p = Some n" "n_content n = to_bytes old" using assms(9) by (auto simp: fs_content_def)
  then have "PutDigest sha256 ref (d_Digest desc) (rc, s) = (None, (rc, s))"
    using PutDigest_present [OF assms(4,5), of sha256 ref] by (simp add: fs_exists_def)
  then have r: "resolveDigest c ref tag True w = (Inr (d_Digest desc), put (rc, s) w1)"
    using assms(1,3,8,10,11) by (simp add: resolveDigest_def disk_ref_cache_def in_state_def)
  have "fst (GetDigest sha256 ref (rc, s)) = Some old"
    using assms(4,5,6,7) n by (simp add: GetDigest_def read_digest_def os_OpenRoot_def os_ReadFile_def guarded_def Let_def)
  then have "fst (resolveDigest c ref tag False (put (rc, s) w1)) = Inr old"
    using assms(1,2,8) by (auto simp: resolveDigest_def disk_ref_cache_def in_state_def split: prod.splits)
  with r show ?thesis by blast
qed

definition demo_ref_client :: "(RefCache \<times> fsys) Client" where
  "demo_ref_client =
     (let oci = \<lparr>oci_PushBlob = (\<lambda>_ _ _ w. (None, w)), oci_FetchBlob = (\<lambda>_ _ w. (Inl demo_missing, w)),
            oci_PushManifest = (\<lambda>_ _ _ w. (Inl demo_missing, w)), oci_FetchManifest = (\<lambda>_ _ w. (Inl demo_missing, w)),
            oci_Resolve = (\<lambda>_ _ w. (Inr \<lparr>d_MediaType = MediaTypeImageManifest, d_Digest = ''sha256:bb'', d_Size = 1\<rparr>, w)),
            oci_Tag = (\<lambda>_ _ _ w. (None, w)), oci_PushManifestByDigest = (\<lambda>_ _ w. (Inl demo_missing, w)),
            oci_BlobURL = (\<lambda>_ _. Inl demo_missing), oci_AuthHeaders = (\<lambda>_ w. (Inr [], w)), oci_InvalidateAuthHeaders = (\<lambda>_ w. (None, w)),
            oci_AuthClient = None, oci_Referrers = None\<rparr>
      in (plain_client oci)\<lparr>cl_refCache := Some (disk_ref_cache demo_hash (\<lambda>w. w) (\<lambda>cs w. cs))\<rparr>)"

theorem skip_cache_keeps_stale_ref_witness:
  "\<exists>w2. resolveDigest demo_ref_client ''x:t'' ''t'' True (\<lparr>rf_disk = demo_rdir, rf_ttl = 0\<rparr>, demo_rfs) = (Inr ''sha256:bb'', w2) \<and>
     fst (resolveDigest demo_ref_client ''x:t'' ''t'' False w2) = Inr ''sha256:aa''"
proof -
  let ?rc = "\<lparr>rf_disk = demo_rdir, rf_ttl = 0\<rparr>" and ?d = "\<lparr>d_MediaType = MediaTypeImageManifest, d_Digest = ''sha256:bb'', d_Size = 1\<rparr>"
  have "isValidDigestFormat ''sha256:aa''" by code_simp
  moreover have "\<not> isDigest ''t''" by code_simp
  moreover have "fs_content demo_rfs (join_path (dc_dir demo_rdir) (RefCache_path demo_hash ?rc ''x:t'')) = Some (to_bytes ''sha256:aa'')" by code_simp
  moreover have "fs_faults demo_rfs = []" "is_dir demo_rfs (dc_dir demo_rdir)" by (simp_all add: demo_rfs_def is_dir_def demo_rdir_def)
  ultimately show ?thesis
    using skip_cache_keeps_stale_ref [of demo_ref_client demo_hash "\<lambda>w. w" "\<lambda>cs w. cs" "(?rc, demo_rfs)" ?rc demo_rfs "''sha256:aa''" "''t''"
        "''x:t''" ?d "(?rc, demo_rfs)"]
    by (simp add: demo_ref_client_def plain_client_def)
qed

end
