(* ===== verification/PolicyProperties.thy ===== *)
theory PolicyProperties
  imports PolicyOpa PolicyGittuf PolicySigstore
begin

text \<open>
  The properties of the policies: what it means that a policy accepts a manifest, with small attestations as concrete inputs.
\<close>

section \<open>Concrete inputs\<close>

text \<open>
  Attestations are plain envelopes around their bytes, statements have the SLSA predicate type and the bytes as predicate, and
  the predicate of \<open>[k]\<close> names the repository, the workflow and the branch of a build.
\<close>

definition demo_predicate :: "string \<Rightarrow> json_map" where
  "demo_predicate repo =
     [(''buildDefinition'', JObj [(''externalParameters'', JObj [(''workflow'', JObj
        [(''repository'', JStr repo), (''ref'', JStr ''refs/heads/main''), (''path'', JStr ''ci.yml'')])])])]"

definition demo_json :: json_lib where
  "demo_json =
     \<lparr>js_bundle = (\<lambda>_. None), js_envelope = (\<lambda>d. Some \<lparr>en_PayloadType = DSSEPayloadType, en_Payload = of_bytes d\<rparr>),
      js_statement = (\<lambda>d. Some \<lparr>st_Type = [], st_PredicateType = SLSAv1, st_Subject = [], st_Predicate = Some d\<rparr>),
      js_map = (\<lambda>d. Some (demo_predicate (''https://github.com/o/'' @ (if d = [1] then ''r'' else ''other'')))),
      js_manifest = (\<lambda>_. None), js_base64 = (\<lambda>s. Some (to_bytes s))\<rparr>"

definition demo_desc :: Descriptor where
  "demo_desc = \<lparr>d_MediaType = MediaTypeImageManifest, d_Digest = ''sha256:aa'', d_Size = 3\<rparr>"

definition demo_request :: "bytes \<Rightarrow> unit PolicyRequest" where
  "demo_request d =
     \<lparr>pr_Ref = ''x:t'', pr_Digest = ''sha256:aa'',
      pr_Manifest = \<lparr>bm_raw = \<lparr>m_SchemaVersion = 2, m_MediaType = MediaTypeImageManifest, m_ArtifactType = ArtifactType, m_Config = demo_desc,
          m_Layers = [], m_Subject = None, m_Annotations = []\<rparr>,
        bm_digest = ''sha256:aa'', bm_indexDesc = demo_desc, bm_dataDesc = demo_desc, bm_created = None\<rparr>,
      pr_Subject = demo_desc,
      pr_Client = \<lparr>pc_Referrers = (\<lambda>_ _ _ w. (Inr [demo_desc], w)), pc_FetchDescriptor = (\<lambda>_ _ w. (Inr d, w))\<rparr>\<rparr>"

section \<open>SLSA\<close>

text \<open>C17. The policy of a GitHub Actions workflow accepts a manifest only for a provenance that the client fetched in this evaluation, from a
  referrer that it listed for the manifest's descriptor under an artifact type of the policy or from a layer of such a referrer. The
  source repository of the provenance starts with the configured one, its workflow is the configured one and its reference is a branch that
  matches one of the patterns, where a star does not cross a slash.\<close>

theorem GitHubActionsWorkflow_sound:
  assumes "GitHubActionsWorkflow repo [GHWorkflow (WithWorkflowPath path), GHWorkflow (WithWorkflowBranches branches)] = Inr p"
    and "path \<noteq> []" "branches \<noteq> []" "Slsa_Evaluate J p req w = (None, w')"
  shows "\<exists>prov. attested J (set (sp_artifactTypes p)) req w prov \<and> prefix (''https://github.com/'' @ repo) (pv_SourceRepo prov) \<and> pv_WorkflowPath prov = path \<and>
    (\<exists>branch\<in>set branches. glob_match (''refs/heads/'' @ branch) (pv_SourceRef prov) \<and>
       count_list (pv_SourceRef prov) slash = 2 + count_list branch slash)"
proof -
  let ?cfg = "\<lparr>gh_repo = repo, gh_workflowPath = path, gh_refPatterns = map branch_pattern branches\<rparr>"
  have "sp_validators p = [github_validator ?cfg]"
    using assms(1) by (auto simp: GitHubActionsWorkflow_def Slsa_NewPolicy_def add_validator_def mapErr_def WithWorkflowPath_def
        WithWorkflowBranches_def split: if_splits)
  with Slsa_Evaluate_None [OF assms(4)] obtain prov where prov: "attested J (set (sp_artifactTypes p)) req w prov" "github_validator ?cfg prov = None" by auto
  then have v: "prefix (''https://github.com/'' @ repo) (pv_SourceRepo prov)" "pv_WorkflowPath prov = path"
    "patterns_check (map branch_pattern branches) prov = None"
    using assms(2) unfolding github_validator_def Let_def by (auto simp: has_prefix_iff split: if_splits)
  then obtain branch where b: "branch \<in> set branches" "glob_match (''refs/heads/'' @ branch) (pv_SourceRef prov)"
    using assms(3) by (auto simp: patterns_check_None branch_pattern_def)
  have "count_list (pv_SourceRef prov) slash = 2 + count_list branch slash" using glob_match_slashes [OF b(2)] by simp
  with prov(1) v(1,2) b show ?thesis by blast
qed

theorem GitHubActionsWorkflow_sound_witness:
  "\<exists>p prov. GitHubActionsWorkflow ''o/r'' [GHWorkflow (WithWorkflowPath ''ci.yml''), GHWorkflow (WithWorkflowBranches [''ma*''])] = Inr p \<and>
     fst (Slsa_Evaluate demo_json p (demo_request [1]) ()) = None \<and> attested demo_json (set (sp_artifactTypes p)) (demo_request [1]) () prov \<and> pv_WorkflowPath prov = ''ci.yml''"
proof -
  let ?p = "GitHubActionsWorkflow ''o/r'' [GHWorkflow (WithWorkflowPath ''ci.yml''), GHWorkflow (WithWorkflowBranches [''ma*''])]"
  have c: "case ?p of Inr p \<Rightarrow> fst (Slsa_Evaluate demo_json p (demo_request [1]) ()) = None | Inl _ \<Rightarrow> False" by code_simp
  then obtain p where p: "?p = Inr p" by (auto split: sum.splits)
  with c have e: "Slsa_Evaluate demo_json p (demo_request [1]) () = (None, ())" by (simp add: prod_eq_iff)
  from GitHubActionsWorkflow_sound [OF p _ _ e] p e show ?thesis by fastforce
qed

text \<open>The comparison of repositories is one of prefixes: any repository whose name extends the configured one is accepted too.\<close>

theorem slsa_prefix_accepts_other_repository:
  "source_validator \<lparr>sc_repo = repo, sc_ref = [], sc_refPatterns = []\<rparr> (prov\<lparr>pv_SourceRepo := repo @ rest\<rparr>) = None"
  by (simp add: source_validator_None)

section \<open>OPA\<close>

text \<open>C15. The OPA policy accepts a manifest just when it has attestations, the first value of the query on them is an object, its \<^verbatim>\<open>allow\<close> is
  the boolean true and its \<^verbatim>\<open>deny\<close> is not a non-empty list; all attestations in the input were fetched for the request and have an
  accepted predicate type. A \<^verbatim>\<open>deny\<close> that is not a list (a string, true, an object) does not deny.\<close>

theorem Opa_decision:
  "fst (Opa_Evaluate J p query req w) = None \<longleftrightarrow>
   (\<exists>refs w1 atts w2 result vals rs.
      pc_Referrers (pr_Client req) (pr_Ref req) (pr_Subject req) (op_artifactType p) w = (Inr refs, w1) \<and>
      fetchAttestations J p req refs w1 = (atts, w2) \<and> atts \<noteq> [] \<and>
      (\<forall>att\<in>set atts. opa_fetched J req att \<and> matchesPredicateType att (op_predicateTypes p)) \<and>
      query (opa_request req atts) = Inr ((JObj result # vals) # rs) \<and> map_of result ''allow'' = Some (JBool True) \<and>
      (\<forall>d ds. map_of result ''deny'' \<noteq> Some (JArr (d # ds))))"
proof -
  obtain x w1 where x: "pc_Referrers (pr_Client req) (pr_Ref req) (pr_Subject req) (op_artifactType p) w = (x, w1)" by (metis prod.exhaust)
  show ?thesis
  proof (cases x)
    case (Inl e)
    then show ?thesis using x by (simp add: Opa_Evaluate_def)
  next
    case (Inr refs)
    obtain atts w2 where a: "fetchAttestations J p req refs w1 = (atts, w2)" by (metis prod.exhaust)
    with fetchAttestations_attested [OF a] x Inr show ?thesis
      by (auto simp: Opa_Evaluate_def evaluatePolicy_None checkPolicyResult_None)
  qed
qed

theorem Opa_decision_witness:
  "\<exists>atts. fetchAttestations demo_json \<lparr>op_query = None, op_artifactType = [], op_predicateTypes = [SLSAv1]\<rparr> (demo_request [1]) [demo_desc] () = (atts, ()) \<and>
     atts \<noteq> [] \<and> (\<forall>att\<in>set atts. opa_fetched demo_json (demo_request [1]) att)"
proof -
  let ?p = "\<lparr>op_query = None, op_artifactType = [], op_predicateTypes = [SLSAv1]\<rparr>"
  let ?q = "\<lambda>_. Inr [[JObj [(''allow'', JBool True), (''deny'', JStr ''no'')]]] :: json list list res"
  have "fst (Opa_Evaluate demo_json ?p ?q (demo_request [1]) ()) = None" by code_simp
  with Opa_decision [of demo_json ?p ?q "demo_request [1]" "()"] show ?thesis by (auto simp: demo_request_def)
qed

section \<open>gittuf\<close>

text \<open>C19. Without the options that tolerate missing data, the gittuf policy accepts only after gittuf has verified, in the configured
  repository, the overriding reference or the reference of a provenance of the manifest, and that reference is not empty.\<close>

theorem Gittuf_Evaluate_sound:
  assumes "Gittuf_Evaluate J G p req w = (None, w')" "\<not> gp_allowMissingGittuf p" "\<not> gp_allowMissingProvenance p"
  shows "\<exists>info w1 repo w2 w3 ref. extractSourceInfo J req w = (Inr info, w1) \<and> gt_Get G (gp_cache p) (gp_repoURL p) w1 = (Inr repo, w2) \<and>
    ref = (if gp_overrideRef p \<noteq> [] then gp_overrideRef p else si_Ref info) \<and> ref \<noteq> [] \<and>
    gt_VerifyRef G repo ref (gp_latestOnly p) w3 = (None, w')"
proof -
  obtain x w1 where x: "extractSourceInfo J req w = (x, w1)" by (metis prod.exhaust)
  then obtain info where info: "x = Inr info" using assms by (cases x) (auto simp: Gittuf_Evaluate_def)
  obtain y w2 where y: "gt_Get G (gp_cache p) (gp_repoURL p) w1 = (y, w2)" by (metis prod.exhaust)
  then obtain repo where repo: "y = Inr repo" using assms x info by (cases y) (auto simp: Gittuf_Evaluate_def)
  have "verify_source G p info repo w2 = (None, w')" using assms(1) x info y repo by (simp add: Gittuf_Evaluate_def)
  from verify_source_None [OF this assms(2)] x info y repo show ?thesis by auto
qed

definition demo_gittuf :: "(unit, unit) gittuf_lib" where
  "demo_gittuf =
     \<lparr>gt_Get = (\<lambda>_ _ w. (Inr (), w)), gt_HasPolicy = (\<lambda>_ w. (Inr True, w)), gt_PullRSL = (\<lambda>_ _ w. (None, w)),
      gt_VerifyRef = (\<lambda>_ ref _ w. (if ref = ''refs/heads/main'' then None else Some (ErrNew ''bad''), w))\<rparr>"

definition demo_gittuf_policy :: gittuf_policy where
  "demo_gittuf_policy =
     \<lparr>gp_repoURL = ''https://github.com/o/r'', gp_cache = DefaultCache (Inr ''/home/u'') ''/tmp'', gp_latestOnly = True, gp_overrideRef = [], gp_allowMissingGittuf = False, gp_allowMissingProvenance = False\<rparr>"

theorem Gittuf_Evaluate_sound_witness:
  "\<exists>info w1. extractSourceInfo demo_json (demo_request [1]) () = (Inr info, w1) \<and> si_Ref info \<noteq> []"
proof -
  have "Gittuf_Evaluate demo_json demo_gittuf demo_gittuf_policy (demo_request [1]) () = (None, ())" by code_simp
  from Gittuf_Evaluate_sound [OF this] show ?thesis by (auto simp: demo_gittuf_policy_def)
qed

text \<open>The repository and the commit of the provenance play no role: a build of another repository is accepted like one of the configured.\<close>

theorem gittuf_ignores_source_repository:
  assumes "extractSourceInfo J req w = (Inr info, w1)" "extractSourceInfo J req' w = (Inr info', w1)" "si_Ref info = si_Ref info'"
  shows "Gittuf_Evaluate J G p req w = Gittuf_Evaluate J G p req' w"
  using assms verify_source_ref_only [OF assms(3), of G p] by (simp add: Gittuf_Evaluate_def split: prod.splits sum.splits)

section \<open>Sigstore\<close>

text \<open>C18. The Sigstore policy accepts a manifest only when the registry lists signatures for it and the library has verified a bundle, under
  the trusted root and the configured identity, against the bytes that the client fetched for the manifest's descriptor; the bundle is
  parsed from the bytes that the client fetched for one of the listed signatures or for a layer of it.\<close>

theorem Sigstore_Evaluate_sound:
  assumes "Sigstore_Evaluate unmarshal S tr identity req w = (None, w')"
  shows "\<exists>refs w1 payload w2. pc_Referrers (pr_Client req) (pr_Ref req) (pr_Subject req) SigstoreBundleArtifactType w = (Inr refs, w1) \<and>
    pc_FetchDescriptor (pr_Client req) (pr_Ref req) (pr_Subject req) w1 = (Inr payload, w2) \<and>
    (\<exists>ref\<in>set refs. \<exists>w3 d w4 data bundle. client_run req w2 w3 \<and> pc_FetchDescriptor (pr_Client req) (pr_Ref req) ref w3 = (Inr d, w4) \<and>
       carried (sigstore_layers unmarshal) req d w4 data \<and> sg_UnmarshalBundle S data = Inr bundle \<and> sg_NewVerifier S tr = None \<and>
       sg_Verify S tr identity bundle payload = None)"
proof -
  obtain x w1 where x: "pc_Referrers (pr_Client req) (pr_Ref req) (pr_Subject req) SigstoreBundleArtifactType w = (x, w1)" by (metis prod.exhaust)
  then obtain refs where refs: "x = Inr refs" "refs \<noteq> []" using assms by (cases x) (auto simp: Sigstore_Evaluate_def split: if_splits)
  obtain y w2 where y: "pc_FetchDescriptor (pr_Client req) (pr_Ref req) (pr_Subject req) w1 = (y, w2)" by (metis prod.exhaust)
  then obtain payload where p: "y = Inr payload" using assms x refs by (cases y) (auto simp: Sigstore_Evaluate_def)
  have "verify_referrers unmarshal S tr identity req payload refs None w2 = (None, w')"
    using assms x refs y p by (simp add: Sigstore_Evaluate_def)
  from verify_referrers_None [OF this] x refs y p show ?thesis unfolding verifyBundle_None by blast
qed

text \<open>A signature is a referrer with a descriptor of its own; its bytes are the signed bytes after a nine.\<close>

definition demo_signature :: Descriptor where
  "demo_signature = \<lparr>d_MediaType = SigstoreBundleArtifactType, d_Digest = ''sha256:bb'', d_Size = 2\<rparr>"

definition demo_signed_request :: "unit PolicyRequest" where
  "demo_signed_request = (demo_request [7])\<lparr>pr_Client :=
     \<lparr>pc_Referrers = (\<lambda>_ desc _ w. (Inr (if desc = demo_desc then [demo_signature] else []), w)),
      pc_FetchDescriptor = (\<lambda>_ desc w. (Inr (if desc = demo_desc then [7] else [9, 7]), w))\<rparr>\<rparr>"

definition demo_sigstore :: "(unit, bytes) sigstore_lib" where
  "demo_sigstore =
     \<lparr>sg_FetchTrustedRoot = Inr (), sg_TrustedRootFromPath = (\<lambda>_. Inr ()), sg_UnmarshalBundle = (\<lambda>d. Inr d), sg_NewVerifier = (\<lambda>_. None),
      sg_Verify = (\<lambda>_ _ b d. if b = 9 # d then None else Some (ErrNew ''bad'')), sg_NewIdentity = (\<lambda>_. None)\<rparr>"

theorem Sigstore_Evaluate_sound_witness:
  "fst (Sigstore_Evaluate (\<lambda>_. None) demo_sigstore () None demo_signed_request ()) = None \<and>
   (\<exists>data bundle. carried (sigstore_layers (\<lambda>_. None)) demo_signed_request [9, 7] () data \<and>
      sg_UnmarshalBundle demo_sigstore data = Inr bundle \<and> sg_Verify demo_sigstore () None bundle [7] = None)"
proof -
  have e: "Sigstore_Evaluate (\<lambda>_. None) demo_sigstore () None demo_signed_request () = (None, ())" by code_simp
  have "demo_signature \<noteq> demo_desc" by code_simp
  with Sigstore_Evaluate_sound [OF e] e show ?thesis by (auto simp: demo_signed_request_def demo_request_def)
qed

text \<open>The signed bytes are fetched anew and never compared with the digest of the manifest: when the registry answers that request with
  bytes that were signed, the policy accepts every manifest.\<close>

theorem sigstore_payload_unchecked:
  assumes "pc_Referrers (pr_Client req) (pr_Ref req) (pr_Subject req) SigstoreBundleArtifactType w = (Inr (ref # refs), w1)"
    and "pc_FetchDescriptor (pr_Client req) (pr_Ref req) (pr_Subject req) w1 = (Inr payload, w2)"
    and "pc_FetchDescriptor (pr_Client req) (pr_Ref req) ref w2 = (Inr bundleData, w3)" "unmarshal bundleData = None"
    and "verifyBundle S tr identity bundleData payload = None"
  shows "Sigstore_Evaluate unmarshal S tr identity (req\<lparr>pr_Digest := dgst, pr_Manifest := bm\<rparr>) w = (None, w3)"
  using assms by (simp add: Sigstore_Evaluate_def verifyBundleData_def parseOCIArtifactLayers_def)

end
