(* ===== verification/ClientProperties.thy ===== *)
theory ClientProperties
  imports BlobClient RegistryProperties ArchiveProperties HttpProperties
begin

text \<open>
  The properties of the client at the root of the repository, which span archive creation, the registry client, the ORAS client and
  the disk caches; instantiated on the registry in memory and the small tree.
\<close>

section \<open>From a directory to its inspection\<close>

lemma index_entries:
  "idx_root idx = buildIndex entries n h \<Longrightarrow> laid_out sha256 Z opts 0 entries fs d \<Longrightarrow>
   map (\<lambda>e. (fb_path e, fb_hash e, fb_original_size e)) (EntriesView idx) =
     map (\<lambda>(p, fi, content). (p, sha256 content, of_nat (length content))) fs"
  using laid_out_meta [of sha256 Z opts 0 entries fs d]
  by (simp add: EntriesView_def buildIndex_def fb_of_Entry_def comp_def)

lemma Load_decodes: "index_decodes encode get_root ix \<Longrightarrow> fb_version ix = 1 \<Longrightarrow> Load get_root (encode ix) = Inr \<lparr>idx_data = encode ix, idx_root = ix\<rparr>"
  by (simp add: Load_def index_decodes_def)

lemma Blob_New_mem:
  assumes "Load get_root d = Inr ix"
  obtains b :: "'c Blob" where "Blob_New get_root d src [] = Inr b" "b_idx b = ix" "b_indexData b = d" "r_source (b_reader b) = src"
  using assms that by (auto simp: Blob_New_def NewReader_def WithMaxFileSize_def WithMaxDecoderMemory_def Let_def)

lemma buildRegistry_plain:
  assumes "bc_refCache c = None" "bc_manifestCache c = None" "bc_indexCache c = None" "bc_policies c = []"
  shows "Registry_New R D (buildRegistryOpts c) v =
    (plain_client (oras_client R D (fst (oras_New (bc_orasOpts c)))), v\<lparr>ow_cache := snd (oras_New (bc_orasOpts c))\<rparr>)"
  using assms by (simp add: Registry_New_client plain_client_def)

text \<open>\<^verbatim>\<open>Client.Push\<close> creates the archive in memory and pushes it with the registry client.\<close>

lemma BlobClient_Push_archive:
  fixes E :: "'m world reg_env"
  assumes push: "BlobClient_Push E R sha256 z_Encode encode ctx (Inr root) c ref opts w = (None, w')"
    and copts: "copts = bh_createOpts (fold (\<lambda>opt cfg. opt cfg) opts \<lparr>bh_tags = [], bh_annotations = None, bh_createOpts = []\<rparr>)"
    and created: "Create_archive sha256 z_Encode encode ctx (Inr root) copts no_writer no_writer = (None, ib, db)"
    and load: "Load (re_get_root E) (w_out ib) = Inr \<lparr>idx_data = w_out ib, idx_root = buildIndex entries n (sha256 (w_out db))\<rparr>"
    and plain: "bc_refCache c = None" "bc_manifestCache c = None" "bc_indexCache c = None" "bc_policies c = []"
    and digests: "from_bytes E (w_out ib) \<noteq> ''sha256:'' @ hex_encode (sha256 (w_out db))"
  obtains b :: "unit Blob" and popts where
    "Push E (plain_client (oras_client R (re_digest E) (fst (oras_New (bc_orasOpts c))))) ref b popts (w\<lparr>ow_cache := snd (oras_New (bc_orasOpts c))\<rparr>) = (None, w')"
    "Blob_IndexData b = w_out ib" "r_source (b_reader b) = memSource (w_out db)"
    "\<forall>h. Blob_DataHash b = Some h \<longrightarrow> from_bytes E (Blob_IndexData b) \<noteq> ''sha256:'' @ hex_encode h"
proof -
  obtain b :: "unit Blob" where b: "Blob_New (re_get_root E) (w_out ib) (memSource (w_out db)) [] = Inr b"
    "b_idx b = \<lparr>idx_data = w_out ib, idx_root = buildIndex entries n (sha256 (w_out db))\<rparr>" "b_indexData b = w_out ib"
    "r_source (b_reader b) = memSource (w_out db)"
    using Blob_New_mem [OF load] .
  obtain popts where p: "Push E (plain_client (oras_client R (re_digest E) (fst (oras_New (bc_orasOpts c))))) ref b popts
      (w\<lparr>ow_cache := snd (oras_New (bc_orasOpts c))\<rparr>) = (None, w')"
    using push copts created b(1) by (auto simp: BlobClient_Push_def pushArchive_def buildRegistry_plain [OF plain] no_writer_def Let_def)
  have "\<forall>h. Blob_DataHash b = Some h \<longrightarrow> from_bytes E (Blob_IndexData b) \<noteq> ''sha256:'' @ hex_encode h"
    using digests b(2,3) by (simp add: Blob_DataHash_def DataHash_def Blob_IndexData_def buildIndex_def split: if_splits)
  with that [OF p] b(3,4) show ?thesis by (simp add: Blob_IndexData_def)
qed

text \<open>C7. A directory that was pushed can be inspected: when \<^verbatim>\<open>Client.Push\<close> of a directory reports success, over a registry that keeps what
  it is given, \<^verbatim>\<open>Client.Inspect\<close> of the same reference returns an index that lists the files of the directory, in the order of the walk,
  each with its path, the hash of its content and its size. The client has no policies and no cache of references, manifests or
  indexes (a cached reference may name an older manifest), the index is within the default limit of its size, and its digest differs
  from that of the data.\<close>

theorem Push_Inspect_roundtrip:
  fixes E :: "'m world reg_env"
  assumes push: "BlobClient_Push E R sha256 z_Encode encode ctx (Inr root) c ref opts w = (None, w')"
    and copts: "copts = bh_createOpts (fold (\<lambda>opt cfg. opt cfg) opts \<lparr>bh_tags = [], bh_annotations = None, bh_createOpts = []\<rparr>)"
    and created: "Create_archive sha256 z_Encode encode ctx (Inr root) copts no_writer no_writer = (None, ib, db)"
    and env: "create_env Z zopts limit z_Encode ctx root copts no_writer no_writer" "length (w_out db) < 2 ^ 64"
    and index: "\<forall>entries n. writeData sha256 z_Encode (create_config copts) ctx root no_writer = (Inr (entries, n), db) \<longrightarrow>
      index_decodes encode (re_get_root E) (buildIndex entries n (sha256 (w_out db)))"
    and plain: "bc_refCache c = None" "bc_manifestCache c = None" "bc_indexCache c = None" "bc_policies c = []"
    and registry: "registry_keeps R V" "registry_serves R V" "\<forall>m j. rm_marshal R m = Inr j \<longrightarrow> rm_unmarshal R j = Some m"
    and digests: "digests_valid (re_digest E)" "from_bytes E (w_out ib) \<noteq> ''sha256:'' @ hex_encode (sha256 (w_out db))"
    and bound: "int (length (w_out ib)) \<le> defaultMaxIndexSize"
  shows "\<exists>r w''. BlobClient_Inspect E R c ref [] w' = (Inr r, w'') \<and>
    map (\<lambda>e. (fb_path e, fb_hash e, fb_original_size e)) (EntriesView (iv_idx (bi_index r))) =
      map (\<lambda>(p, fi, content). (p, sha256 content, of_nat (length content))) (tree_files (cr_strict (create_config copts)) root)"
proof -
  obtain entries where e: "writeData sha256 z_Encode (create_config copts) ctx root no_writer = (Inr (entries, of_nat (length (w_out db))), db)"
    "laid_out sha256 Z zopts 0 entries (tree_files (cr_strict (create_config copts)) root) (w_out db)"
    "w_out ib = encode (buildIndex entries (of_nat (length (w_out db))) (sha256 (w_out db)))"
    using create_layout [OF created env] .
  let ?ix = "buildIndex entries (of_nat (length (w_out db))) (sha256 (w_out db))"
  have load: "Load (re_get_root E) (w_out ib) = Inr \<lparr>idx_data = w_out ib, idx_root = ?ix\<rparr>"
    using Load_decodes [of encode "re_get_root E" ?ix] index e(1,3) by (simp add: buildIndex_def)
  let ?o = "fst (oras_New (bc_orasOpts c))" and ?reset = "\<lambda>w :: 'm world. w\<lparr>ow_cache := snd (oras_New (bc_orasOpts c))\<rparr>"
  obtain b :: "unit Blob" and popts where b: "Push E (plain_client (oras_client R (re_digest E) ?o)) ref b popts (?reset w) = (None, w')"
    "Blob_IndexData b = w_out ib" "\<forall>h. Blob_DataHash b = Some h \<longrightarrow> from_bytes E (Blob_IndexData b) \<noteq> ''sha256:'' @ hex_encode h"
    by (rule BlobClient_Push_archive [OF push copts created load plain digests(2)])
  note client = buildRegistry_plain [OF plain]
  from Push_Inspect [OF b(1) refl registry(1,2) digests(1) registry(3) b(3), of "?reset w'"] bound b(2) obtain bm w'' where
    "Client_Inspect E (plain_client (oras_client R (re_digest E) ?o)) ref [] (?reset w') = (Inr \<lparr>ir_Manifest = bm, ir_IndexData = w_out ib\<rparr>, w'')"
    by auto
  then have "BlobClient_Inspect E R c ref [] w' =
      (Inr \<lparr>bi_manifest = bm, bi_index = \<lparr>iv_idx = \<lparr>idx_data = w_out ib, idx_root = ?ix\<rparr>, iv_indexData = w_out ib\<rparr>, bi_client = c, bi_ref = ref\<rparr>, w'')"
    by (simp add: BlobClient_Inspect_def client inspect_opts_def NewIndexView_def load)
  with index_entries [OF _ e(2), of "\<lparr>idx_data = w_out ib, idx_root = ?ix\<rparr>"] show ?thesis by auto
qed

text \<open>C6. What is pushed can be pulled and read: when \<^verbatim>\<open>Client.Push\<close> of a directory reports success, \<^verbatim>\<open>Client.Pull\<close> of the same
  reference opens a blob over HTTP, and \<^verbatim>\<open>ReadFile\<close> of it, through the requests of the HTTP source, returns the content of every file
  of the directory. The conditions: the registry keeps what it is given and serves each blob at its URL; the client has no caches and
  no policies; the names of the directory sort like its paths; the data is not empty; the index is within the default limit of its
  size and its digest differs from that of the data; the digests are those of the bytes, the index's encoding and the encoder of the
  data are decoded by the reader; the limit of \<^verbatim>\<open>PullWithMaxFileSize\<close>, where set, covers the file and the data.\<close>

theorem Push_Pull_roundtrip:
  fixes E :: "'m world reg_env" and cs :: "DiskCache \<times> fsys"
  assumes push: "BlobClient_Push E R sha256 z_Encode encode ctx (Inr root) c ref opts w = (None, w')"
    and copts: "copts = bh_createOpts (fold (\<lambda>opt cfg. opt cfg) opts \<lparr>bh_tags = [], bh_annotations = None, bh_createOpts = []\<rparr>)"
    and created: "Create_archive sha256 z_Encode encode ctx (Inr root) copts no_writer no_writer = (None, ib, db)"
    and env: "create_env Z default_decoder limit z_Encode ctx root copts no_writer no_writer" "tree_sorted root"
    and index: "\<forall>entries n. writeData sha256 z_Encode (create_config copts) ctx root no_writer = (Inr (entries, n), db) \<longrightarrow>
      index_decodes encode (re_get_root E) (buildIndex entries n (sha256 (w_out db)))"
    and plain: "bc_refCache c = None" "bc_manifestCache c = None" "bc_indexCache c = None" "bc_policies c = []"
      "bc_contentCache c = None" "bc_blockCache c = None"
    and registry: "registry_keeps R V" "registry_serves R V" "\<forall>m j. rm_marshal R m = Inr j \<longrightarrow> rm_unmarshal R j = Some m"
    and http: "registry_http R V (fst (oras_New (bc_orasOpts c))) ref" "oras_parseRef R ref = Inr r"
      "\<forall>dgst url. oras_BlobURL R (fst (oras_New (bc_orasOpts c))) ref dgst = Inr url \<longrightarrow> re_bad_url E url = None"
    and digests: "digests_valid (re_digest E)" "from_bytes E (w_out ib) \<noteq> ''sha256:'' @ hex_encode (sha256 (w_out db))" "\<forall>c. length (sha256 c) = 32"
    and bound: "int (length (w_out ib)) \<le> defaultMaxIndexSize" "w_out db \<noteq> []" "int (length (w_out db)) < 2 ^ 63"
    and fl: "(p, fi, content) \<in> set (tree_files (cr_strict (create_config copts)) root)" "valid_path p" "st_size fi < 2 ^ 63"
    and limits: "m = 0 \<or> length (w_out db) \<le> unat m \<and> length content \<le> unat m"
  shows "\<exists>b w''. BlobClient_Pull E R (\<lambda>s Do w. http_as_source (re_bad_url E) Do w s) c ref [PullWithMaxFileSize m] w' = (Inr b, w'') \<and>
    Blob_ReadFile sha256 Z race b p cs = (Inr content, cs)"
proof -
  have "length (w_out db) < 2 ^ 64" using bound(3) by simp
  then obtain entries where e: "writeData sha256 z_Encode (create_config copts) ctx root no_writer = (Inr (entries, of_nat (length (w_out db))), db)"
    "laid_out sha256 Z default_decoder 0 entries (tree_files (cr_strict (create_config copts)) root) (w_out db)"
    "w_out ib = encode (buildIndex entries (of_nat (length (w_out db))) (sha256 (w_out db)))"
    using create_layout [OF created env(1)] by metis
  let ?ix = "buildIndex entries (of_nat (length (w_out db))) (sha256 (w_out db))"
  have dec: "index_decodes encode (re_get_root E) ?ix" using index e(1) by blast
  then have load: "Load (re_get_root E) (w_out ib) = Inr \<lparr>idx_data = w_out ib, idx_root = ?ix\<rparr>"
    using Load_decodes [of encode "re_get_root E" ?ix] e(3) by (simp add: buildIndex_def)
  let ?o = "fst (oras_New (bc_orasOpts c))" and ?reset = "\<lambda>w :: 'm world. w\<lparr>ow_cache := snd (oras_New (bc_orasOpts c))\<rparr>"
  obtain a :: "unit Blob" and popts where a: "Push E (plain_client (oras_client R (re_digest E) ?o)) ref a popts (?reset w) = (None, w')"
    "Blob_IndexData a = w_out ib" "r_source (b_reader a) = memSource (w_out db)"
    "\<forall>h. Blob_DataHash a = Some h \<longrightarrow> from_bytes E (Blob_IndexData a) \<noteq> ''sha256:'' @ hex_encode h"
    by (rule BlobClient_Push_archive [OF push copts created load plain(1-4) digests(2)])
  have "source_ok (r_source (b_reader a))" using a(3) bound(3) by (simp add: source_ok_def memSource_def)
  from Blob_Stream_ok [OF this] a(3) have stream: "io_ReadAll (Blob_Stream a) = Inr (w_out db)" by (simp add: io_ReadAll_def memSource_def)
  have "int (length (Blob_IndexData a)) \<le> defaultMaxIndexSize" using a(2) bound(1) by simp
  from Push_Pull [OF a(1) refl registry(1,2) digests(1) registry(3) a(4) this _ http(1) _ http(2) stream bound(2,3), of "?reset w'" "[Blob_WithMaxFileSize m]"]
    http(3) a(2) obtain src w'' where pull: "source_ok src" "ra_content (src_at src) = w_out db"
    "Pull E (\<lambda>s Do w. http_as_source (re_bad_url E) Do w s) (plain_client (oras_client R (re_digest E) ?o)) ref
       [WithBlobOptions [Blob_WithMaxFileSize m]] (?reset w') =
     (Blob_New (re_get_root E) (w_out ib) src [Blob_WithMaxFileSize m] :: (DiskCache \<times> fsys) Blob res, w'')" by auto
  obtain b :: "(DiskCache \<times> fsys) Blob" where b: "Blob_New (re_get_root E) (w_out ib) src [Blob_WithMaxFileSize m] = Inr b"
    "idx_root (b_idx b) = ?ix" "b_cache b = None" "r_source (b_reader b) = src" "r_maxFileSize (b_reader b) = m"
    "r_pool (b_reader b) = Some (NewDecompressPool DefaultMaxDecoderMemory [])"
    using Blob_New_limit [OF dec, of src m] e(3) by metis
  have "BlobClient_Pull E R (\<lambda>s Do w. http_as_source (re_bad_url E) Do w s) c ref [PullWithMaxFileSize m] w' = (Inr b, w'')"
    using pull(3) b(1) plain(5,6)
    by (simp add: BlobClient_Pull_def buildRegistry_plain [OF plain(1-4)] pull_opts_def PullWithMaxFileSize_def Let_def)
  moreover have "Blob_ReadFile sha256 Z race b p cs = (Inr content, cs)"
    using created_ReadFile [OF e(2) [unfolded default_decoder_def] tree_files_sorted [OF env(2)] b(2)] b pull(1,2) digests(3) fl limits by simp
  ultimately show ?thesis by blast
qed

definition demo_client :: "'m BlobClient" where
  "demo_client =
     \<lparr>bc_orasOpts = [], bc_contentCache = None, bc_blockCache = None, bc_refCache = None, bc_manifestCache = None, bc_indexCache = None,
      bc_refCacheTTL = DefaultRefCacheTTL, bc_policies = []\<rparr>"

definition demo_tree_manifest :: Manifest where
  "demo_tree_manifest =
     buildManifest (demo_reg :: unit reg_env) demo_config_desc
       \<lparr>d_MediaType = MediaTypeIndex, d_Digest = dl_FromBytes demo_digest ''sha256'' [1], d_Size = 1\<rparr>
       \<lparr>d_MediaType = MediaTypeData, d_Digest = ''sha256:'' @ hex_encode (demo_hash [1, 2, 3]), d_Size = 3\<rparr> []"

text \<open>The registry in memory with its blobs at their URLs.\<close>

definition blob_server :: "mem_net disk_world http_client" where
  "blob_server req n =
     (case me_blobs (dw_net n) (\<lparr>rp_ref = ''host/repo:latest'', rp_PlainHTTP = False\<rparr>, trim_prefix (rq_url req) ''https://host/v2/repo/blobs/'') of
        Some d \<Rightarrow> (Inr (range_response d req), n)
      | None \<Rightarrow> (Inl demo_missing, n))"

definition demo_remote :: "mem_net disk_world remote_lib" where
  "demo_remote = (mem_remote dw_net (\<lambda>f n. n\<lparr>dw_net := f (dw_net n)\<rparr>) demo_tree_manifest)\<lparr>rm_auth_Do := \<lambda>_. blob_server\<rparr>"

lemma demo_registry:
  "registry_keeps demo_remote (mem_view dw_net)" "registry_serves demo_remote (mem_view dw_net)"
  "registry_http demo_remote (mem_view dw_net) (fst (oras_New [])) ''host/repo:latest''"
proof -
  let ?m = "mem_remote dw_net (\<lambda>f n. n\<lparr>dw_net := f (dw_net n)\<rparr>) demo_tree_manifest :: mem_net disk_world remote_lib"
  have "registry_keeps ?m (mem_view dw_net)" "registry_serves ?m (mem_view dw_net)"
    by (rule mem_registry; simp)+
  then show "registry_keeps demo_remote (mem_view dw_net)" "registry_serves demo_remote (mem_view dw_net)"
    by (simp_all add: demo_remote_def registry_keeps_def registry_serves_def)
  have trim: "trim_prefix (''https://host/v2/repo/blobs/'' @ dgst) ''https://host/v2/repo/blobs/'' = dgst" for dgst by (rule trim_prefix_append)
  have url: "url = ''https://host/v2/repo/blobs/'' @ dgst"
    if "oras_BlobURL demo_remote (fst (oras_New [])) ''host/repo:latest'' dgst = Inr url" for url dgst
    using that by (simp add: demo_remote_def mem_remote_def oras_New_def oras_BlobURL_def oras_parseRef_def bindE_def Let_def)
  have repo: "oras_repository demo_remote (fst (oras_New [])) ''host/repo:latest'' = Inr \<lparr>rp_ref = ''host/repo:latest'', rp_PlainHTTP = False\<rparr>"
    by (simp add: demo_remote_def mem_remote_def oras_New_def oras_repository_def)
  show "registry_http demo_remote (mem_view dw_net) (fst (oras_New [])) ''host/repo:latest''"
    unfolding registry_http_def repo
  proof (intro allI impI range_response_serves, assumption)
    fix p r dgst url content and n :: "mem_net disk_world" and req :: request
    assume "oras_BlobURL demo_remote (fst (oras_New [])) ''host/repo:latest'' dgst = Inr url" "rq_url req = url"
    then have "trim_prefix (rq_url req) ''https://host/v2/repo/blobs/'' = dgst" using url trim by metis
    moreover assume "Inr \<lparr>rp_ref = ''host/repo:latest'', rp_PlainHTTP = False\<rparr> = (Inr r :: repository res)" "rv_blobs (mem_view dw_net) n (r, dgst) = Some content"
    ultimately show "rm_auth_Do demo_remote p req n = (Inr (range_response content req), n)"
      by (auto simp: demo_remote_def blob_server_def mem_view_def)
  qed
qed

definition demo_tree_env :: "mem_net world reg_env" where
  "demo_tree_env = demo_reg\<lparr>re_get_root := demo_get_root ''c''\<rparr>"

definition demo_disk_world :: "mem_net world" where
  "demo_disk_world =
     \<lparr>ow_cache = None, ow_now = 0,
      ow_net = \<lparr>dw_content = demo_rdir, dw_blocks = demo_rdir, dw_refs = \<lparr>rf_disk = demo_rdir, rf_ttl = 0\<rparr>, dw_manifests = demo_rdir,
        dw_indexes = demo_rdir, dw_fs = demo_rfs, dw_net = \<lparr>me_blobs = Map.empty, me_manifests = Map.empty, me_tags = Map.empty\<rparr>\<rparr>\<rparr>"

definition demo_push_config :: blobPushConfig where
  "demo_push_config = \<lparr>bh_tags = [], bh_annotations = None, bh_createOpts = []\<rparr>"

lemma demo_tree_pushed:
  "fst (BlobClient_Push demo_tree_env demo_remote demo_hash demo_encoder demo_encode demo_ctx (Inr (demo_tree ''c'')) demo_client
     ''host/repo:latest'' [] demo_disk_world) = None"
proof -
  have "case Blob_New (re_get_root demo_tree_env) [1] (memSource [1, 2, 3]) [] of
      Inl err \<Rightarrow> False
    | Inr b \<Rightarrow> fst (pushArchive demo_tree_env demo_remote demo_client ''host/repo:latest'' (b :: unit Blob) demo_push_config demo_disk_world) = None"
    by code_simp
  then show ?thesis
    using demo_Create [of "''c''"]
    by (auto simp: BlobClient_Push_def demo_push_config_def no_writer_def split: sum.splits)
qed

lemma demo_create_config: "create_config [] = zero_create" "cr_strict zero_create = False"
  by (simp_all add: create_config_def zero_create_def)

lemma demo_tree_decodes:
  "\<forall>entries n. writeData demo_hash demo_encoder (create_config []) demo_ctx (demo_tree ''c'') no_writer =
      (Inr (entries, n), no_writer\<lparr>w_out := [1, 2, 3]\<rparr>) \<longrightarrow>
      index_decodes demo_encode (re_get_root demo_tree_env) (buildIndex entries n (demo_hash (w_out (no_writer\<lparr>w_out := [1, 2, 3]\<rparr>))))"
  using demo_writeData [of "''c''"] by (simp add: demo_create_config index_decodes_def demo_encode_def demo_get_root_def demo_index_def demo_tree_env_def)

lemma demo_marshal: "\<forall>m j. rm_marshal demo_remote m = Inr j \<longrightarrow> rm_unmarshal demo_remote j = Some m"
  by (simp add: demo_remote_def mem_remote_def)

theorem Push_Inspect_roundtrip_witness:
  "\<exists>r w''. BlobClient_Inspect demo_tree_env demo_remote demo_client ''host/repo:latest'' []
       (snd (BlobClient_Push demo_tree_env demo_remote demo_hash demo_encoder demo_encode demo_ctx (Inr (demo_tree ''c'')) demo_client
          ''host/repo:latest'' [] demo_disk_world)) = (Inr r, w'') \<and>
     map fb_path (EntriesView (iv_idx (bi_index r))) = [''a/b'', ''c'']"
proof -
  let ?p = "BlobClient_Push demo_tree_env demo_remote demo_hash demo_encoder demo_encode demo_ctx (Inr (demo_tree ''c'')) demo_client
          ''host/repo:latest'' [] demo_disk_world"
  have lt: "''a'' < ''c''" by simp
  note cfg = demo_create_config and dec = demo_tree_decodes
  have p: "?p = (None, snd ?p)" using demo_tree_pushed by (simp add: prod_eq_iff)
  have "digests_valid (re_digest demo_tree_env)" using demo_digests_valid by (simp add: demo_tree_env_def demo_reg_def)
  moreover have "from_bytes demo_tree_env [1] \<noteq> ''sha256:'' @ hex_encode (demo_hash [1, 2, 3])" by code_simp
  ultimately have "\<exists>r w''. BlobClient_Inspect demo_tree_env demo_remote demo_client ''host/repo:latest'' [] (snd ?p) = (Inr r, w'') \<and>
      map (\<lambda>e. (fb_path e, fb_hash e, fb_original_size e)) (EntriesView (iv_idx (bi_index r))) =
        map (\<lambda>(p, fi, content). (p, demo_hash content, of_nat (length content))) (tree_files (cr_strict (create_config [])) (demo_tree ''c''))"
    by (intro Push_Inspect_roundtrip [OF p _ demo_Create [OF lt] demo_env [OF lt] _ dec, where V = "mem_view dw_net"])
      (simp_all add: demo_client_def no_writer_def defaultMaxIndexSize_def demo_registry demo_marshal)
  then obtain r w'' where r: "BlobClient_Inspect demo_tree_env demo_remote demo_client ''host/repo:latest'' [] (snd ?p) = (Inr r, w'')"
    "map (\<lambda>e. (fb_path e, fb_hash e, fb_original_size e)) (EntriesView (iv_idx (bi_index r))) =
        map (\<lambda>(p, fi, content). (p, demo_hash content, of_nat (length content))) (tree_files False (demo_tree ''c''))"
    unfolding cfg by blast
  from arg_cong [OF r(2), of "map fst"] have "map fb_path (EntriesView (iv_idx (bi_index r))) = [''a/b'', ''c'']"
    by (simp add: demo_files [OF lt] comp_def)
  from r(1) this show ?thesis by (intro exI conjI)
qed

theorem Push_Pull_roundtrip_witness:
  "\<exists>b w''. BlobClient_Pull demo_tree_env demo_remote (\<lambda>s Do w. http_as_source (re_bad_url demo_tree_env) Do w s) demo_client
       ''host/repo:latest'' [PullWithMaxFileSize 0]
       (snd (BlobClient_Push demo_tree_env demo_remote demo_hash demo_encoder demo_encode demo_ctx (Inr (demo_tree ''c'')) demo_client
          ''host/repo:latest'' [] demo_disk_world)) = (Inr b, w'') \<and>
     fst (Blob_ReadFile demo_hash demo_zstd (\<lambda>x. x) b ''a/b'' (demo_rdir, demo_rfs)) = Inr [1, 2]"
proof -
  let ?p = "BlobClient_Push demo_tree_env demo_remote demo_hash demo_encoder demo_encode demo_ctx (Inr (demo_tree ''c'')) demo_client
          ''host/repo:latest'' [] demo_disk_world"
  have lt: "''a'' < ''c''" by simp
  note cfg = demo_create_config and dec = demo_tree_decodes
  have p: "?p = (None, snd ?p)" using demo_tree_pushed by (simp add: prod_eq_iff)
  have "tree_sorted (demo_tree ''c'')" by (simp add: demo_tree_def strict_prefix_def)
  moreover have "oras_parseRef demo_remote ''host/repo:latest'' = Inr (''host'', ''repo'', ''latest'')"
    by (simp add: demo_remote_def mem_remote_def oras_parseRef_def)
  moreover have "digests_valid (re_digest demo_tree_env)" using demo_digests_valid by (simp add: demo_tree_env_def demo_reg_def)
  moreover have "from_bytes demo_tree_env [1] \<noteq> ''sha256:'' @ hex_encode (demo_hash [1, 2, 3])" by code_simp
  moreover have "\<forall>c. length (demo_hash c) = 32" by (simp add: demo_hash_def)
  moreover have "\<forall>url. re_bad_url demo_tree_env url = None" by (simp add: demo_tree_env_def demo_reg_def)
  moreover have "(''a/b'', demo_finfo [1, 2], [1, 2]) \<in> set (tree_files (cr_strict (create_config [])) (demo_tree ''c''))"
    by (simp add: cfg demo_files [OF lt])
  moreover have "valid_path ''a/b''" by code_simp
  moreover have "st_size (demo_finfo [1, 2]) < 2 ^ 63" by (simp add: demo_finfo_def)
  ultimately have "\<exists>b w''. BlobClient_Pull demo_tree_env demo_remote
      (\<lambda>s Do w. http_as_source (re_bad_url demo_tree_env) Do w s) demo_client
      ''host/repo:latest'' [PullWithMaxFileSize 0] (snd ?p) = (Inr b, w'') \<and>
    Blob_ReadFile demo_hash demo_zstd (\<lambda>x. x) b ''a/b'' (demo_rdir, demo_rfs) = (Inr [1, 2], (demo_rdir, demo_rfs))"
    by (intro Push_Pull_roundtrip [OF p _ demo_Create [OF lt] demo_env [OF lt] _ dec, where V = "mem_view dw_net"])
      (simp_all add: demo_client_def no_writer_def defaultMaxIndexSize_def demo_registry demo_marshal)
  then show ?thesis by auto
qed

end
