(* ===== verification/Signing.thy ===== *)
theory Signing
  imports RegistryRoundtrip SigstoreSigner
begin

text \<open>
  How signing and verifying fit together: \<^verbatim>\<open>Sign\<close> of the registry client with a Sigstore signer stores the signature as a referrer of
  the manifest, and the Sigstore policy finds it there. The registry has to keep manifests pushed by digest, to list those that refer to a
  subject, and not to change what it holds when it is read.
\<close>

section \<open>The registry\<close>

definition registry_refers :: "'n remote_lib \<Rightarrow> digest_lib \<Rightarrow> 'n registry_view \<Rightarrow> bool" where
  "registry_refers R D V \<longleftrightarrow>
     (\<forall>repo desc r n n'. rm_Push R repo desc r n = (None, n') \<longrightarrow> d_MediaType desc = MediaTypeImageManifest \<longrightarrow>
        (\<exists>d. io_ReadAll r = Inr d \<and> rv_manifests V n' = (rv_manifests V n)((repo, d_Digest desc) \<mapsto> d)) \<and>
        rv_blobs V n' = rv_blobs V n \<and> rv_tags V n' = rv_tags V n) \<and>
     (\<forall>repo desc d n. rv_manifests V n (repo, d_Digest desc) = Some d \<longrightarrow> d_MediaType desc = MediaTypeImageManifest \<longrightarrow>
        (\<exists>r n'. rm_Fetch R repo desc n = (Inr r, n') \<and> delivers r d)) \<and>
     (\<forall>repo desc n x n'. rm_Fetch R repo desc n = (x, n') \<longrightarrow> same_view V n n') \<and>
     (\<forall>repo subject s d m n. rv_manifests V n (repo, dl_FromBytes D ''sha256'' d) = Some d \<longrightarrow> rm_unmarshal R d = Some m \<longrightarrow>
        m_Subject m = Some s \<longrightarrow> d_Digest s = d_Digest subject \<longrightarrow>
        (\<exists>rs n'. rm_Referrers R repo subject (m_ArtifactType m) n = (Inr rs, n') \<and> same_view V n n' \<and> manifest_descriptor D d \<in> set rs))"

lemma refers_Push:
  "registry_refers R D V \<Longrightarrow> rm_Push R repo desc r n = (None, n') \<Longrightarrow> d_MediaType desc = MediaTypeImageManifest \<Longrightarrow>
   (\<exists>d. io_ReadAll r = Inr d \<and> rv_manifests V n' = (rv_manifests V n)((repo, d_Digest desc) \<mapsto> d)) \<and>
   rv_blobs V n' = rv_blobs V n \<and> rv_tags V n' = rv_tags V n"
  unfolding registry_refers_def by blast

lemma refers_Fetch:
  "registry_refers R D V \<Longrightarrow> rv_manifests V n (repo, d_Digest desc) = Some d \<Longrightarrow> d_MediaType desc = MediaTypeImageManifest \<Longrightarrow>
   \<exists>r n'. rm_Fetch R repo desc n = (Inr r, n') \<and> delivers r d"
  unfolding registry_refers_def by blast

lemma refers_reads: "registry_refers R D V \<Longrightarrow> rm_Fetch R repo desc n = (x, n') \<Longrightarrow> same_view V n n'"
  unfolding registry_refers_def by blast

lemma refers_Referrers:
  "registry_refers R D V \<Longrightarrow> rv_manifests V n (repo, dl_FromBytes D ''sha256'' d) = Some d \<Longrightarrow> rm_unmarshal R d = Some m \<Longrightarrow>
   m_Subject m = Some s \<Longrightarrow> d_Digest s = d_Digest subject \<Longrightarrow>
   \<exists>rs n'. rm_Referrers R repo subject (m_ArtifactType m) n = (Inr rs, n') \<and> same_view V n n' \<and> manifest_descriptor D d \<in> set rs"
  unfolding registry_refers_def by blast

lemma keeps_Push_rest:
  "registry_keeps R V \<Longrightarrow> rm_Push R repo desc r n = (None, n') \<Longrightarrow> d_MediaType desc \<noteq> MediaTypeImageManifest \<Longrightarrow>
   rv_manifests V n' = rv_manifests V n \<and> rv_tags V n' = rv_tags V n"
  unfolding registry_keeps_def by blast

lemma same_view_refl [simp]: "same_view V n n"
  by (simp add: same_view_def)

section \<open>Storing a signature\<close>

text \<open>What \<^verbatim>\<open>Sign\<close> leaves in the registry: the signature and a manifest that refers to the subject.\<close>

definition signature_manifest :: "'w reg_env \<Rightarrow> string \<Rightarrow> bytes \<Rightarrow> string \<Rightarrow> bytes \<Rightarrow> Manifest" where
  "signature_manifest E dgst raw t sigData =
     \<lparr>m_SchemaVersion = 2, m_MediaType = MediaTypeImageManifest, m_ArtifactType = t,
      m_Config = \<lparr>d_MediaType = MediaTypeEmptyJSON, d_Digest = from_bytes E (to_bytes ''{}''), d_Size = 2\<rparr>,
      m_Layers = [\<lparr>d_MediaType = t, d_Digest = from_bytes E sigData, d_Size = int (length sigData)\<rparr>],
      m_Subject = Some \<lparr>d_MediaType = MediaTypeImageManifest, d_Digest = dgst, d_Size = int (length raw)\<rparr>, m_Annotations = []\<rparr>"

definition signed_in ::
  "'n remote_lib \<Rightarrow> digest_lib \<Rightarrow> 'n registry_view \<Rightarrow> repository \<Rightarrow> Manifest \<Rightarrow> bytes \<Rightarrow> bytes \<Rightarrow> bytes \<Rightarrow> 'n \<Rightarrow> bool" where
  "signed_in R D V repo sm raw sigData j n \<longleftrightarrow>
     rm_marshal R sm = Inr j \<and> rv_manifests V n (repo, dl_FromBytes D ''sha256'' j) = Some j \<and>
     rv_manifests V n (repo, dl_FromBytes D ''sha256'' raw) = Some raw \<and>
     rv_blobs V n (repo, dl_FromBytes D ''sha256'' sigData) = Some sigData"

lemma signed_in_view: "same_view V n n' \<Longrightarrow> signed_in R D V repo sm raw d j n \<Longrightarrow> signed_in R D V repo sm raw d j n'"
  by (simp add: signed_in_def same_view_def)

lemma PushManifestByDigest_Inr:
  assumes "oras_PushManifestByDigest R D c ref m w = (Inr desc, w')" "oras_repository R c ref = Inr repo"
  shows "\<exists>j. rm_marshal R m = Inr j \<and> desc = manifest_descriptor D j \<and>
    rm_Push R repo desc (bytes_NewReader j) (ow_net w) = (None, ow_net w')"
proof -
  obtain j where j: "rm_marshal R m = Inr j" using assms by (auto simp: oras_PushManifestByDigest_def with_repo_def split: sum.splits)
  obtain x w1 where x: "on_net (rm_Push R repo (manifest_descriptor D j) (bytes_NewReader j)) w = (x, w1)" by (metis prod.exhaust)
  then have "x = None" "w1 = w'" "desc = manifest_descriptor D j"
    using assms j by (auto simp: oras_PushManifestByDigest_def with_repo_def Let_def split: option.splits)
  with x j show ?thesis by (auto simp: on_net_eq)
qed

lemma pushEmptyConfig_Inr:
  assumes "pushEmptyConfig E c ref w = (Inr desc, w')" "cl_oci c = oras_client R D o'"
  shows "desc = \<lparr>d_MediaType = MediaTypeEmptyJSON, d_Digest = from_bytes E (to_bytes ''{}''), d_Size = 2\<rparr> \<and>
    oras_PushBlob R D o' ref desc (bytes_NewReader (to_bytes ''{}'')) w = (None, w')"
  using assms by (auto simp: pushEmptyConfig_def oras_client_def to_bytes_def Let_def split: prod.splits option.splits)

lemma push_signature_steps:
  assumes "push_signature E c ref desc raw d t w = (Inr x, w')" "cl_oci c = oras_client R D o'"
  obtains w1 w2 cfg rdesc where
    "oras_PushBlob R D o' ref \<lparr>d_MediaType = t, d_Digest = from_bytes E d, d_Size = int (length d)\<rparr> (bytes_NewReader d) w = (None, w1)"
    "pushEmptyConfig E c ref w1 = (Inr cfg, w2)"
    "oras_PushManifestByDigest R D o' ref (signature_manifest E (d_Digest desc) raw t d) w2 = (Inr rdesc, w')"
proof -
  let ?s = "\<lparr>d_MediaType = t, d_Digest = from_bytes E d, d_Size = int (length d)\<rparr>"
  have oci: "oci_PushBlob (cl_oci c) = oras_PushBlob R D o'" "oci_PushManifestByDigest (cl_oci c) = oras_PushManifestByDigest R D o'"
    using assms(2) by (simp_all add: oras_client_def)
  note push = assms(1) [unfolded push_signature_def Let_def oci]
  obtain y w1 where y: "oras_PushBlob R D o' ref ?s (bytes_NewReader d) w = (y, w1)" by (metis prod.exhaust)
  then have "y = None" using push by (auto split: option.splits)
  obtain z w2 where z: "pushEmptyConfig E c ref w1 = (z, w2)" by (metis prod.exhaust)
  then obtain cfg where cfg: "z = Inr cfg" using push y \<open>y = None\<close> by (cases z) auto
  have m: "signature_manifest E (d_Digest desc) raw t d =
      \<lparr>m_SchemaVersion = 2, m_MediaType = MediaTypeImageManifest, m_ArtifactType = t, m_Config = cfg, m_Layers = [?s],
       m_Subject = Some \<lparr>d_MediaType = MediaTypeImageManifest, d_Digest = d_Digest desc, d_Size = int (length raw)\<rparr>, m_Annotations = []\<rparr>"
    using pushEmptyConfig_Inr [OF z [unfolded cfg] assms(2)] by (simp add: signature_manifest_def)
  obtain v w3 where v: "oras_PushManifestByDigest R D o' ref (signature_manifest E (d_Digest desc) raw t d) w2 = (v, w3)" by (metis prod.exhaust)
  then obtain rdesc where "v = Inr rdesc" "w3 = w'" using push y \<open>y = None\<close> z cfg by (cases v) (auto simp: m)
  with that y z v cfg \<open>y = None\<close> show ?thesis by simp
qed

lemma push_signature_signed:
  assumes push: "push_signature E c ref desc raw d t w = (Inr x, w')" "cl_oci c = oras_client R D o'" "re_digest E = D"
    and registry: "registry_keeps R V" "registry_refers R D V" "oras_repository R o' ref = Inr repo"
    and manifest: "rv_manifests V (ow_net w) (repo, dl_FromBytes D ''sha256'' raw) = Some raw" "d_Digest desc = dl_FromBytes D ''sha256'' raw"
    and t: "t \<noteq> MediaTypeImageManifest"
    and fresh: "from_bytes E d \<noteq> from_bytes E (to_bytes ''{}'')"
      "\<forall>m j. rm_marshal R m = Inr j \<longrightarrow> m_Subject m \<noteq> None \<longrightarrow> dl_FromBytes D ''sha256'' j \<noteq> dl_FromBytes D ''sha256'' raw"
  shows "\<exists>j. signed_in R D V repo (signature_manifest E (d_Digest desc) raw t d) raw d j (ow_net w') \<and> rv_tags V (ow_net w') = rv_tags V (ow_net w)"
proof -
  obtain w1 w2 cfg rdesc where s:
    "oras_PushBlob R D o' ref \<lparr>d_MediaType = t, d_Digest = from_bytes E d, d_Size = int (length d)\<rparr> (bytes_NewReader d) w = (None, w1)"
    "pushEmptyConfig E c ref w1 = (Inr cfg, w2)"
    "oras_PushManifestByDigest R D o' ref (signature_manifest E (d_Digest desc) raw t d) w2 = (Inr rdesc, w')"
    by (rule push_signature_steps [OF push(1,2)])
  have b: "from_bytes E u = dl_FromBytes D ''sha256'' u" for u using push(3) by (simp add: from_bytes_def)
  note p1 = PushBlob_None [OF s(1) registry(3)]
  note cfg = pushEmptyConfig_Inr [OF s(2) push(2)]
  note p2 = PushBlob_None [OF conjunct2 [OF cfg] registry(3)]
  have blob: "rv_blobs V (ow_net w1) (repo, from_bytes E d) = Some d"
    using keeps_Push [OF registry(1) p1] t bytes_NewReader_ok(2) [of d] by auto
  have cm: "d_MediaType cfg \<noteq> MediaTypeImageManifest" "d_Digest cfg = from_bytes E (to_bytes ''{}'')" using cfg by simp_all
  have same: "rv_manifests V (ow_net w2) = rv_manifests V (ow_net w)" "rv_tags V (ow_net w2) = rv_tags V (ow_net w)"
    using keeps_Push_rest [OF registry(1) p1] keeps_Push_rest [OF registry(1) p2 cm(1)] t by simp_all
  have blob2: "rv_blobs V (ow_net w2) (repo, from_bytes E d) = Some d"
    using keeps_Push [OF registry(1) p2 cm(1)] cm(2) blob fresh(1) by auto
  obtain j where j: "rm_marshal R (signature_manifest E (d_Digest desc) raw t d) = Inr j" "rdesc = manifest_descriptor D j"
    "rm_Push R repo rdesc (bytes_NewReader j) (ow_net w2) = (None, ow_net w')"
    using PushManifestByDigest_Inr [OF s(3) registry(3)] by blast
  have "dl_FromBytes D ''sha256'' j \<noteq> dl_FromBytes D ''sha256'' raw" using fresh(2) j(1) by (auto simp: signature_manifest_def)
  moreover have "rv_manifests V (ow_net w') = (rv_manifests V (ow_net w2))((repo, dl_FromBytes D ''sha256'' j) \<mapsto> j)"
    "rv_blobs V (ow_net w') = rv_blobs V (ow_net w2)" "rv_tags V (ow_net w') = rv_tags V (ow_net w2)"
    using refers_Push [OF registry(2) j(3)] j(2) bytes_NewReader_ok(2) [of j] by (simp_all add: manifest_descriptor_def)
  ultimately have "signed_in R D V repo (signature_manifest E (d_Digest desc) raw t d) raw d j (ow_net w')"
    using j(1) blob2 same(1) manifest(1) b by (simp add: signed_in_def)
  then show ?thesis using same(2) \<open>rv_tags V (ow_net w') = rv_tags V (ow_net w2)\<close> by auto
qed

section \<open>Finding a signature\<close>

text \<open>Policies only read: what every fetch keeps, they keep. A referrer with a good signature is found wherever it is in the list.\<close>

lemma verify_layers_keeps:
  assumes "\<And>d w x w'. I w \<Longrightarrow> pc_FetchDescriptor (pr_Client req) (pr_Ref req) d w = (x, w') \<Longrightarrow> I w'" "I w"
  shows "I (snd (verify_layers S tr identity req payload ls e w))"
  using assms(2)
proof (induction ls arbitrary: e w)
  case (Cons l ls)
  obtain x w1 where x: "pc_FetchDescriptor (pr_Client req) (pr_Ref req) l w = (x, w1)" by (metis prod.exhaust)
  with assms(1) Cons show ?case by (auto split: sum.split option.split)
qed simp

lemma verifyBundleData_keeps:
  assumes "\<And>d w x w'. I w \<Longrightarrow> pc_FetchDescriptor (pr_Client req) (pr_Ref req) d w = (x, w') \<Longrightarrow> I w'" "I w"
  shows "I (snd (verifyBundleData unmarshal S tr identity req data payload w))"
  using verify_layers_keeps [of I, OF assms] assms(2) by (auto simp: verifyBundleData_def split: sum.split option.split)

lemma verify_referrers_finds:
  assumes keep: "\<And>d w x w'. I w \<Longrightarrow> pc_FetchDescriptor (pr_Client req) (pr_Ref req) d w = (x, w') \<Longrightarrow> I w'"
    and found: "\<And>w. I w \<Longrightarrow> \<exists>data w1 w2. pc_FetchDescriptor (pr_Client req) (pr_Ref req) ref w = (Inr data, w1) \<and>
      verifyBundleData unmarshal S tr identity req data payload w1 = (None, w2)"
    and "ref \<in> set refs" "I w"
  shows "\<exists>w'. verify_referrers unmarshal S tr identity req payload refs e w = (None, w')"
  using assms(3,4)
proof (induction refs arbitrary: e w)
  case (Cons r refs)
  obtain x w1 where x: "pc_FetchDescriptor (pr_Client req) (pr_Ref req) r w = (x, w1)" by (metis prod.exhaust)
  have w1: "I w1" using keep Cons.prems(2) x by blast
  show ?case
  proof (cases "r = ref")
    case True
    with found [OF Cons.prems(2)] show ?thesis by auto
  next
    case False
    then have r: "ref \<in> set refs" using Cons.prems(1) by simp
    show ?thesis
    proof (cases x)
      case (Inl err)
      with Cons.IH [OF r w1] x show ?thesis by simp
    next
      case (Inr data)
      obtain y w2 where y: "verifyBundleData unmarshal S tr identity req data payload w1 = (y, w2)" by (metis prod.exhaust)
      have "I (snd (verifyBundleData unmarshal S tr identity req data payload w1))"
        by (rule verifyBundleData_keeps [of I req, OF keep w1])
      with y have "I w2" by simp
      with Cons.IH [OF r] x y Inr show ?thesis by (cases y) simp_all
    qed
  qed
qed simp

subsection \<open>Over the registry\<close>

lemma FetchDescriptor_keeps:
  assumes "registry_refers R D V" "cl_oci c = oras_client R D o'" "FetchDescriptor c ref desc w = (x, w')"
  shows "same_view V (ow_net w) (ow_net w')"
proof -
  obtain y w1 where y: "oras_FetchBlob R D o' ref desc w = (y, w1)" by (metis prod.exhaust)
  then have "w' = w1" using assms(2,3) by (cases y) (auto simp: FetchDescriptor_def oras_client_def split: sum.splits)
  obtain n' z where "\<forall>repo. oras_repository R o' ref = Inr repo \<longrightarrow> rm_Fetch R repo desc (ow_net w) = (z, n')" by (metis prod.exhaust sum.inject(2))
  with y refers_reads [OF assms(1)] \<open>w' = w1\<close> show ?thesis
    by (auto simp: oras_FetchBlob_def with_repo_def on_net_def mapped_def split: option.splits sum.splits)
qed

lemma FetchDescriptor_reads:
  assumes "oras_FetchBlob R D o' ref desc w = (Inr r, w')" "delivers r d" "cl_oci c = oras_client R D o'"
  shows "FetchDescriptor c ref desc w = (Inr d, w')"
  using assms delivers_ReadAll [OF assms(2)] by (simp add: FetchDescriptor_def oras_client_def)

lemma FetchDescriptor_manifest:
  assumes "registry_refers R D V" "cl_oci c = oras_client R D o'" "oras_repository R o' ref = Inr repo"
    and "validateDescriptor D desc = None" "d_MediaType desc = MediaTypeImageManifest" "rv_manifests V (ow_net w) (repo, d_Digest desc) = Some d"
  shows "\<exists>w'. FetchDescriptor c ref desc w = (Inr d, w')"
proof -
  obtain r n' where "rm_Fetch R repo desc (ow_net w) = (Inr r, n')" "delivers r d"
    using refers_Fetch [OF assms(1,6,5)] by blast
  with FetchDescriptor_reads [OF _ _ assms(2)] assms(3,4) show ?thesis
    by (force simp: oras_FetchBlob_def with_repo_def on_net_def mapped_def mapErr_def)
qed

text \<open>The Sigstore policy accepts a manifest that was signed.\<close>

lemma Sigstore_accepts:
  assumes signed: "signed_in R D V repo sm raw d j (ow_net w)"
    and sm: "sm = signature_manifest E (dl_FromBytes D ''sha256'' raw) raw SigstoreBundleArtifactType d" "re_digest E = D"
    and registry: "registry_serves R V" "registry_refers R D V" "oras_repository R o' ref = Inr repo" "digests_valid D"
    and json: "rm_unmarshal R j = Some sm" "\<exists>blobs. unmarshal j = Some \<lparr>oa_SchemaVersion = 2, oa_Layers = m_Layers sm, oa_Blobs = blobs\<rparr>"
    and lib: "sg_UnmarshalBundle S d = Inr b" "sg_NewVerifier S tr = None" "sg_Verify S tr identity b raw = None"
    and c: "cl_oci c = oras_client R D o'"
    and req: "pr_Ref req = ref" "pr_Client req = policy_client c" "pr_Subject req = manifest_descriptor D raw"
  shows "\<exists>w'. Sigstore_Evaluate unmarshal S tr identity req w = (None, w')"
proof -
  let ?I = "\<lambda>w. signed_in R D V repo sm raw d j (ow_net w)" and ?subject = "manifest_descriptor D raw"
  let ?layer = "\<lparr>d_MediaType = SigstoreBundleArtifactType, d_Digest = dl_FromBytes D ''sha256'' d, d_Size = int (length d)\<rparr>"
  have layers: "m_Layers sm = [?layer]" "m_ArtifactType sm = SigstoreBundleArtifactType" "m_Subject sm = Some ?subject"
    using sm by (simp_all add: signature_manifest_def from_bytes_def manifest_descriptor_def)
  have valid: "validateDescriptor D (manifest_descriptor D u) = None" "validateDescriptor D ?layer = None" for u
    using validate_sha256 [OF registry(4)] by (simp_all add: manifest_descriptor_def)
  have media: "SigstoreBundleArtifactType \<noteq> MediaTypeImageManifest" "MediaTypeImageManifest \<noteq> []"
    by (simp_all add: SigstoreBundleArtifactType_def MediaTypeImageManifest_def)
  have keep: "?I w'" if "?I w" "pc_FetchDescriptor (pr_Client req) (pr_Ref req) desc w = (x, w')" for desc w x w'
  proof -
    have "FetchDescriptor c ref desc w = (x, w')" using that(2) req by (simp add: policy_client_def)
    from signed_in_view [OF FetchDescriptor_keeps [OF registry(2) c this] that(1)] show ?thesis .
  qed
  obtain rs n' where rs: "rm_Referrers R repo ?subject SigstoreBundleArtifactType (ow_net w) = (Inr rs, n')" "same_view V (ow_net w) n'"
    "manifest_descriptor D j \<in> set rs"
    using refers_Referrers [OF registry(2) _ json(1) layers(3), of "ow_net w" repo ?subject] signed layers(2) by (auto simp: signed_in_def)
  then have referrers: "pc_Referrers (pr_Client req) (pr_Ref req) (pr_Subject req) SigstoreBundleArtifactType w = (Inr rs, w\<lparr>ow_net := n'\<rparr>)"
    using req c valid(1) [of raw] registry(3) media
    by (simp add: policy_client_def Client_Referrers_def oras_client_def oras_Referrers_def with_repo_def on_net_def manifest_descriptor_def)
  have i1: "?I (w\<lparr>ow_net := n'\<rparr>)" using signed_in_view [OF rs(2)] signed by simp
  then obtain w2 where payload: "pc_FetchDescriptor (pr_Client req) (pr_Ref req) (pr_Subject req) (w\<lparr>ow_net := n'\<rparr>) = (Inr raw, w2)"
    using FetchDescriptor_manifest [OF registry(2) c registry(3) valid(1), of raw "w\<lparr>ow_net := n'\<rparr>" raw] req
    by (auto simp: policy_client_def signed_in_def manifest_descriptor_def)
  have found: "\<exists>data w1 w2. pc_FetchDescriptor (pr_Client req) (pr_Ref req) (manifest_descriptor D j) w = (Inr data, w1) \<and>
      verifyBundleData unmarshal S tr identity req data raw w1 = (None, w2)" if i: "?I w" for w
  proof -
    obtain w1 where w1: "pc_FetchDescriptor (pr_Client req) (pr_Ref req) (manifest_descriptor D j) w = (Inr j, w1)"
      using FetchDescriptor_manifest [OF registry(2) c registry(3) valid(1), of j w j] req i
      by (auto simp: policy_client_def signed_in_def manifest_descriptor_def)
    then have "rv_blobs V (ow_net w1) (repo, d_Digest ?layer) = Some d" using keep [OF i w1] by (simp add: signed_in_def)
    from FetchBlob_found [OF registry(1) valid(2) registry(3) this] media obtain r w2 where
      "oras_FetchBlob R D o' ref ?layer w1 = (Inr r, w2)" "delivers r d" by auto
    from FetchDescriptor_reads [OF this c] have "pc_FetchDescriptor (pr_Client req) (pr_Ref req) ?layer w1 = (Inr d, w2)"
      using req by (simp add: policy_client_def)
    moreover have "verifyBundle S tr identity d raw = None" using lib by (simp add: verifyBundle_None)
    ultimately have "verifyBundleData unmarshal S tr identity req j raw w1 = (None, w2)"
      using json(2) layers(1) by (auto simp: verifyBundleData_def parseOCIArtifactLayers_def)
    with w1 show ?thesis by blast
  qed
  have "\<exists>w'. verify_referrers unmarshal S tr identity req raw rs None w2 = (None, w')"
    by (rule verify_referrers_finds [where I = ?I, OF keep found rs(3) keep [OF i1 payload]])
  with referrers payload rs(3) show ?thesis by (auto simp: Sigstore_Evaluate_def)
qed

section \<open>Sign, then fetch\<close>

lemma Sign_steps:
  assumes "Sign E c ref signer w = (Inr x, w')" "parseClientRef E ref = Inr r"
  obtains dgst w1 desc m raw w2 d t w3 where "cr_reference r \<noteq> []" "resolveDigest c ref (cr_reference r) False w = (Inr dgst, w1)"
    "descriptorFromDigest E dgst = Inr desc" "oci_FetchManifest (cl_oci c) ref desc w1 = (Inr (m, raw), w2)"
    "signer raw w2 = (Inr (d, t), w3)" "push_signature E c ref desc raw d t w3 = (Inr x, w')"
proof -
  note sign = assms(1) [unfolded Sign_def assms(2) sum.case]
  have tag: "cr_reference r \<noteq> []" using sign by (auto split: if_split_asm)
  obtain y w1 where y: "resolveDigest c ref (cr_reference r) False w = (y, w1)" by (metis prod.exhaust)
  then obtain dgst where dgst: "y = Inr dgst" using sign tag by (cases y) auto
  obtain desc where desc: "descriptorFromDigest E dgst = Inr desc" using sign tag y dgst by (cases "descriptorFromDigest E dgst") auto
  obtain z w2 where z: "oci_FetchManifest (cl_oci c) ref desc w1 = (z, w2)" by (metis prod.exhaust)
  then obtain m raw where m: "z = Inr (m, raw)" using sign tag y dgst desc by (cases z) auto
  obtain v w3 where v: "signer raw w2 = (v, w3)" by (metis prod.exhaust)
  then obtain d t where "v = Inr (d, t)" using sign tag y dgst desc z m by (cases v) auto
  with that tag y dgst desc z m v sign show ?thesis by simp
qed

text \<open>A plain client with policies finds a tagged manifest as long as they accept it.\<close>

lemma Fetch_accepted:
  fixes E :: "'n oras_world reg_env"
  assumes "registry_serves R V" "digests_valid D" "re_digest E = D" "parseClientRef E ref = Inr r" "oras_repository R o' ref = Inr repo"
    and "cr_reference r \<noteq> []" "\<not> isDigest (cr_reference r)"
    and "rv_tags V (ow_net w) (repo, cr_reference r) = Some (manifest_descriptor D raw)"
    and "rv_manifests V (ow_net w) (repo, dl_FromBytes D ''sha256'' raw) = Some raw" "rm_unmarshal R raw = Some m"
    and "parseBlobManifest E m (dl_FromBytes D ''sha256'' raw) = Inr bm"
    and "c = (plain_client (oras_client R D o'))\<lparr>cl_policies := ps\<rparr>"
    and "\<And>w'. same_view V (ow_net w) (ow_net w') \<Longrightarrow>
      \<exists>w''. run_policies ps (policy_request c ref (dl_FromBytes D ''sha256'' raw) bm raw) w' = (None, w'')"
  shows "\<exists>w''. Fetch E c ref [] w = (Inr bm, w'')"
proof -
  obtain w1 where w1: "oras_Resolve R o' ref (cr_reference r) w = (Inr (manifest_descriptor D raw), w1)" "same_view V (ow_net w) (ow_net w1)"
    using Resolve_found [OF assms(1,5,8)] by blast
  then have "rv_manifests V (ow_net w1) (repo, dl_FromBytes D ''sha256'' raw) = Some raw" using assms(9) by (simp add: same_view_def)
  from FetchManifest_found [OF assms(1,2,5) this assms(10)] obtain w2 where
    w2: "oras_FetchManifest R D o' ref \<lparr>d_MediaType = [], d_Digest = dl_FromBytes D ''sha256'' raw, d_Size = 0\<rparr> w1 = (Inr (m, raw), w2)"
      "same_view V (ow_net w1) (ow_net w2)" by blast
  have c: "cl_oci c = oras_client R D o'" "cl_refCache c = None" "cl_manifestCache c = None" "cl_policies c = ps"
    using assms(12) by (simp_all add: plain_client_def)
  have "resolveDigest c ref (cr_reference r) False w = (Inr (dl_FromBytes D ''sha256'' raw), w1)"
    using assms(7) w1 c by (simp add: resolveDigest_def oras_client_def manifest_descriptor_def)
  moreover have "fetchManifestByDigest E c ref (dl_FromBytes D ''sha256'' raw) False w1 = (Inr (bm, raw, False), w2)"
    using assms(2,3,11) w2 c
    by (simp add: fetchManifestByDigest_def fetch_network_def descriptorFromDigest_def oras_client_def digests_valid_def bindE_def)
  moreover obtain w3 where "evaluatePolicies E c ref (dl_FromBytes D ''sha256'' raw) bm raw w2 = (None, w3)"
    using assms(13) [OF same_view_trans [OF w1(2) w2(2)]] assms(2,3) c
    by (cases "ps = []") (auto simp: evaluatePolicies_def digests_valid_def)
  ultimately show ?thesis using assms(4,6) c by (simp add: Fetch_def fetch_with_def)
qed

end
