(* ===== verification/SigningProperties.thy ===== *)
theory SigningProperties
  imports Signing RegistryProperties
begin

text \<open>
  The property that spans the signer, the registry client, the ORAS client and the Sigstore policy: what was signed is accepted. The
  concrete input is the registry in memory with a list of referrers, and a signature scheme that prefixes the payload.
\<close>

section \<open>Sign, then fetch\<close>

lemma parseBlobManifest_raw: "parseBlobManifest E m dgst = Inr bm \<Longrightarrow> bm_raw bm = m \<and> m_MediaType m = MediaTypeImageManifest"
  by (auto simp: parseBlobManifest_def bindE_def Let_def split: if_splits sum.splits prod.splits option.splits)

text \<open>C8. A manifest signed with a certificate and a log entry is trusted: when \<^verbatim>\<open>Sign\<close> of a tagged manifest reports success, by a signer
  with Fulcio, a source of identity tokens and Rekor, over a registry that keeps what it is given and lists referrers, a client with the Sigstore
  policy and without caches fetches the manifest. The Sigstore library must verify, under the root and the identity of the policy, the bundles
  it makes with a certificate, a token and a log; signing must leave the registry alone and the digests of the stored contents must differ. Nothing is
  said of a signer with a key alone, without certificate and log.\<close>

theorem Sign_Fetch_roundtrip:
  fixes E :: "'n oras_world reg_env"
  assumes sign: "Sign E (plain_client (oras_client R D o')) ref (SignManifest bundle marshal s) w = (Inr x, w')"
    and ref: "re_digest E = D" "parseClientRef E ref = Inr r" "\<not> isDigest (cr_reference r)" "oras_repository R o' ref = Inr repo"
    and pushed: "rv_tags V (ow_net w) (repo, cr_reference r) = Some (manifest_descriptor D raw)"
      "rv_manifests V (ow_net w) (repo, dl_FromBytes D ''sha256'' raw) = Some raw" "rm_unmarshal R raw = Some m"
      "parseBlobManifest E m (dl_FromBytes D ''sha256'' raw) = Inr bm"
    and registry: "registry_keeps R V" "registry_serves R V" "registry_refers R D V" "digests_valid D"
    and json: "\<forall>m j. rm_marshal R m = Inr j \<longrightarrow> rm_unmarshal R j = Some m \<and>
      (\<exists>blobs. unmarshal j = Some \<lparr>oa_SchemaVersion = m_SchemaVersion m, oa_Layers = m_Layers m, oa_Blobs = blobs\<rparr>)"
    and signer: "\<forall>v y v'. SignManifest bundle marshal s raw v = (y, v') \<longrightarrow> same_view V (ow_net v) (ow_net v')"
      "bo_CertificateProvider (sn_opts s) \<noteq> None" "sn_tokenProvider s \<noteq> None" "bo_TransparencyLogs (sn_opts s) \<noteq> []"
    and lib: "\<forall>opts v b v' d. keyless opts \<longrightarrow> bundle raw (sn_keypair s) opts v = (Inr b, v') \<longrightarrow> marshal b = Inr d \<longrightarrow>
      (\<exists>b'. sg_UnmarshalBundle S d = Inr b' \<and> sg_Verify S tr identity b' raw = None)" "sg_NewVerifier S tr = None"
    and fresh: "\<forall>v d t v'. SignManifest bundle marshal s raw v = (Inr (d, t), v') \<longrightarrow> from_bytes E d \<noteq> from_bytes E (to_bytes ''{}'')"
      "\<forall>m j. rm_marshal R m = Inr j \<longrightarrow> m_Subject m \<noteq> None \<longrightarrow> dl_FromBytes D ''sha256'' j \<noteq> dl_FromBytes D ''sha256'' raw"
  shows "\<exists>w''. Fetch E ((plain_client (oras_client R D o'))\<lparr>cl_policies := [Sigstore_Evaluate unmarshal S tr identity]\<rparr>) ref [] w' = (Inr bm, w'')"
proof -
  let ?c = "plain_client (oras_client R D o')" and ?dgst = "dl_FromBytes D ''sha256'' raw"
  have c: "cl_oci ?c = oras_client R D o'" "cl_refCache ?c = None" by (simp_all add: plain_client_def)
  obtain w1 where w1: "oras_Resolve R o' ref (cr_reference r) w = (Inr (manifest_descriptor D raw), w1)" "same_view V (ow_net w) (ow_net w1)"
    using Resolve_found [OF registry(2) ref(4) pushed(1)] by blast
  then have "rv_manifests V (ow_net w1) (repo, ?dgst) = Some raw" using pushed(2) by (simp add: same_view_def)
  from FetchManifest_found [OF registry(2,4) ref(4) this pushed(3)] obtain w2 where
    w2: "oras_FetchManifest R D o' ref \<lparr>d_MediaType = [], d_Digest = ?dgst, d_Size = 0\<rparr> w1 = (Inr (m, raw), w2)"
      "same_view V (ow_net w1) (ow_net w2)" by blast
  have resolve: "resolveDigest ?c ref (cr_reference r) False w = (Inr ?dgst, w1)"
    using ref(3) w1 c by (simp add: resolveDigest_def oras_client_def manifest_descriptor_def)
  have desc: "descriptorFromDigest E ?dgst = Inr \<lparr>d_MediaType = [], d_Digest = ?dgst, d_Size = 0\<rparr>"
    using registry(4) ref(1) by (simp add: descriptorFromDigest_def digests_valid_def)
  have oci: "oci_FetchManifest (cl_oci ?c) = oras_FetchManifest R D o'" by (simp add: plain_client_def oras_client_def)
  obtain d t w3 where s: "cr_reference r \<noteq> []" "SignManifest bundle marshal s raw w2 = (Inr (d, t), w3)"
    "push_signature E ?c ref \<lparr>d_MediaType = [], d_Digest = ?dgst, d_Size = 0\<rparr> raw d t w3 = (Inr x, w')"
    by (rule Sign_steps [OF sign ref(2)]) (use resolve desc w2(1) oci in auto)
  obtain opts v b where b: "bundle raw (sn_keypair s) opts v = (Inr b, w3)" "marshal b = Inr d" "t = SigstoreBundleArtifactType" "keyless opts"
    using SignManifest_Inr [OF s(2)] signing_options_keyless [OF signer(2-4)] by blast
  have view: "same_view V (ow_net w) (ow_net w3)" using w1(2) w2(2) signer(1) s(2) same_view_trans by metis
  have t: "t \<noteq> MediaTypeImageManifest" unfolding b(3) by (simp add: SigstoreBundleArtifactType_def MediaTypeImageManifest_def)
  have "rv_manifests V (ow_net w3) (repo, ?dgst) = Some raw" using pushed(2) view by (simp add: same_view_def)
  from push_signature_signed [OF s(3) c(1) ref(1) registry(1,3) ref(4) this _ t _ fresh(2)] fresh(1) s(2) obtain j where
    j: "signed_in R D V repo (signature_manifest E ?dgst raw t d) raw d j (ow_net w')" "rv_tags V (ow_net w') = rv_tags V (ow_net w3)" by auto
  have marshal: "rm_marshal R (signature_manifest E ?dgst raw t d) = Inr j" using j(1) by (simp add: signed_in_def)
  have "m_SchemaVersion (signature_manifest E ?dgst raw t d) = 2" by (simp add: signature_manifest_def)
  then have json': "rm_unmarshal R j = Some (signature_manifest E ?dgst raw t d)"
    "\<exists>blobs. unmarshal j = Some \<lparr>oa_SchemaVersion = 2, oa_Layers = m_Layers (signature_manifest E ?dgst raw t d), oa_Blobs = blobs\<rparr>"
    using json marshal by metis+
  obtain b' where b': "sg_UnmarshalBundle S d = Inr b'" "sg_Verify S tr identity b' raw = None" using lib(1) b(1,2,4) by blast
  let ?p = "?c\<lparr>cl_policies := [Sigstore_Evaluate unmarshal S tr identity]\<rparr>"
  have p: "cl_oci ?p = oras_client R D o'" by (simp add: plain_client_def)
  let ?req = "policy_request ?p ref ?dgst bm raw"
  have req: "pr_Ref ?req = ref" "pr_Client ?req = policy_client ?p" "pr_Subject ?req = manifest_descriptor D raw"
    using parseBlobManifest_raw [OF pushed(4)] by (simp_all add: policy_request_def manifest_descriptor_def)
  have accept: "\<exists>w''. run_policies [Sigstore_Evaluate unmarshal S tr identity] ?req v = (None, w'')"
    if view: "same_view V (ow_net w') (ow_net v)" for v
  proof -
    have "signature_manifest E ?dgst raw t d = signature_manifest E ?dgst raw SigstoreBundleArtifactType d" unfolding b(3) ..
    with signed_in_view [OF view j(1)] have "\<exists>w''. Sigstore_Evaluate unmarshal S tr identity ?req v = (None, w'')"
      using ref(1) registry(2,3) ref(4) registry(4) json' b'(1) lib(2) b'(2) p req by (rule Sigstore_accepts)
    then show ?thesis by auto
  qed
  have there: "rv_tags V (ow_net w') (repo, cr_reference r) = Some (manifest_descriptor D raw)"
    "rv_manifests V (ow_net w') (repo, ?dgst) = Some raw"
    using pushed(1) j view by (simp_all add: same_view_def signed_in_def)
  show ?thesis by (rule Fetch_accepted [OF registry(2,4) ref(1,2,4) s(1) ref(3) there pushed(3,4) refl accept])
qed

section \<open>A concrete signature\<close>

text \<open>A bundle starts with a nine when it has a certificate and a log entry, and only then it is verified.\<close>

definition demo_bundle :: "bytes \<Rightarrow> (unit, unit) Keypair option \<Rightarrow> BundleOptions \<Rightarrow> 'w \<Rightarrow> bytes res \<times> 'w" where
  "demo_bundle payload kp opts w = (Inr ((if keyless opts then 9 else 8) # payload), w)"

definition demo_sigstore :: "(unit, bytes) sigstore_lib" where
  "demo_sigstore =
     \<lparr>sg_FetchTrustedRoot = Inr (), sg_TrustedRootFromPath = (\<lambda>_. Inr ()), sg_UnmarshalBundle = Inr, sg_NewVerifier = (\<lambda>_. None),
      sg_Verify = (\<lambda>_ _ b payload. if b = 9 # payload then None else Some demo_missing), sg_NewIdentity = (\<lambda>_. None)\<rparr>"

definition demo_signer :: "(unit, unit, 'w) Signer" where
  "demo_signer = \<lparr>sn_keypair = Some (Ephemeral ()),
     sn_opts = \<lparr>bo_CertificateProvider = Some ''https://fulcio'', bo_IDToken = None, bo_TransparencyLogs = [''https://rekor'']\<rparr>,
     sn_tokenProvider = Some (\<lambda>w. (Inr ''token'', w))\<rparr>"

lemma demo_NewSigner:
  "NewSigner [WithEphemeralKey (Inr ()), WithFulcio ''https://fulcio'', WithIDToken ''token'', WithRekor ''https://rekor''] = Inr demo_signer"
  by (simp add: NewSigner_def WithEphemeralKey_def WithFulcio_def WithIDToken_def WithRekor_def bindE_def demo_signer_def)

abbreviation demo_sha :: "bytes \<Rightarrow> string" where
  "demo_sha \<equiv> dl_FromBytes demo_digest ''sha256''"

definition demo_sig_manifest :: Manifest where
  "demo_sig_manifest =
     signature_manifest (demo_reg :: unit reg_env) (demo_sha [1, 2, 3]) [1, 2, 3] SigstoreBundleArtifactType [9, 1, 2, 3]"

text \<open>The registry in memory, with manifests fetched by descriptor and a list of referrers.\<close>

definition sign_remote :: "mem_net remote_lib" where
  "sign_remote = (mem_remote (\<lambda>n. n) (\<lambda>f. f) demo_manifest)
     \<lparr>rm_Fetch := (\<lambda>repo desc n.
        (case (if d_MediaType desc = MediaTypeImageManifest then me_manifests n else me_blobs n) (repo, d_Digest desc) of
           Some d \<Rightarrow> Inr (bytes_NewReader d) | None \<Rightarrow> Inl demo_missing, n)),
      rm_Referrers := (\<lambda>repo desc t n.
        (Inr (if d_Digest desc = demo_sha [1, 2, 3] \<and> t = SigstoreBundleArtifactType \<and> me_manifests n (repo, demo_sha [4, 5]) = Some [4, 5]
              then [manifest_descriptor demo_digest [4, 5]] else []), n)),
      rm_marshal := (\<lambda>x. if x = demo_manifest then Inr [1, 2, 3] else if x = demo_sig_manifest then Inr [4, 5] else Inl demo_missing),
      rm_unmarshal := (\<lambda>d. if d = [1, 2, 3] then Some demo_manifest else if d = [4, 5] then Some demo_sig_manifest else None)\<rparr>"

definition demo_artifact :: "bytes \<Rightarrow> ociArtifactManifest option" where
  "demo_artifact d =
     map_option (\<lambda>m. \<lparr>oa_SchemaVersion = m_SchemaVersion m, oa_Layers = m_Layers m, oa_Blobs = []\<rparr>) (rm_unmarshal sign_remote d)"

lemma demo_subjects:
  "m_Subject demo_manifest = None" "m_Subject demo_sig_manifest = Some (manifest_descriptor demo_digest [1, 2, 3])"
  "m_ArtifactType demo_sig_manifest = SigstoreBundleArtifactType"
  by (simp_all add: demo_manifest_def buildManifest_def Let_def demo_sig_manifest_def signature_manifest_def manifest_descriptor_def)

lemma demo_digests_differ: "demo_sha [4, 5] \<noteq> demo_sha [1, 2, 3]" "demo_sha [9, 1, 2, 3] \<noteq> demo_sha (to_bytes ''{}'')"
  by code_simp+

lemma sign_registry:
  "registry_keeps sign_remote (mem_view (\<lambda>n. n))" "registry_serves sign_remote (mem_view (\<lambda>n. n))"
  "registry_refers sign_remote demo_digest (mem_view (\<lambda>n. n))"
proof -
  show "registry_keeps sign_remote (mem_view (\<lambda>n. n))" "registry_serves sign_remote (mem_view (\<lambda>n. n))"
    using mem_registry [of "\<lambda>n. n" "\<lambda>f. f" demo_manifest]
    by (auto simp: registry_keeps_def registry_serves_def same_view_def sign_remote_def mem_remote_def mem_view_def bytes_NewReader_ok)
  show "registry_refers sign_remote demo_digest (mem_view (\<lambda>n. n))"
    unfolding registry_refers_def
    by (auto simp: sign_remote_def mem_remote_def mem_view_def mem_push_def same_view_def bytes_NewReader_ok demo_subjects manifest_descriptor_def
        split: sum.splits if_splits)
qed

definition sign_client :: "mem_net oras_world Client" where
  "sign_client = plain_client (oras_client sign_remote demo_digest (fst (oras_New [])))"

definition demo_signed :: "string res \<times> mem_net oras_world" where
  "demo_signed = Sign demo_reg sign_client ''host/repo:latest'' (SignManifest demo_bundle Inr demo_signer) demo_pushed"

theorem Sign_Fetch_roundtrip_witness:
  "\<exists>bm w''. Fetch demo_reg (sign_client\<lparr>cl_policies := [Sigstore_Evaluate demo_artifact demo_sigstore () None]\<rparr>) ''host/repo:latest'' []
     (snd demo_signed) = (Inr bm, w'')"
proof -
  have "case fst demo_signed of Inl _ \<Rightarrow> False | Inr _ \<Rightarrow> True" by code_simp
  then obtain x where x: "Sign demo_reg (plain_client (oras_client sign_remote demo_digest (fst (oras_New [])))) ''host/repo:latest''
      (SignManifest demo_bundle Inr demo_signer) demo_pushed = (Inr x, snd demo_signed)"
    by (cases "fst demo_signed") (auto simp: demo_signed_def sign_client_def prod_eq_iff)
  let ?repo = "\<lparr>rp_ref = ''host/repo:latest'', rp_PlainHTTP = False\<rparr>"
  have repo: "oras_repository sign_remote (fst (oras_New [])) ''host/repo:latest'' = Inr ?repo" by code_simp
  have parsed: "case parseClientRef (demo_reg :: mem_net oras_world reg_env) ''host/repo:latest'' of
      Inl _ \<Rightarrow> False | Inr r \<Rightarrow> cr_reference r = ''latest'' \<and> \<not> isDigest (cr_reference r)" by code_simp
  then obtain r where r: "parseClientRef (demo_reg :: mem_net oras_world reg_env) ''host/repo:latest'' = Inr r" "cr_reference r = ''latest''"
    "\<not> isDigest (cr_reference r)" by (auto split: sum.splits)
  have "me_tags (ow_net demo_pushed) (?repo, ''latest'') = Some (manifest_descriptor demo_digest [1, 2, 3])" by code_simp
  then have tag: "rv_tags (mem_view (\<lambda>n. n)) (ow_net demo_pushed) (?repo, cr_reference r) = Some (manifest_descriptor demo_digest [1, 2, 3])"
    by (simp add: mem_view_def r(2))
  have "me_manifests (ow_net demo_pushed) (?repo, demo_sha [1, 2, 3]) = Some [1, 2, 3]" by code_simp
  then have man: "rv_manifests (mem_view (\<lambda>n. n)) (ow_net demo_pushed) (?repo, demo_sha [1, 2, 3]) = Some [1, 2, 3]"
    by (simp add: mem_view_def)
  have un: "rm_unmarshal sign_remote [1, 2, 3] = Some demo_manifest" by (simp add: sign_remote_def)
  have "case parseBlobManifest (demo_reg :: mem_net oras_world reg_env) demo_manifest (demo_sha [1, 2, 3]) of Inl _ \<Rightarrow> False | Inr _ \<Rightarrow> True"
    by code_simp
  then obtain bm where bm: "parseBlobManifest (demo_reg :: mem_net oras_world reg_env) demo_manifest (demo_sha [1, 2, 3]) = Inr bm"
    by (auto split: sum.splits)
  have D: "re_digest (demo_reg :: mem_net oras_world reg_env) = demo_digest" by (simp add: demo_reg_def)
  have json: "\<forall>m j. rm_marshal sign_remote m = Inr j \<longrightarrow> rm_unmarshal sign_remote j = Some m \<and>
      (\<exists>blobs. demo_artifact j = Some \<lparr>oa_SchemaVersion = m_SchemaVersion m, oa_Layers = m_Layers m, oa_Blobs = blobs\<rparr>)"
    by (auto simp: demo_artifact_def sign_remote_def)
  have signer: "SignManifest demo_bundle Inr demo_signer [1, 2, 3] v = (Inr ([9, 1, 2, 3], SigstoreBundleArtifactType), v)" for v :: "mem_net oras_world"
    by (simp add: SignManifest_def Signer_Sign_def signing_options_def demo_signer_def demo_bundle_def keyless_def)
  have opts: "bo_CertificateProvider (sn_opts demo_signer) \<noteq> None" "sn_tokenProvider demo_signer \<noteq> None" "bo_TransparencyLogs (sn_opts demo_signer) \<noteq> []"
    by (simp_all add: demo_signer_def)
  have fresh: "\<forall>m j. rm_marshal sign_remote m = Inr j \<longrightarrow> m_Subject m \<noteq> None \<longrightarrow> demo_sha j \<noteq> demo_sha [1, 2, 3]"
    using demo_digests_differ(1) by (auto simp: sign_remote_def demo_subjects)
  have "\<exists>w''. Fetch demo_reg ((plain_client (oras_client sign_remote demo_digest (fst (oras_New []))))
      \<lparr>cl_policies := [Sigstore_Evaluate demo_artifact demo_sigstore () None]\<rparr>) ''host/repo:latest'' [] (snd demo_signed) = (Inr bm, w'')"
    by (rule Sign_Fetch_roundtrip [OF x D r(1,3) repo tag man un bm sign_registry demo_digests_valid json _ opts _ _ _ fresh])
      (use demo_digests_differ(2) in \<open>simp_all add: signer demo_bundle_def demo_sigstore_def from_bytes_def D\<close>)
  then show ?thesis unfolding sign_client_def by (rule exI)
qed

end
