(* ===== verification/Spec2Isabelle.thy ===== *)
theory Spec2Isabelle
  imports Prelude Texts Sizing Paths Entries ArchiveIndex Streams FileReader FileHandle Batch Workers Filesystem FileSink Pipeline
    ContentCache DiskCache DiskLimits BlockCache BlobFS BlobCopy Create Archives HttpSource
    RegistryCache OciTypes RegistryClient AuthCache OrasClient RegistryRoundtrip
    Attestations PolicySlsa PolicyOpa GittufCache PolicyGittuf PolicySigstore SigstoreSigner BlobClient
    Examples CacheProperties BlobProperties ArchiveProperties HttpProperties RegistryProperties PolicyProperties ClientProperties Signing SigningProperties
begin

text \<open>
  A verification library for \<^verbatim>\<open>blob\<close>, a Go library that stores a directory tree as an OCI artifact of two blobs: an index
  (paths, sizes, hashes, offsets, sorted by path) and the concatenated, possibly compressed file data.

  \<^bold>\<open>The parts of the program and how they interact.\<close>
  The package \<^verbatim>\<open>core\<close> creates an archive from a directory (\<^verbatim>\<open>create.go\<close>), opens one from bytes, files or an HTTP server
  (\<^verbatim>\<open>blob.go\<close>, \<^verbatim>\<open>file.go\<close>, \<^verbatim>\<open>http/source.go\<close>) and reads it as a file system: \<^verbatim>\<open>internal/index\<close> finds entries,
  \<^verbatim>\<open>internal/file\<close> reads and verifies one entry, \<^verbatim>\<open>internal/batch\<close> extracts many entries into a sink, \<^verbatim>\<open>cache\<close> and
  \<^verbatim>\<open>cache/disk\<close> keep verified content by hash and blocks of a remote source. The package \<^verbatim>\<open>registry\<close> moves archives to and from an
  OCI registry through the interface \<^verbatim>\<open>OCIClient\<close>, which \<^verbatim>\<open>registry/oras\<close> implements, with caches of references, manifests and
  indexes (\<^verbatim>\<open>registry/cache/disk\<close>), and asks policies (\<^verbatim>\<open>policy/slsa\<close>, \<^verbatim>\<open>policy/opa\<close>, \<^verbatim>\<open>policy/gittuf\<close>,
  \<^verbatim>\<open>policy/sigstore\<close>) whether a manifest is trusted. The package \<^verbatim>\<open>blob\<close> at the root is the client that configures all of these.

  \<^bold>\<open>Which theory models what.\<close>
  \<^item> \<^verbatim>\<open>Prelude\<close>: machine integers, the error values, contexts, results, the functions of \<^verbatim>\<open>strings\<close> and \<^verbatim>\<open>sort\<close> the code
    uses, the collections of rewrite rules. \<^verbatim>\<open>Texts\<close>: hexadecimal and decimal numerals, \<^verbatim>\<open>ParseInt\<close>, \<^verbatim>\<open>Trim\<close>.
  \<^item> \<^verbatim>\<open>Sizing\<close> (\<^verbatim>\<open>core/internal/sizing\<close>), \<^verbatim>\<open>Paths\<close> (\<^verbatim>\<open>core/path.go\<close>, \<^verbatim>\<open>core/internal/file/path.go\<close>),
    \<^verbatim>\<open>Entries\<close> (\<^verbatim>\<open>core/internal/blobtype\<close>), \<^verbatim>\<open>ArchiveIndex\<close> (\<^verbatim>\<open>core/internal/index\<close>, \<^verbatim>\<open>core/index_view.go\<close>).
  \<^item> \<^verbatim>\<open>Streams\<close>: readers and writers of \<^verbatim>\<open>io\<close> as states that are passed on, \<^verbatim>\<open>copy.go\<close>, \<^verbatim>\<open>counting.go\<close>,
    \<^verbatim>\<open>hasher.go\<close>. \<^verbatim>\<open>FileReader\<close> (\<^verbatim>\<open>validation.go\<close>, \<^verbatim>\<open>decompress.go\<close>, \<^verbatim>\<open>reader.go\<close>) and \<^verbatim>\<open>FileHandle\<close>
    (\<^verbatim>\<open>file.go\<close>) of \<^verbatim>\<open>core/internal/file\<close>: one entry read as a whole, or as an open file with its state machine.
  \<^item> \<^verbatim>\<open>Batch\<close> (\<^verbatim>\<open>core/internal/batch/batch.go\<close>, \<^verbatim>\<open>group.go\<close>: one entry and one group by one goroutine), \<^verbatim>\<open>Workers\<close>
    (the workers of \<^verbatim>\<open>batch.go\<close>, which interleave inside an entry, and the loop over the groups),
    \<^verbatim>\<open>Filesystem\<close> (the operating system calls, each of which may be made to fail), \<^verbatim>\<open>FileSink\<close> (\<^verbatim>\<open>filesink.go\<close>), \<^verbatim>\<open>Pipeline\<close> (the goroutines of the read-ahead pipeline as a step
    relation over the channel, the semaphore and the results).
  \<^item> \<^verbatim>\<open>ContentCache\<close> (\<^verbatim>\<open>core/cache/cache.go\<close>, \<^verbatim>\<open>core/cache_support.go\<close>), \<^verbatim>\<open>DiskCache\<close> and \<^verbatim>\<open>DiskLimits\<close>
    (\<^verbatim>\<open>core/cache/disk/cache.go\<close>, \<^verbatim>\<open>size.go\<close>), \<^verbatim>\<open>BlockCache\<close> (\<^verbatim>\<open>core/cache/disk/blockcache.go\<close>).
  \<^item> \<^verbatim>\<open>BlobFS\<close> and \<^verbatim>\<open>BlobCopy\<close> (\<^verbatim>\<open>core/blob.go\<close>, \<^verbatim>\<open>core/save.go\<close>, \<^verbatim>\<open>core/file.go\<close>), \<^verbatim>\<open>Create\<close> and
    \<^verbatim>\<open>Archives\<close> (\<^verbatim>\<open>core/create.go\<close>, \<^verbatim>\<open>core/internal/write\<close>, and what an archive of a tree is), \<^verbatim>\<open>HttpSource\<close>
    (\<^verbatim>\<open>core/http/source.go\<close>).
  \<^item> \<^verbatim>\<open>RegistryCache\<close> (\<^verbatim>\<open>registry/cache/disk\<close>), \<^verbatim>\<open>OciTypes\<close> (descriptors, manifests, the interfaces and errors of
    \<^verbatim>\<open>registry\<close>), \<^verbatim>\<open>RegistryClient\<close> (the operations of \<^verbatim>\<open>registry.Client\<close>), \<^verbatim>\<open>AuthCache\<close> and \<^verbatim>\<open>OrasClient\<close>
    (\<^verbatim>\<open>registry/oras\<close>), \<^verbatim>\<open>RegistryRoundtrip\<close> (what a registry has to keep, and that a push is then found again).
  \<^item> \<^verbatim>\<open>Attestations\<close> (\<^verbatim>\<open>policy/policy.go\<close> and what the policies share), \<^verbatim>\<open>PolicySlsa\<close>, \<^verbatim>\<open>PolicyOpa\<close>,
    \<^verbatim>\<open>GittufCache\<close> (the clones of \<^verbatim>\<open>policy/gittuf/cache.go\<close>), \<^verbatim>\<open>PolicyGittuf\<close>, \<^verbatim>\<open>PolicySigstore\<close>,
    \<^verbatim>\<open>SigstoreSigner\<close> (keys, identity tokens and the signer of \<^verbatim>\<open>policy/sigstore\<close>), \<^verbatim>\<open>Signing\<close> (the signer and the policy over
    one registry); \<^verbatim>\<open>BlobClient\<close> (the package at the root and the options of \<^verbatim>\<open>registry\<close>).
  \<^item> \<^verbatim>\<open>Examples\<close> holds the concrete inputs; the theories named \<^verbatim>\<open>...Properties\<close> and this one hold the properties.

  \<^bold>\<open>How state and operations correspond to the code.\<close> A struct is a record, a method a function that takes the receiver and returns it
  updated, an error a value of the sum type of results or an optional error beside the result where Go returns both. The disk is one value with
  files, handles and a list of faults, so that every \<^verbatim>\<open>os\<close> call can fail; the registry and the clock are a value of a type parameter that
  the client threads through its calls. Integers have the width of the code: \<^verbatim>\<open>uint64\<close> is a word, \<^verbatim>\<open>int64\<close> and \<^verbatim>\<open>int\<close> are integers
  with the wrap-around written out where the code can reach it. Functional options are functions on the configuration, applied in order.
  Mutexes make an operation one step. Where goroutines interleave and the outcome could depend on it, the model has a schedule or a step
  relation, and the properties hold for all of them. The workers of a batch have a schedule of their own for each group; a step of a worker is
  one call on the sink (\<^verbatim>\<open>Writer\<close>, \<^verbatim>\<open>Write\<close>, \<^verbatim>\<open>Commit\<close>, \<^verbatim>\<open>Discard\<close>, \<^verbatim>\<open>PutBuffered\<close>) or one access to the variables they share, so several
  entries are under way at once, each with its temporary file, and an entry under way when another fails is carried to its end. A worker
  that runs alone is \<^verbatim>\<open>processEntry\<close> (\<open>processEntry_runs\<close>). The pipeline is a step relation of its producer, readers and consumer.

  \<^bold>\<open>What the groups of lemmas show.\<close>
  Extraction: no run damages a file, success means that everything is there and verified, the pipeline refines the sequential loop, and the
  case in which it never ends. Reads: what is returned has the recorded hash, for every source; on a healthy source it is the right
  slice. Index: binary search and prefix scan are membership and filter. Caches: contents stay sound and within limits under faults, the block
  cache is invisible. Creation: the layout of the data, validity of the entries, the round trip through reading, and the trees for which the
  index is not sorted. HTTP: over a server of the blob the source reads, through its range requests, like the blob. Registry: what \<^verbatim>\<open>Fetch\<close> and \<^verbatim>\<open>Pull\<close> return has the
  digest it claims, whatever registry and caches hold; the header cache refines a bounded LRU list; pushing then inspecting gives back
  the tree, and pushing, pulling and reading the content of its files, over HTTP, for a client without caches and policies. Policies: what
  acceptance means for each of them, in terms of the bytes of the attached referrers as the registry listed and served them for the subject
  of the request (\<open>client_run\<close>, \<open>referrer_data\<close>, \<open>attestation_data\<close>), and that a manifest signed with a certificate and a log entry is accepted. Clones: what the cache returns was
  cloned for the URL, eviction removes the entries used longest ago, and how expiry behaves.

  The contracts between components are locales: \<^verbatim>\<open>archive_index\<close> (what a blob needs of the index; interpreted on \<^verbatim>\<open>ArchiveIndex\<close>),
  \<^verbatim>\<open>staging_sink\<close> and its extension \<^verbatim>\<open>atomic_sink\<close> (what the processor needs of a sink: a writer touches only what it stages until it
  is committed, and stages under names reserved for it, which is what keeps interleaved workers apart; interpreted on the file sink),
  \<^verbatim>\<open>content_cache\<close> (what a blob needs of a cache; interpreted on the disk cache) and \<^verbatim>\<open>verified_manifests\<close> (what the registry
  client needs of the OCI client and the manifest cache; interpreted on the ORAS client with the disk cache, and without a cache).

  \<^bold>\<open>Bounds and fuel.\<close> Loops are structural recursion or recursion with a measure. Reading a stream ends because a reader is a finite list
  of answers. The only retry that could go on, of a conditional HTTP request, is made as often as the code makes it. No definition is
  cut off by fuel. The pipeline, which may wait for ever, is a relation, and that it does so is proved.

  \<^bold>\<open>Parameters.\<close> SHA-256, zstd, the FlatBuffers byte layout, JSON, base64, the digest library, the ORAS library and the remote registry, the Rego
  engine, gittuf and Sigstore are arguments. The cryptographic packages, the library that clones a repository
  and the environment of the process are arguments too. Where a property needs something of them, it is a hypothesis: that decoding inverts
  encoding, that digests are well formed, that a registry keeps what it accepted and serves it by URL, that a bundle verifies that was made for a payload.

  \<^bold>\<open>Not modelled.\<close> Progress callbacks and logging, which change nothing; generated accessors beyond the values they return;
  the platform calls other than on Linux; a floating-point ratio for display; tests, mocks and
  examples.
\<close>

section \<open>Extraction\<close>

text \<open>C1. Extraction through temporary files never damages a destination: whatever errors occur, in whatever order the
  readers run and however the workers interleave from one call on the sink to the next, a file that was there before a
  batch has its old content or content verified for an entry with this destination. Unless the processor works serially,
  the random names of the temporary files must differ from the names of the entries.\<close>

theorem extract_keeps_files:
  assumes "Process sha256 Z mp sched SortFunc p (file_sink (atomic fsk)) entries s ((st, x), s')"
    and "sorts_by_offset SortFunc" and "pr_workers p < 0 \<or> (\<forall>e\<in>set entries. sink_dest (atomic fsk) e \<notin> temp_names s)" and "fs_content s q = Some c"
  shows "fs_content s' q = Some c \<or>
    (\<exists>e\<in>set entries. sink_dest (atomic fsk) e = q \<and>
       (\<exists>c'. fs_content s' q = Some c' \<and> sha256 c' = Hash e \<and> int (length c') = uint (OriginalSize e)))"
proof -
  have "pr_workers p < 0 \<or> temp_names s \<inter> sink_dest (atomic fsk) ` set entries = {}" using assms(3) by blast
  from fsink.Process_keeps [OF assms(1,2) this] assms(4) show ?thesis unfolding keeps_def written_def verified_def by blast
qed

theorem extract_keeps_files_witness:
  "fs_content (snd demo_run) ''out/x'' = Some [7]"
proof -
  have "fs_content demo_fs ''out/x'' = Some [7]" by (simp add: fs_content_def demo_fs_def)
  moreover have "sink_dest (atomic demo_sink) demo_b = ''out/b''" "sink_dest (atomic demo_sink) demo_a = ''out/a''"
    by code_simp+
  ultimately show ?thesis using extract_keeps_files [OF demo_process demo_sorts disjI2 [OF demo_names], of "''out/x''" "[7]"] by auto
qed

text \<open>C9. A batch that reports success has extracted every selected entry: the count is right and
  the destination of each holds content with the recorded hash and size, however the workers interleave from one call on the
  sink to the next. Unless the processor works serially, the random names of the temporary files must differ from the names of the entries.\<close>

theorem extract_complete:
  assumes "Process sha256 Z mp sched SortFunc p (file_sink (atomic fsk)) entries s ((st, None), s')"
    and "sorts_by_offset SortFunc" and "pr_workers p < 0 \<or> (\<forall>e\<in>set entries. sink_dest (atomic fsk) e \<notin> temp_names s)"
  defines "toProcess \<equiv> filter (ShouldProcess (atomic fsk) s) entries"
  shows "Processed st = int (length toProcess) \<and>
    (\<forall>e\<in>set toProcess. \<exists>e'\<in>set toProcess. sink_dest (atomic fsk) e' = sink_dest (atomic fsk) e \<and>
       (\<exists>c. fs_content s' (sink_dest (atomic fsk) e) = Some c \<and>
          sha256 c = Hash e' \<and> int (length c) = uint (OriginalSize e')))"
proof -
  have "pr_workers p < 0 \<or> temp_names s \<inter> sink_dest (atomic fsk) ` set entries = {}" using assms(3) by blast
  from fsink.Process_ok [OF assms(1,2) this] show ?thesis unfolding toProcess_def written_def verified_def
    by (fastforce simp: file_sink_def)
qed

theorem extract_complete_witness:
  "\<exists>c. fs_content (snd demo_run) ''out/b'' = Some c \<and> demo_hash c = Hash demo_b"
proof -
  have d: "sink_dest (atomic demo_sink) demo_b = ''out/b''" "sink_dest (atomic demo_sink) demo_a = ''out/a''"
    "filter (ShouldProcess (atomic demo_sink) demo_fs) [demo_b, demo_a] = [demo_b, demo_a]"
    by code_simp+
  from extract_complete [OF demo_process demo_sorts disjI2 [OF demo_names]] show ?thesis unfolding d(3) using d(1,2) by auto
qed

text \<open>C10. The read-ahead pipeline is a refinement of the sequential loop: a run that reports no error
  leaves the same statistics and the same destination.\<close>

theorem pipelined_refines_sequential:
  assumes "processGroupsPipelined sha256 Z mp sched p S groups s ((st, None), s')"
  shows "processGroupsSequential sha256 Z mp sched p S no_stats groups s = ((st, None), s')"
  using pipelined_prefix [OF assms] by auto

theorem pipelined_refines_sequential_witness:
  "processGroupsSequential demo_hash demo_zstd 1 demo_sched demo_proc (file_sink (atomic demo_sink)) no_stats demo_groups demo_fs =
     ((fst (fst demo_run), None), snd demo_run)"
proof (rule pipelined_refines_sequential, rule pipelined_can_finish)
  show "processGroupsSequential demo_hash demo_zstd 1 demo_sched demo_proc (file_sink (atomic demo_sink)) no_stats demo_groups demo_fs =
     ((fst (fst demo_run), None), snd demo_run)"
    using demo_run_result by (simp add: demo_run_def prod_eq_iff)
  show "demo_groups \<noteq> []" "pipe_budget demo_proc = Inr None"
    by (simp_all add: demo_groups_def pipe_budget_def demo_proc_def NewProcessor_def WithWorkers_def)
  show "\<forall>g\<in>set demo_groups. \<exists>n. groupSize g = Inr n"
    by (simp add: demo_groups_def groupSize_def ToInt64_def MaxInt64_def)
qed simp

text \<open>C34. The read-ahead budget can stop the pipeline for ever: if the first group is larger than the
  budget and nothing fails, no run of the pipeline returns.\<close>

theorem readahead_budget_deadlock:
  assumes "pipe_budget p = Inr (Some limit)" "groups \<noteq> []" "groupSize (groups ! 0) = Inr n" "limit < n"
    and "\<forall>g\<in>set groups. (\<exists>d. readGroupData p g = Inr d) \<and> (\<exists>m. groupSize g = Inr m)"
  shows "\<not> (\<exists>r. processGroupsPipelined sha256 Z mp sched p S groups s r)"
proof
  assume "\<exists>r. processGroupsPipelined sha256 Z mp sched p S groups s r"
  then obtain st where run: "(pipe_step sha256 Z mp sched p S groups)\<^sup>*\<^sup>* (pipe_init p (Some limit) s) st" "pipe_final st"
    using assms(1,2) by (auto elim!: processGroupsPipelined.cases)
  have "group_sz groups 0 > limit" using assms(3,4) by (simp add: group_sz_def)
  with pipe_blocked_reach [OF run(1) _ assms(2)] assms(5) run(2) pipe_blocked_not_final show False by blast
qed

theorem readahead_budget_deadlock_witness:
  "\<not> (\<exists>r. processGroupsPipelined demo_hash demo_zstd 1 demo_sched (WithReadAheadBytes 1 demo_proc) (file_sink (atomic demo_sink))
     demo_groups demo_fs r)"
proof (rule readahead_budget_deadlock)
  show "pipe_budget (WithReadAheadBytes 1 demo_proc) = Inr (Some 1)"
    by (simp add: pipe_budget_def WithReadAheadBytes_def ToInt64_def MaxInt64_def)
  show "groupSize (demo_groups ! 0) = Inr 5" by (simp add: demo_groups_def groupSize_def ToInt64_def MaxInt64_def)
  have "readGroupData (WithReadAheadBytes 1 demo_proc) (demo_groups ! 0) = Inr [1, 2, 3, 4, 5]" by code_simp
  then show "\<forall>g\<in>set demo_groups. (\<exists>d. readGroupData (WithReadAheadBytes 1 demo_proc) g = Inr d) \<and> (\<exists>m. groupSize g = Inr m)"
    by (simp add: demo_groups_def groupSize_def ToInt64_def MaxInt64_def)
qed (simp_all add: demo_groups_def)

section \<open>Verified reads\<close>

text \<open>C2. Content returned by \<^verbatim>\<open>Reader.ReadAll\<close> is verified, for every source, decoder and entry:
  it has the recorded hash and size, and the size respects the configured limit.\<close>

theorem ReadAll_verified:
  assumes "ReadAll sha256 Z r e = Inr content" "src_size (r_source r) < 2 ^ 63"
  shows "sha256 content = Hash e \<and> int (length content) = uint (OriginalSize e) \<and>
    (r_maxFileSize r = 0 \<or> int (length content) \<le> uint (r_maxFileSize r))"
  using ReadAll_verified_aux [OF assms] by blast

theorem ReadAll_verified_witness:
  "demo_hash [3, 4, 5] = Hash demo_z \<and> ReadAll demo_hash demo_zstd demo_reader demo_z = Inr [3, 4, 5]"
proof -
  have r: "ReadAll demo_hash demo_zstd demo_reader demo_z = Inr [3, 4, 5]" by code_simp
  have "src_size (r_source demo_reader) < 2 ^ 63" by (simp add: demo_source_def)
  from ReadAll_verified [OF r this] r show ?thesis by simp
qed

text \<open>On a healthy source \<^verbatim>\<open>ReadAll\<close> of a validated uncompressed entry returns the entry's bytes of
  the data blob, or \<^verbatim>\<open>ErrHashMismatch\<close> when they do not have the recorded hash: no other outcome.\<close>

theorem ReadAll_uncompressed:
  assumes "source_ok (r_source r)" "ValidateAll e (src_size (r_source r)) (r_maxFileSize r) = None"
    and "Compression e = CompressionNone"
  shows "ReadAll sha256 Z r e =
    (let d = take (unat (DataSize e)) (drop (unat (DataOffset e)) (ra_content (src_at (r_source r))))
     in if sha256 d = Hash e then Inr d else Inl ErrHashMismatch)"
proof -
  let ?c = "ra_content (src_at (r_source r))"
  have v: "ValidateForRead e (src_size (r_source r)) (r_maxFileSize r) = None" "DataSize e = OriginalSize e"
    using assms(2,3) by (simp_all add: ValidateAll_None)
  obtain s where s: "sectionReader r e = Inr s" "delivers s (entry_data ?c e)"
    using source_ok_section [OF assms(1) v(1)] by blast
  have len: "int (length (entry_data ?c e)) = uint (OriginalSize e)"
    using entry_data_length [OF assms(1) v(1)] v(2) by simp
  have "uint (OriginalSize e) \<le> MaxInt64" using validated_small [OF assms(1) v(1)] v(2) by simp
  from ReadAll_delivers [OF assms(2) s(1) entryReader_raw [OF assms(3)] s(2) len this] show ?thesis
    by (simp add: entry_data_def Let_def)
qed

theorem ReadAll_uncompressed_witness:
  "ReadAll demo_hash demo_zstd demo_reader demo_b = Inr [3, 4, 5]"
proof -
  have "ValidateAll demo_b (src_size (r_source demo_reader)) (r_maxFileSize demo_reader) = None"
    using demo_validate by (simp add: demo_source_def)
  moreover have "Compression demo_b = CompressionNone" by (simp add: demo_b_def demo_entry_def)
  ultimately show ?thesis
    using ReadAll_uncompressed [of demo_reader demo_b demo_hash demo_zstd] demo_source_ok
    by (simp add: demo_source_def demo_at_def demo_blob_def demo_b_def demo_entry_def demo_hash_def)
qed

text \<open>The same for a compressed entry, given that the decoder turns the stored bytes into content
  of the recorded size.\<close>

theorem ReadAll_zstd:
  assumes "source_ok (r_source r)" "ValidateAll e (src_size (r_source r)) (r_maxFileSize r) = None"
    and "Compression e = CompressionZstd" "r_pool r = Some q"
    and "zstd_decodes Z (decoder_opts q) (entry_data (ra_content (src_at (r_source r))) e) d"
    and "int (length d) = uint (OriginalSize e)" "uint (OriginalSize e) \<le> MaxInt64"
  shows "ReadAll sha256 Z r e = (if sha256 d = Hash e then Inr d else Inl ErrHashMismatch)"
proof -
  have v: "ValidateForRead e (src_size (r_source r)) (r_maxFileSize r) = None"
    using assms(2) by (simp add: ValidateAll_None)
  obtain s where s: "sectionReader r e = Inr s" using source_ok_section [OF assms(1) v] by blast
  obtain rd where "entryReader Z r e s = Inr rd" "delivers rd d"
    using entryReader_zstd [OF assms(1) v assms(3) s] assms(4,5) by auto
  from ReadAll_delivers [OF assms(2) s this assms(6,7)] show ?thesis .
qed

theorem ReadAll_zstd_witness:
  "ReadAll demo_hash demo_zstd demo_reader demo_z = Inr [3, 4, 5]"
proof -
  obtain q where q: "r_pool demo_reader = Some q" using demo_reader_simps(3) by blast
  have "ValidateAll demo_z (src_size (r_source demo_reader)) (r_maxFileSize demo_reader) = None"
    using demo_validate by (simp add: demo_source_def)
  moreover have "zstd_decodes demo_zstd (decoder_opts q) (entry_data (ra_content (src_at (r_source demo_reader))) demo_z) [3, 4, 5]"
    by (simp add: zstd_decodes_def demo_zstd_def entry_data_def demo_z_def demo_b_def demo_entry_def demo_source_def
        demo_at_def demo_blob_def)
  ultimately show ?thesis
    using ReadAll_zstd [of demo_reader demo_z q demo_zstd "[3, 4, 5]" demo_hash] demo_source_ok q
    by (simp add: demo_z_def demo_b_def demo_entry_def MaxInt64_def)
qed

text \<open>C14. Streaming: when a sequence of \<^verbatim>\<open>Read\<close> calls on an open file ends with \<^verbatim>\<open>io.EOF\<close>, the bytes
  handed out are the verified content, for every source, decoder, entry and buffer sizes.\<close>

theorem Read_EOF_verified:
  assumes "File_reads sha256 Z (OpenFile r e v) ns = (d, Some EOF, f')" "\<forall>n\<in>set ns. n < 2 ^ 63"
  shows "sha256 d = Hash e \<and> int (length d) = uint (OriginalSize e)"
  using File_reads_inv [OF OpenFile_inv assms(2,1)] by simp

theorem Read_EOF_verified_witness:
  "demo_hash [3, 4, 5] = Hash demo_b \<and>
   fst (File_reads demo_hash demo_zstd (OpenFile demo_reader demo_b True) [2, 2, 2]) = [3, 4, 5]"
proof -
  let ?r = "File_reads demo_hash demo_zstd (OpenFile demo_reader demo_b True) [2, 2, 2]"
  have r: "fst ?r = [3, 4, 5]" "fst (snd ?r) = Some EOF" by code_simp+
  then have "?r = ([3, 4, 5], Some EOF, snd (snd ?r))" by (simp add: prod_eq_iff)
  from Read_EOF_verified [OF this] r show ?thesis by simp
qed

text \<open>\<^verbatim>\<open>Close\<close> of a file opened with \<^verbatim>\<open>verifyOnClose\<close> returns no error only if what the caller has read
  is the beginning of content with the recorded hash and size, even when the caller stopped early.\<close>

theorem Close_verified:
  assumes "File_reads sha256 Z (OpenFile r e True) ns = (d, x, f)" "\<forall>n\<in>set ns. n < 2 ^ 63"
    and "File_Close sha256 Z f = (None, f')"
  shows "\<exists>rest. sha256 (d @ rest) = Hash e \<and> int (length (d @ rest)) = uint (OriginalSize e)"
proof -
  have "file_inv sha256 e f d" using File_reads_inv [OF OpenFile_inv assms(2,1)] by simp
  moreover have "f_verifyOnClose f" using File_reads_keeps [OF assms(1)] by (simp add: OpenFile_def)
  ultimately show ?thesis using assms(3) by (rule File_Close_verified)
qed

theorem Close_verified_witness:
  "\<exists>rest. demo_hash ([3, 4, 5] @ rest) = Hash demo_b"
proof -
  let ?r = "File_reads demo_hash demo_zstd (OpenFile demo_reader demo_b True) [2, 2, 2]"
  have r: "fst ?r = [3, 4, 5]" "fst (snd ?r) = Some EOF" "fst (File_Close demo_hash demo_zstd (snd (snd ?r))) = None"
    by code_simp+
  then have "?r = ([3, 4, 5], Some EOF, snd (snd ?r))"
    "File_Close demo_hash demo_zstd (snd (snd ?r)) = (None, snd (File_Close demo_hash demo_zstd (snd (snd ?r))))"
    by (simp_all add: prod_eq_iff)
  from Close_verified [OF this(1) _ this(2)] show ?thesis by auto
qed

text \<open>C33. \<^verbatim>\<open>ReadAt\<close> of an uncompressed file of a healthy source returns the requested slice of the entry's
  own bytes, never those of a neighbour, with \<^verbatim>\<open>io.EOF\<close> exactly when the request reaches beyond the end.\<close>

theorem ReadAt_slice:
  assumes "source_ok (r_source r)" "ValidateAll e (src_size (r_source r)) (r_maxFileSize r) = None"
    and "Compression e = CompressionNone" "0 < n" "0 \<le> off" "off < uint (OriginalSize e)"
  shows "fst (File_ReadAt Z (OpenFile r e v) n off) =
    (take n (drop (nat off) (entry_data (ra_content (src_at (r_source r))) e)),
     if uint (OriginalSize e) - off < int n then Some EOF else None)"
  using assms by (intro File_ReadAt_ok) (simp_all add: ValidateAll_None)

theorem ReadAt_slice_witness:
  "fst (File_ReadAt demo_zstd (OpenFile demo_reader demo_b False) 5 1) = ([4, 5], Some EOF)"
proof -
  have "ValidateAll demo_b (src_size (r_source demo_reader)) (r_maxFileSize demo_reader) = None"
    using demo_validate by (simp add: demo_source_def)
  then show ?thesis
    using ReadAt_slice [of demo_reader demo_b 5 1 demo_zstd False] demo_source_ok
    by (simp add: demo_source_def demo_at_def demo_blob_def demo_b_def demo_entry_def entry_data_def)
qed

text \<open>C25. The bounds check of an entry is exact: it accepts just the entries whose data range, added
  without wrap-around, lies within the source and whose sizes respect the limit.\<close>

theorem ValidateForRead_exact:
  assumes "n < 2 ^ 63"
  shows "ValidateForRead e n m = None \<longleftrightarrow>
    0 \<le> n \<and> (m = 0 \<or> DataSize e \<le> m \<and> OriginalSize e \<le> m) \<and>
    uint (DataOffset e) + uint (DataSize e) \<le> n"
  by (rule ValidateForRead_None [OF assms])

theorem ValidateForRead_exact_witness:
  "ValidateForRead (demo_a\<lparr>DataOffset := 0xFFFFFFFFFFFFFFFF\<rparr>) 6 0 \<noteq> None"
  using ValidateForRead_exact [of 6 "demo_a\<lparr>DataOffset := 0xFFFFFFFFFFFFFFFF\<rparr>" 0]
  by (simp add: demo_a_def demo_entry_def)

section \<open>Index and paths\<close>

text \<open>C23. On an index sorted by path, a lookup decides membership: it returns an entry with the path
  when there is one, and nothing when there is none.\<close>

theorem LookupView_correct:
  assumes "index_sorted idx"
  shows "case LookupView idx p of
      Some e \<Rightarrow> e \<in> set (EntriesView idx) \<and> fb_path e = p
    | None \<Rightarrow> p \<notin> fb_path ` set (EntriesView idx)"
  using idx.lookup_sound [of idx p] idx.lookup_None_iff [OF assms, of p] by (simp split: option.split)

theorem LookupView_correct_witness:
  "\<exists>e. LookupView demo_idx ''a/b'' = Some e \<and> fb_path e = ''a/b''"
proof -
  have "index_sorted demo_idx" by code_simp
  from LookupView_correct [OF this, of "''a/b''"] show ?thesis
    by (auto simp: demo_idx_def EntriesView_def demo_entry_def split: option.splits)
qed

text \<open>C24. On a sorted index the prefix scan yields exactly the entries with the prefix, in order:
  the binary search misses none and the scan stops at the right place.\<close>

theorem EntriesWithPrefixView_correct:
  assumes "index_sorted idx"
  shows "EntriesWithPrefixView idx pre = filter (\<lambda>e. prefix pre (fb_path e)) (EntriesView idx)"
  using assms by (rule idx.prefix_complete)

theorem EntriesWithPrefixView_correct_witness:
  "map fb_path (EntriesWithPrefixView demo_idx ''a/'') = [''a/b'']"
proof -
  have "index_sorted demo_idx" by code_simp
  from EntriesWithPrefixView_correct [OF this, of "''a/''"] show ?thesis
    by (simp add: demo_idx_def EntriesView_def demo_entry_def fb_of_Entry_def)
qed

text \<open>An entry survives the index: what the creator stores is read back unchanged, for a known
  compression and a time that fits 64-bit nanoseconds.\<close>

theorem Entry_index_roundtrip:
  assumes "Compression e \<in> {CompressionNone, CompressionZstd}" "- (2 ^ 63) \<le> ModTime e" "ModTime e < 2 ^ 63"
  shows "EntryFromViewWithPath (fb_of_Entry e) (Path e) = e"
  using Entry_roundtrip [of e] EntryFromViewWithPath_own [of "fb_of_Entry e"] assms by (simp add: storable_def)

theorem Entry_index_roundtrip_witness:
  "EntryFromViewWithPath (fb_of_Entry demo_z) ''b'' = demo_z"
  using Entry_index_roundtrip [of demo_z] by (simp add: demo_z_def demo_b_def demo_entry_def)

text \<open>Normalisation is idempotent, keeps valid paths, and never resolves \<^verbatim>\<open>.\<close> or \<^verbatim>\<open>..\<close>: the result is
  valid exactly when it is the root or no element of the input is one of them.\<close>

theorem NormalizePath_correct:
  "NormalizePath (NormalizePath p) = NormalizePath p \<and>
   (valid_path (NormalizePath p) \<longleftrightarrow>
     utf8_valid (NormalizePath p) \<and>
     (NormalizePath p = ''.'' \<or> {''.'', ''..''} \<inter> set (split_on slash p) = {}))"
  unfolding valid_NormalizePath by (auto simp: NormalizePath_idem)

text \<open>C35. A writer of the file sink is only given for a path without \<^verbatim>\<open>.\<close> and \<^verbatim>\<open>..\<close> elements, and its
  destination is that path below the destination directory.\<close>

theorem FileSink_confined:
  assumes "FileSink_Writer fsk e s = (Inr w, s')" "destDir fsk \<notin> {[], ''.'', ''/''}" "Path e \<noteq> ''.''"
  shows "c_dest w = destDir fsk @ ''/'' @ Path e \<and> {[], ''.'', ''..''} \<inter> set (split_on slash (Path e)) = {}"
  using FileSink_Writer_valid [OF assms(1)] assms(2,3)
  by (auto simp: join_path_def valid_path_iff list_all_iff ok_elem_def)

theorem FileSink_confined_witness:
  "\<exists>w. fst (FileSink_Writer demo_sink demo_a demo_fs) = Inr w \<and> c_dest w = ''out/a''"
proof -
  obtain w where w: "fst (FileSink_Writer demo_sink demo_a demo_fs) = Inr w"
  proof -
    have "(case fst (FileSink_Writer demo_sink demo_a demo_fs) of Inr w \<Rightarrow> True | Inl e \<Rightarrow> False)" by code_simp
    then show ?thesis using that by (auto split: sum.splits)
  qed
  then have "FileSink_Writer demo_sink demo_a demo_fs = (Inr w, snd (FileSink_Writer demo_sink demo_a demo_fs))"
    by (simp add: prod_eq_iff)
  from FileSink_confined [OF this] w show ?thesis
    by (auto simp: demo_sink_def NewFileSink_def WithOverwrite_def demo_a_def demo_entry_def)
qed

text \<open>Grouping partitions the entries in order into contiguous runs.\<close>

theorem groupAdjacentEntries_partition:
  assumes "groupAdjacentEntries es = Some gs"
  shows "concat (map g_entries gs) = es \<and> (\<forall>g\<in>set gs. g_entries g \<noteq> [] \<and> contiguous (g_start g) (g_entries g) (g_end g))"
  using groupAdjacentEntries_entries [OF assms] groupAdjacentEntries_ok [OF assms] by (auto simp: group_ok_def)

theorem groupAdjacentEntries_partition_witness:
  "concat (map g_entries demo_groups) = [demo_a, demo_b]"
  using groupAdjacentEntries_partition [of "[demo_a, demo_b]" demo_groups]
  by (simp add: groupAdjacentEntries_def demo_groups_def demo_a_def demo_b_def demo_entry_def)

text \<open>C37. A copy that returns without an error has written the whole source, and its count is exact;
  with a nonempty buffer it always returns.\<close>

theorem CopyWithContext_complete:
  assumes "rd_ok src" "0 < buf" "buf < 2 ^ 64"
  shows "\<exists>n e dst'. CopyWithContext ctx 0 dst src buf 0 = Some (n, e, dst') \<and>
    (e = None \<longrightarrow> w_out dst' = w_out dst @ rd_data src \<and> uint n = int (length (rd_data src)))"
  using CopyWithContext_returns [OF assms(2), of ctx 0 dst src 0] CopyWithContext_exact [OF assms, of ctx 0 dst 0]
  by fastforce

theorem CopyWithContext_complete_witness:
  "\<exists>n e dst'. CopyWithContext (\<lambda>_. None) 0 \<lparr>w_out = [], w_cap = None, w_err = None\<rparr> (Chunks [[1], [2, 3]] EOF True) 2 0 =
     Some (n, e, dst') \<and> (e = None \<longrightarrow> w_out dst' = [1, 2, 3])"
  using CopyWithContext_complete [of "Chunks [[1], [2, 3]] EOF True" 2 "\<lambda>_. None" "\<lparr>w_out = [], w_cap = None, w_err = None\<rparr>"]
  by auto

end
